(* ===== verification/Joza_Prelude.thy ===== *)
theory Joza_Prelude
  imports Main "HOL-Library.Word" "HOL-Library.Multiset" "HOL-Library.Signed_Division"
begin

unbundle bit_operations_syntax

text \<open>
  Shared vocabulary of the development: the machine types of the C sources, the ways a C
  function can fail to return (\<open>fault\<close>), the result type of functions that may fail, C
  strings as NUL-free byte lists, and the generic lemmas on results, association lists, lists
  and words that the component theories rely on.
\<close>

section \<open>Machine types\<close>

type_synonym byte = "8 word"
type_synonym u16 = "16 word"
type_synonym u32 = "32 word"
type_synonym u64 = "64 word"
type_synonym bytes = "byte list"

text \<open>
  A C string is modelled by the bytes before its terminating NUL. A buffer that holds a C
  string is the byte list with the NUL and whatever follows it.
\<close>

type_synonym cstr = "byte list"

definition lit :: "string \<Rightarrow> cstr" where
  "lit s = map of_char s"

section \<open>Functions that may not return\<close>

text \<open>
  \<open>Assert_failed\<close>: a failed \<^verbatim>\<open>assert\<close>; \<open>Aborted\<close>: a call of \<^verbatim>\<open>abort\<close> or of
  \<^verbatim>\<open>g_assert_not_reached\<close>; \<open>Undefined\<close>: the C program has undefined behaviour (a read or
  write outside an object, a conversion specification without its argument, an access to
  an object through a pointer to another structure type, a use of freed memory);
  \<open>Diverged\<close>: the function loops forever.
\<close>

datatype fault = Assert_failed | Aborted | Undefined | Diverged

type_synonym 'a res = "fault + 'a"

definition bind_res :: "'a res \<Rightarrow> ('a \<Rightarrow> 'b res) \<Rightarrow> 'b res" where
  "bind_res m f = (case m of Inl e \<Rightarrow> Inl e | Inr x \<Rightarrow> f x)"

definition c_assert :: "bool \<Rightarrow> unit res" where
  "c_assert b = (if b then Inr () else Inl Assert_failed)"

text \<open>Reading \<open>mem[i]\<close>: outside the object the behaviour is undefined.\<close>

definition mem_read :: "bytes \<Rightarrow> nat \<Rightarrow> byte res" where
  "mem_read mem i = (if i < length mem then Inr (mem ! i) else Inl Undefined)"

text \<open>\<^verbatim>\<open>strnlen\<close> of the C library on a buffer, and the C string a buffer holds.\<close>

definition strnlen :: "bytes \<Rightarrow> nat \<Rightarrow> nat" where
  "strnlen mem n = length (takeWhile (\<lambda>c. c \<noteq> 0) (take n mem))"

definition cstr_of :: "bytes \<Rightarrow> cstr" where
  "cstr_of mem = takeWhile (\<lambda>c. c \<noteq> 0) mem"

definition is_cstr :: "bytes \<Rightarrow> bool" where
  "is_cstr s \<longleftrightarrow> 0 \<notin> set s"

text \<open>Three-way comparison of C strings by unsigned bytes, as \<^verbatim>\<open>strcmp\<close>.\<close>

fun strcmp :: "cstr \<Rightarrow> cstr \<Rightarrow> int" where
  "strcmp [] [] = 0"
| "strcmp [] (y # ys) = -1"
| "strcmp (x # xs) [] = 1"
| "strcmp (x # xs) (y # ys) = (if x = y then strcmp xs ys else if x < y then -1 else 1)"

section \<open>Collections of facts\<close>

named_theorems res_simps \<open>rewriting of results\<close>
named_theorems byte_simps \<open>bytes and words of the wire format\<close>

section \<open>Results\<close>

lemma bind_res_simps [simp, res_simps]:
  "bind_res (Inl e) f = Inl e"
  "bind_res (Inr x) f = f x"
  by (simp_all add: bind_res_def)

lemma bind_res_Inr [res_simps]:
  "bind_res m f = Inr y \<longleftrightarrow> (\<exists>x. m = Inr x \<and> f x = Inr y)"
  by (cases m) auto

lemma bind_res_Inl [res_simps]:
  "bind_res m f = Inl e \<longleftrightarrow> m = Inl e \<or> (\<exists>x. m = Inr x \<and> f x = Inl e)"
  by (cases m) auto

lemma bind_res_assoc: "bind_res (bind_res m f) g = bind_res m (\<lambda>x. bind_res (f x) g)"
  by (cases m) auto

lemma bind_res_split:
  "P (bind_res m f) \<longleftrightarrow> (\<forall>e. m = Inl e \<longrightarrow> P (Inl e)) \<and> (\<forall>x. m = Inr x \<longrightarrow> P (f x))"
  by (cases m) auto

lemma c_assert_simps [simp, res_simps]:
  "c_assert True = Inr ()"
  "c_assert False = Inl Assert_failed"
  "c_assert b = Inr u \<longleftrightarrow> b"
  "c_assert b = Inl e \<longleftrightarrow> \<not> b \<and> e = Assert_failed"
  by (auto simp: c_assert_def)

lemma mem_read_Inr [res_simps]:
  "mem_read mem i = Inr c \<longleftrightarrow> i < length mem \<and> c = mem ! i"
  by (auto simp: mem_read_def)

section \<open>C strings\<close>

lemma takeWhile_cstr [simp]: "is_cstr s \<Longrightarrow> takeWhile (\<lambda>c. c \<noteq> 0) s = s"
  by (induction s) (auto simp: is_cstr_def)

lemma is_cstr_Nil [simp]: "is_cstr []"
  by (simp add: is_cstr_def)

lemma is_cstr_Cons [simp]: "is_cstr (c # s) \<longleftrightarrow> c \<noteq> 0 \<and> is_cstr s"
  by (auto simp: is_cstr_def)

lemma is_cstr_append [simp]: "is_cstr (s @ t) \<longleftrightarrow> is_cstr s \<and> is_cstr t"
  by (auto simp: is_cstr_def)

lemma is_cstr_take [simp]: "is_cstr s \<Longrightarrow> is_cstr (take n s)"
  by (auto simp: is_cstr_def dest: in_set_takeD)

lemma is_cstr_cstr_of [simp]: "is_cstr (cstr_of mem)"
  by (auto simp: is_cstr_def cstr_of_def dest: set_takeWhileD)

lemma cstr_of_id [simp]: "is_cstr s \<Longrightarrow> cstr_of s = s"
  by (simp add: cstr_of_def)

lemma cstr_of_terminated: "is_cstr s \<Longrightarrow> cstr_of (s @ 0 # r) = s"
  by (induction s) (auto simp: cstr_of_def)

lemma length_cstr_of: "length (cstr_of mem) \<le> length mem"
  by (simp add: cstr_of_def length_takeWhile_le)

lemma strnlen_cstr: "is_cstr s \<Longrightarrow> strnlen s n = min (length s) n"
  by (simp add: strnlen_def)

lemma takeWhile_nonzero_buffer:
  "is_cstr s \<Longrightarrow> takeWhile (\<lambda>c. c \<noteq> 0) (take n (s @ 0 # r)) = take n s"
proof (induction s arbitrary: n)
  case Nil
  then show ?case by (cases n) auto
next
  case (Cons c s)
  then show ?case by (cases n) auto
qed

lemma strnlen_buffer: "is_cstr s \<Longrightarrow> strnlen (s @ 0 # r) n = min (length s) n"
  by (simp only: strnlen_def takeWhile_nonzero_buffer length_take min.commute)

lemma strcmp_eq_0 [simp]: "strcmp s t = 0 \<longleftrightarrow> s = t"
  by (induction s t rule: strcmp.induct) auto

lemma strcmp_antisym: "strcmp t s = - strcmp s t"
  by (induction s t rule: strcmp.induct) auto

lemma strcmp_le_trans: "strcmp s t \<le> 0 \<Longrightarrow> strcmp t u \<le> 0 \<Longrightarrow> strcmp s u \<le> 0"
proof (induction s t arbitrary: u rule: strcmp.induct)
  case (2 y ys)
  then show ?case by (cases u) auto
next
  case (4 x xs y ys)
  then show ?case
    by (cases u) (auto split: if_splits)
qed auto

lemma strcmp_linear: "strcmp s t \<le> 0 \<or> strcmp t s \<le> 0"
  by (metis linear neg_le_0_iff_le strcmp_antisym)

section \<open>Lists and association lists\<close>

lemma map_of_filter_key:
  "map_of (filter (\<lambda>p. fst p \<noteq> k) t) = (map_of t)(k := None)"
proof (induction t)
  case Nil
  then show ?case by simp
next
  case (Cons p t)
  then show ?case by (cases p) (auto simp: fun_eq_iff)
qed

lemma distinct_map_filter_fst:
  "distinct (map fst t) \<Longrightarrow> distinct (map fst (filter P t))"
  by (induction t) auto

lemma find_SomeD: "List.find P xs = Some x \<Longrightarrow> x \<in> set xs \<and> P x"
  by (induction xs) (auto split: if_splits)

lemma find_unique:
  assumes "x \<in> set xs" "P x" "\<And>y. y \<in> set xs \<Longrightarrow> P y \<Longrightarrow> y = x"
  shows "List.find P xs = Some x"
proof (cases "List.find P xs")
  case None
  then show ?thesis using assms(1,2) by (auto simp: find_None_iff)
next
  case (Some z)
  then have "z = x" using assms(3) by (blast dest: find_SomeD)
  then show ?thesis using Some by simp
qed

text \<open>
  Order does not matter for a search with at most one hit: the order in which a hash table
  is iterated is unspecified, so this is what makes such searches well defined.
\<close>

lemma find_perm_unique:
  assumes "mset xs = mset ys"
    and "\<And>a b. a \<in> set xs \<Longrightarrow> b \<in> set xs \<Longrightarrow> P a \<Longrightarrow> P b \<Longrightarrow> a = b"
  shows "List.find P xs = List.find P ys"
proof (cases "List.find P xs")
  case None
  then have "\<forall>x \<in> set ys. \<not> P x"
    using assms(1) by (metis find_None_iff set_mset_mset)
  then show ?thesis using None by (metis find_None_iff)
next
  case (Some x)
  then have x: "x \<in> set xs" "P x" by (auto dest: find_SomeD)
  have "set ys = set xs" using assms(1) by (metis set_mset_mset)
  then have "List.find P ys = Some x"
    by (intro find_unique) (use x assms(2) in auto)
  then show ?thesis using Some by simp
qed

section \<open>Bytes and words\<close>

lemma unat_lt_256 [byte_simps]: "unat (b :: byte) < 256"
  using unsigned_less [of b] by simp

lemma unat_lt_65536 [byte_simps]: "unat (h :: u16) < 65536"
  using unsigned_less [of h] by simp

lemma unat_of_nat_byte [byte_simps]: "n < 256 \<Longrightarrow> unat (of_nat n :: byte) = n"
  by (simp add: unat_of_nat take_bit_eq_mod)

lemma unat_of_nat_u16 [byte_simps]: "n < 65536 \<Longrightarrow> unat (of_nat n :: u16) = n"
  by (simp add: unat_of_nat take_bit_eq_mod)

end
