(* ===== verification/Joza_Facilities.thy ===== *)
theory Joza_Facilities
  imports Joza_Prelude
begin

text \<open>
  The limits of \<^verbatim>\<open>src/mylimits.h\<close> and the three facilities that two workers negotiate when a
  channel is set up: packet size (\<^verbatim>\<open>src/packet.c\<close>), window and sequence numbers (\<^verbatim>\<open>src/seq.c\<close>)
  and throughput (\<^verbatim>\<open>src/tput.c\<close>).

  Packet sizes and throughputs travel as bytes and are cast to their C enums before they are
  range-checked, so the enum types are modelled by numbers with named enumerators: a value
  outside the enumerators is a value of the type, and the range checks mean something.

  The locale \<open>negotiation\<close> states what the three \<^verbatim>\<open>*_negotiate\<close> functions promise to the
  channel; it is interpreted for each of them.
\<close>

section \<open>Limits\<close>

type_synonym seq_t = u16
type_synonym lcn_t = u16
type_synonym wkey_t = u32
type_synonym packet_t = nat
type_synonym tput_t = nat

definition WORKER_COUNT :: nat where "WORKER_COUNT = 1000"
definition CHAN_COUNT :: nat where "CHAN_COUNT = 200"
definition NAME_LEN :: nat where "NAME_LEN = 16"
definition Q_MAX :: byte where "Q_MAX = 255"
definition SEQ_MIN :: seq_t where "SEQ_MIN = 0"
definition SEQ_MAX :: seq_t where "SEQ_MAX = 8"
definition WINDOW_MIN :: seq_t where "WINDOW_MIN = 1"
definition WINDOW_MAX :: seq_t where "WINDOW_MAX = SEQ_MAX - 1"
definition WINDOW_NEGOTIATE :: seq_t where "WINDOW_NEGOTIATE = 2"
definition LCN_MIN :: lcn_t where "LCN_MIN = 1"
definition LCN_MAX :: lcn_t where "LCN_MAX = 65535"

lemmas limit_defs = WORKER_COUNT_def CHAN_COUNT_def NAME_LEN_def Q_MAX_def SEQ_MIN_def SEQ_MAX_def
  WINDOW_MIN_def WINDOW_MAX_def WINDOW_NEGOTIATE_def LCN_MIN_def LCN_MAX_def

section \<open>Packet sizes\<close>

definition p_16_bytes :: packet_t where "p_16_bytes = 4"
definition p_128_bytes :: packet_t where "p_128_bytes = 7"
definition p_4_Kbytes :: packet_t where "p_4_Kbytes = 12"
definition p_default :: packet_t where "p_default = p_128_bytes"
definition p_negotiate :: packet_t where "p_negotiate = p_128_bytes"
definition p_last :: packet_t where "p_last = p_4_Kbytes"

lemmas packet_enum = p_16_bytes_def p_128_bytes_def p_4_Kbytes_def p_default_def p_negotiate_def
  p_last_def

definition packet_rate :: "nat list" where
  "packet_rate = [1, 2, 4, 8, 16, 32, 64, 128, 256, 512, 1024, 2048, 4096]"

definition packet_names :: "string list" where
  "packet_names = [''reserved'', ''reserved'', ''reserved'', ''reserved'', ''16 B'', ''32 B'',
     ''64 B'', ''128 B'', ''256 B'', ''512 B'', ''1 KiB'', ''2 KiB'', ''4 KiB'']"

definition packet_rngchk :: "packet_t \<Rightarrow> int" where
  "packet_rngchk p = (if p < p_16_bytes then -1 else if p > p_4_Kbytes then 1 else 0)"

definition packet_bytes :: "packet_t \<Rightarrow> nat res" where
  "packet_bytes x = bind_res (c_assert (packet_rngchk x = 0)) (\<lambda>_. Inr (packet_rate ! x))"

definition packet_name :: "packet_t \<Rightarrow> string res" where
  "packet_name x = bind_res (c_assert (packet_rngchk x = 0)) (\<lambda>_. Inr (packet_names ! x))"

definition packet_negotiate :: "packet_t \<Rightarrow> packet_t \<Rightarrow> bool res" where
  "packet_negotiate request current =
     bind_res (c_assert (packet_rngchk request = 0)) (\<lambda>_.
     bind_res (c_assert (packet_rngchk current = 0)) (\<lambda>_.
     Inr (if request > p_negotiate then (if request \<le> current then True else False)
          else if request < p_negotiate then (if request \<ge> current then True else False)
          else True)))"

definition packet_throttle :: "packet_t \<Rightarrow> packet_t \<Rightarrow> packet_t res" where
  "packet_throttle request limit =
     bind_res (c_assert (packet_rngchk request = 0)) (\<lambda>_.
     bind_res (c_assert (packet_rngchk limit = 0)) (\<lambda>_.
     Inr (if request < limit then request else limit)))"

section \<open>Sequence numbers and windows\<close>

text \<open>
  \<^verbatim>\<open>SEQ_MIN\<close> is 0, so the first test of \<^verbatim>\<open>seq_rngchk\<close> is removed by the preprocessor.
\<close>

definition seq_rngchk :: "seq_t \<Rightarrow> int" where
  "seq_rngchk x = (if x > SEQ_MAX then 1 else 0)"

definition seq_in_range :: "seq_t \<Rightarrow> seq_t \<Rightarrow> seq_t \<Rightarrow> bool" where
  "seq_in_range x lo hi =
     (if hi < lo \<and> (x \<le> hi \<or> x \<ge> lo) then True
      else if hi > lo \<and> (x \<ge> lo \<and> x \<le> hi) then True
      else if hi = lo \<and> lo = x then True
      else False)"

definition window_rngchk :: "seq_t \<Rightarrow> int" where
  "window_rngchk x = (if x < WINDOW_MIN then -1 else if x > WINDOW_MAX then 1 else 0)"

definition window_negotiate :: "seq_t \<Rightarrow> seq_t \<Rightarrow> bool res" where
  "window_negotiate request current =
     bind_res (c_assert (seq_rngchk request = 0)) (\<lambda>_.
     bind_res (c_assert (seq_rngchk current = 0)) (\<lambda>_.
     Inr (if request > WINDOW_NEGOTIATE then (if request \<le> current then True else False)
          else if request < WINDOW_NEGOTIATE then (if request \<ge> current then True else False)
          else True)))"

section \<open>Throughput\<close>

definition t_75bps :: tput_t where "t_75bps = 3"
definition t_9600bps :: tput_t where "t_9600bps = 10"
definition t_64kbps :: tput_t where "t_64kbps = 13"
definition t_2048kbps :: tput_t where "t_2048kbps = 44"
definition t_negotiate :: tput_t where "t_negotiate = t_9600bps"
definition t_default :: tput_t where "t_default = t_64kbps"
definition t_last :: tput_t where "t_last = t_2048kbps"
definition TPUT_MAX :: tput_t where "TPUT_MAX = t_last"

lemmas tput_enum = t_75bps_def t_9600bps_def t_64kbps_def t_2048kbps_def t_negotiate_def
  t_default_def t_last_def TPUT_MAX_def

definition tput_rate :: "nat list" where
  "tput_rate = [0, 0, 0, 75, 150, 300, 600, 1200, 2400, 4800, 9600, 19200, 48000, 64000, 128000,
     192000, 256000, 320000, 384000, 448000, 512000, 578000, 640000, 704000, 768000, 832000,
     896000, 960000, 1024000, 1088000, 1152000, 1216000, 1280000, 1344000, 1408000, 1472000,
     1536000, 1600000, 1664000, 1728000, 1792000, 1856000, 1920000, 1984000, 2048000]"

definition tput_names :: "string list" where
  "tput_names = [''reserved'', ''reserved'', ''reserved'', ''75 bps'', ''150 bps'', ''300 bps'',
     ''600 bps'', ''1.2 kbps'', ''2.4 kbps'', ''4.8 kbps'', ''9.6 kbps'', ''19.2 kbps'',
     ''48 kbps'', ''64 kbps'', ''128 kbps'', ''192 kbps'', ''256 kbps'', ''320 kbps'',
     ''384 kbps'', ''448 kbps'', ''512 kbps'', ''578 kbps'', ''640 kbps'', ''704 kbps'',
     ''768 kbps'', ''832 kbps'', ''896 kbps'', ''960 kbps'', ''1.024 Mbps'', ''1.088 Mbps'',
     ''1.152 Mbps'', ''1.216 Mbps'', ''1.28 Mbps'', ''1.344 Mbps'', ''1.408 Mbps'',
     ''1.472 Mbps'', ''1.536 Mbps'', ''1.6 Mbps'', ''1.664 Mbps'', ''1.728 Mbps'',
     ''1.792 Mbps'', ''1.856 Mbps'', ''1.920 Mbps'', ''1.984 Mbps'', ''2.048 Mbps'']"

definition tput_rngchk :: "tput_t \<Rightarrow> int" where
  "tput_rngchk x =
     (if x < t_75bps then -1 else if x > t_2048kbps \<or> x > TPUT_MAX then 1 else 0)"

definition tput_bps :: "tput_t \<Rightarrow> nat res" where
  "tput_bps x = bind_res (c_assert (tput_rngchk x = 0)) (\<lambda>_. Inr (tput_rate ! x))"

definition tput_name :: "tput_t \<Rightarrow> string res" where
  "tput_name x = bind_res (c_assert (tput_rngchk x = 0)) (\<lambda>_. Inr (tput_names ! x))"

definition tput_negotiate :: "tput_t \<Rightarrow> tput_t \<Rightarrow> bool res" where
  "tput_negotiate request current =
     bind_res (c_assert (tput_rngchk request = 0)) (\<lambda>_.
     bind_res (c_assert (tput_rngchk current = 0)) (\<lambda>_.
     Inr (if request > t_negotiate then (if request \<le> current then True else False)
          else if request < t_negotiate then (if request \<ge> current then True else False)
          else True)))"

definition tput_throttle :: "tput_t \<Rightarrow> tput_t \<Rightarrow> tput_t res" where
  "tput_throttle request limit =
     bind_res (c_assert (tput_rngchk request = 0)) (\<lambda>_.
     bind_res (c_assert (tput_rngchk limit = 0)) (\<lambda>_.
     Inr (if request < limit then request else limit)))"

section \<open>Ranges\<close>

lemma packet_rngchk_0: "packet_rngchk p = 0 \<longleftrightarrow> 4 \<le> p \<and> p \<le> 12"
  by (auto simp: packet_rngchk_def packet_enum)

lemma tput_rngchk_0: "tput_rngchk x = 0 \<longleftrightarrow> 3 \<le> x \<and> x \<le> 44"
  by (auto simp: tput_rngchk_def tput_enum)

lemma seq_rngchk_0: "seq_rngchk x = 0 \<longleftrightarrow> x \<le> 8"
  by (auto simp: seq_rngchk_def SEQ_MAX_def)

lemma window_rngchk_0: "window_rngchk x = 0 \<longleftrightarrow> 1 \<le> x \<and> x \<le> 7"
  unfolding window_rngchk_def WINDOW_MIN_def WINDOW_MAX_def SEQ_MAX_def
  by (simp add: not_less [symmetric])

lemma seq_le_iff: "(x :: seq_t) \<le> 8 \<longleftrightarrow> unat x \<le> 8"
  by (simp add: word_le_nat_alt)

section \<open>Facility negotiation\<close>

text \<open>
  The contract the channel relies on when a callee answers a call with other facilities: the
  request must lie between the pivot (the protocol's default) and the value on the table.
\<close>

locale negotiation =
  fixes negotiate :: "'a :: linorder \<Rightarrow> 'a \<Rightarrow> bool res"
    and in_range :: "'a \<Rightarrow> bool"
    and pivot :: 'a
  assumes negotiate_eq: "in_range r \<Longrightarrow> in_range c \<Longrightarrow>
      negotiate r c = Inr (if pivot < r then r \<le> c else if r < pivot then c \<le> r else True)"
    and negotiate_fault: "\<not> (in_range r \<and> in_range c) \<Longrightarrow> negotiate r c = Inl Assert_failed"
    and pivot_in_range: "in_range pivot"
    and in_range_convex: "in_range a \<Longrightarrow> in_range b \<Longrightarrow> a \<le> x \<Longrightarrow> x \<le> b \<Longrightarrow> in_range x"
begin

lemma accepted_iff:
  "negotiate r c = Inr True \<longleftrightarrow>
     in_range r \<and> in_range c \<and> min pivot c \<le> r \<and> r \<le> max pivot c"
proof (cases "in_range r \<and> in_range c")
  case True
  then show ?thesis by (auto simp: negotiate_eq min_def max_def)
next
  case False
  then show ?thesis by (auto simp: negotiate_fault)
qed

lemma total_in_range: "in_range r \<Longrightarrow> in_range c \<Longrightarrow> \<exists>b. negotiate r c = Inr b"
  by (auto simp: negotiate_eq)

lemma accepted_refl: "in_range c \<Longrightarrow> negotiate c c = Inr True"
  by (auto simp: accepted_iff)

lemma accepted_pivot: "in_range c \<Longrightarrow> negotiate pivot c = Inr True"
  by (auto simp: accepted_iff pivot_in_range)

lemma accepted_trans:
  "negotiate s r = Inr True \<Longrightarrow> negotiate r c = Inr True \<Longrightarrow> negotiate s c = Inr True"
  by (auto simp: accepted_iff min_def max_def split: if_splits)

lemma accepted_antisym:
  "negotiate r c = Inr True \<Longrightarrow> negotiate c r = Inr True \<Longrightarrow> r = c"
  by (auto simp: accepted_iff min_def max_def split: if_splits)

lemma accepted_keeps_bounds:
  "negotiate r c = Inr True \<Longrightarrow> lo \<le> c \<Longrightarrow> c \<le> hi \<Longrightarrow> lo \<le> pivot \<Longrightarrow> pivot \<le> hi \<Longrightarrow>
     lo \<le> r \<and> r \<le> hi"
  by (auto simp: accepted_iff min_def max_def split: if_splits)

end

interpretation packet_facility: negotiation packet_negotiate "\<lambda>p. packet_rngchk p = 0" p_negotiate
proof (unfold_locales, goal_cases)
  case (1 r c)
  then show ?case by (simp add: packet_negotiate_def)
next
  case (2 r c)
  then show ?case by (simp add: packet_negotiate_def c_assert_def)
next
  case 3
  show ?case by (simp add: packet_rngchk_0 packet_enum)
next
  case (4 a b x)
  then show ?case by (simp add: packet_rngchk_0)
qed

interpretation window_facility: negotiation window_negotiate "\<lambda>w. seq_rngchk w = 0" WINDOW_NEGOTIATE
proof (unfold_locales, goal_cases)
  case (1 r c)
  then show ?case by (simp add: window_negotiate_def)
next
  case (2 r c)
  then show ?case by (simp add: window_negotiate_def c_assert_def)
next
  case 3
  show ?case by (simp add: seq_rngchk_0 WINDOW_NEGOTIATE_def)
next
  case (4 a b x)
  then show ?case by (simp add: seq_rngchk_0)
qed

interpretation tput_facility: negotiation tput_negotiate "\<lambda>t. tput_rngchk t = 0" t_negotiate
proof (unfold_locales, goal_cases)
  case (1 r c)
  then show ?case by (simp add: tput_negotiate_def)
next
  case (2 r c)
  then show ?case by (simp add: tput_negotiate_def c_assert_def)
next
  case 3
  show ?case by (simp add: tput_rngchk_0 tput_enum)
next
  case (4 a b x)
  then show ?case by (simp add: tput_rngchk_0)
qed

section \<open>Tables\<close>

lemma packet_bytes_eq: "packet_rngchk p = 0 \<Longrightarrow> packet_bytes p = Inr (2 ^ p)"
proof -
  assume ok: "packet_rngchk p = 0"
  then have "p \<in> {4, 5, 6, 7, 8, 9, 10, 11, 12}"
    by (auto simp: packet_rngchk_0)
  then have "packet_rate ! p = 2 ^ p"
    by (auto simp: packet_rate_def)
  then show ?thesis using ok by (simp add: packet_bytes_def)
qed

lemma packet_bytes_fault: "packet_rngchk p \<noteq> 0 \<Longrightarrow> packet_bytes p = Inl Assert_failed"
  by (simp add: packet_bytes_def)

lemma packet_bytes_p_last [simp]: "packet_bytes p_last = Inr 4096"
  by (simp add: packet_bytes_eq packet_rngchk_0 packet_enum)

lemma packet_bytes_p_default [simp]: "packet_bytes p_default = Inr 128"
  by (simp add: packet_bytes_eq packet_rngchk_0 packet_enum)

lemma tput_rate_sorted: "sorted tput_rate"
  by (simp add: tput_rate_def)

lemma length_tput_rate [simp]: "length tput_rate = 45"
  by (simp add: tput_rate_def)

lemma tput_bps_mono:
  "tput_rngchk a = 0 \<Longrightarrow> tput_rngchk b = 0 \<Longrightarrow> a \<le> b \<Longrightarrow> tput_rate ! a \<le> tput_rate ! b"
  by (rule sorted_nth_mono [OF tput_rate_sorted]) (auto simp: tput_rngchk_0)

section \<open>Properties\<close>

text \<open>
  C24. Facility negotiation, for packet size, window and throughput alike: a request is accepted
  exactly when both values are in range and the request lies between the protocol's default
  and the value on the table, so that every accepted request is at least as cautious.
\<close>

theorem facility_negotiation:
  "(packet_negotiate r c = Inr True \<longleftrightarrow>
      packet_rngchk r = 0 \<and> packet_rngchk c = 0 \<and> min p_negotiate c \<le> r \<and> r \<le> max p_negotiate c) \<and>
   (window_negotiate w v = Inr True \<longleftrightarrow>
      seq_rngchk w = 0 \<and> seq_rngchk v = 0 \<and> min WINDOW_NEGOTIATE v \<le> w \<and> w \<le> max WINDOW_NEGOTIATE v) \<and>
   (tput_negotiate t u = Inr True \<longleftrightarrow>
      tput_rngchk t = 0 \<and> tput_rngchk u = 0 \<and> min t_negotiate u \<le> t \<and> t \<le> max t_negotiate u)"
  using packet_facility.accepted_iff window_facility.accepted_iff tput_facility.accepted_iff by blast

text \<open>
  The packet facility: the table of packet sizes is the power of two of the code, and a code
  outside the table fails the assertion instead of reading outside the array.
\<close>

theorem packet_bytes_power:
  "packet_bytes p = (if 4 \<le> p \<and> p \<le> 12 then Inr (2 ^ p) else Inl Assert_failed)"
  using packet_bytes_eq [of p] packet_bytes_fault [of p] by (auto simp: packet_rngchk_0)

end
