(* ===== verification/Joza_Enums.thy ===== *)
theory Joza_Enums
  imports Joza_Facilities
begin

text \<open>
  The enumerations of the broker: channel states (\<^verbatim>\<open>src/state.h\<close>), error causes
  (\<^verbatim>\<open>src/cause.h\<close>), diagnostics (\<^verbatim>\<open>src/diag.h\<close>) and directionality (\<^verbatim>\<open>src/iodir.h\<close>), with
  their C values, and the name tables and helpers of the matching \<^verbatim>\<open>.c\<close> files. An enum whose
  values the broker only makes itself is a datatype with a numbering; directionality arrives
  as a byte and is cast, so it is a number with named enumerators.
\<close>

section \<open>Channel states\<close>

datatype state_t =
    state_ready
  | state_x_call_request
  | state_y_call_request
  | state_data_transfer
  | state_call_collision
  | state_x_clear_request
  | state_y_clear_request
  | state_x_reset_request
  | state_y_reset_request

text \<open>The C value of each enumerator.\<close>

primrec state_code :: "state_t \<Rightarrow> nat" where
  "state_code state_ready = 0"
| "state_code state_x_call_request = 1"
| "state_code state_y_call_request = 2"
| "state_code state_data_transfer = 3"
| "state_code state_call_collision = 4"
| "state_code state_x_clear_request = 5"
| "state_code state_y_clear_request = 6"
| "state_code state_x_reset_request = 7"
| "state_code state_y_reset_request = 8"

definition state_names :: "string list" where
  "state_names = [
     ''READY'', ''X_CALL_REQUEST'', ''Y_CALL_REQUEST'', ''DATA_TRANSFER'', ''CALL_COLLISION'',
     ''X_CLEAR_REQUEST'', ''Y_CLEAR_REQUEST'', ''X_RESET_REQUEST'', ''Y_RESET_REQUEST'']"

definition state_name :: "state_t \<Rightarrow> string" where
  "state_name a = state_names ! state_code a"

definition STATE_CLEAR_REQUEST :: "bool \<Rightarrow> state_t" where
  "STATE_CLEAR_REQUEST is_y = (if is_y then state_y_clear_request else state_x_clear_request)"

section \<open>Causes\<close>

datatype cause_t =
    c_unspecified
  | c_worker_originated
  | c_number_busy
  | c_call_collision
  | c_zmq_sendmsg_err
  | c_malformed_message
  | c_invalid_facility_request
  | c_invalid_forwarding_request
  | c_access_barred
  | c_address_in_use
  | c_unknown_address
  | c_network_congestion
  | c_local_procedure_error
  | c_remote_procedure_error
  | c_broker_shutdown
  | c_quota_exceeded

primrec cause_code :: "cause_t \<Rightarrow> nat" where
  "cause_code c_unspecified = 0"
| "cause_code c_worker_originated = 1"
| "cause_code c_number_busy = 2"
| "cause_code c_call_collision = 3"
| "cause_code c_zmq_sendmsg_err = 4"
| "cause_code c_malformed_message = 5"
| "cause_code c_invalid_facility_request = 6"
| "cause_code c_invalid_forwarding_request = 7"
| "cause_code c_access_barred = 8"
| "cause_code c_address_in_use = 9"
| "cause_code c_unknown_address = 10"
| "cause_code c_network_congestion = 11"
| "cause_code c_local_procedure_error = 12"
| "cause_code c_remote_procedure_error = 13"
| "cause_code c_broker_shutdown = 14"
| "cause_code c_quota_exceeded = 15"

definition CAUSE_MAX :: nat where
  "CAUSE_MAX = cause_code c_quota_exceeded"

definition cause_names :: "string list" where
  "cause_names = [
     ''C_UNSPECIFIED'', ''C_WORKER_ORIGINATED'', ''C_NUMBER_BUSY'', ''C_CALL_COLLISION'',
     ''C_ZMQ_SENDMSG_ERR'', ''C_MALFORMED_MSG'', ''C_INVALID_FACILITY_REQUEST'',
     ''C_INVALID_FORWARDING_REQUEST'', ''C_ACCESS_BARRED'', ''C_ADDRESS_IN_USE'',
     ''C_UNKNOWN_ADDRESS'', ''C_NETWORK_CONGESTION'', ''C_LOCAL_PROCEDURE_ERROR'',
     ''C_REMOTE_PROCEDURE_ERROR'', ''C_BROKER_SHUTDOWN'', ''C_QUOTA_EXCEEDED'']"

definition cause_name :: "nat \<Rightarrow> string res" where
  "cause_name c = bind_res (c_assert (c \<le> CAUSE_MAX)) (\<lambda>_. Inr (cause_names ! c))"

section \<open>Diagnostics\<close>

datatype (plugins only: code size) diag_t =
    d_unspecified
  | d_worker_originated
  | d_number_busy
  | d_call_collision
  | d_zmq_error
  | d_zmq_eagain
  | d_zmq_enotsup
  | d_zmq_efsm
  | d_zmq_eterm
  | d_zmq_enotsock
  | d_zmq_eintr
  | d_zmq_efault
  | d_invalid_q
  | d_pr_too_large
  | d_ps_too_large
  | d_invalid_data_frame
  | d_calling_address_too_short
  | d_calling_address_too_long
  | d_calling_address_format_invalid
  | d_called_address_too_short
  | d_called_address_too_long
  | d_called_address_format_invalid
  | d_packet_facility_too_small
  | d_packet_facility_too_large
  | d_window_facility_too_small
  | d_window_facility_too_large
  | d_throughput_facility_too_small
  | d_throughput_facility_too_large
  | d_invalid_cause
  | d_invalid_diagnostic
  | d_invalid_q_too_large
  | d_invalid_pr_too_small
  | d_invalid_pr_too_large
  | d_data_too_short
  | d_data_too_long
  | d_invalid_directionality_facility
  | d_invalid_packet_facility_negotiation
  | d_invalid_window_facility_negotiation
  | d_invalid_throughput_facility_negotiation
  | d_invalid_directionality_negotiation
  | d_callee_forwarding_not_allowed
  | d_caller_forwarding_not_allowed
  | d_output_barred
  | d_input_barred
  | d_reserved_address
  | d_address_in_use
  | d_unknown_worker_address
  | d_unknown_reserved_address
  | d_no_connections_available
  | d_no_channels_available
  | d_invalid_message_for_state_ready
  | d_invalid_message_for_state_x_call_request
  | d_invalid_message_for_state_y_call_request
  | d_invalid_message_for_state_data_transfer
  | d_invalid_message_for_state_call_collision
  | d_invalid_message_for_state_x_clear_request
  | d_invalid_message_for_state_y_clear_request
  | d_invalid_message_for_state_x_reset_request
  | d_invalid_message_for_state_y_reset_request
  | d_ps_out_of_order
  | d_ps_not_in_window
  | d_pr_invalid_window_update
  | d_data_too_long_for_packet_facility
  | d_data_rate_exceeded
  | d_message_rate_exceeded

primrec diag_code :: "diag_t \<Rightarrow> nat" where
  "diag_code d_unspecified = 0"
| "diag_code d_worker_originated = 1"
| "diag_code d_number_busy = 2"
| "diag_code d_call_collision = 3"
| "diag_code d_zmq_error = 4"
| "diag_code d_zmq_eagain = 5"
| "diag_code d_zmq_enotsup = 6"
| "diag_code d_zmq_efsm = 7"
| "diag_code d_zmq_eterm = 8"
| "diag_code d_zmq_enotsock = 9"
| "diag_code d_zmq_eintr = 10"
| "diag_code d_zmq_efault = 11"
| "diag_code d_invalid_q = 12"
| "diag_code d_pr_too_large = 13"
| "diag_code d_ps_too_large = 14"
| "diag_code d_invalid_data_frame = 15"
| "diag_code d_calling_address_too_short = 16"
| "diag_code d_calling_address_too_long = 17"
| "diag_code d_calling_address_format_invalid = 18"
| "diag_code d_called_address_too_short = 19"
| "diag_code d_called_address_too_long = 20"
| "diag_code d_called_address_format_invalid = 21"
| "diag_code d_packet_facility_too_small = 22"
| "diag_code d_packet_facility_too_large = 23"
| "diag_code d_window_facility_too_small = 24"
| "diag_code d_window_facility_too_large = 25"
| "diag_code d_throughput_facility_too_small = 26"
| "diag_code d_throughput_facility_too_large = 27"
| "diag_code d_invalid_cause = 28"
| "diag_code d_invalid_diagnostic = 29"
| "diag_code d_invalid_q_too_large = 30"
| "diag_code d_invalid_pr_too_small = 31"
| "diag_code d_invalid_pr_too_large = 32"
| "diag_code d_data_too_short = 33"
| "diag_code d_data_too_long = 34"
| "diag_code d_invalid_directionality_facility = 35"
| "diag_code d_invalid_packet_facility_negotiation = 36"
| "diag_code d_invalid_window_facility_negotiation = 37"
| "diag_code d_invalid_throughput_facility_negotiation = 38"
| "diag_code d_invalid_directionality_negotiation = 39"
| "diag_code d_callee_forwarding_not_allowed = 40"
| "diag_code d_caller_forwarding_not_allowed = 41"
| "diag_code d_output_barred = 42"
| "diag_code d_input_barred = 43"
| "diag_code d_reserved_address = 44"
| "diag_code d_address_in_use = 45"
| "diag_code d_unknown_worker_address = 46"
| "diag_code d_unknown_reserved_address = 47"
| "diag_code d_no_connections_available = 48"
| "diag_code d_no_channels_available = 49"
| "diag_code d_invalid_message_for_state_ready = 50"
| "diag_code d_invalid_message_for_state_x_call_request = 51"
| "diag_code d_invalid_message_for_state_y_call_request = 52"
| "diag_code d_invalid_message_for_state_data_transfer = 53"
| "diag_code d_invalid_message_for_state_call_collision = 54"
| "diag_code d_invalid_message_for_state_x_clear_request = 55"
| "diag_code d_invalid_message_for_state_y_clear_request = 56"
| "diag_code d_invalid_message_for_state_x_reset_request = 57"
| "diag_code d_invalid_message_for_state_y_reset_request = 58"
| "diag_code d_ps_out_of_order = 59"
| "diag_code d_ps_not_in_window = 60"
| "diag_code d_pr_invalid_window_update = 61"
| "diag_code d_data_too_long_for_packet_facility = 62"
| "diag_code d_data_rate_exceeded = 63"
| "diag_code d_message_rate_exceeded = 64"

definition d_last :: nat where
  "d_last = diag_code d_message_rate_exceeded"

definition diag_names :: "string list" where
  "diag_names = [
     ''D_UNSPECIFIED'', ''D_WORKER_ORIGINATED'', ''D_NUMBER_BUSY'', ''D_CALL_COLLISION'',
     ''D_ZMQ_ERROR'', ''D_ZMQ_EAGAIN'', ''D_ZMQ_ENOTSUP'', ''D_ZMQ_EFSM'', ''D_ZMQ_ETERM'',
     ''D_ZMQ_ENOTSOCK'', ''D_ZMQ_EINTR'', ''D_ZMQ_EFAULT'', ''D_INVALID_Q'',
     ''D_PR_TOO_LARGE'', ''D_PS_TOO_LARGE'', ''D_INVALID_DATA_FRAME'',
     ''D_CALLING_ADDRESS_TOO_SHORT'', ''D_CALLING_ADDRESS_TOO_LONG'',
     ''D_CALLING_ADDRESS_FORMAT_INVALID'', ''D_CALLED_ADDRESS_TOO_SHORT'',
     ''D_CALLED_ADDRESS_TOO_LONG'', ''D_CALLED_ADDRESS_FORMAT_INVALID'',
     ''D_PACKET_FACILITY_TOO_SMALL'', ''D_PACKET_FACILITY_TOO_LARGE'',
     ''D_WINDOW_FACILITY_TOO_SMALL'', ''D_WINDOW_FACILITY_TOO_LARGE'',
     ''D_THROUGHPUT_FACILITY_TOO_SMALL'', ''D_THROUGHPUT_FACILITY_TOO_LARGE'',
     ''D_INVALID_CAUSE'', ''D_INVALID_DIAGNOSTIC'', ''D_INVALID_Q_TOO_LARGE'',
     ''D_INVALID_PR_TOO_SMALL'', ''D_INVALID_PR_TOO_LARGE'', ''D_DATA_TOO_SHORT'',
     ''D_DATA_TOO_LONG'', ''D_INVALID_DIRECTIONAL_FACILITY'',
     ''D_INVALID_PACKET_FACILITY_NEGOTIATION'', ''D_INVALID_WINDOW_FACILITY_NEGOTIATION'',
     ''D_INVALID_THROUGHPUT_FACILITY_NEGOTIATION'', ''D_INVALID_DIRECTIONALITY_NEGOTIATION'',
     ''D_CALLEE_FORWARDING_NOT_ALLOWED'', ''D_CALLER_FORWARDING_NOT_ALLOWED'',
     ''D_OUTPUT_BARRED'', ''D_INPUT_BARRED'', ''D_RESERVED_ADDRESS'', ''D_ADDRESS_IN_USE'',
     ''D_UNKNOWN_WORKER_ADDRESS'', ''D_UNKNOWN_RESERVED_ADDRESS'',
     ''D_NO_CONNECTIONS_AVAILABLE'', ''D_NO_CHANNELS_AVAILABLE'',
     ''D_INVALID_MESSAGE_FOR_STATE_READY'', ''D_INVALID_MESSAGE_FOR_STATE_X_CALL_REQUEST'',
     ''D_INVALID_MESSAGE_FOR_STATE_Y_CALL_REQUEST'',
     ''D_INVALID_MESSAGE_FOR_STATE_DATA_TRANSFER'',
     ''D_INVAlID_MESSAGE_FOR_STATE_CALL_COLLISION'',
     ''D_INVALID_MESSAGE_FOR_STATE_X_CLEAR_REQUEST'',
     ''D_INVALID_MESSAGE_FOR_STATE_Y_CLEAR_REQUEST'',
     ''D_INVALID_MESSAGE_FOR_STATE_X_RESET_REQUEST'',
     ''D_INVALID_MESSAGE_FOR_STATE_Y_RESET_REQUEST'', ''D_PS_OUT_OF_ORDER'',
     ''D_PS_NOT_IN_WINDOW'', ''D_PR_INVALID_WINDOW_UPDATE'',
     ''D_DATA_TOO_LONG_FOR_PACKET_FACILITY'', ''D_DATA_RATE_EXCEEDED'',
     ''D_MESSAGE_RATE_EXCEEDED'']"

definition diag_name :: "diag_t \<Rightarrow> string" where
  "diag_name D = diag_names ! diag_code D"

text \<open>
  The \<^verbatim>\<open>errno\<close> values that \<^verbatim>\<open>zmq_sendmsg\<close> can leave behind and that \<^verbatim>\<open>errno2diag\<close> tells
  apart; every other value is \<open>E_other\<close>.
\<close>

datatype errno_t =
    EAGAIN
  | ENOTSUP
  | EFSM
  | ETERM
  | ENOTSOCK
  | EINTR
  | EFAULT
  | E_other

fun errno2diag :: "errno_t \<Rightarrow> diag_t" where
  "errno2diag EAGAIN = d_zmq_eagain"
| "errno2diag ENOTSUP = d_zmq_enotsup"
| "errno2diag EFSM = d_zmq_efsm"
| "errno2diag ETERM = d_zmq_eterm"
| "errno2diag ENOTSOCK = d_zmq_enotsock"
| "errno2diag EINTR = d_zmq_eintr"
| "errno2diag EFAULT = d_zmq_efault"
| "errno2diag E_other = d_zmq_error"

section \<open>Directionality\<close>

type_synonym iodir_t = nat

definition io_bidirectional :: iodir_t where "io_bidirectional = 0"
definition io_incoming_calls_barred :: iodir_t where "io_incoming_calls_barred = 1"
definition io_outgoing_calls_barred :: iodir_t where "io_outgoing_calls_barred = 2"
definition io_calls_barred :: iodir_t where "io_calls_barred = 3"

lemmas iodir_enum = io_bidirectional_def io_incoming_calls_barred_def io_outgoing_calls_barred_def
  io_calls_barred_def

definition iodir_names :: "string list" where
  "iodir_names = [''bidirectional'', ''incoming calls barred'', ''outgoing calls barred'',
     ''calls barred'']"

definition iodir_incoming_calls_allowed :: "iodir_t \<Rightarrow> bool" where
  "iodir_incoming_calls_allowed I = (I = io_bidirectional \<or> I = io_outgoing_calls_barred)"

definition iodir_outgoing_calls_allowed :: "iodir_t \<Rightarrow> bool" where
  "iodir_outgoing_calls_allowed I = (I = io_bidirectional \<or> I = io_incoming_calls_barred)"

definition iodir_validate :: "iodir_t \<Rightarrow> bool" where
  "iodir_validate x =
     (if x = io_bidirectional \<or> x = io_incoming_calls_barred \<or> x = io_outgoing_calls_barred
        \<or> x = io_calls_barred
      then True else False)"

definition iodir_name :: "iodir_t \<Rightarrow> string res" where
  "iodir_name x = bind_res (c_assert (iodir_validate x)) (\<lambda>_. Inr (iodir_names ! x))"

section \<open>Numbering\<close>

lemma state_code_less [simp]: "state_code s < 9"
  by (cases s) simp_all

lemma state_code_inject [simp]: "state_code s = state_code t \<longleftrightarrow> s = t"
  by (cases s; cases t) simp_all

lemma cause_code_less: "cause_code c \<le> CAUSE_MAX"
  by (cases c) (simp_all add: CAUSE_MAX_def)

lemma diag_code_less: "diag_code d \<le> d_last"
  by (cases d) (simp_all add: d_last_def)

lemma length_diag_names: "length diag_names = Suc d_last"
  by (simp add: diag_names_def d_last_def)

lemma iodir_validate_iff: "iodir_validate x \<longleftrightarrow> x \<le> 3"
  by (auto simp: iodir_validate_def iodir_enum)

lemma iodir_name_ok: "iodir_validate x \<Longrightarrow> iodir_name x = Inr (iodir_names ! x)"
  by (simp add: iodir_name_def)

end
