(* ===== verification/Joza_World.thy ===== *)
theory Joza_World
  imports Joza_Enums
begin

text \<open>
  What the broker uses of code that is not in the repository: ZeroMQ sockets and frames through
  CZMQ, CZMQ's \<^verbatim>\<open>zhash\<close>, GLib's monotonic clock and the C library's formatted output. Nothing
  here models a file of the sources. The behaviour that the documentation leaves open is a
  field of the record \<open>world\<close>, so every theorem holds for every choice of it unless a
  hypothesis says otherwise:

  \<^item> \<open>zinbox\<close> and \<open>zcur\<close>: the messages still to be received, each as its first frame and the
    frames after it, and the unread frames of the message being read (ZeroMQ delivers multipart
    messages whole and in order); when both are used up a receive is interrupted;
  \<^item> \<open>zfail\<close>: whether sending a frame fails, and with which \<^verbatim>\<open>errno\<close>, given all that was sent;
  \<^item> \<open>zjunk\<close>: the bytes of a frame that \<^verbatim>\<open>zframe_new (NULL, n)\<close> leaves uninitialised;
  \<^item> \<open>zorder\<close>: the order in which \<^verbatim>\<open>zhash_foreach\<close> visits a table;
  \<^item> \<open>znull\<close>: what a table with \<^verbatim>\<open>zhash_autofree\<close> does with a NULL item, which is not documented;
  \<^item> \<open>gclock\<close>: the values of successive clock readings, as integers: \<^verbatim>\<open>gint64\<close> microseconds do not overflow
    in 290000 years, so the width is not represented.
\<close>

type_synonym zframe = bytes

text \<open>
  An item of a \<^verbatim>\<open>zhash\<close> is a pointer to a string; \<open>Dangling\<close> is one whose string was freed.
\<close>

datatype zitem = Item cstr | Dangling

type_synonym zhash = "(cstr \<times> zitem) list"

record world =
  zrouter :: bool
  zinbox :: "(zframe \<times> zframe list) list"
  zcur :: "zframe list"
  zsent :: "(zframe \<times> bool) list"
  zfail :: "(zframe \<times> bool) list \<Rightarrow> zframe \<times> bool \<Rightarrow> errno_t option"
  zerrno :: errno_t
  zjunk :: "nat \<Rightarrow> byte"
  zorder :: "zhash \<Rightarrow> zhash"
  znull :: "zitem res"
  gclock :: "nat \<Rightarrow> int"
  gtick :: nat

text \<open>
  A concrete environment for examples: a ROUTER socket with an empty queue on which every send
  succeeds, tables visited in the order of insertion, a clock that advances by one per reading.
\<close>

definition quiet_world :: world where
  "quiet_world = \<lparr>zrouter = True, zinbox = [], zcur = [], zsent = [], zfail = (\<lambda>_ _. None),
     zerrno = E_other, zjunk = (\<lambda>_. 0), zorder = (\<lambda>h. h), znull = Inl Undefined,
     gclock = int, gtick = 0\<rparr>"

section \<open>Computations\<close>

type_synonym 'a io = "world \<Rightarrow> ('a \<times> world) res"

definition return_io :: "'a \<Rightarrow> 'a io" where
  "return_io x w = Inr (x, w)"

definition bind_io :: "'a io \<Rightarrow> ('a \<Rightarrow> 'b io) \<Rightarrow> 'b io" where
  "bind_io m f w = (case m w of Inl e \<Rightarrow> Inl e | Inr (x, w') \<Rightarrow> f x w')"

text \<open>A computation that touches nothing outside.\<close>

definition lift_res :: "'a res \<Rightarrow> 'a io" where
  "lift_res r w = (case r of Inl e \<Rightarrow> Inl e | Inr x \<Rightarrow> Inr (x, w))"

section \<open>Sockets and frames\<close>

definition zsocket_rcvmore :: "world \<Rightarrow> bool" where
  "zsocket_rcvmore w \<longleftrightarrow> zcur w \<noteq> []"

definition zframe_recv :: "world \<Rightarrow> zframe option \<times> world" where
  "zframe_recv w =
     (case zcur w of
        f # fs \<Rightarrow> (Some f, w\<lparr>zcur := fs\<rparr>)
      | [] \<Rightarrow> (case zinbox w of
                 [] \<Rightarrow> (None, w)
               | (f, fs) # ms \<Rightarrow> (Some f, w\<lparr>zinbox := ms, zcur := fs\<rparr>)))"

text \<open>
  \<^verbatim>\<open>zframe_send\<close>: 0 when the frame was queued, -1 with \<^verbatim>\<open>errno\<close> set otherwise.
\<close>

definition zframe_send :: "zframe \<Rightarrow> bool \<Rightarrow> world \<Rightarrow> int \<times> world" where
  "zframe_send f flag w =
     (case zfail w (zsent w) (f, flag) of
        None \<Rightarrow> (0, w\<lparr>zsent := zsent w @ [(f, flag)]\<rparr>)
      | Some e \<Rightarrow> (-1, w\<lparr>zerrno := e\<rparr>))"

text \<open>The size of a frame; there is no frame behind a null pointer.\<close>

definition zframe_size :: "zframe option \<Rightarrow> nat res" where
  "zframe_size z = (case z of None \<Rightarrow> Inl Undefined | Some f \<Rightarrow> Inr (length f))"

definition zframe_junk :: "world \<Rightarrow> nat \<Rightarrow> bytes" where
  "zframe_junk w n = map (zjunk w) [0..<n]"

definition pending :: "world \<Rightarrow> nat" where
  "pending w = length (zcur w) + (\<Sum>m\<leftarrow>zinbox w. Suc (length (snd m)))"

section \<open>String tables\<close>

text \<open>
  \<^verbatim>\<open>zhash_insert\<close> keeps the item of a key that is present; \<^verbatim>\<open>zhash_update\<close> replaces it;
  \<^verbatim>\<open>zhash_dup\<close> copies the strings the items point to.
\<close>

definition zhash_insert :: "zhash \<Rightarrow> cstr \<Rightarrow> zitem \<Rightarrow> zhash" where
  "zhash_insert h k v = (if k \<in> fst ` set h then h else h @ [(k, v)])"

definition zhash_update :: "zhash \<Rightarrow> cstr \<Rightarrow> zitem \<Rightarrow> zhash" where
  "zhash_update h k v =
     (if k \<in> fst ` set h then map (\<lambda>p. if fst p = k then (k, v) else p) h else h @ [(k, v)])"

definition zhash_dup :: "zhash option \<Rightarrow> zhash option res" where
  "zhash_dup h =
     (case h of
        None \<Rightarrow> Inr None
      | Some t \<Rightarrow> if Dangling \<in> snd ` set t then Inl Undefined else Inr (Some t))"

definition item_text :: "zitem \<Rightarrow> cstr res" where
  "item_text v = (case v of Item s \<Rightarrow> Inr s | Dangling \<Rightarrow> Inl Undefined)"

section \<open>Clock\<close>

definition g_get_monotonic_time :: "world \<Rightarrow> int \<times> world" where
  "g_get_monotonic_time w = (gclock w (gtick w), w\<lparr>gtick := Suc (gtick w)\<rparr>)"

section \<open>Formatted output without arguments\<close>

text \<open>
  What \<^verbatim>\<open>printf\<close>-like functions make of a format when no argument follows it. A conversion
  other than \<open>%%\<close> asks for an argument that is not there.
\<close>

fun format0 :: "cstr \<Rightarrow> cstr res" where
  "format0 [] = Inr []"
| "format0 [c] = (if c = 37 then Inl Undefined else Inr [c])"
| "format0 (c # d # s) =
     (if c = 37
      then if d = 37 then bind_res (format0 s) (\<lambda>t. Inr (37 # t)) else Inl Undefined
      else bind_res (format0 (d # s)) (\<lambda>t. Inr (c # t)))"

definition vsnprintf :: "nat \<Rightarrow> cstr option \<Rightarrow> cstr res" where
  "vsnprintf n fmt =
     (case fmt of
        None \<Rightarrow> Inl Undefined
      | Some f \<Rightarrow> bind_res (format0 f) (\<lambda>s. Inr (take (n - 1) s)))"

section \<open>Lemmas\<close>

lemma return_io_simp [simp]: "return_io x w = Inr (x, w)"
  by (simp add: return_io_def)

lemma bind_io_simps [simp, res_simps]:
  "m w = Inl e \<Longrightarrow> bind_io m f w = Inl e"
  "m w = Inr (x, w') \<Longrightarrow> bind_io m f w = f x w'"
  by (simp_all add: bind_io_def)

lemma bind_io_Inr [res_simps]:
  "bind_io m f w = Inr r \<longleftrightarrow> (\<exists>x w'. m w = Inr (x, w') \<and> f x w' = Inr r)"
  by (auto simp: bind_io_def split: sum.splits prod.splits)

lemma bind_io_assoc: "bind_io (bind_io m f) g = bind_io m (\<lambda>x. bind_io (f x) g)"
  by (auto simp: bind_io_def fun_eq_iff split: sum.splits prod.splits)

lemma lift_res_simps [simp, res_simps]:
  "lift_res (Inl e) w = Inl e"
  "lift_res (Inr x) w = Inr (x, w)"
  by (simp_all add: lift_res_def)

lemma bind_lift_res [simp]:
  "bind_io (lift_res (Inr x)) f = f x"
  "bind_io (lift_res (Inl e)) f = (\<lambda>_. Inl e)"
  by (simp_all add: bind_io_def fun_eq_iff)

lemma lift_res_Inr [res_simps]: "lift_res r w = Inr p \<longleftrightarrow> (\<exists>x. r = Inr x \<and> p = (x, w))"
  by (cases r) auto

lemma zframe_size_simps [simp]:
  "zframe_size (Some f) = Inr (length f)"
  "zframe_size None = Inl Undefined"
  by (simp_all add: zframe_size_def)

lemma length_zframe_junk [simp]: "length (zframe_junk w n) = n"
  by (simp add: zframe_junk_def)

lemma zframe_recv_pending:
  "zframe_recv w = (Some f, w') \<Longrightarrow> pending w = Suc (pending w')"
  by (auto simp: zframe_recv_def pending_def split: list.splits)

lemma zframe_recv_None: "zframe_recv w = (None, w') \<Longrightarrow> w' = w \<and> pending w = 0"
  by (auto simp: zframe_recv_def pending_def split: list.splits)

lemma pending_recv_le: "pending (snd (zframe_recv w)) \<le> pending w"
  by (auto simp: zframe_recv_def pending_def split: list.splits)

lemma zframe_recv_sent [simp]: "zsent (snd (zframe_recv w)) = zsent w"
  by (auto simp: zframe_recv_def split: list.splits)

lemma format0_plain: "37 \<notin> set s \<Longrightarrow> format0 s = Inr s"
  by (induction s rule: format0.induct) auto

lemma format0_is_cstr: "format0 s = Inr t \<Longrightarrow> is_cstr s \<Longrightarrow> is_cstr t"
  by (induction s arbitrary: t rule: format0.induct)
    (auto simp: res_simps split: if_splits)

lemma vsnprintf_plain:
  "37 \<notin> set s \<Longrightarrow> length s < n \<Longrightarrow> vsnprintf n (Some s) = Inr s"
  by (simp add: vsnprintf_def format0_plain)

lemma vsnprintf_length: "vsnprintf n fmt = Inr s \<Longrightarrow> 0 < n \<Longrightarrow> length s < n"
  by (auto simp: vsnprintf_def res_simps split: option.splits)

lemma zhash_insert_keys:
  "distinct (map fst h) \<Longrightarrow> distinct (map fst (zhash_insert h k v))"
  by (auto simp: zhash_insert_def)

lemma map_of_snoc_new: "k \<notin> fst ` set h \<Longrightarrow> map_of (h @ [(k, v)]) = (map_of h)(k \<mapsto> v)"
proof -
  assume "k \<notin> fst ` set h"
  then have "map_of h k = None" by (simp add: map_of_eq_None_iff)
  then show ?thesis by (auto simp: fun_eq_iff map_add_def split: option.splits)
qed

lemma map_of_zhash_insert:
  "map_of (zhash_insert h k v) =
     (if k \<in> dom (map_of h) then map_of h else (map_of h)(k \<mapsto> v))"
  by (simp only: zhash_insert_def dom_map_of_conv_image_fst)
    (simp add: map_of_snoc_new del: map_of_append)

lemma zhash_update_keys:
  assumes "distinct (map fst h)"
  shows "distinct (map fst (zhash_update h k v))"
proof (cases "k \<in> fst ` set h")
  case True
  have "map fst (map (\<lambda>p. if fst p = k then (k, v) else p) h) = map fst h"
    by (induction h) auto
  then show ?thesis
    unfolding zhash_update_def if_P [OF True] using assms by (simp only:)
next
  case False
  then show ?thesis using assms by (simp add: zhash_update_def)
qed

lemma map_of_zhash_update_old:
  "k \<in> fst ` set h \<Longrightarrow>
     map_of (map (\<lambda>p. if fst p = k then (k, v) else p) h) = (map_of h)(k \<mapsto> v)"
proof (induction h)
  case Nil
  then show ?case by simp
next
  case (Cons p h)
  then show ?case
  proof (cases "k \<in> fst ` set h")
    case True
    then show ?thesis using Cons by (cases p) (auto simp: fun_eq_iff)
  next
    case False
    then have "map (\<lambda>p. if fst p = k then (k, v) else p) h = h"
      by (induction h) auto
    then show ?thesis using Cons.prems False by (cases p) (auto simp: fun_eq_iff)
  qed
qed

lemma map_of_zhash_update: "map_of (zhash_update h k v) = (map_of h)(k \<mapsto> v)"
  by (simp add: zhash_update_def map_of_snoc_new map_of_zhash_update_old del: map_of_append)

end
