(* ===== verification/Joza_Msg.thy ===== *)
theory Joza_Msg
  imports Joza_World
begin

text \<open>
  The message object of \<^verbatim>\<open>src/joza_msg.h\<close> and \<^verbatim>\<open>src/joza_msg.c\<close>: the structure, its
  constructor, the accessors, the string setters (which pass their argument to \<^verbatim>\<open>vsnprintf\<close> as
  the format), the duplication and the directory table of a message. The members \<^verbatim>\<open>needle\<close> and
  \<^verbatim>\<open>ceiling\<close> are the cursor of the codec; theory \<open>Joza_Codec\<close> has them as the bytes still to
  read. A \<^verbatim>\<open>char *\<close> member is the C string it points to, or \<open>None\<close> for NULL.
\<close>

section \<open>Message identifiers\<close>

definition JOZA_MSG_VERSION :: byte where "JOZA_MSG_VERSION = 1"
definition JOZA_MSG_COUNT :: nat where "JOZA_MSG_COUNT = 16"
definition STRING_MAX :: nat where "STRING_MAX = 255"

definition JOZA_MSG_DATA :: int where "JOZA_MSG_DATA = 0"
definition JOZA_MSG_RR :: int where "JOZA_MSG_RR = 1"
definition JOZA_MSG_RNR :: int where "JOZA_MSG_RNR = 2"
definition JOZA_MSG_CALL_REQUEST :: int where "JOZA_MSG_CALL_REQUEST = 3"
definition JOZA_MSG_CALL_ACCEPTED :: int where "JOZA_MSG_CALL_ACCEPTED = 4"
definition JOZA_MSG_CLEAR_REQUEST :: int where "JOZA_MSG_CLEAR_REQUEST = 5"
definition JOZA_MSG_CLEAR_CONFIRMATION :: int where "JOZA_MSG_CLEAR_CONFIRMATION = 6"
definition JOZA_MSG_RESET_REQUEST :: int where "JOZA_MSG_RESET_REQUEST = 7"
definition JOZA_MSG_RESET_CONFIRMATION :: int where "JOZA_MSG_RESET_CONFIRMATION = 8"
definition JOZA_MSG_CONNECT :: int where "JOZA_MSG_CONNECT = 9"
definition JOZA_MSG_CONNECT_INDICATION :: int where "JOZA_MSG_CONNECT_INDICATION = 10"
definition JOZA_MSG_DISCONNECT :: int where "JOZA_MSG_DISCONNECT = 11"
definition JOZA_MSG_DISCONNECT_INDICATION :: int where "JOZA_MSG_DISCONNECT_INDICATION = 12"
definition JOZA_MSG_DIAGNOSTIC :: int where "JOZA_MSG_DIAGNOSTIC = 13"
definition JOZA_MSG_DIRECTORY_REQUEST :: int where "JOZA_MSG_DIRECTORY_REQUEST = 14"
definition JOZA_MSG_DIRECTORY :: int where "JOZA_MSG_DIRECTORY = 15"
definition JOZA_MSG_ENQ :: int where "JOZA_MSG_ENQ = 16"
definition JOZA_MSG_ACK :: int where "JOZA_MSG_ACK = 17"

lemmas msg_ids = JOZA_MSG_DATA_def
  JOZA_MSG_RR_def
  JOZA_MSG_RNR_def
  JOZA_MSG_CALL_REQUEST_def
  JOZA_MSG_CALL_ACCEPTED_def
  JOZA_MSG_CLEAR_REQUEST_def
  JOZA_MSG_CLEAR_CONFIRMATION_def
  JOZA_MSG_RESET_REQUEST_def
  JOZA_MSG_RESET_CONFIRMATION_def
  JOZA_MSG_CONNECT_def
  JOZA_MSG_CONNECT_INDICATION_def
  JOZA_MSG_DISCONNECT_def
  JOZA_MSG_DISCONNECT_INDICATION_def
  JOZA_MSG_DIAGNOSTIC_def
  JOZA_MSG_DIRECTORY_REQUEST_def
  JOZA_MSG_DIRECTORY_def
  JOZA_MSG_ENQ_def
  JOZA_MSG_ACK_def

section \<open>The message structure\<close>

record joza_msg =
  m_address :: "zframe option"
  m_id :: int
  m_q :: byte
  m_pr :: u16
  m_ps :: u16
  m_data :: "zframe option"
  m_calling_address :: "cstr option"
  m_called_address :: "cstr option"
  m_packet :: byte
  m_window :: u16
  m_throughput :: byte
  m_cause :: byte
  m_diagnostic :: byte
  m_protocol :: "cstr option"
  m_version :: byte
  m_host_name :: "cstr option"
  m_directionality :: byte
  m_workers :: "zhash option"
  m_workers_bytes :: nat

text \<open>\<^verbatim>\<open>zmalloc\<close> clears the structure.\<close>

definition joza_msg_new :: "int \<Rightarrow> joza_msg" where
  "joza_msg_new i = \<lparr>m_address = None, m_id = i, m_q = 0, m_pr = 0, m_ps = 0, m_data = None,
     m_calling_address = None, m_called_address = None, m_packet = 0, m_window = 0,
     m_throughput = 0, m_cause = 0, m_diagnostic = 0, m_protocol = None, m_version = 0,
     m_host_name = None, m_directionality = 0, m_workers = None, m_workers_bytes = 0\<rparr>"

section \<open>Accessors\<close>

definition joza_msg_address :: "joza_msg \<Rightarrow> zframe option" where
  "joza_msg_address self = m_address self"

definition joza_msg_const_address :: "joza_msg \<Rightarrow> zframe option" where
  "joza_msg_const_address self = m_address self"

definition joza_msg_set_address :: "joza_msg \<Rightarrow> zframe option \<Rightarrow> joza_msg" where
  "joza_msg_set_address self address = self\<lparr>m_address := address\<rparr>"

definition joza_msg_id :: "joza_msg \<Rightarrow> int" where
  "joza_msg_id self = m_id self"

definition joza_msg_const_id :: "joza_msg \<Rightarrow> int" where
  "joza_msg_const_id self = m_id self"

definition joza_msg_set_id :: "joza_msg \<Rightarrow> int \<Rightarrow> joza_msg" where
  "joza_msg_set_id self i = self\<lparr>m_id := i\<rparr>"

definition joza_msg_q :: "joza_msg \<Rightarrow> byte" where
  "joza_msg_q self = m_q self"

definition joza_msg_const_q :: "joza_msg \<Rightarrow> byte" where
  "joza_msg_const_q self = m_q self"

definition joza_msg_set_q :: "joza_msg \<Rightarrow> byte \<Rightarrow> joza_msg" where
  "joza_msg_set_q self q = self\<lparr>m_q := q\<rparr>"

definition joza_msg_pr :: "joza_msg \<Rightarrow> u16" where
  "joza_msg_pr self = m_pr self"

definition joza_msg_const_pr :: "joza_msg \<Rightarrow> u16" where
  "joza_msg_const_pr self = m_pr self"

definition joza_msg_set_pr :: "joza_msg \<Rightarrow> u16 \<Rightarrow> joza_msg" where
  "joza_msg_set_pr self pr = self\<lparr>m_pr := pr\<rparr>"

definition joza_msg_ps :: "joza_msg \<Rightarrow> u16" where
  "joza_msg_ps self = m_ps self"

definition joza_msg_const_ps :: "joza_msg \<Rightarrow> u16" where
  "joza_msg_const_ps self = m_ps self"

definition joza_msg_set_ps :: "joza_msg \<Rightarrow> u16 \<Rightarrow> joza_msg" where
  "joza_msg_set_ps self ps = self\<lparr>m_ps := ps\<rparr>"

definition joza_msg_data :: "joza_msg \<Rightarrow> zframe option" where
  "joza_msg_data self = m_data self"

definition joza_msg_const_data :: "joza_msg \<Rightarrow> zframe option" where
  "joza_msg_const_data self = m_data self"

definition joza_msg_set_data :: "joza_msg \<Rightarrow> zframe option \<Rightarrow> joza_msg" where
  "joza_msg_set_data self data = self\<lparr>m_data := data\<rparr>"

definition joza_msg_calling_address :: "joza_msg \<Rightarrow> cstr option" where
  "joza_msg_calling_address self = m_calling_address self"

definition joza_msg_const_calling_address :: "joza_msg \<Rightarrow> cstr option" where
  "joza_msg_const_calling_address self = m_calling_address self"

definition joza_msg_set_calling_address :: "joza_msg \<Rightarrow> cstr option \<Rightarrow> joza_msg res" where
  "joza_msg_set_calling_address self format =
     bind_res (vsnprintf STRING_MAX format) (\<lambda>s. Inr (self\<lparr>m_calling_address := Some s\<rparr>))"

definition joza_msg_called_address :: "joza_msg \<Rightarrow> cstr option" where
  "joza_msg_called_address self = m_called_address self"

definition joza_msg_const_called_address :: "joza_msg \<Rightarrow> cstr option" where
  "joza_msg_const_called_address self = m_called_address self"

definition joza_msg_set_called_address :: "joza_msg \<Rightarrow> cstr option \<Rightarrow> joza_msg res" where
  "joza_msg_set_called_address self format =
     bind_res (vsnprintf STRING_MAX format) (\<lambda>s. Inr (self\<lparr>m_called_address := Some s\<rparr>))"

definition joza_msg_packet :: "joza_msg \<Rightarrow> byte" where
  "joza_msg_packet self = m_packet self"

definition joza_msg_const_packet :: "joza_msg \<Rightarrow> byte" where
  "joza_msg_const_packet self = m_packet self"

definition joza_msg_set_packet :: "joza_msg \<Rightarrow> byte \<Rightarrow> joza_msg" where
  "joza_msg_set_packet self packet = self\<lparr>m_packet := packet\<rparr>"

definition joza_msg_window :: "joza_msg \<Rightarrow> u16" where
  "joza_msg_window self = m_window self"

definition joza_msg_const_window :: "joza_msg \<Rightarrow> u16" where
  "joza_msg_const_window self = m_window self"

definition joza_msg_set_window :: "joza_msg \<Rightarrow> u16 \<Rightarrow> joza_msg" where
  "joza_msg_set_window self window = self\<lparr>m_window := window\<rparr>"

definition joza_msg_throughput :: "joza_msg \<Rightarrow> byte" where
  "joza_msg_throughput self = m_throughput self"

definition joza_msg_const_throughput :: "joza_msg \<Rightarrow> byte" where
  "joza_msg_const_throughput self = m_throughput self"

definition joza_msg_set_throughput :: "joza_msg \<Rightarrow> byte \<Rightarrow> joza_msg" where
  "joza_msg_set_throughput self throughput = self\<lparr>m_throughput := throughput\<rparr>"

definition joza_msg_cause :: "joza_msg \<Rightarrow> byte" where
  "joza_msg_cause self = m_cause self"

definition joza_msg_const_cause :: "joza_msg \<Rightarrow> byte" where
  "joza_msg_const_cause self = m_cause self"

definition joza_msg_set_cause :: "joza_msg \<Rightarrow> byte \<Rightarrow> joza_msg" where
  "joza_msg_set_cause self cause = self\<lparr>m_cause := cause\<rparr>"

definition joza_msg_diagnostic :: "joza_msg \<Rightarrow> byte" where
  "joza_msg_diagnostic self = m_diagnostic self"

definition joza_msg_const_diagnostic :: "joza_msg \<Rightarrow> byte" where
  "joza_msg_const_diagnostic self = m_diagnostic self"

definition joza_msg_set_diagnostic :: "joza_msg \<Rightarrow> byte \<Rightarrow> joza_msg" where
  "joza_msg_set_diagnostic self diagnostic = self\<lparr>m_diagnostic := diagnostic\<rparr>"

definition joza_msg_host_name :: "joza_msg \<Rightarrow> cstr option" where
  "joza_msg_host_name self = m_host_name self"

definition joza_msg_const_host_name :: "joza_msg \<Rightarrow> cstr option" where
  "joza_msg_const_host_name self = m_host_name self"

definition joza_msg_set_host_name :: "joza_msg \<Rightarrow> cstr option \<Rightarrow> joza_msg res" where
  "joza_msg_set_host_name self format =
     bind_res (vsnprintf STRING_MAX format) (\<lambda>s. Inr (self\<lparr>m_host_name := Some s\<rparr>))"

definition joza_msg_directionality :: "joza_msg \<Rightarrow> byte" where
  "joza_msg_directionality self = m_directionality self"

definition joza_msg_const_directionality :: "joza_msg \<Rightarrow> byte" where
  "joza_msg_const_directionality self = m_directionality self"

definition joza_msg_set_directionality :: "joza_msg \<Rightarrow> byte \<Rightarrow> joza_msg" where
  "joza_msg_set_directionality self directionality = self\<lparr>m_directionality := directionality\<rparr>"

definition joza_msg_workers :: "joza_msg \<Rightarrow> zhash option" where
  "joza_msg_workers self = m_workers self"

definition joza_msg_set_workers :: "joza_msg \<Rightarrow> zhash option \<Rightarrow> joza_msg" where
  "joza_msg_set_workers self workers = self\<lparr>m_workers := workers\<rparr>"

lemmas msg_getters = joza_msg_address_def joza_msg_const_address_def
  joza_msg_id_def joza_msg_const_id_def
  joza_msg_q_def joza_msg_const_q_def
  joza_msg_pr_def joza_msg_const_pr_def
  joza_msg_ps_def joza_msg_const_ps_def
  joza_msg_data_def joza_msg_const_data_def
  joza_msg_calling_address_def joza_msg_const_calling_address_def
  joza_msg_called_address_def joza_msg_const_called_address_def
  joza_msg_packet_def joza_msg_const_packet_def
  joza_msg_window_def joza_msg_const_window_def
  joza_msg_throughput_def joza_msg_const_throughput_def
  joza_msg_cause_def joza_msg_const_cause_def
  joza_msg_diagnostic_def joza_msg_const_diagnostic_def
  joza_msg_host_name_def joza_msg_const_host_name_def
  joza_msg_directionality_def joza_msg_const_directionality_def
  joza_msg_workers_def

lemmas msg_setters = joza_msg_set_address_def joza_msg_set_id_def joza_msg_set_q_def
  joza_msg_set_pr_def joza_msg_set_ps_def joza_msg_set_data_def
  joza_msg_set_packet_def joza_msg_set_window_def joza_msg_set_throughput_def
  joza_msg_set_cause_def joza_msg_set_diagnostic_def joza_msg_set_directionality_def
  joza_msg_set_workers_def

lemmas msg_string_setters = joza_msg_set_calling_address_def joza_msg_set_called_address_def
  joza_msg_set_host_name_def

section \<open>Printable command\<close>

definition joza_msg_const_command :: "joza_msg \<Rightarrow> string" where
  "joza_msg_const_command self =
     (let i = m_id self in
      if i = JOZA_MSG_DATA then ''DATA'' else
      if i = JOZA_MSG_RR then ''RR'' else
      if i = JOZA_MSG_RNR then ''RNR'' else
      if i = JOZA_MSG_CALL_REQUEST then ''CALL_REQUEST'' else
      if i = JOZA_MSG_CALL_ACCEPTED then ''CALL_ACCEPTED'' else
      if i = JOZA_MSG_CLEAR_REQUEST then ''CLEAR_REQUEST'' else
      if i = JOZA_MSG_CLEAR_CONFIRMATION then ''CLEAR_CONFIRMATION'' else
      if i = JOZA_MSG_RESET_REQUEST then ''RESET_REQUEST'' else
      if i = JOZA_MSG_RESET_CONFIRMATION then ''RESET_CONFIRMATION'' else
      if i = JOZA_MSG_CONNECT then ''CONNECT'' else
      if i = JOZA_MSG_CONNECT_INDICATION then ''CONNECT_INDICATION'' else
      if i = JOZA_MSG_DISCONNECT then ''DISCONNECT'' else
      if i = JOZA_MSG_DISCONNECT_INDICATION then ''DISCONNECT_INDICATION'' else
      if i = JOZA_MSG_DIAGNOSTIC then ''DIAGNOSTIC'' else
      if i = JOZA_MSG_DIRECTORY_REQUEST then ''DIRECTORY_REQUEST'' else
      if i = JOZA_MSG_DIRECTORY then ''DIRECTORY'' else
      if i = JOZA_MSG_ENQ then ''ENQ'' else
      if i = JOZA_MSG_ACK then ''ACK'' else
      ''?'')"

section \<open>Duplication\<close>

text \<open>\<^verbatim>\<open>strdup\<close> of a member; there is no string behind a null pointer.\<close>

definition strdup :: "cstr option \<Rightarrow> cstr option res" where
  "strdup s = (case s of None \<Rightarrow> Inl Undefined | Some t \<Rightarrow> Inr (Some t))"

definition dup_call :: "joza_msg \<Rightarrow> joza_msg \<Rightarrow> joza_msg res" where
  "dup_call self copy =
     bind_res (strdup (m_calling_address self)) (\<lambda>a.
     bind_res (strdup (m_called_address self)) (\<lambda>b.
     Inr (copy\<lparr>m_calling_address := a, m_called_address := b, m_packet := m_packet self,
       m_window := m_window self, m_throughput := m_throughput self, m_data := m_data self\<rparr>)))"

definition joza_msg_dup :: "joza_msg option \<Rightarrow> joza_msg option res" where
  "joza_msg_dup self_p =
     (case self_p of
        None \<Rightarrow> Inr None
      | Some self \<Rightarrow>
        let copy = (joza_msg_new (m_id self))\<lparr>m_address := m_address self\<rparr>; i = m_id self in
        bind_res
          (if i = JOZA_MSG_DATA then
             Inr (copy\<lparr>m_q := m_q self, m_pr := m_pr self, m_ps := m_ps self, m_data := m_data self\<rparr>)
           else if i = JOZA_MSG_RR \<or> i = JOZA_MSG_RNR then Inr (copy\<lparr>m_pr := m_pr self\<rparr>)
           else if i = JOZA_MSG_CALL_REQUEST \<or> i = JOZA_MSG_CALL_ACCEPTED then dup_call self copy
           else if i = JOZA_MSG_CLEAR_REQUEST \<or> i = JOZA_MSG_RESET_REQUEST \<or> i = JOZA_MSG_DIAGNOSTIC then
             Inr (copy\<lparr>m_cause := m_cause self, m_diagnostic := m_diagnostic self\<rparr>)
           else if i = JOZA_MSG_CONNECT then
             bind_res (strdup (m_protocol self)) (\<lambda>p.
             bind_res (strdup (m_calling_address self)) (\<lambda>a.
             bind_res (strdup (m_host_name self)) (\<lambda>h.
             Inr (copy\<lparr>m_protocol := p, m_version := m_version self, m_calling_address := a,
               m_host_name := h, m_directionality := m_directionality self\<rparr>))))
           else if i = JOZA_MSG_DIRECTORY then
             bind_res (zhash_dup (m_workers self)) (\<lambda>h. Inr (copy\<lparr>m_workers := h\<rparr>))
           else Inr copy)
          (\<lambda>m. Inr (Some m)))"

section \<open>The directory of a message\<close>

definition joza_msg_workers_string :: "joza_msg \<Rightarrow> cstr \<Rightarrow> zitem option \<Rightarrow> zitem option" where
  "joza_msg_workers_string self key default_value =
     (let value = (case m_workers self of None \<Rightarrow> None | Some h \<Rightarrow> map_of h key)
      in if value = None then default_value else value)"

text \<open>\<^verbatim>\<open>atol\<close>: leading white space, a sign, and the digits up to the first other character.\<close>

definition c_isspace :: "byte \<Rightarrow> bool" where
  "c_isspace c \<longleftrightarrow> c = 32 \<or> (9 \<le> c \<and> c \<le> 13)"

fun atol_digits :: "int \<Rightarrow> cstr \<Rightarrow> int" where
  "atol_digits acc [] = acc"
| "atol_digits acc (c # cs) =
     (if 48 \<le> c \<and> c \<le> 57 then atol_digits (10 * acc + (uint c - 48)) cs else acc)"

definition atol :: "cstr \<Rightarrow> int res" where
  "atol s =
     (let t = dropWhile c_isspace s;
          v = (case t of
                 [] \<Rightarrow> 0
               | c # cs \<Rightarrow> if c = 45 then - atol_digits 0 cs
                          else if c = 43 then atol_digits 0 cs else atol_digits 0 t)
      in if - (2 ^ 63) \<le> v \<and> v < 2 ^ 63 then Inr v else Inl Undefined)"

definition joza_msg_workers_number :: "joza_msg \<Rightarrow> cstr \<Rightarrow> u64 \<Rightarrow> u64 res" where
  "joza_msg_workers_number self key default_value =
     (case (case m_workers self of None \<Rightarrow> None | Some h \<Rightarrow> map_of h key) of
        None \<Rightarrow> Inr default_value
      | Some item \<Rightarrow>
        bind_res (item_text item) (\<lambda>s. bind_res (atol s) (\<lambda>v. Inr (word_of_int v))))"

definition joza_msg_workers_insert :: "joza_msg \<Rightarrow> cstr \<Rightarrow> cstr option \<Rightarrow> joza_msg res" where
  "joza_msg_workers_insert self key format =
     bind_res (vsnprintf STRING_MAX format) (\<lambda>s.
     let h = (case m_workers self of None \<Rightarrow> [] | Some h \<Rightarrow> h)
     in Inr (self\<lparr>m_workers := Some (zhash_update h key (Item s))\<rparr>))"

text \<open>\<^verbatim>\<open>zhash_size\<close> has no table behind a null pointer.\<close>

definition joza_msg_workers_size :: "joza_msg \<Rightarrow> nat res" where
  "joza_msg_workers_size self =
     (case m_workers self of None \<Rightarrow> Inl Undefined | Some h \<Rightarrow> Inr (length h))"

section \<open>Lemmas\<close>

lemma STRING_MAX_gt_0 [simp]: "0 < STRING_MAX"
  by (simp add: STRING_MAX_def)

lemma joza_msg_new_sel [simp]:
  "m_address (joza_msg_new i) = None" "m_id (joza_msg_new i) = i" "m_data (joza_msg_new i) = None"
  "m_calling_address (joza_msg_new i) = None" "m_called_address (joza_msg_new i) = None"
  "m_host_name (joza_msg_new i) = None" "m_protocol (joza_msg_new i) = None"
  "m_workers (joza_msg_new i) = None" "m_workers_bytes (joza_msg_new i) = 0"
  by (simp_all add: joza_msg_new_def)

lemma set_calling_address_plain:
  "37 \<notin> set s \<Longrightarrow> length s < STRING_MAX \<Longrightarrow>
     joza_msg_set_calling_address self (Some s) = Inr (self\<lparr>m_calling_address := Some s\<rparr>)"
  by (simp add: joza_msg_set_calling_address_def vsnprintf_plain)

lemma set_called_address_plain:
  "37 \<notin> set s \<Longrightarrow> length s < STRING_MAX \<Longrightarrow>
     joza_msg_set_called_address self (Some s) = Inr (self\<lparr>m_called_address := Some s\<rparr>)"
  by (simp add: joza_msg_set_called_address_def vsnprintf_plain)

lemma set_host_name_plain:
  "37 \<notin> set s \<Longrightarrow> length s < STRING_MAX \<Longrightarrow>
     joza_msg_set_host_name self (Some s) = Inr (self\<lparr>m_host_name := Some s\<rparr>)"
  by (simp add: joza_msg_set_host_name_def vsnprintf_plain)

text \<open>The insert/lookup law of the directory of a message.\<close>

lemma workers_insert_string:
  "joza_msg_workers_insert self key format = Inr self' \<Longrightarrow>
     joza_msg_workers_string self' k d =
       (if k = key then Some (Item (projr (vsnprintf STRING_MAX format)))
        else joza_msg_workers_string self k d)"
  by (auto simp: joza_msg_workers_insert_def joza_msg_workers_string_def res_simps
      map_of_zhash_update Let_def split: option.splits)

end
