(* ===== verification/Joza_Codec.thy ===== *)
theory Joza_Codec
  imports Joza_Msg
begin

text \<open>
  The wire format of \<^verbatim>\<open>src/joza_msg.c\<close>: the field macros, \<^verbatim>\<open>joza_msg_recv\<close> and
  \<^verbatim>\<open>joza_msg_send\<close>. The cursor \<^verbatim>\<open>needle\<close> of a reader is the list of bytes up to \<^verbatim>\<open>ceiling\<close>, and
  a \<^verbatim>\<open>goto malformed\<close> is \<open>None\<close>. The locale \<open>field_codec\<close> states what a pair of field macros
  promises; it is interpreted for the numbers and the strings of the format.
\<close>

section \<open>Field macros\<close>

definition PUT_NUMBER1 :: "byte \<Rightarrow> bytes" where
  "PUT_NUMBER1 host = [host]"

definition PUT_NUMBER2 :: "u16 \<Rightarrow> bytes" where
  "PUT_NUMBER2 host = [ucast (drop_bit 8 host AND 255), ucast (host AND 255)]"

definition PUT_NUMBER4 :: "u32 \<Rightarrow> bytes" where
  "PUT_NUMBER4 host =
     [ucast (drop_bit 24 host AND 255), ucast (drop_bit 16 host AND 255),
      ucast (drop_bit 8 host AND 255), ucast (host AND 255)]"

definition PUT_NUMBER8 :: "u64 \<Rightarrow> bytes" where
  "PUT_NUMBER8 host =
     [ucast (drop_bit 56 host AND 255), ucast (drop_bit 48 host AND 255),
      ucast (drop_bit 40 host AND 255), ucast (drop_bit 32 host AND 255),
      ucast (drop_bit 24 host AND 255), ucast (drop_bit 16 host AND 255),
      ucast (drop_bit 8 host AND 255), ucast (host AND 255)]"

fun GET_NUMBER1 :: "bytes \<Rightarrow> (byte \<times> bytes) option" where
  "GET_NUMBER1 (a # r) = Some (a, r)"
| "GET_NUMBER1 _ = None"

fun GET_NUMBER2 :: "bytes \<Rightarrow> (u16 \<times> bytes) option" where
  "GET_NUMBER2 (a # b # r) = Some (push_bit 8 (ucast a) + ucast b, r)"
| "GET_NUMBER2 _ = None"

fun GET_NUMBER4 :: "bytes \<Rightarrow> (u32 \<times> bytes) option" where
  "GET_NUMBER4 (a # b # c # d # r) =
     Some (push_bit 24 (ucast a) + push_bit 16 (ucast b) + push_bit 8 (ucast c) + ucast d, r)"
| "GET_NUMBER4 _ = None"

fun GET_NUMBER8 :: "bytes \<Rightarrow> (u64 \<times> bytes) option" where
  "GET_NUMBER8 (a # b # c # d # e # f # g # h # r) =
     Some (push_bit 56 (ucast a) + push_bit 48 (ucast b) + push_bit 40 (ucast c) +
       push_bit 32 (ucast d) + push_bit 24 (ucast e) + push_bit 16 (ucast f) +
       push_bit 8 (ucast g) + ucast h, r)"
| "GET_NUMBER8 _ = None"

text \<open>The length of a string is stored in one byte, whatever it is.\<close>

definition PUT_STRING :: "cstr \<Rightarrow> bytes" where
  "PUT_STRING host = PUT_NUMBER1 (of_nat (length host)) @ host"

text \<open>The string in the new buffer ends at its first NUL.\<close>

definition GET_STRING :: "bytes \<Rightarrow> (cstr \<times> bytes) option" where
  "GET_STRING bs =
     Option.bind (GET_NUMBER1 bs) (\<lambda>(n, r).
       if length r < unat n then None
       else Some (cstr_of (take (unat n) r), drop (unat n) r))"

text \<open>Strings that may be NULL, as \<^verbatim>\<open>joza_msg_send\<close> writes them.\<close>

definition put_string_or_empty :: "cstr option \<Rightarrow> bytes" where
  "put_string_or_empty s = (case s of None \<Rightarrow> PUT_NUMBER1 0 | Some t \<Rightarrow> PUT_STRING t)"

section \<open>The contract of a field\<close>

locale field_codec =
  fixes put :: "'a \<Rightarrow> bytes"
    and get :: "bytes \<Rightarrow> ('a \<times> bytes) option"
    and ok :: "'a \<Rightarrow> bool"
  assumes get_put: "ok x \<Longrightarrow> get (put x @ r) = Some (x, r)"
    and get_consumes: "get bs = Some (x, r) \<Longrightarrow> \<exists>p. bs = p @ r \<and> p \<noteq> []"
    and get_extends: "get bs = Some (x, r) \<Longrightarrow> get (bs @ t) = Some (x, r @ t)"
begin

lemma put_prefix_free:
  "ok x \<Longrightarrow> ok y \<Longrightarrow> put x @ r = put y @ s \<Longrightarrow> x = y \<and> r = s"
  by (metis get_put option.inject prod.inject)

lemma put_inj: "ok x \<Longrightarrow> ok y \<Longrightarrow> put x = put y \<Longrightarrow> x = y"
  using put_prefix_free [of x y "[]" "[]"] by simp

lemma put_nonempty: "ok x \<Longrightarrow> put x \<noteq> []"
  using get_consumes [OF get_put, of x "[]"] by auto

lemma get_shorter: "get bs = Some (x, r) \<Longrightarrow> length r < length bs"
  using get_consumes by fastforce

text \<open>Cut anywhere, the encoding of a value is rejected.\<close>

lemma truncated_rejected:
  assumes "ok x" "put x = p @ q" "q \<noteq> []"
  shows "get p = None"
proof (rule ccontr)
  assume "get p \<noteq> None"
  then obtain y r where "get p = Some (y, r)" by auto
  then have "get (p @ q) = Some (y, r @ q)" by (rule get_extends)
  then show False using get_put [of x "[]"] assms by simp
qed

end

section \<open>Words on the wire\<close>

lemma and_255 [byte_simps]: "x AND 255 = take_bit 8 (x :: 'a :: len word)"
  by (simp add: take_bit_eq_mask mask_eq_exp_minus_1)

lemma bit_low_byte [byte_simps]:
  "bit (ucast (ucast (x AND 255 :: 'a :: len word) :: byte) :: 'a word) n \<longleftrightarrow> n < 8 \<and> bit x n"
  unfolding and_255 by (auto simp: bit_simps dest: bit_imp_le_length)

text \<open>The bytes of a word from the top: each one adds its eight bits to the ones above.\<close>

lemma add_next_byte:
  fixes h :: "'a :: len word"
  shows "push_bit (k + 8) (drop_bit (k + 8) h) +
           push_bit k (ucast (ucast (drop_bit k h AND 255) :: byte)) = push_bit k (drop_bit k h)"
    (is "?a + ?b = ?c")
proof -
  have "?a + ?b = ?a OR ?b"
    by (rule disjunctive_add) (auto simp: bit_simps and_255)
  also have "\<dots> = ?c"
  proof (rule bit_eqI)
    fix n assume "possible_bit TYPE('a word) n"
    show "bit (?a OR ?b) n = bit ?c n"
      by (cases "n < k + 8") (auto simp: bit_simps and_255)
  qed
  finally show ?thesis .
qed

lemma top_byte:
  fixes h :: "'a :: len word"
  assumes "LENGTH('a) \<le> k + 8"
  shows "push_bit k (ucast (ucast (drop_bit k h AND 255) :: byte)) = push_bit k (drop_bit k h)"
  using assms by (intro bit_eqI) (auto simp: bit_simps and_255 dest: bit_imp_le_length)

lemmas next_bytes = add_next_byte [of 48, simplified] add_next_byte [of 40, simplified]
  add_next_byte [of 32, simplified] add_next_byte [of 24, simplified]
  add_next_byte [of 16, simplified] add_next_byte [of 8, simplified]
  add_next_byte [of 0, simplified]

lemma GET_PUT_NUMBER2: "GET_NUMBER2 (PUT_NUMBER2 h @ r) = Some (h, r)"
  by (simp add: PUT_NUMBER2_def top_byte next_bytes)

lemma GET_PUT_NUMBER4: "GET_NUMBER4 (PUT_NUMBER4 h @ r) = Some (h, r)"
  by (simp add: PUT_NUMBER4_def top_byte next_bytes)

lemma GET_PUT_NUMBER8: "GET_NUMBER8 (PUT_NUMBER8 h @ r) = Some (h, r)"
  by (simp add: PUT_NUMBER8_def top_byte next_bytes)

definition wire_string :: "cstr \<Rightarrow> bool" where
  "wire_string s \<longleftrightarrow> is_cstr s \<and> length s \<le> STRING_MAX"

lemma GET_PUT_STRING: "wire_string s \<Longrightarrow> GET_STRING (PUT_STRING s @ r) = Some (s, r)"
  by (simp add: GET_STRING_def PUT_STRING_def PUT_NUMBER1_def wire_string_def STRING_MAX_def
      unat_of_nat_byte)

lemma GET_STRING_Some:
  "GET_STRING bs = Some (s, r) \<longleftrightarrow>
     (\<exists>n p. bs = n # p @ r \<and> length p = unat n \<and> s = cstr_of p)"
proof (cases bs)
  case Nil
  then show ?thesis by (simp add: GET_STRING_def)
next
  case (Cons n t)
  then show ?thesis
    by (auto simp: GET_STRING_def) (metis append_take_drop_id length_take min.absorb2 not_less)
qed

interpretation number1: field_codec PUT_NUMBER1 GET_NUMBER1 "\<lambda>_. True"
proof unfold_locales
  fix bs r t :: bytes and x :: byte
  assume *: "GET_NUMBER1 bs = Some (x, r)"
  then have "bs = x # r" by (cases bs) auto
  then show "\<exists>p. bs = p @ r \<and> p \<noteq> []" "GET_NUMBER1 (bs @ t) = Some (x, r @ t)"
    by auto
qed (simp add: PUT_NUMBER1_def)

interpretation number2: field_codec PUT_NUMBER2 GET_NUMBER2 "\<lambda>_. True"
proof unfold_locales
  fix bs r t :: bytes and x :: u16
  assume *: "GET_NUMBER2 bs = Some (x, r)"
  then show "\<exists>p. bs = p @ r \<and> p \<noteq> []"
    by (cases bs rule: GET_NUMBER2.cases) auto
  show "GET_NUMBER2 (bs @ t) = Some (x, r @ t)"
    using * by (cases bs rule: GET_NUMBER2.cases) auto
qed (rule GET_PUT_NUMBER2)

interpretation number4: field_codec PUT_NUMBER4 GET_NUMBER4 "\<lambda>_. True"
proof unfold_locales
  fix bs r t :: bytes and x :: u32
  assume *: "GET_NUMBER4 bs = Some (x, r)"
  then have "\<exists>a b c d. bs = [a, b, c, d] @ r"
    by (cases bs rule: GET_NUMBER4.cases) auto
  then show "\<exists>p. bs = p @ r \<and> p \<noteq> []" by blast
  show "GET_NUMBER4 (bs @ t) = Some (x, r @ t)"
    using * by (cases bs rule: GET_NUMBER4.cases) auto
qed (rule GET_PUT_NUMBER4)

interpretation number8: field_codec PUT_NUMBER8 GET_NUMBER8 "\<lambda>_. True"
proof unfold_locales
  fix bs r t :: bytes and x :: u64
  assume *: "GET_NUMBER8 bs = Some (x, r)"
  then have "\<exists>a b c d e f g h. bs = [a, b, c, d, e, f, g, h] @ r"
    by (cases bs rule: GET_NUMBER8.cases) auto
  then show "\<exists>p. bs = p @ r \<and> p \<noteq> []" by blast
  show "GET_NUMBER8 (bs @ t) = Some (x, r @ t)"
    using * by (cases bs rule: GET_NUMBER8.cases) auto
qed (rule GET_PUT_NUMBER8)

interpretation string_field: field_codec PUT_STRING GET_STRING wire_string
proof unfold_locales
  fix bs r t :: bytes and x :: cstr
  assume *: "GET_STRING bs = Some (x, r)"
  then show "\<exists>p. bs = p @ r \<and> p \<noteq> []"
    unfolding GET_STRING_Some by (metis append_Cons list.distinct(1))
  show "GET_STRING (bs @ t) = Some (x, r @ t)"
    using * unfolding GET_STRING_Some by (metis append_Cons append_assoc)
qed (rule GET_PUT_STRING)

section \<open>Properties\<close>

text \<open>
  The number fields of the wire format, of one, two, four and eight bytes: reading what was
  written returns the number and leaves exactly the bytes after it.
\<close>

theorem number_fields_roundtrip:
  "GET_NUMBER1 (PUT_NUMBER1 a @ r) = Some (a, r) \<and> GET_NUMBER2 (PUT_NUMBER2 b @ r) = Some (b, r) \<and>
   GET_NUMBER4 (PUT_NUMBER4 c @ r) = Some (c, r) \<and> GET_NUMBER8 (PUT_NUMBER8 d @ r) = Some (d, r)"
  using number1.get_put number2.get_put number4.get_put number8.get_put by blast

text \<open>
  The string field: a string of at most 255 bytes is read back as it was written, and its
  encoding cut short anywhere is rejected as malformed instead of being read past its end.
\<close>

theorem string_field_roundtrip:
  assumes "wire_string s" "PUT_STRING s = p @ q" "q \<noteq> []"
  shows "GET_STRING (PUT_STRING s @ r) = Some (s, r) \<and> GET_STRING p = None"
  using string_field.get_put [OF assms(1)] string_field.truncated_rejected [OF assms] by blast

theorem string_field_roundtrip_witness:
  "GET_STRING (PUT_STRING [72, 105] @ [7]) = Some ([72, 105], [7]) \<and> GET_STRING [2, 72] = None"
  by (rule string_field_roundtrip [where q = "[105]"])
    (simp_all add: wire_string_def STRING_MAX_def PUT_STRING_def PUT_NUMBER1_def)

end
