(* ===== verification/Joza_Transport.thy ===== *)
theory Joza_Transport
  imports Joza_Codec
begin

text \<open>
  \<^verbatim>\<open>joza_msg_recv\<close> and \<^verbatim>\<open>joza_msg_send\<close> of \<^verbatim>\<open>src/joza_msg.c\<close>, part by part in the order of the
  code: the loop that skips garbage, the parser of each message type; the computation of the
  frame size, the serializer of each message type, the sending of the frames. The result
  \<open>None\<close> of the receiver is its NULL.
\<close>

section \<open>Receiving: the signature loop\<close>

text \<open>\<^verbatim>\<open>0xAAA0 | 1\<close>\<close>

definition joza_signature :: u16 where
  "joza_signature = 0xAAA1"

text \<open>The loop that drops the rest of a message with a wrong signature.\<close>

function drain :: "world \<Rightarrow> world" where
  "drain w = (if zsocket_rcvmore w then drain (snd (zframe_recv w)) else w)"
  by pat_completeness auto
termination
  by (relation "measure (\<lambda>w. length (zcur w))")
    (auto simp: zsocket_rcvmore_def zframe_recv_def split: list.splits)

declare drain.simps [simp del]

lemma drain_eq: "drain w = w\<lparr>zcur := []\<rparr>"
proof (induction w rule: drain.induct)
  case (1 w)
  show ?case
  proof (cases "zcur w")
    case Nil
    then show ?thesis by (simp add: drain.simps zsocket_rcvmore_def)
  next
    case (Cons f fs)
    then have "drain w = drain (w\<lparr>zcur := fs\<rparr>)"
      by (subst drain.simps) (simp add: zsocket_rcvmore_def zframe_recv_def)
    then show ?thesis using 1 Cons by (simp add: zsocket_rcvmore_def zframe_recv_def)
  qed
qed

lemma recv_two_pending:
  assumes "(Some f, w2) = zframe_recv w1"
    and "(a, w1) = (if zrouter w then zframe_recv w else (None, w))"
  shows "pending (drain w2) < pending w"
proof -
  have "pending w1 \<le> pending w"
    using assms(2) pending_recv_le [of w] by (auto simp: prod_eq_iff split: if_splits)
  moreover have "pending w1 = Suc (pending w2)"
    using assms(1) by (metis zframe_recv_pending)
  moreover have "pending (drain w2) \<le> pending w2"
    by (simp add: drain_eq pending_def)
  ultimately show ?thesis by simp
qed

text \<open>
  The address of the peer, if the socket has one, and the bytes after a valid signature.
\<close>

function recv_command :: "world \<Rightarrow> (zframe option \<times> bytes) option \<times> world" where
  "recv_command w =
     (let (address, w1) = (if zrouter w then zframe_recv w else (None, w)) in
      if zrouter w \<and> address = None then (None, w1)
      else if zrouter w \<and> \<not> zsocket_rcvmore w1 then (None, w1)
      else case zframe_recv w1 of
             (None, w2) \<Rightarrow> (None, w2)
           | (Some frame, w2) \<Rightarrow>
             (case GET_NUMBER2 frame of
                None \<Rightarrow> (None, w2)
              | Some (signature, needle) \<Rightarrow>
                if signature = joza_signature then (Some (address, needle), w2)
                else recv_command (drain w2)))"
  by pat_completeness auto
termination
  by (relation "measure pending") (simp, simp only: in_measure, rule recv_two_pending)

declare recv_command.simps [simp del]

section \<open>Receiving: the message types\<close>

definition get_data :: "joza_msg \<Rightarrow> bytes \<Rightarrow> joza_msg option" where
  "get_data self bs =
     Option.bind (GET_NUMBER1 bs) (\<lambda>(q, bs).
     Option.bind (GET_NUMBER2 bs) (\<lambda>(pr, bs).
     Option.bind (GET_NUMBER2 bs) (\<lambda>(ps, bs).
     Some (self\<lparr>m_q := q, m_pr := pr, m_ps := ps\<rparr>))))"

definition get_rr :: "joza_msg \<Rightarrow> bytes \<Rightarrow> joza_msg option" where
  "get_rr self bs = Option.bind (GET_NUMBER2 bs) (\<lambda>(pr, bs). Some (self\<lparr>m_pr := pr\<rparr>))"

definition get_call :: "joza_msg \<Rightarrow> bytes \<Rightarrow> joza_msg option" where
  "get_call self bs =
     Option.bind (GET_STRING bs) (\<lambda>(calling_address, bs).
     Option.bind (GET_STRING bs) (\<lambda>(called_address, bs).
     Option.bind (GET_NUMBER1 bs) (\<lambda>(packet, bs).
     Option.bind (GET_NUMBER2 bs) (\<lambda>(window, bs).
     Option.bind (GET_NUMBER1 bs) (\<lambda>(throughput, bs).
     Some (self\<lparr>m_calling_address := Some calling_address, m_called_address := Some called_address,
       m_packet := packet, m_window := window, m_throughput := throughput\<rparr>))))))"

definition get_cause :: "joza_msg \<Rightarrow> bytes \<Rightarrow> joza_msg option" where
  "get_cause self bs =
     Option.bind (GET_NUMBER1 bs) (\<lambda>(cause, bs).
     Option.bind (GET_NUMBER1 bs) (\<lambda>(diagnostic, bs).
     Some (self\<lparr>m_cause := cause, m_diagnostic := diagnostic\<rparr>)))"

definition get_connect :: "joza_msg \<Rightarrow> bytes \<Rightarrow> joza_msg option" where
  "get_connect self bs =
     Option.bind (GET_STRING bs) (\<lambda>(protocol, bs).
     if protocol \<noteq> lit ''~SVC'' then None else
     Option.bind (GET_NUMBER1 bs) (\<lambda>(version, bs).
     if version \<noteq> JOZA_MSG_VERSION then None else
     Option.bind (GET_STRING bs) (\<lambda>(calling_address, bs).
     Option.bind (GET_STRING bs) (\<lambda>(host_name, bs).
     Option.bind (GET_NUMBER1 bs) (\<lambda>(directionality, bs).
     Some (self\<lparr>m_protocol := Some protocol, m_version := version,
       m_calling_address := Some calling_address, m_host_name := Some host_name,
       m_directionality := directionality\<rparr>))))))"

text \<open>
  The entries of a directory: the string is cut at its first \<open>=\<close>; without one the item is NULL.
\<close>

fun get_directory :: "zitem res \<Rightarrow> nat \<Rightarrow> bytes \<Rightarrow> zhash \<Rightarrow> zhash option res" where
  "get_directory null 0 bs h = Inr (Some h)"
| "get_directory null (Suc hash_size) bs h =
     (case GET_STRING bs of
        None \<Rightarrow> Inr None
      | Some (string, bs') \<Rightarrow>
        bind_res (if 61 \<in> set string then Inr (Item (tl (dropWhile (\<lambda>c. c \<noteq> 61) string))) else null)
          (\<lambda>value. get_directory null hash_size bs'
             (zhash_insert h (takeWhile (\<lambda>c. c \<noteq> 61) string) value)))"

text \<open>The frame that follows DATA, CALL_REQUEST and CALL_ACCEPTED.\<close>

definition recv_data :: "joza_msg option \<Rightarrow> joza_msg option io" where
  "recv_data m w =
     (case m of
        None \<Rightarrow> Inr (None, w)
      | Some self \<Rightarrow>
        if \<not> zsocket_rcvmore w then Inr (None, w)
        else case zframe_recv w of (z, w') \<Rightarrow> Inr (Some (self\<lparr>m_data := z\<rparr>), w'))"

definition recv_body :: "joza_msg \<Rightarrow> bytes \<Rightarrow> joza_msg option io" where
  "recv_body self bs w =
     (let i = m_id self in
      if i = JOZA_MSG_DATA then recv_data (get_data self bs) w
      else if i = JOZA_MSG_RR then Inr (get_rr self bs, w)
      else if i = JOZA_MSG_RNR then Inr (get_rr self bs, w)
      else if i = JOZA_MSG_CALL_REQUEST then recv_data (get_call self bs) w
      else if i = JOZA_MSG_CALL_ACCEPTED then recv_data (get_call self bs) w
      else if i = JOZA_MSG_CLEAR_REQUEST then Inr (get_cause self bs, w)
      else if i = JOZA_MSG_CLEAR_CONFIRMATION then Inr (Some self, w)
      else if i = JOZA_MSG_RESET_REQUEST then Inr (get_cause self bs, w)
      else if i = JOZA_MSG_RESET_CONFIRMATION then Inr (Some self, w)
      else if i = JOZA_MSG_CONNECT then Inr (get_connect self bs, w)
      else if i = JOZA_MSG_CONNECT_INDICATION then Inr (Some self, w)
      else if i = JOZA_MSG_DISCONNECT then Inr (Some self, w)
      else if i = JOZA_MSG_DISCONNECT_INDICATION then Inr (Some self, w)
      else if i = JOZA_MSG_DIAGNOSTIC then Inr (get_cause self bs, w)
      else if i = JOZA_MSG_DIRECTORY_REQUEST then Inr (Some self, w)
      else if i = JOZA_MSG_DIRECTORY then
        (case GET_NUMBER1 bs of
           None \<Rightarrow> Inr (None, w)
         | Some (hash_size, bs') \<Rightarrow>
           bind_res (get_directory (znull w) (unat hash_size) bs' []) (\<lambda>h.
             Inr (map_option (\<lambda>t. self\<lparr>m_workers := Some t\<rparr>) h, w)))
      else if i = JOZA_MSG_ENQ then Inr (Some self, w)
      else if i = JOZA_MSG_ACK then Inr (Some self, w)
      else Inr (None, w))"

definition joza_msg_recv :: "joza_msg option io" where
  "joza_msg_recv w =
     (case recv_command w of
        (None, w') \<Rightarrow> Inr (None, w')
      | (Some (address, needle), w') \<Rightarrow>
        (case GET_NUMBER1 needle of
           None \<Rightarrow> Inr (None, w')
         | Some (i, bs) \<Rightarrow>
           recv_body ((joza_msg_new 0)\<lparr>m_address := address, m_id := uint i\<rparr>) bs w'))"

section \<open>Sending: the size of the frame\<close>

definition s_workers_count :: "cstr \<times> zitem \<Rightarrow> nat res" where
  "s_workers_count p = bind_res (item_text (snd p)) (\<lambda>s. Inr (length (fst p) + 1 + length s + 1))"

fun sum_res :: "nat res list \<Rightarrow> nat res" where
  "sum_res [] = Inr 0"
| "sum_res (r # rs) = bind_res r (\<lambda>n. bind_res (sum_res rs) (\<lambda>m. Inr (n + m)))"

definition string_size :: "cstr option \<Rightarrow> nat" where
  "string_size s = 1 + (case s of None \<Rightarrow> 0 | Some t \<Rightarrow> length t)"

definition frame_size :: "joza_msg \<Rightarrow> world \<Rightarrow> nat res" where
  "frame_size self w =
     (let i = m_id self; size = 2 + 1 in
      if i = JOZA_MSG_DATA then Inr (size + 1 + 2 + 2)
      else if i = JOZA_MSG_RR then Inr (size + 2)
      else if i = JOZA_MSG_RNR then Inr (size + 2)
      else if i = JOZA_MSG_CALL_REQUEST \<or> i = JOZA_MSG_CALL_ACCEPTED then
        Inr (size + string_size (m_calling_address self) + string_size (m_called_address self) + 1 + 2 + 1)
      else if i = JOZA_MSG_CLEAR_REQUEST then Inr (size + 1 + 1)
      else if i = JOZA_MSG_CLEAR_CONFIRMATION then Inr size
      else if i = JOZA_MSG_RESET_REQUEST then Inr (size + 1 + 1)
      else if i = JOZA_MSG_RESET_CONFIRMATION then Inr size
      else if i = JOZA_MSG_CONNECT then
        Inr (size + 1 + length (lit ''~SVC'') + 1 + string_size (m_calling_address self) +
          string_size (m_host_name self) + 1)
      else if i = JOZA_MSG_CONNECT_INDICATION then Inr size
      else if i = JOZA_MSG_DISCONNECT then Inr size
      else if i = JOZA_MSG_DISCONNECT_INDICATION then Inr size
      else if i = JOZA_MSG_DIAGNOSTIC then Inr (size + 1 + 1)
      else if i = JOZA_MSG_DIRECTORY_REQUEST then Inr size
      else if i = JOZA_MSG_DIRECTORY then
        bind_res (case m_workers self of
                    None \<Rightarrow> Inr (m_workers_bytes self)
                  | Some h \<Rightarrow> sum_res (map s_workers_count (zorder w h)))
          (\<lambda>workers_bytes. Inr (size + 1 + workers_bytes))
      else if i = JOZA_MSG_ENQ then Inr size
      else if i = JOZA_MSG_ACK then Inr size
      else Inl Assert_failed)"

section \<open>Sending: serialization\<close>

definition s_workers_write :: "cstr \<times> zitem \<Rightarrow> bytes res" where
  "s_workers_write p =
     bind_res (item_text (snd p)) (\<lambda>s. Inr (PUT_STRING (take (STRING_MAX - 1) (fst p @ 61 # s))))"

fun concat_res :: "bytes res list \<Rightarrow> bytes res" where
  "concat_res [] = Inr []"
| "concat_res (r # rs) = bind_res r (\<lambda>a. bind_res (concat_res rs) (\<lambda>b. Inr (a @ b)))"

definition put_call :: "joza_msg \<Rightarrow> bytes" where
  "put_call self =
     put_string_or_empty (m_calling_address self) @ put_string_or_empty (m_called_address self) @
     PUT_NUMBER1 (m_packet self) @ PUT_NUMBER2 (m_window self) @ PUT_NUMBER1 (m_throughput self)"

definition put_cause :: "joza_msg \<Rightarrow> bytes" where
  "put_cause self = PUT_NUMBER1 (m_cause self) @ PUT_NUMBER1 (m_diagnostic self)"

definition put_connect :: "joza_msg \<Rightarrow> bytes" where
  "put_connect self =
     PUT_STRING (lit ''~SVC'') @ PUT_NUMBER1 JOZA_MSG_VERSION @
     put_string_or_empty (m_calling_address self) @ put_string_or_empty (m_host_name self) @
     PUT_NUMBER1 (m_directionality self)"

definition serialize_body :: "joza_msg \<Rightarrow> world \<Rightarrow> bytes res" where
  "serialize_body self w =
     (let i = m_id self in
      if i = JOZA_MSG_DATA then
        Inr (PUT_NUMBER1 (m_q self) @ PUT_NUMBER2 (m_pr self) @ PUT_NUMBER2 (m_ps self))
      else if i = JOZA_MSG_RR then Inr (PUT_NUMBER2 (m_pr self))
      else if i = JOZA_MSG_RNR then Inr (PUT_NUMBER2 (m_pr self))
      else if i = JOZA_MSG_CALL_REQUEST then Inr (put_call self)
      else if i = JOZA_MSG_CALL_ACCEPTED then Inr (put_call self)
      else if i = JOZA_MSG_CLEAR_REQUEST then Inr (put_cause self)
      else if i = JOZA_MSG_RESET_REQUEST then Inr (put_cause self)
      else if i = JOZA_MSG_CONNECT then Inr (put_connect self)
      else if i = JOZA_MSG_DIAGNOSTIC then Inr (put_cause self)
      else if i = JOZA_MSG_DIRECTORY then
        (case m_workers self of
           None \<Rightarrow> Inr (PUT_NUMBER1 0)
         | Some h \<Rightarrow>
           bind_res (concat_res (map s_workers_write (zorder w h))) (\<lambda>b.
             Inr (PUT_NUMBER1 (of_nat (length h)) @ b)))
      else Inr [])"

definition frame_flags :: "joza_msg \<Rightarrow> bool" where
  "frame_flags self =
     (m_id self = JOZA_MSG_DATA \<or> m_id self = JOZA_MSG_CALL_REQUEST \<or> m_id self = JOZA_MSG_CALL_ACCEPTED)"

text \<open>
  The frame that \<^verbatim>\<open>joza_msg_send\<close> makes: \<open>frame_size\<close> bytes of which the first are written. A
  write past the end is undefined.
\<close>

definition joza_msg_frame :: "joza_msg \<Rightarrow> world \<Rightarrow> zframe res" where
  "joza_msg_frame self w =
     bind_res (frame_size self w) (\<lambda>size.
     bind_res (serialize_body self w) (\<lambda>body.
       let out = PUT_NUMBER2 joza_signature @ PUT_NUMBER1 (word_of_int (m_id self)) @ body
       in if size < length out then Inl Undefined
          else Inr (out @ zframe_junk w (size - length out))))"

section \<open>Sending: the frames\<close>

definition send_data :: "joza_msg \<Rightarrow> int io" where
  "send_data self w =
     (if frame_flags self
      then case zframe_send (case m_data self of None \<Rightarrow> [] | Some d \<Rightarrow> d) False w of
             (ret, w') \<Rightarrow> if ret \<noteq> 0 then Inr (-1, w') else Inr (0, w')
      else Inr (0, w))"

definition transmit :: "joza_msg \<Rightarrow> zframe \<Rightarrow> int io" where
  "transmit self frame w =
     (case zframe_send frame (frame_flags self) w of
        (ret, w') \<Rightarrow> if ret \<noteq> 0 then Inr (-1, w') else send_data self w')"

definition joza_msg_send :: "joza_msg \<Rightarrow> int io" where
  "joza_msg_send self w =
     bind_res (joza_msg_frame self w) (\<lambda>frame.
       if zrouter w
       then case m_address self of
              None \<Rightarrow> Inl Assert_failed
            | Some address \<Rightarrow>
              (case zframe_send address True w of
                 (ret, w') \<Rightarrow> if ret \<noteq> 0 then Inr (-1, w') else transmit self frame w')
       else transmit self frame w)"

section \<open>What a message becomes on the way\<close>

text \<open>
  A sendable message: one of the eighteen types, strings that fit their length byte, and a
  directory whose entries fit in a string of their own and whose keys have no \<open>=\<close>.
\<close>

definition wire_string_opt :: "cstr option \<Rightarrow> bool" where
  "wire_string_opt s = (case s of None \<Rightarrow> True | Some t \<Rightarrow> wire_string t)"

definition wire_entry :: "cstr \<times> zitem \<Rightarrow> bool" where
  "wire_entry p =
     (case snd p of
        Dangling \<Rightarrow> False
      | Item s \<Rightarrow> is_cstr (fst p) \<and> is_cstr s \<and> 61 \<notin> set (fst p) \<and> length (fst p) + 1 + length s < STRING_MAX)"

definition wire_directory :: "joza_msg \<Rightarrow> bool" where
  "wire_directory self =
     (case m_workers self of
        None \<Rightarrow> m_workers_bytes self = 0
      | Some h \<Rightarrow> length h < 256 \<and> distinct (map fst h) \<and> list_all wire_entry h)"

definition sendable :: "joza_msg \<Rightarrow> bool" where
  "sendable self \<longleftrightarrow> 0 \<le> m_id self \<and> m_id self \<le> 17 \<and> wire_string_opt (m_calling_address self) \<and>
     wire_string_opt (m_called_address self) \<and> wire_string_opt (m_host_name self) \<and> wire_directory self"

text \<open>The message the peer gets: the fields of the type, with empty strings and data for NULL.\<close>

definition string_of :: "cstr option \<Rightarrow> cstr option" where
  "string_of s = Some (case s of None \<Rightarrow> [] | Some t \<Rightarrow> t)"

definition data_of :: "joza_msg \<Rightarrow> zframe" where
  "data_of self = (case m_data self of None \<Rightarrow> [] | Some d \<Rightarrow> d)"

definition received_form :: "world \<Rightarrow> joza_msg \<Rightarrow> joza_msg" where
  "received_form w self =
     (let i = m_id self; m = joza_msg_new i in
      if i = JOZA_MSG_DATA then
        m\<lparr>m_q := m_q self, m_pr := m_pr self, m_ps := m_ps self, m_data := Some (data_of self)\<rparr>
      else if i = JOZA_MSG_RR \<or> i = JOZA_MSG_RNR then m\<lparr>m_pr := m_pr self\<rparr>
      else if i = JOZA_MSG_CALL_REQUEST \<or> i = JOZA_MSG_CALL_ACCEPTED then
        m\<lparr>m_calling_address := string_of (m_calling_address self),
          m_called_address := string_of (m_called_address self), m_packet := m_packet self,
          m_window := m_window self, m_throughput := m_throughput self, m_data := Some (data_of self)\<rparr>
      else if i = JOZA_MSG_CLEAR_REQUEST \<or> i = JOZA_MSG_RESET_REQUEST \<or> i = JOZA_MSG_DIAGNOSTIC then
        m\<lparr>m_cause := m_cause self, m_diagnostic := m_diagnostic self\<rparr>
      else if i = JOZA_MSG_CONNECT then
        m\<lparr>m_protocol := Some (lit ''~SVC''), m_version := JOZA_MSG_VERSION,
          m_calling_address := string_of (m_calling_address self),
          m_host_name := string_of (m_host_name self), m_directionality := m_directionality self\<rparr>
      else if i = JOZA_MSG_DIRECTORY then
        m\<lparr>m_workers := Some (case m_workers self of None \<Rightarrow> [] | Some h \<Rightarrow> zorder w h)\<rparr>
      else m)"

section \<open>Parsers undo serializers\<close>

lemma wire_string_Nil [simp]: "wire_string []"
  by (simp add: wire_string_def)

lemma wire_string_SVC [simp]: "wire_string (lit ''~SVC'')"
  by (simp add: wire_string_def STRING_MAX_def lit_def)

lemma GET_string_or_empty:
  assumes "wire_string_opt s"
  shows "GET_STRING (put_string_or_empty s @ r) = Some (the (string_of s), r)"
proof (cases s)
  case None
  have "put_string_or_empty None = PUT_STRING []"
    by (simp add: put_string_or_empty_def PUT_STRING_def)
  then show ?thesis using None string_field.get_put [of "[]" r] by (simp add: string_of_def)
next
  case (Some t)
  then show ?thesis
    using assms string_field.get_put [of t r]
    by (simp add: put_string_or_empty_def string_of_def wire_string_opt_def)
qed

lemma string_of_the [simp]: "Some (the (string_of s)) = string_of s"
  by (simp add: string_of_def)

lemmas get_put_fields = number1.get_put [OF TrueI] number2.get_put [OF TrueI] string_field.get_put
  GET_string_or_empty

lemma get_data_put:
  "get_data m (PUT_NUMBER1 q @ PUT_NUMBER2 a @ PUT_NUMBER2 b @ r) =
     Some (m\<lparr>m_q := q, m_pr := a, m_ps := b\<rparr>)"
  by (simp add: get_data_def get_put_fields)

lemma get_rr_put: "get_rr m (PUT_NUMBER2 a @ r) = Some (m\<lparr>m_pr := a\<rparr>)"
  by (simp add: get_rr_def get_put_fields)

lemma get_cause_put:
  "get_cause m (put_cause self @ r) =
     Some (m\<lparr>m_cause := m_cause self, m_diagnostic := m_diagnostic self\<rparr>)"
  by (simp add: get_cause_def put_cause_def get_put_fields)

lemma get_call_put:
  "wire_string_opt (m_calling_address self) \<Longrightarrow> wire_string_opt (m_called_address self) \<Longrightarrow>
   get_call m (put_call self @ r) =
     Some (m\<lparr>m_calling_address := string_of (m_calling_address self),
       m_called_address := string_of (m_called_address self), m_packet := m_packet self,
       m_window := m_window self, m_throughput := m_throughput self\<rparr>)"
  by (simp add: get_call_def put_call_def get_put_fields)

lemma get_connect_put:
  "wire_string_opt (m_calling_address self) \<Longrightarrow> wire_string_opt (m_host_name self) \<Longrightarrow>
   get_connect m (put_connect self @ r) =
     Some (m\<lparr>m_protocol := Some (lit ''~SVC''), m_version := JOZA_MSG_VERSION,
       m_calling_address := string_of (m_calling_address self),
       m_host_name := string_of (m_host_name self), m_directionality := m_directionality self\<rparr>)"
  by (simp add: get_connect_def put_connect_def get_put_fields)

lemma wire_entry_write:
  assumes "wire_entry (k, v)"
  obtains t where "v = Item t" "s_workers_write (k, v) = Inr (PUT_STRING (k @ 61 # t))"
    "wire_string (k @ 61 # t)" "61 \<notin> set k"
    "s_workers_count (k, v) = Inr (length (PUT_STRING (k @ 61 # t)))"
  using assms that
  by (cases v) (auto simp: wire_entry_def s_workers_write_def s_workers_count_def item_text_def wire_string_def
      STRING_MAX_def PUT_STRING_def PUT_NUMBER1_def)

lemma takeWhile_key: "61 \<notin> set k \<Longrightarrow> takeWhile (\<lambda>c. c \<noteq> 61) (k @ (61 :: byte) # t) = k"
  by (induction k) auto

lemma dropWhile_key: "61 \<notin> set k \<Longrightarrow> dropWhile (\<lambda>c. c \<noteq> 61) (k @ (61 :: byte) # t) = 61 # t"
  by (induction k) auto

lemma directory_roundtrip:
  assumes "list_all wire_entry t" "distinct (map fst (h @ t))"
  shows "\<exists>b. concat_res (map s_workers_write t) = Inr b \<and>
           sum_res (map s_workers_count t) = Inr (length b) \<and>
           get_directory null (length t) (b @ r) h = Inr (Some (h @ t))"
  using assms
proof (induction t arbitrary: h)
  case Nil
  then show ?case by simp
next
  case (Cons p t)
  obtain k v where p: "p = (k, v)" by (cases p)
  then have "wire_entry (k, v)" using Cons.prems(1) by simp
  then obtain x where x: "v = Item x" "s_workers_write (k, v) = Inr (PUT_STRING (k @ 61 # x))"
      "wire_string (k @ 61 # x)" "61 \<notin> set k"
      "s_workers_count (k, v) = Inr (length (PUT_STRING (k @ 61 # x)))"
    by (rule wire_entry_write)
  obtain b where b: "concat_res (map s_workers_write t) = Inr b"
      "sum_res (map s_workers_count t) = Inr (length b)"
      "get_directory null (length t) (b @ r) (h @ [p]) = Inr (Some ((h @ [p]) @ t))"
    using Cons.IH [of "h @ [p]"] Cons.prems by auto
  have new: "zhash_insert h k v = h @ [p]"
    using Cons.prems(2) p by (auto simp: zhash_insert_def)
  have "get_directory null (length (p # t)) ((PUT_STRING (k @ 61 # x) @ b) @ r) h =
      Inr (Some (h @ p # t))"
    using string_field.get_put [OF x(3), of "b @ r"] x(1) x(4) b(3) new
    by (simp add: takeWhile_key dropWhile_key)
  then show ?case using b(1,2) x(2,5) p by simp
qed

text \<open>The eighteen identifiers.\<close>

lemma msg_id_cases:
  assumes "0 \<le> (mid :: int)" "mid \<le> 17"
  shows "mid = 0 \<or> mid = 1 \<or> mid = 2 \<or> mid = 3 \<or> mid = 4 \<or> mid = 5 \<or> mid = 6 \<or> mid = 7 \<or> mid = 8 \<or> mid = 9 \<or>
    mid = 10 \<or> mid = 11 \<or> mid = 12 \<or> mid = 13 \<or> mid = 14 \<or> mid = 15 \<or> mid = 16 \<or> mid = 17"
  using assms by presburger

lemma wire_directory_order:
  assumes "wire_directory self" "m_workers self = Some h" "\<And>h. mset (zorder w h) = mset h"
  shows "list_all wire_entry (zorder w h)" "distinct (map fst (zorder w h))"
    "length (zorder w h) = length h" "length h < 256"
proof -
  have "set (zorder w h) = set h"
    using assms(3) [of h] by (rule mset_eq_setD)
  moreover have "distinct (map fst (zorder w h)) = distinct (map fst h)"
    by (rule mset_eq_imp_distinct_iff) (simp add: assms(3))
  ultimately show "list_all wire_entry (zorder w h)" "distinct (map fst (zorder w h))"
    "length (zorder w h) = length h" "length h < 256"
    using assms(1,2) mset_eq_length [OF assms(3) [of h]]
    by (auto simp: wire_directory_def list_all_iff)
qed

text \<open>The frame has exactly the size that was computed for it.\<close>

lemma length_put_string_or_empty [simp]:
  "length (put_string_or_empty s) = string_size s"
  by (simp add: put_string_or_empty_def string_size_def PUT_STRING_def PUT_NUMBER1_def split: option.split)

lemma length_fields [simp]:
  "length (PUT_NUMBER1 a) = 1" "length (PUT_NUMBER2 b) = 2" "length (PUT_STRING s) = 1 + length s"
  by (simp_all add: PUT_NUMBER1_def PUT_NUMBER2_def PUT_STRING_def)

lemma sendable_frame:
  assumes "sendable self" "\<And>h. mset (zorder w h) = mset h"
  shows "\<exists>body. serialize_body self w = Inr body \<and> frame_size self w = Inr (3 + length body)"
proof (cases "m_id self = JOZA_MSG_DIRECTORY \<and> m_workers self \<noteq> None")
  case False
  have "0 \<le> m_id self" "m_id self \<le> 17" using assms(1) by (auto simp: sendable_def)
  from msg_id_cases [OF this] False show ?thesis
    using assms(1)
    by (auto simp: serialize_body_def frame_size_def Let_def msg_ids sendable_def wire_directory_def
        put_call_def put_cause_def put_connect_def split: option.splits)
next
  case True
  then obtain h where h: "m_workers self = Some h" by auto
  from wire_directory_order [OF _ h assms(2)] assms(1)
  have "list_all wire_entry (zorder w h)" "distinct (map fst (zorder w h))"
    by (auto simp: sendable_def)
  then obtain b where "concat_res (map s_workers_write (zorder w h)) = Inr b"
      "sum_res (map s_workers_count (zorder w h)) = Inr (length b)"
    using directory_roundtrip [of "zorder w h" "[]"] by auto
  then show ?thesis
    using True h by (auto simp: serialize_body_def frame_size_def msg_ids)
qed

lemma recv_body_directory:
  assumes "sendable self" "\<And>h. mset (zorder w h) = mset h" "m_id self = JOZA_MSG_DIRECTORY"
    and "serialize_body self w = Inr body"
  shows "recv_body ((joza_msg_new (m_id self))\<lparr>m_address := a\<rparr>) body v =
     Inr (Some ((received_form w self)\<lparr>m_address := a\<rparr>), v)"
proof (cases "m_workers self")
  case None
  then show ?thesis
    using assms(3,4)
    by (auto simp: recv_body_def serialize_body_def received_form_def msg_ids PUT_NUMBER1_def)
next
  case (Some h)
  have wd: "wire_directory self" using assms(1) by (simp add: sendable_def)
  note ord = wire_directory_order [OF wd Some assms(2)]
  obtain b where b: "concat_res (map s_workers_write (zorder w h)) = Inr b"
      "get_directory (znull v) (length (zorder w h)) b [] = Inr (Some (zorder w h))"
    using directory_roundtrip [of "zorder w h" "[]" "znull v" "[]"] ord by auto
  have "body = PUT_NUMBER1 (of_nat (length h)) @ b"
    using assms(3,4) Some b(1) by (simp add: serialize_body_def msg_ids)
  then show ?thesis
    using assms(3) Some b(2) ord
    by (simp add: recv_body_def received_form_def msg_ids PUT_NUMBER1_def unat_of_nat_byte)
qed

lemma recv_data_Some:
  "recv_data (Some m) (v\<lparr>zcur := [d]\<rparr>) = Inr (Some (m\<lparr>m_data := Some d\<rparr>), v\<lparr>zcur := []\<rparr>)"
  by (simp add: recv_data_def zsocket_rcvmore_def zframe_recv_def)

lemma recv_body_serialize:
  assumes "sendable self" "\<And>h. mset (zorder w h) = mset h" "serialize_body self w = Inr body"
  shows "recv_body ((joza_msg_new (m_id self))\<lparr>m_address := a\<rparr>) body
       (v\<lparr>zcur := (if frame_flags self then [data_of self] else [])\<rparr>) =
     Inr (Some ((received_form w self)\<lparr>m_address := a\<rparr>), v\<lparr>zcur := []\<rparr>)"
proof (cases "m_id self = JOZA_MSG_DIRECTORY")
  case True
  then show ?thesis
    using recv_body_directory [OF assms(1,2) True assms(3)] by (simp add: frame_flags_def msg_ids)
next
  case False
  have str: "wire_string_opt (m_calling_address self)" "wire_string_opt (m_called_address self)"
      "wire_string_opt (m_host_name self)" and ids: "0 \<le> m_id self" "m_id self \<le> 17"
    using assms(1) by (auto simp: sendable_def)
  note puts = get_data_put [where r = "[]", simplified] get_rr_put [where r = "[]", simplified]
    get_cause_put [where r = "[]", simplified] get_call_put [where r = "[]", simplified]
    get_connect_put [where r = "[]", simplified]
  from msg_id_cases [OF ids] False show ?thesis
    using assms(3) str
    by (elim disjE) (auto simp: recv_body_def serialize_body_def received_form_def frame_flags_def
        msg_ids puts recv_data_Some)
qed

text \<open>Receiving the frames of a message at the head of the queue.\<close>

lemma recv_command_frames:
  assumes "zcur v = []"
    and "zinbox v = (if zrouter v then (addr, (PUT_NUMBER2 joza_signature @ rest) # fs)
                     else (PUT_NUMBER2 joza_signature @ rest, fs)) # ms"
  shows "recv_command v =
     (Some (if zrouter v then Some addr else None, rest), v\<lparr>zinbox := ms, zcur := fs\<rparr>)"
  using assms
  by (subst recv_command.simps)
    (auto simp: zframe_recv_def zsocket_rcvmore_def Let_def GET_PUT_NUMBER2 split: if_splits)

lemma uint_msg_id: "0 \<le> i \<Longrightarrow> i \<le> 17 \<Longrightarrow> uint (word_of_int i :: byte) = i"
  by (simp add: unsigned_of_int take_bit_int_eq_self)

lemma joza_msg_recv_frame:
  assumes "sendable self" "\<And>h. mset (zorder w h) = mset h" "joza_msg_frame self w = Inr frame"
    and "zcur v = []"
    and "zinbox v = (if zrouter v then (addr, frame # (if frame_flags self then [data_of self] else []))
                     else (frame, if frame_flags self then [data_of self] else [])) # ms"
  shows "joza_msg_recv v =
     Inr (Some ((received_form w self)\<lparr>m_address := if zrouter v then Some addr else None\<rparr>),
          v\<lparr>zinbox := ms, zcur := []\<rparr>)"
proof -
  obtain body where body: "serialize_body self w = Inr body" "frame_size self w = Inr (3 + length body)"
    using sendable_frame [OF assms(1,2)] by auto
  then have frame: "frame = PUT_NUMBER2 joza_signature @ PUT_NUMBER1 (word_of_int (m_id self)) @ body"
    using assms(3) by (simp add: joza_msg_frame_def zframe_junk_def)
  have "m_id self \<ge> 0" "m_id self \<le> 17" using assms(1) by (auto simp: sendable_def)
  then have new: "(joza_msg_new 0)\<lparr>m_address := a, m_id := uint (word_of_int (m_id self) :: byte)\<rparr> =
      (joza_msg_new (m_id self))\<lparr>m_address := a\<rparr>" for a
    by (simp add: uint_msg_id joza_msg_new_def)
  have cmd: "recv_command v =
     (Some (if zrouter v then Some addr else None, PUT_NUMBER1 (word_of_int (m_id self)) @ body),
      (v\<lparr>zinbox := ms\<rparr>)\<lparr>zcur := if frame_flags self then [data_of self] else []\<rparr>)"
    using recv_command_frames [of v addr "PUT_NUMBER1 (word_of_int (m_id self)) @ body"
        "if frame_flags self then [data_of self] else []" ms] assms(4,5) frame by simp
  show ?thesis
    unfolding joza_msg_recv_def cmd using recv_body_serialize [OF assms(1,2) body(1), of _ "v\<lparr>zinbox := ms\<rparr>"]
    by (simp add: number1.get_put new)
qed

section \<open>Sending\<close>

definition multipart :: "zframe list \<Rightarrow> (zframe \<times> bool) list" where
  "multipart fs = zip fs (replicate (length fs - 1) True @ [False])"

definition message_frames :: "zframe \<Rightarrow> joza_msg \<Rightarrow> zframe list" where
  "message_frames frame self = frame # (if frame_flags self then [data_of self] else [])"

lemma zframe_send_ok:
  "zfail w (zsent w) (f, b) = None \<Longrightarrow> zframe_send f b w = (0, w\<lparr>zsent := zsent w @ [(f, b)]\<rparr>)"
  by (simp add: zframe_send_def)

lemma transmit_ok:
  assumes "\<And>h x. zfail w h x = None"
  shows "transmit self frame w = Inr (0, w\<lparr>zsent := zsent w @ multipart (message_frames frame self)\<rparr>)"
  by (auto simp: transmit_def send_data_def zframe_send_ok assms multipart_def message_frames_def data_of_def)

lemma joza_msg_send_ok:
  assumes "joza_msg_frame self w = Inr frame" "\<And>h x. zfail w h x = None"
    and "zrouter w \<Longrightarrow> m_address self = Some addr"
  shows "joza_msg_send self w =
     Inr (0, w\<lparr>zsent := zsent w @ (if zrouter w then [(addr, True)] else []) @
                 multipart (message_frames frame self)\<rparr>)"
proof (cases "zrouter w")
  case True
  let ?w = "w\<lparr>zsent := zsent w @ [(addr, True)]\<rparr>"
  have "transmit self frame ?w = Inr (0, ?w\<lparr>zsent := zsent ?w @ multipart (message_frames frame self)\<rparr>)"
    by (rule transmit_ok) (simp add: assms(2))
  then show ?thesis
    using True assms by (simp add: joza_msg_send_def zframe_send_ok)
next
  case False
  then show ?thesis
    using assms(1) transmit_ok [OF assms(2)] by (simp add: joza_msg_send_def)
qed

text \<open>The frame is made without writing past its end, whatever the message holds.\<close>

lemma s_workers_ok:
  assumes "Dangling \<notin> snd ` set t"
  shows "\<exists>n b. sum_res (map s_workers_count t) = Inr n \<and>
           concat_res (map s_workers_write t) = Inr b \<and> length b \<le> n"
  using assms
proof (induction t)
  case Nil
  then show ?case by simp
next
  case (Cons p t)
  obtain k v where p: "p = (k, v)" by (cases p)
  obtain x where "v = Item x" using Cons.prems p by (cases v) auto
  then have "s_workers_count p = Inr (length k + 1 + length x + 1)"
      "s_workers_write p = Inr (PUT_STRING (take (STRING_MAX - 1) (k @ 61 # x)))"
    using p by (simp_all add: s_workers_count_def s_workers_write_def item_text_def)
  moreover obtain n b where "sum_res (map s_workers_count t) = Inr n"
      "concat_res (map s_workers_write t) = Inr b" "length b \<le> n"
    using Cons by auto
  ultimately show ?case by auto
qed

lemma joza_msg_frame_safe:
  assumes "0 \<le> m_id self" "m_id self \<le> 17"
    and "\<And>h. m_workers self = Some h \<Longrightarrow> Dangling \<notin> snd ` set (zorder w h)"
  shows "\<exists>frame. joza_msg_frame self w = Inr frame \<and> frame_size self w = Inr (length frame)"
proof (cases "m_id self = JOZA_MSG_DIRECTORY \<and> m_workers self \<noteq> None")
  case True
  then obtain h where h: "m_workers self = Some h" by auto
  obtain n b where "sum_res (map s_workers_count (zorder w h)) = Inr n"
      "concat_res (map s_workers_write (zorder w h)) = Inr b" "length b \<le> n"
    using s_workers_ok [OF assms(3) [OF h]] by blast
  then show ?thesis
    using True h by (auto simp: joza_msg_frame_def frame_size_def serialize_body_def msg_ids Let_def)
next
  case False
  from msg_id_cases [OF assms(1,2)] False show ?thesis
    by (elim disjE) (auto simp: joza_msg_frame_def frame_size_def serialize_body_def msg_ids Let_def
        put_call_def put_cause_def put_connect_def)
qed

lemma joza_msg_frame_bad_id:
  "\<not> (0 \<le> m_id self \<and> m_id self \<le> 17) \<Longrightarrow> joza_msg_frame self w = Inl Assert_failed"
  by (auto simp: joza_msg_frame_def frame_size_def msg_ids Let_def)

section \<open>What the receiver returns\<close>

text \<open>A receive changes nothing but the queue.\<close>

definition only_inbox :: "world \<Rightarrow> world \<Rightarrow> bool" where
  "only_inbox w w' \<longleftrightarrow> (\<exists>i c. w' = w\<lparr>zinbox := i, zcur := c\<rparr>)"

lemma only_inboxI: "w' = w\<lparr>zinbox := i, zcur := c\<rparr> \<Longrightarrow> only_inbox w w'"
  by (auto simp: only_inbox_def)

lemma only_inbox_refl: "only_inbox w w"
  by (rule only_inboxI [where i = "zinbox w" and c = "zcur w"]) simp

lemma only_inbox_trans: "only_inbox u v \<Longrightarrow> only_inbox v w \<Longrightarrow> only_inbox u w"
  by (auto simp: only_inbox_def) blast

lemma only_inbox_zcur: "only_inbox w (w\<lparr>zcur := c\<rparr>)"
  by (rule only_inboxI [where i = "zinbox w" and c = c]) simp

lemma only_inbox_recv: "only_inbox w (snd (zframe_recv w))"
  by (auto simp: zframe_recv_def intro: only_inbox_zcur only_inbox_refl only_inboxI split: list.splits)

lemma only_inbox_drain: "only_inbox w (drain w)"
  by (simp add: drain_eq only_inbox_zcur)

lemma only_inboxD:
  "only_inbox w w' \<Longrightarrow> zrouter w' = zrouter w \<and> znull w' = znull w \<and> zsent w' = zsent w \<and>
     zfail w' = zfail w \<and> zorder w' = zorder w \<and> gtick w' = gtick w \<and> gclock w' = gclock w"
  by (auto simp: only_inbox_def)

lemma recv_command_result:
  "only_inbox w (snd (recv_command w)) \<and>
   (\<forall>a bs. fst (recv_command w) = Some (a, bs) \<longrightarrow> (a \<noteq> None \<longleftrightarrow> zrouter w))"
proof (induction w rule: recv_command.induct)
  case (1 w)
  obtain address w1 where w1: "(if zrouter w then zframe_recv w else (None, w)) = (address, w1)"
    by (cases "if zrouter w then zframe_recv w else (None, w)")
  have o1: "only_inbox w w1"
    using w1 only_inbox_recv [of w] only_inbox_refl [of w] by (auto split: if_splits simp: prod_eq_iff)
  have a: "\<not> zrouter w \<Longrightarrow> address = None" using w1 by simp
  obtain f w2 where w2: "zframe_recv w1 = (f, w2)" by (cases "zframe_recv w1")
  have o2: "only_inbox w w2"
    using only_inbox_trans [OF o1 only_inbox_recv] w2 by (metis snd_conv)
  show ?case
  proof (cases "(zrouter w \<and> address = None) \<or> (zrouter w \<and> \<not> zsocket_rcvmore w1) \<or> f = None \<or>
      GET_NUMBER2 (the f) = None \<or> fst (the (GET_NUMBER2 (the f))) = joza_signature")
    case True
    then show ?thesis
      using w1 w2 o1 o2 a
      by (subst (1 2) recv_command.simps) (auto simp: Let_def split: option.splits prod.splits)
  next
    case False
    then obtain frame sig bs where f: "f = Some frame" "GET_NUMBER2 frame = Some (sig, bs)" by auto
    have step: "recv_command w = recv_command (drain w2)"
      using False f w1 w2 by (subst recv_command.simps) (auto simp: Let_def)
    have "only_inbox (drain w2) (snd (recv_command (drain w2))) \<and>
      (\<forall>a bs. fst (recv_command (drain w2)) = Some (a, bs) \<longrightarrow> (a \<noteq> None \<longleftrightarrow> zrouter (drain w2)))"
      by (rule "1.IH" [OF refl w1 [symmetric] _ _ w2 [symmetric] f(1) f(2) refl]) (use False f in auto)
    then show ?thesis
      unfolding step using only_inbox_trans [OF o2 only_inbox_drain] only_inbox_trans only_inboxD
      by blast
  qed
qed

text \<open>
  What the rest of the broker may rely on in a message that was received: no member that its
  type has is NULL, strings fit their length byte, and the socket's address is there.
\<close>

definition well_received :: "bool \<Rightarrow> joza_msg \<Rightarrow> bool" where
  "well_received router m \<longleftrightarrow>
     0 \<le> m_id m \<and> m_id m \<le> 17 \<and> (m_address m \<noteq> None \<longleftrightarrow> router) \<and>
     (m_id m \<in> {JOZA_MSG_DATA, JOZA_MSG_CALL_REQUEST, JOZA_MSG_CALL_ACCEPTED} \<longrightarrow> m_data m \<noteq> None) \<and>
     (m_id m \<in> {JOZA_MSG_CALL_REQUEST, JOZA_MSG_CALL_ACCEPTED, JOZA_MSG_CONNECT} \<longrightarrow>
        (\<exists>s. m_calling_address m = Some s \<and> wire_string s)) \<and>
     (m_id m \<in> {JOZA_MSG_CALL_REQUEST, JOZA_MSG_CALL_ACCEPTED} \<longrightarrow>
        (\<exists>s. m_called_address m = Some s \<and> wire_string s)) \<and>
     (m_id m = JOZA_MSG_CONNECT \<longrightarrow>
        m_protocol m = Some (lit ''~SVC'') \<and> m_version m = JOZA_MSG_VERSION \<and>
        (\<exists>s. m_host_name m = Some s \<and> wire_string s)) \<and>
     (m_id m = JOZA_MSG_DIRECTORY \<longrightarrow> (\<exists>h. m_workers m = Some h \<and> length h < 256 \<and> distinct (map fst h)))"

lemma GET_STRING_wire: "GET_STRING bs = Some (s, r) \<Longrightarrow> wire_string s"
proof -
  assume "GET_STRING bs = Some (s, r)"
  then obtain n p where "length p = unat (n :: byte)" "s = cstr_of p"
    by (auto simp: GET_STRING_Some)
  then show ?thesis
    using length_cstr_of [of p] unat_lt_256 [of n] by (simp add: wire_string_def STRING_MAX_def)
qed

lemma get_directory_table:
  "get_directory null n bs h = Inr (Some t) \<Longrightarrow> distinct (map fst h) \<Longrightarrow>
     distinct (map fst t) \<and> length t \<le> length h + n"
proof (induction null n bs h arbitrary: t rule: get_directory.induct)
  case (1 null bs h)
  then show ?case by simp
next
  case (2 null n bs h)
  obtain s bs' v where "GET_STRING bs = Some (s, bs')"
    "(if 61 \<in> set s then Inr (Item (tl (dropWhile (\<lambda>c. c \<noteq> 61) s))) else null) = Inr v"
    "get_directory null n bs' (zhash_insert h (takeWhile (\<lambda>c. c \<noteq> 61) s) v) = Inr (Some t)"
    using "2.prems"(1) by (auto simp: bind_res_Inr split: option.splits if_splits)
  moreover have "length (zhash_insert h k v) \<le> Suc (length h)" for k
    by (simp add: zhash_insert_def)
  ultimately show ?case
    using "2.IH" [of "(s, bs')" s bs' v t] zhash_insert_keys [OF "2.prems"(2)]
    by (metis add_Suc_right add_Suc_shift le_trans add_le_mono1)
qed

lemma get_directory_fault: "get_directory null n bs h = Inl e \<Longrightarrow> null = Inl e"
  by (induction null n bs h rule: get_directory.induct)
    (auto simp: bind_res_Inl split: option.splits if_splits, blast)

lemma recv_data_world: "recv_data m w = Inr (r, w') \<Longrightarrow> only_inbox w w'"
  using only_inbox_recv [of w]
  by (auto simp: recv_data_def intro: only_inbox_refl split: option.splits if_splits prod.splits)

lemma recv_data_result:
  "recv_data m w = Inr (Some r, w') \<Longrightarrow> \<exists>m0 d. m = Some m0 \<and> r = m0\<lparr>m_data := Some d\<rparr>"
  by (auto simp: recv_data_def zsocket_rcvmore_def zframe_recv_def
      split: option.splits if_splits prod.splits list.splits)

lemma get_call_result:
  "get_call m bs = Some r \<Longrightarrow> \<exists>a b p w t. wire_string a \<and> wire_string b \<and>
     r = m\<lparr>m_calling_address := Some a, m_called_address := Some b, m_packet := p, m_window := w,
       m_throughput := t\<rparr>"
  by (auto simp: get_call_def bind_eq_Some_conv dest!: GET_STRING_wire) blast

lemma get_connect_result:
  "get_connect m bs = Some r \<Longrightarrow> \<exists>a b d. wire_string a \<and> wire_string b \<and>
     r = m\<lparr>m_protocol := Some (lit ''~SVC''), m_version := JOZA_MSG_VERSION, m_calling_address := Some a,
       m_host_name := Some b, m_directionality := d\<rparr>"
  by (auto simp: get_connect_def bind_eq_Some_conv split: if_splits dest!: GET_STRING_wire)

lemma recv_body_world: "recv_body m bs w = Inr (r, w') \<Longrightarrow> only_inbox w w'"
  by (auto simp: recv_body_def Let_def bind_res_Inr intro: only_inbox_refl recv_data_world
      split: if_splits option.splits)

lemma recv_body_fault: "recv_body m bs w = Inl e \<Longrightarrow> znull w = Inl e"
  by (auto simp: recv_body_def recv_data_def Let_def bind_res_Inl dest: get_directory_fault
      split: if_splits option.splits prod.splits)

lemma recv_body_directory_result:
  assumes "recv_body m bs w = Inr (Some r, w')" "m_id m = JOZA_MSG_DIRECTORY"
  shows "\<exists>h. r = m\<lparr>m_workers := Some h\<rparr> \<and> length h < 256 \<and> distinct (map fst h)"
proof -
  obtain n bs' h where "GET_NUMBER1 bs = Some (n, bs')" and r: "r = m\<lparr>m_workers := Some h\<rparr>"
    and g: "get_directory (znull w) (unat n) bs' [] = Inr (Some h)"
    using assms by (auto simp: recv_body_def msg_ids bind_res_Inr split: option.splits)
  have "distinct (map fst h) \<and> length h \<le> unat n"
    using get_directory_table [OF g] by simp
  then show ?thesis using r unat_lt_256 [of n] by auto
qed

lemma recv_body_result:
  assumes "recv_body ((joza_msg_new 0)\<lparr>m_address := a, m_id := i\<rparr>) bs w = Inr (Some r, w')"
    and "0 \<le> i" "a \<noteq> None \<longleftrightarrow> router"
  shows "well_received router r"
proof (cases "i = JOZA_MSG_DIRECTORY")
  case True
  then obtain h where "r = (joza_msg_new 0)\<lparr>m_address := a, m_id := i, m_workers := Some h\<rparr>"
      "length h < 256" "distinct (map fst h)"
    using recv_body_directory_result [OF assms(1)] by auto
  then show ?thesis using True assms(3) by (auto simp: well_received_def msg_ids)
next
  case False
  let ?m = "(joza_msg_new 0)\<lparr>m_address := a, m_id := i\<rparr>"
  have "i \<le> 17" using assms(1) by (auto simp: recv_body_def msg_ids Let_def split: if_splits)
  from msg_id_cases [OF assms(2) this] False assms(1,3) show ?thesis
    by (elim disjE)
      (auto simp: recv_body_def msg_ids well_received_def get_data_def get_rr_def get_cause_def
        bind_eq_Some_conv dest!: recv_data_result get_call_result get_connect_result)
qed

lemma joza_msg_recv_fault: "joza_msg_recv v = Inl e \<Longrightarrow> znull v = Inl e"
  using recv_command_result [of v]
  by (auto simp: joza_msg_recv_def dest!: recv_body_fault only_inboxD split: prod.splits option.splits)

lemma joza_msg_recv_world: "joza_msg_recv v = Inr (r, v') \<Longrightarrow> only_inbox v v'"
  using recv_command_result [of v]
  by (auto simp: joza_msg_recv_def dest!: recv_body_world intro: only_inbox_trans split: prod.splits option.splits)

lemma joza_msg_recv_well: "joza_msg_recv v = Inr (Some r, v') \<Longrightarrow> well_received (zrouter v) r"
  using recv_command_result [of v]
  by (auto simp: joza_msg_recv_def intro: recv_body_result split: prod.splits option.splits)

text \<open>
  Where a fault can come from: the frames still to be read, and a directory with an entry that has
  no \<open>=\<close>, for which \<^verbatim>\<open>zhash_insert\<close> gets NULL.
\<close>

definition queued :: "world \<Rightarrow> zframe set" where
  "queued w = set (zcur w) \<union> (\<Union>(a, fs) \<in> set (zinbox w). insert a (set fs))"

fun entry_without_value :: "nat \<Rightarrow> bytes \<Rightarrow> bool" where
  "entry_without_value 0 bs = False"
| "entry_without_value (Suc n) bs =
     (case GET_STRING bs of None \<Rightarrow> False | Some (s, bs') \<Rightarrow> 61 \<notin> set s \<or> entry_without_value n bs')"

definition directory_without_value :: "zframe \<Rightarrow> bool" where
  "directory_without_value f \<longleftrightarrow> (\<exists>n bs. entry_without_value (unat n) bs \<and>
     GET_NUMBER2 f = Some (joza_signature, word_of_int JOZA_MSG_DIRECTORY # n # bs))"

lemma queued_recv: "zframe_recv w = (f, w') \<Longrightarrow> queued w' \<subseteq> queued w \<and> (\<forall>x. f = Some x \<longrightarrow> x \<in> queued w)"
  by (auto simp: zframe_recv_def queued_def split: list.splits)

lemma queued_drain: "queued (drain w) \<subseteq> queued w"
  by (auto simp: drain_eq queued_def)

lemma recv_command_frame:
  "fst (recv_command w) = Some (a, bs) \<Longrightarrow> \<exists>f \<in> queued w. GET_NUMBER2 f = Some (joza_signature, bs)"
proof (induction w rule: recv_command.induct)
  case (1 w)
  obtain address w1 where w1: "(if zrouter w then zframe_recv w else (None, w)) = (address, w1)"
    by (cases "if zrouter w then zframe_recv w else (None, w)")
  have q1: "queued w1 \<subseteq> queued w" using w1 queued_recv [of w] by (auto split: if_splits)
  obtain f w2 where w2: "zframe_recv w1 = (f, w2)" by (cases "zframe_recv w1")
  note q2 = queued_recv [OF w2]
  have more: "\<not> (zrouter w \<and> address = None)" "\<not> (zrouter w \<and> \<not> zsocket_rcvmore w1)" "f \<noteq> None" "GET_NUMBER2 (the f) \<noteq> None"
    using "1.prems" w1 w2 by (subst (asm) recv_command.simps; auto simp: Let_def split: option.splits if_splits)+
  then obtain frame sig bs' where f: "f = Some frame" "GET_NUMBER2 frame = Some (sig, bs')" by auto
  show ?case
  proof (cases "sig = joza_signature")
    case True
    then have "bs' = bs" using "1.prems" w1 w2 f more by (subst (asm) recv_command.simps) (auto simp: Let_def)
    then show ?thesis using True f q1 q2 by blast
  next
    case False
    have step: "recv_command w = recv_command (drain w2)"
      using False f w1 w2 more by (subst recv_command.simps) (auto simp: Let_def)
    have "\<exists>f \<in> queued (drain w2). GET_NUMBER2 f = Some (joza_signature, bs)"
      by (rule "1.IH" [OF refl w1 [symmetric] _ _ w2 [symmetric] f(1) f(2) refl]) (use False f more step "1.prems" in auto)
    then show ?thesis using q1 q2 queued_drain [of w2] by blast
  qed
qed

lemma get_directory_value: "get_directory null n bs h = Inl e \<Longrightarrow> entry_without_value n bs"
  by (induction null n bs h rule: get_directory.induct)
    (auto simp: bind_res_Inl split: option.splits if_splits)

lemma recv_body_value:
  "recv_body m bs w = Inl e \<Longrightarrow> m_id m = JOZA_MSG_DIRECTORY \<and>
     (\<exists>n bs'. GET_NUMBER1 bs = Some (n, bs') \<and> entry_without_value (unat n) bs')"
  by (auto simp: recv_body_def recv_data_def Let_def bind_res_Inl dest: get_directory_value
      split: if_splits option.splits prod.splits)

lemma joza_msg_recv_value:
  assumes "joza_msg_recv v = Inl e"
  shows "\<exists>f. f \<in> queued v \<and> directory_without_value f"
proof -
  obtain a needle w' i bs where c: "recv_command v = (Some (a, needle), w')" "GET_NUMBER1 needle = Some (i, bs)"
      "recv_body ((joza_msg_new 0)\<lparr>m_address := a, m_id := uint i\<rparr>) bs w' = Inl e"
    using assms by (auto simp: joza_msg_recv_def split: prod.splits option.splits)
  obtain f where f: "f \<in> queued v" "GET_NUMBER2 f = Some (joza_signature, needle)"
    using recv_command_frame [of v a needle] c(1) by auto
  obtain n bs' where n: "uint i = JOZA_MSG_DIRECTORY" "GET_NUMBER1 bs = Some (n, bs')" "entry_without_value (unat n) bs'"
    using recv_body_value [OF c(3)] by auto
  have "i = word_of_int JOZA_MSG_DIRECTORY" using n(1) by (metis word_of_int_uint)
  then have "needle = word_of_int JOZA_MSG_DIRECTORY # n # bs'"
    using c(2) n(2) by (cases needle; cases bs) simp_all
  then show ?thesis using f n(3) unfolding directory_without_value_def by blast
qed

text \<open>Frames left over from a malformed message are read as a message of their own.\<close>

lemma recv_short_frame:
  assumes "zrouter v" "zcur v = []" "zinbox v = (addr, bad # fs) # ms" "length bad < 2"
  shows "joza_msg_recv v = Inr (None, v\<lparr>zinbox := ms, zcur := fs\<rparr>)"
proof -
  have "GET_NUMBER2 bad = None" using assms(4) by (cases bad rule: GET_NUMBER2.cases) auto
  then have "recv_command v = (None, v\<lparr>zinbox := ms, zcur := fs\<rparr>)"
    using assms(1,2,3) by (subst recv_command.simps) (simp add: zframe_recv_def zsocket_rcvmore_def)
  then show ?thesis by (simp add: joza_msg_recv_def)
qed

lemma zframe_recv_cur_cong:
  "zframe_recv (v\<lparr>zcur := f # fs\<rparr>) = zframe_recv (v\<lparr>zinbox := (f, fs) # zinbox v, zcur := []\<rparr>)"
  by (simp add: zframe_recv_def)

lemma joza_msg_recv_leftover:
  assumes "zrouter v"
  shows "joza_msg_recv (v\<lparr>zcur := f # fs\<rparr>) = joza_msg_recv (v\<lparr>zinbox := (f, fs) # zinbox v, zcur := []\<rparr>)"
proof -
  have "recv_command (v\<lparr>zcur := f # fs\<rparr>) = recv_command (v\<lparr>zinbox := (f, fs) # zinbox v, zcur := []\<rparr>)"
    using assms by (subst (1 2) recv_command.simps) (simp add: zframe_recv_cur_cong split: prod.split)
  then show ?thesis by (simp add: joza_msg_recv_def)
qed

section \<open>Properties\<close>

text \<open>
  C6. Round trip of the wire format, for all eighteen message types: a sendable message that
  \<^verbatim>\<open>joza_msg_send\<close> puts on a socket leaves as one well-delimited multipart message, and
  \<^verbatim>\<open>joza_msg_recv\<close> at the other end returns exactly the fields of its type, with the address
  of the peer when the receiving socket is a ROUTER, and consumes exactly those frames.
\<close>

theorem joza_msg_roundtrip:
  assumes "sendable self" "\<And>h. mset (zorder w h) = mset h" "\<And>h x. zfail w h x = None"
    and "zrouter w \<Longrightarrow> m_address self = Some peer" "zcur v = []"
  shows "\<exists>f fs. joza_msg_send self w =
      Inr (0, w\<lparr>zsent := zsent w @ (if zrouter w then [(peer, True)] else []) @ multipart (f # fs)\<rparr>) \<and>
    joza_msg_recv (v\<lparr>zinbox := (if zrouter v then (addr, f # fs) else (f, fs)) # zinbox v\<rparr>) =
      Inr (Some ((received_form w self)\<lparr>m_address := if zrouter v then Some addr else None\<rparr>), v)"
proof -
  obtain body where "serialize_body self w = Inr body" "frame_size self w = Inr (3 + length body)"
    using sendable_frame [OF assms(1,2)] by auto
  then obtain frame where frame: "joza_msg_frame self w = Inr frame"
    by (simp add: joza_msg_frame_def Let_def)
  let ?fs = "if frame_flags self then [data_of self] else []"
  let ?v = "v\<lparr>zinbox := (if zrouter v then (addr, frame # ?fs) else (frame, ?fs)) # zinbox v\<rparr>"
  have "joza_msg_recv ?v =
      Inr (Some ((received_form w self)\<lparr>m_address := if zrouter ?v then Some addr else None\<rparr>),
           ?v\<lparr>zinbox := zinbox v, zcur := []\<rparr>)"
    by (rule joza_msg_recv_frame [OF assms(1,2) frame]) (use assms(5) in auto)
  moreover have "?v\<lparr>zinbox := zinbox v, zcur := []\<rparr> = v" using assms(5) by simp
  ultimately show ?thesis
    using joza_msg_send_ok [OF frame assms(3,4)]
    by (intro exI [of _ frame] exI [of _ ?fs]) (simp add: message_frames_def)
qed

definition demo_call :: joza_msg where
  "demo_call = (joza_msg_new JOZA_MSG_CALL_REQUEST)\<lparr>m_calling_address := Some (lit ''ALICE''),
     m_called_address := Some (lit ''BOB''), m_packet := 7, m_window := 2, m_throughput := 10\<rparr>"

theorem joza_msg_roundtrip_witness:
  "sendable demo_call \<and>
   (\<exists>f fs. joza_msg_send demo_call (quiet_world\<lparr>zrouter := False\<rparr>) =
      Inr (0, quiet_world\<lparr>zrouter := False, zsent := multipart (f # fs)\<rparr>) \<and>
    joza_msg_recv (quiet_world\<lparr>zinbox := [([0, 1, 2, 3, 4], f # fs)]\<rparr>) =
      Inr (Some (demo_call\<lparr>m_data := Some [], m_address := Some [0, 1, 2, 3, 4]\<rparr>), quiet_world))"
proof -
  have ok: "sendable demo_call"
    by (simp add: sendable_def demo_call_def msg_ids wire_string_opt_def wire_string_def lit_def
        STRING_MAX_def wire_directory_def)
  have form: "received_form (quiet_world\<lparr>zrouter := False\<rparr>) demo_call = demo_call\<lparr>m_data := Some []\<rparr>"
    by (simp add: received_form_def demo_call_def msg_ids string_of_def data_of_def)
  show ?thesis
    using ok form joza_msg_roundtrip [of demo_call "quiet_world\<lparr>zrouter := False\<rparr>" "[]" quiet_world "[0, 1, 2, 3, 4]"]
    by (simp add: quiet_world_def)
qed

text \<open>
  C10. \<^verbatim>\<open>joza_msg_send\<close> never writes past the frame it allocates: for every message of a known
  type whose directory holds live strings, however long they are, the frame that is built has
  exactly the size computed for it in the first half of the function.
\<close>

theorem joza_msg_send_in_bounds:
  assumes "0 \<le> m_id self" "m_id self \<le> 17"
    and "\<And>h. m_workers self = Some h \<Longrightarrow> Dangling \<notin> snd ` set (zorder w h)"
  shows "\<exists>frame. joza_msg_frame self w = Inr frame \<and> frame_size self w = Inr (length frame)"
  using assms by (rule joza_msg_frame_safe)

theorem joza_msg_send_in_bounds_witness:
  "\<exists>frame. joza_msg_frame (demo_call\<lparr>m_workers := Some [([65], Item [66])]\<rparr>) quiet_world = Inr frame \<and>
     frame_size (demo_call\<lparr>m_workers := Some [([65], Item [66])]\<rparr>) quiet_world = Inr (length frame)"
  by (rule joza_msg_send_in_bounds) (simp_all add: demo_call_def msg_ids quiet_world_def)

text \<open>
  C9. What \<^verbatim>\<open>joza_msg_recv\<close> does on every queue. It never runs forever: the loop over garbage ends. When
  it returns, it has touched nothing but the queue, and a message it returns is one of the eighteen types with
  every member of its type present: the address on a ROUTER socket, the data frame, and strings
  of at most 255 bytes. The only way it can fail is a queued DIRECTORY frame with an entry
  that has no \<open>=\<close>: then a NULL item is entered in a table that copies its items, which CZMQ does not document,
  and whatever \<open>znull\<close> makes of that is the outcome.
\<close>

theorem joza_msg_recv_correct:
  "case joza_msg_recv v of
     Inl e \<Rightarrow> znull v = Inl e \<and> (\<exists>f. f \<in> queued v \<and> directory_without_value f)
   | Inr (r, v') \<Rightarrow> only_inbox v v' \<and> (case r of None \<Rightarrow> True | Some m \<Rightarrow> well_received (zrouter v) m)"
proof (cases "joza_msg_recv v")
  case (Inl e)
  then show ?thesis using joza_msg_recv_fault joza_msg_recv_value by simp
next
  case (Inr p)
  obtain r v' where p: "p = (r, v')" by (cases p)
  then show ?thesis
    using Inr joza_msg_recv_world joza_msg_recv_well by (auto split: option.splits)
qed

text \<open>
  C35. After a frame too short for a signature, \<^verbatim>\<open>joza_msg_recv\<close> returns NULL with the rest of the
  message unread, and the next call takes the next frame as the address of a peer: whoever sends
  such a message chooses the address under which the following message is processed.
\<close>

theorem joza_msg_recv_spoofable:
  assumes "zrouter v" "zcur v = []" "length bad < 2" "sendable self" "\<And>h. mset (zorder w h) = mset h"
    and "joza_msg_frame self w = Inr frame"
    and "zinbox v = (sender, bad # victim # message_frames frame self) # ms"
  shows "\<exists>v'. joza_msg_recv v = Inr (None, v') \<and>
     joza_msg_recv v' = Inr (Some ((received_form w self)\<lparr>m_address := Some victim\<rparr>), v\<lparr>zinbox := ms\<rparr>)"
proof -
  let ?v1 = "(v\<lparr>zinbox := ms\<rparr>)\<lparr>zcur := victim # message_frames frame self\<rparr>"
  let ?v2 = "(v\<lparr>zinbox := ms\<rparr>)\<lparr>zinbox := (victim, message_frames frame self) # ms, zcur := []\<rparr>"
  have one: "joza_msg_recv v = Inr (None, ?v1)"
    using recv_short_frame [OF assms(1,2) assms(7,3)] by simp
  have "joza_msg_recv ?v1 = joza_msg_recv ?v2"
    using joza_msg_recv_leftover [of "v\<lparr>zinbox := ms\<rparr>"] assms(1) by simp
  also have "\<dots> = Inr (Some ((received_form w self)\<lparr>m_address := if zrouter ?v2 then Some victim else None\<rparr>),
      ?v2\<lparr>zinbox := ms, zcur := []\<rparr>)"
    by (rule joza_msg_recv_frame [OF assms(4,5,6)]) (use assms(1) in \<open>auto simp: message_frames_def\<close>)
  finally have "joza_msg_recv ?v1 = Inr (Some ((received_form w self)\<lparr>m_address := Some victim\<rparr>), v\<lparr>zinbox := ms\<rparr>)"
    using assms(1,2) by simp
  then show ?thesis using one by blast
qed

theorem joza_msg_recv_spoofable_witness:
  "\<exists>v'. joza_msg_recv (quiet_world\<lparr>zinbox := [([0, 1, 1, 1, 1], [[], [0, 2, 2, 2, 2], [170, 161, 11]])]\<rparr>) = Inr (None, v') \<and>
     joza_msg_recv v' =
       Inr (Some ((joza_msg_new JOZA_MSG_DISCONNECT)\<lparr>m_address := Some [0, 2, 2, 2, 2]\<rparr>), quiet_world)"
proof -
  let ?m = "joza_msg_new JOZA_MSG_DISCONNECT"
  have f: "joza_msg_frame ?m quiet_world = Inr [170, 161, 11]"
    by (simp add: joza_msg_frame_def frame_size_def serialize_body_def msg_ids PUT_NUMBER1_def
        PUT_NUMBER2_def joza_signature_def zframe_junk_def and_255)
  have "sendable ?m"
    by (simp add: sendable_def msg_ids wire_string_opt_def wire_directory_def)
  moreover have "received_form quiet_world ?m = ?m" by (simp add: received_form_def msg_ids)
  ultimately show ?thesis
    using joza_msg_recv_spoofable [OF _ _ _ _ _ f, of
        "quiet_world\<lparr>zinbox := [([0, 1, 1, 1, 1], [[], [0, 2, 2, 2, 2], [170, 161, 11]])]\<rparr>" "[]"
        "[0, 1, 1, 1, 1]" "[0, 2, 2, 2, 2]" "[]"]
    by (simp add: quiet_world_def message_frames_def frame_flags_def msg_ids)
qed

end
