(* ===== verification/Joza_Send.thy ===== *)
theory Joza_Send
  imports Joza_Transport
begin

text \<open>
  The one-step senders of \<^verbatim>\<open>src/joza_msg.c\<close>: for each message type, \<^verbatim>\<open>joza_msg_send_X\<close> and
  \<^verbatim>\<open>joza_msg_send_addr_X\<close>, which makes the message, sets its fields and sends it. The senders
  with string arguments go through the formatting setters. The locale \<open>sender\<close> states what the
  broker relies on when it calls one: it returns, it touches nothing but the outgoing frames
  and \<^verbatim>\<open>errno\<close>, and when nothing fails exactly the frames of one message go out; it is
  interpreted for every sender whose fields are numbers or data.
\<close>

definition joza_msg_send_data :: "byte \<Rightarrow> u16 \<Rightarrow> u16 \<Rightarrow> zframe option \<Rightarrow> int io" where
  "joza_msg_send_data q pr ps data =
     (let self = joza_msg_new JOZA_MSG_DATA in
     let self = joza_msg_set_q self q in
     let self = joza_msg_set_pr self pr in
     let self = joza_msg_set_ps self ps in
     let self = joza_msg_set_data self data in
     joza_msg_send self)"

definition joza_msg_send_addr_data :: "zframe option \<Rightarrow> byte \<Rightarrow> u16 \<Rightarrow> u16 \<Rightarrow> zframe option \<Rightarrow> int io" where
  "joza_msg_send_addr_data addr q pr ps data =
     (let self = (joza_msg_new JOZA_MSG_DATA)\<lparr>m_address := addr\<rparr> in
     let self = joza_msg_set_q self q in
     let self = joza_msg_set_pr self pr in
     let self = joza_msg_set_ps self ps in
     let self = joza_msg_set_data self data in
     joza_msg_send self)"

definition joza_msg_send_rr :: "u16 \<Rightarrow> int io" where
  "joza_msg_send_rr pr =
     (let self = joza_msg_new JOZA_MSG_RR in
     let self = joza_msg_set_pr self pr in
     joza_msg_send self)"

definition joza_msg_send_addr_rr :: "zframe option \<Rightarrow> u16 \<Rightarrow> int io" where
  "joza_msg_send_addr_rr addr pr =
     (let self = (joza_msg_new JOZA_MSG_RR)\<lparr>m_address := addr\<rparr> in
     let self = joza_msg_set_pr self pr in
     joza_msg_send self)"

definition joza_msg_send_rnr :: "u16 \<Rightarrow> int io" where
  "joza_msg_send_rnr pr =
     (let self = joza_msg_new JOZA_MSG_RNR in
     let self = joza_msg_set_pr self pr in
     joza_msg_send self)"

definition joza_msg_send_addr_rnr :: "zframe option \<Rightarrow> u16 \<Rightarrow> int io" where
  "joza_msg_send_addr_rnr addr pr =
     (let self = (joza_msg_new JOZA_MSG_RNR)\<lparr>m_address := addr\<rparr> in
     let self = joza_msg_set_pr self pr in
     joza_msg_send self)"

definition joza_msg_send_call_request :: "cstr option \<Rightarrow> cstr option \<Rightarrow> byte \<Rightarrow> u16 \<Rightarrow> byte \<Rightarrow> zframe option \<Rightarrow> int io" where
  "joza_msg_send_call_request calling_address called_address packet window throughput data =
     (let self = joza_msg_new JOZA_MSG_CALL_REQUEST in
     bind_io (lift_res (joza_msg_set_calling_address self calling_address)) (\<lambda>self.
     bind_io (lift_res (joza_msg_set_called_address self called_address)) (\<lambda>self.
     let self = joza_msg_set_packet self packet in
     let self = joza_msg_set_window self window in
     let self = joza_msg_set_throughput self throughput in
     let self = joza_msg_set_data self data in
     joza_msg_send self)))"

definition joza_msg_send_addr_call_request :: "zframe option \<Rightarrow> cstr option \<Rightarrow> cstr option \<Rightarrow> byte \<Rightarrow> u16 \<Rightarrow> byte \<Rightarrow> zframe option \<Rightarrow> int io" where
  "joza_msg_send_addr_call_request addr calling_address called_address packet window throughput data =
     (let self = (joza_msg_new JOZA_MSG_CALL_REQUEST)\<lparr>m_address := addr\<rparr> in
     bind_io (lift_res (joza_msg_set_calling_address self calling_address)) (\<lambda>self.
     bind_io (lift_res (joza_msg_set_called_address self called_address)) (\<lambda>self.
     let self = joza_msg_set_packet self packet in
     let self = joza_msg_set_window self window in
     let self = joza_msg_set_throughput self throughput in
     let self = joza_msg_set_data self data in
     joza_msg_send self)))"

definition joza_msg_send_call_accepted :: "cstr option \<Rightarrow> cstr option \<Rightarrow> byte \<Rightarrow> u16 \<Rightarrow> byte \<Rightarrow> zframe option \<Rightarrow> int io" where
  "joza_msg_send_call_accepted calling_address called_address packet window throughput data =
     (let self = joza_msg_new JOZA_MSG_CALL_ACCEPTED in
     bind_io (lift_res (joza_msg_set_calling_address self calling_address)) (\<lambda>self.
     bind_io (lift_res (joza_msg_set_called_address self called_address)) (\<lambda>self.
     let self = joza_msg_set_packet self packet in
     let self = joza_msg_set_window self window in
     let self = joza_msg_set_throughput self throughput in
     let self = joza_msg_set_data self data in
     joza_msg_send self)))"

definition joza_msg_send_addr_call_accepted :: "zframe option \<Rightarrow> cstr option \<Rightarrow> cstr option \<Rightarrow> byte \<Rightarrow> u16 \<Rightarrow> byte \<Rightarrow> zframe option \<Rightarrow> int io" where
  "joza_msg_send_addr_call_accepted addr calling_address called_address packet window throughput data =
     (let self = (joza_msg_new JOZA_MSG_CALL_ACCEPTED)\<lparr>m_address := addr\<rparr> in
     bind_io (lift_res (joza_msg_set_calling_address self calling_address)) (\<lambda>self.
     bind_io (lift_res (joza_msg_set_called_address self called_address)) (\<lambda>self.
     let self = joza_msg_set_packet self packet in
     let self = joza_msg_set_window self window in
     let self = joza_msg_set_throughput self throughput in
     let self = joza_msg_set_data self data in
     joza_msg_send self)))"

definition joza_msg_send_clear_request :: "byte \<Rightarrow> byte \<Rightarrow> int io" where
  "joza_msg_send_clear_request cause diagnostic =
     (let self = joza_msg_new JOZA_MSG_CLEAR_REQUEST in
     let self = joza_msg_set_cause self cause in
     let self = joza_msg_set_diagnostic self diagnostic in
     joza_msg_send self)"

definition joza_msg_send_addr_clear_request :: "zframe option \<Rightarrow> byte \<Rightarrow> byte \<Rightarrow> int io" where
  "joza_msg_send_addr_clear_request addr cause diagnostic =
     (let self = (joza_msg_new JOZA_MSG_CLEAR_REQUEST)\<lparr>m_address := addr\<rparr> in
     let self = joza_msg_set_cause self cause in
     let self = joza_msg_set_diagnostic self diagnostic in
     joza_msg_send self)"

definition joza_msg_send_clear_confirmation :: "int io" where
  "joza_msg_send_clear_confirmation =
     (let self = joza_msg_new JOZA_MSG_CLEAR_CONFIRMATION in
     joza_msg_send self)"

definition joza_msg_send_addr_clear_confirmation :: "zframe option \<Rightarrow> int io" where
  "joza_msg_send_addr_clear_confirmation addr =
     (let self = (joza_msg_new JOZA_MSG_CLEAR_CONFIRMATION)\<lparr>m_address := addr\<rparr> in
     joza_msg_send self)"

definition joza_msg_send_reset_request :: "byte \<Rightarrow> byte \<Rightarrow> int io" where
  "joza_msg_send_reset_request cause diagnostic =
     (let self = joza_msg_new JOZA_MSG_RESET_REQUEST in
     let self = joza_msg_set_cause self cause in
     let self = joza_msg_set_diagnostic self diagnostic in
     joza_msg_send self)"

definition joza_msg_send_addr_reset_request :: "zframe option \<Rightarrow> byte \<Rightarrow> byte \<Rightarrow> int io" where
  "joza_msg_send_addr_reset_request addr cause diagnostic =
     (let self = (joza_msg_new JOZA_MSG_RESET_REQUEST)\<lparr>m_address := addr\<rparr> in
     let self = joza_msg_set_cause self cause in
     let self = joza_msg_set_diagnostic self diagnostic in
     joza_msg_send self)"

definition joza_msg_send_reset_confirmation :: "int io" where
  "joza_msg_send_reset_confirmation =
     (let self = joza_msg_new JOZA_MSG_RESET_CONFIRMATION in
     joza_msg_send self)"

definition joza_msg_send_addr_reset_confirmation :: "zframe option \<Rightarrow> int io" where
  "joza_msg_send_addr_reset_confirmation addr =
     (let self = (joza_msg_new JOZA_MSG_RESET_CONFIRMATION)\<lparr>m_address := addr\<rparr> in
     joza_msg_send self)"

definition joza_msg_send_connect :: "cstr option \<Rightarrow> cstr option \<Rightarrow> byte \<Rightarrow> int io" where
  "joza_msg_send_connect calling_address host_name directionality =
     (let self = joza_msg_new JOZA_MSG_CONNECT in
     bind_io (lift_res (joza_msg_set_calling_address self calling_address)) (\<lambda>self.
     bind_io (lift_res (joza_msg_set_host_name self host_name)) (\<lambda>self.
     let self = joza_msg_set_directionality self directionality in
     joza_msg_send self)))"

definition joza_msg_send_addr_connect :: "zframe option \<Rightarrow> cstr option \<Rightarrow> cstr option \<Rightarrow> byte \<Rightarrow> int io" where
  "joza_msg_send_addr_connect addr calling_address host_name directionality =
     (let self = (joza_msg_new JOZA_MSG_CONNECT)\<lparr>m_address := addr\<rparr> in
     bind_io (lift_res (joza_msg_set_calling_address self calling_address)) (\<lambda>self.
     bind_io (lift_res (joza_msg_set_host_name self host_name)) (\<lambda>self.
     let self = joza_msg_set_directionality self directionality in
     joza_msg_send self)))"

definition joza_msg_send_connect_indication :: "int io" where
  "joza_msg_send_connect_indication =
     (let self = joza_msg_new JOZA_MSG_CONNECT_INDICATION in
     joza_msg_send self)"

definition joza_msg_send_addr_connect_indication :: "zframe option \<Rightarrow> int io" where
  "joza_msg_send_addr_connect_indication addr =
     (let self = (joza_msg_new JOZA_MSG_CONNECT_INDICATION)\<lparr>m_address := addr\<rparr> in
     joza_msg_send self)"

definition joza_msg_send_disconnect :: "int io" where
  "joza_msg_send_disconnect =
     (let self = joza_msg_new JOZA_MSG_DISCONNECT in
     joza_msg_send self)"

definition joza_msg_send_addr_disconnect :: "zframe option \<Rightarrow> int io" where
  "joza_msg_send_addr_disconnect addr =
     (let self = (joza_msg_new JOZA_MSG_DISCONNECT)\<lparr>m_address := addr\<rparr> in
     joza_msg_send self)"

definition joza_msg_send_disconnect_indication :: "int io" where
  "joza_msg_send_disconnect_indication =
     (let self = joza_msg_new JOZA_MSG_DISCONNECT_INDICATION in
     joza_msg_send self)"

definition joza_msg_send_addr_disconnect_indication :: "zframe option \<Rightarrow> int io" where
  "joza_msg_send_addr_disconnect_indication addr =
     (let self = (joza_msg_new JOZA_MSG_DISCONNECT_INDICATION)\<lparr>m_address := addr\<rparr> in
     joza_msg_send self)"

definition joza_msg_send_diagnostic :: "byte \<Rightarrow> byte \<Rightarrow> int io" where
  "joza_msg_send_diagnostic cause diagnostic =
     (let self = joza_msg_new JOZA_MSG_DIAGNOSTIC in
     let self = joza_msg_set_cause self cause in
     let self = joza_msg_set_diagnostic self diagnostic in
     joza_msg_send self)"

definition joza_msg_send_addr_diagnostic :: "zframe option \<Rightarrow> byte \<Rightarrow> byte \<Rightarrow> int io" where
  "joza_msg_send_addr_diagnostic addr cause diagnostic =
     (let self = (joza_msg_new JOZA_MSG_DIAGNOSTIC)\<lparr>m_address := addr\<rparr> in
     let self = joza_msg_set_cause self cause in
     let self = joza_msg_set_diagnostic self diagnostic in
     joza_msg_send self)"

definition joza_msg_send_directory_request :: "int io" where
  "joza_msg_send_directory_request =
     (let self = joza_msg_new JOZA_MSG_DIRECTORY_REQUEST in
     joza_msg_send self)"

definition joza_msg_send_addr_directory_request :: "zframe option \<Rightarrow> int io" where
  "joza_msg_send_addr_directory_request addr =
     (let self = (joza_msg_new JOZA_MSG_DIRECTORY_REQUEST)\<lparr>m_address := addr\<rparr> in
     joza_msg_send self)"

definition joza_msg_send_directory :: "zhash option \<Rightarrow> int io" where
  "joza_msg_send_directory workers =
     (let self = joza_msg_new JOZA_MSG_DIRECTORY in
     bind_io (lift_res (zhash_dup workers)) (\<lambda>copy.
     let self = joza_msg_set_workers self copy in
     joza_msg_send self))"

definition joza_msg_send_addr_directory :: "zframe option \<Rightarrow> zhash option \<Rightarrow> int io" where
  "joza_msg_send_addr_directory addr workers =
     (let self = (joza_msg_new JOZA_MSG_DIRECTORY)\<lparr>m_address := addr\<rparr> in
     bind_io (lift_res (zhash_dup workers)) (\<lambda>copy.
     let self = joza_msg_set_workers self copy in
     joza_msg_send self))"

definition joza_msg_send_enq :: "int io" where
  "joza_msg_send_enq =
     (let self = joza_msg_new JOZA_MSG_ENQ in
     joza_msg_send self)"

definition joza_msg_send_addr_enq :: "zframe option \<Rightarrow> int io" where
  "joza_msg_send_addr_enq addr =
     (let self = (joza_msg_new JOZA_MSG_ENQ)\<lparr>m_address := addr\<rparr> in
     joza_msg_send self)"

definition joza_msg_send_ack :: "int io" where
  "joza_msg_send_ack =
     (let self = joza_msg_new JOZA_MSG_ACK in
     joza_msg_send self)"

definition joza_msg_send_addr_ack :: "zframe option \<Rightarrow> int io" where
  "joza_msg_send_addr_ack addr =
     (let self = (joza_msg_new JOZA_MSG_ACK)\<lparr>m_address := addr\<rparr> in
     joza_msg_send self)"

section \<open>The contract of a sender\<close>

text \<open>Only the outgoing frames and \<^verbatim>\<open>errno\<close> change, and no frame is taken back.\<close>

definition only_net :: "world \<Rightarrow> world \<Rightarrow> bool" where
  "only_net w w' \<longleftrightarrow> (\<exists>s e. w' = w\<lparr>zsent := zsent w @ s, zerrno := e\<rparr>)"

text \<open>The frames of a message to a peer of a ROUTER socket.\<close>

definition wire :: "world \<Rightarrow> zframe \<Rightarrow> joza_msg \<Rightarrow> (zframe \<times> bool) list" where
  "wire w addr m = (addr, True) # multipart (message_frames (projr (joza_msg_frame m w)) m)"

lemma only_netI: "w' = w\<lparr>zsent := zsent w @ s, zerrno := e\<rparr> \<Longrightarrow> only_net w w'"
  by (auto simp: only_net_def)

lemma only_net_refl: "only_net w w"
  by (rule only_netI [where s = "[]" and e = "zerrno w"]) simp

lemma only_net_trans: "only_net u v \<Longrightarrow> only_net v w \<Longrightarrow> only_net u w"
  by (auto simp: only_net_def) blast

lemma only_net_send: "only_net w (snd (zframe_send f b w))"
proof (cases "zfail w (zsent w) (f, b)")
  case None
  then show ?thesis
    by (intro only_netI [where s = "[(f, b)]" and e = "zerrno w"]) (simp add: zframe_send_def)
next
  case (Some e)
  then show ?thesis
    by (intro only_netI [where s = "[]" and e = e]) (simp add: zframe_send_def)
qed

lemma only_netD:
  "only_net w w' \<Longrightarrow> zrouter w' = zrouter w \<and> zinbox w' = zinbox w \<and> zcur w' = zcur w \<and>
     zfail w' = zfail w \<and> zorder w' = zorder w \<and> znull w' = znull w \<and> zjunk w' = zjunk w \<and>
     gtick w' = gtick w \<and> gclock w' = gclock w"
  by (auto simp: only_net_def)

lemma transmit_total: "\<exists>ret w'. transmit self frame w = Inr (ret, w') \<and> only_net w w'"
proof -
  obtain r1 w1 where 1: "zframe_send frame (frame_flags self) w = (r1, w1)"
    by (cases "zframe_send frame (frame_flags self) w")
  obtain r2 w2 where 2: "zframe_send (case m_data self of None \<Rightarrow> [] | Some d \<Rightarrow> d) False w1 = (r2, w2)"
    by (cases "zframe_send (case m_data self of None \<Rightarrow> [] | Some d \<Rightarrow> d) False w1")
  have "only_net w w1" "only_net w1 w2"
    using only_net_send 1 2 by (metis snd_conv)+
  then show ?thesis
    using 1 2 by (auto simp: transmit_def send_data_def intro: only_net_trans)
qed

lemma joza_msg_send_total:
  assumes "joza_msg_frame self w = Inr frame" "zrouter w \<Longrightarrow> m_address self \<noteq> None"
  shows "\<exists>ret w'. joza_msg_send self w = Inr (ret, w') \<and> only_net w w'"
proof (cases "zrouter w")
  case True
  then obtain a where a: "m_address self = Some a" using assms(2) by auto
  obtain r1 w1 where 1: "zframe_send a True w = (r1, w1)" by (cases "zframe_send a True w")
  have "only_net w w1" using only_net_send 1 by (metis snd_conv)
  then show ?thesis
    using transmit_total [of self frame w1] True a 1 assms(1)
    by (auto simp: joza_msg_send_def intro: only_net_trans)
next
  case False
  then show ?thesis using transmit_total assms(1) by (simp add: joza_msg_send_def)
qed

lemma frame_size_address [simp]: "frame_size (m\<lparr>m_address := a\<rparr>) w = frame_size m w"
  by (simp add: frame_size_def Let_def split: option.split)

lemma serialize_body_address [simp]: "serialize_body (m\<lparr>m_address := a\<rparr>) w = serialize_body m w"
  by (simp add: serialize_body_def put_call_def put_cause_def put_connect_def Let_def split: option.split)

lemma joza_msg_frame_address [simp]: "joza_msg_frame (m\<lparr>m_address := a\<rparr>) w = joza_msg_frame m w"
  by (simp add: joza_msg_frame_def Let_def)

lemma message_frames_address [simp]: "message_frames f (m\<lparr>m_address := a\<rparr>) = message_frames f m"
  by (simp add: message_frames_def frame_flags_def data_of_def)

text \<open>The frames do not depend on what was sent before.\<close>

lemma zframe_junk_sent [simp]: "zframe_junk (w\<lparr>zsent := s\<rparr>) n = zframe_junk w n"
  by (simp add: zframe_junk_def)

lemma frame_size_sent [simp]: "frame_size m (w\<lparr>zsent := s\<rparr>) = frame_size m w"
  by (simp add: frame_size_def Let_def split: option.split)

lemma serialize_body_sent [simp]: "serialize_body m (w\<lparr>zsent := s\<rparr>) = serialize_body m w"
  by (simp add: serialize_body_def Let_def split: option.split)

lemma joza_msg_frame_sent [simp]: "joza_msg_frame m (w\<lparr>zsent := s\<rparr>) = joza_msg_frame m w"
  by (simp add: joza_msg_frame_def Let_def cong: if_cong)

lemma wire_sent [simp]: "wire (w\<lparr>zsent := s\<rparr>) a m = wire w a m"
  by (simp add: wire_def)

lemma joza_msg_send_wire:
  assumes "joza_msg_frame m w = Inr frame" "\<And>h x. zfail w h x = None" "zrouter w"
  shows "joza_msg_send (m\<lparr>m_address := Some a\<rparr>) w = Inr (0, w\<lparr>zsent := zsent w @ wire w a m\<rparr>)"
  using joza_msg_send_ok [of "m\<lparr>m_address := Some a\<rparr>" w frame a] assms by (simp add: wire_def)

text \<open>
  A computation that returns, touches nothing but the network, and establishes a postcondition
  of its result.
\<close>

definition runs :: "'a io \<Rightarrow> world \<Rightarrow> ('a \<Rightarrow> bool) \<Rightarrow> bool" where
  "runs m w P \<longleftrightarrow> (\<exists>x w'. m w = Inr (x, w') \<and> only_net w w' \<and> P x)"

named_theorems runs_intros \<open>rules for computations that only send\<close>

lemma runsI: "m w = Inr (x, w') \<Longrightarrow> only_net w w' \<Longrightarrow> P x \<Longrightarrow> runs m w P"
  by (auto simp: runs_def)

lemma runs_return [runs_intros]: "P x \<Longrightarrow> runs (return_io x) w P"
  by (auto simp: runs_def only_net_refl)

lemma runs_lift [runs_intros]: "r = Inr x \<Longrightarrow> P x \<Longrightarrow> runs (lift_res r) w P"
  by (auto simp: runs_def only_net_refl)

lemma runs_bind:
  assumes "runs m w P" "\<And>x w'. P x \<Longrightarrow> runs (f x) w' Q"
  shows "runs (bind_io m f) w Q"
proof -
  obtain x w' where m: "m w = Inr (x, w')" "only_net w w'" "P x"
    using assms(1) by (auto simp: runs_def)
  obtain y w'' where "f x w' = Inr (y, w'')" "only_net w' w''" "Q y"
    using assms(2) [OF m(3), of w'] by (auto simp: runs_def)
  then show ?thesis using m by (auto simp: runs_def intro: only_net_trans)
qed

lemma runs_bind_any [runs_intros]:
  "runs m w (\<lambda>_. True) \<Longrightarrow> (\<And>x w'. runs (f x) w' Q) \<Longrightarrow> runs (bind_io m f) w Q"
  by (rule runs_bind) auto

lemma runs_mono: "runs m w P \<Longrightarrow> (\<And>x. P x \<Longrightarrow> Q x) \<Longrightarrow> runs m w Q"
  by (auto simp: runs_def)

locale sender =
  fixes send :: "zframe option \<Rightarrow> int io"
    and msg :: joza_msg
  assumes send_eq: "send addr = joza_msg_send (msg\<lparr>m_address := addr\<rparr>)"
    and msg_id: "0 \<le> m_id msg" "m_id msg \<le> 17"
    and no_directory: "m_workers msg = None"
begin

lemma frame: "\<exists>frame. joza_msg_frame msg w = Inr frame"
  using joza_msg_frame_safe [OF msg_id] no_directory by fastforce

lemma total: "addr \<noteq> None \<Longrightarrow> \<exists>ret w'. send addr w = Inr (ret, w') \<and> only_net w w'"
proof -
  assume a: "addr \<noteq> None"
  obtain frame where "joza_msg_frame msg w = Inr frame" using frame by blast
  then show ?thesis
    using joza_msg_send_total [of "msg\<lparr>m_address := addr\<rparr>" w frame] a by (simp add: send_eq)
qed

lemma delivers:
  "(\<And>h x. zfail w h x = None) \<Longrightarrow> zrouter w \<Longrightarrow>
     send (Some a) w = Inr (0, w\<lparr>zsent := zsent w @ wire w a msg\<rparr>)"
  using joza_msg_send_wire frame by (metis send_eq)

lemma runs_send: "addr \<noteq> None \<Longrightarrow> runs (send addr) w (\<lambda>_. True)"
  using total by (auto simp: runs_def)

lemma no_address: "zrouter w \<Longrightarrow> send None w = Inl Assert_failed"
  using frame [of w] by (auto simp: send_eq joza_msg_send_def)

end

section \<open>The senders of the broker\<close>

interpretation data_sender: sender "\<lambda>addr. joza_msg_send_addr_data addr q pr ps data"
  "(joza_msg_new JOZA_MSG_DATA)\<lparr>m_q := q, m_pr := pr, m_ps := ps, m_data := data\<rparr>"
  for q :: byte and pr :: u16 and ps :: u16 and data :: "zframe option"
  by unfold_locales (simp_all add: joza_msg_send_addr_data_def msg_setters msg_ids Let_def joza_msg_new_def)

interpretation rr_sender: sender "\<lambda>addr. joza_msg_send_addr_rr addr pr"
  "(joza_msg_new JOZA_MSG_RR)\<lparr>m_pr := pr\<rparr>"
  for pr :: u16
  by unfold_locales (simp_all add: joza_msg_send_addr_rr_def msg_setters msg_ids Let_def joza_msg_new_def)

interpretation rnr_sender: sender "\<lambda>addr. joza_msg_send_addr_rnr addr pr"
  "(joza_msg_new JOZA_MSG_RNR)\<lparr>m_pr := pr\<rparr>"
  for pr :: u16
  by unfold_locales (simp_all add: joza_msg_send_addr_rnr_def msg_setters msg_ids Let_def joza_msg_new_def)

interpretation clear_request_sender: sender "\<lambda>addr. joza_msg_send_addr_clear_request addr cause diagnostic"
  "(joza_msg_new JOZA_MSG_CLEAR_REQUEST)\<lparr>m_cause := cause, m_diagnostic := diagnostic\<rparr>"
  for cause :: byte and diagnostic :: byte
  by unfold_locales (simp_all add: joza_msg_send_addr_clear_request_def msg_setters msg_ids Let_def joza_msg_new_def)

interpretation clear_confirmation_sender: sender "\<lambda>addr. joza_msg_send_addr_clear_confirmation addr"
  "joza_msg_new JOZA_MSG_CLEAR_CONFIRMATION"
  by unfold_locales (simp_all add: joza_msg_send_addr_clear_confirmation_def msg_setters msg_ids Let_def joza_msg_new_def)

interpretation reset_request_sender: sender "\<lambda>addr. joza_msg_send_addr_reset_request addr cause diagnostic"
  "(joza_msg_new JOZA_MSG_RESET_REQUEST)\<lparr>m_cause := cause, m_diagnostic := diagnostic\<rparr>"
  for cause :: byte and diagnostic :: byte
  by unfold_locales (simp_all add: joza_msg_send_addr_reset_request_def msg_setters msg_ids Let_def joza_msg_new_def)

interpretation reset_confirmation_sender: sender "\<lambda>addr. joza_msg_send_addr_reset_confirmation addr"
  "joza_msg_new JOZA_MSG_RESET_CONFIRMATION"
  by unfold_locales (simp_all add: joza_msg_send_addr_reset_confirmation_def msg_setters msg_ids Let_def joza_msg_new_def)

interpretation connect_indication_sender: sender "\<lambda>addr. joza_msg_send_addr_connect_indication addr"
  "joza_msg_new JOZA_MSG_CONNECT_INDICATION"
  by unfold_locales (simp_all add: joza_msg_send_addr_connect_indication_def msg_setters msg_ids Let_def joza_msg_new_def)

interpretation disconnect_sender: sender "\<lambda>addr. joza_msg_send_addr_disconnect addr"
  "joza_msg_new JOZA_MSG_DISCONNECT"
  by unfold_locales (simp_all add: joza_msg_send_addr_disconnect_def msg_setters msg_ids Let_def joza_msg_new_def)

interpretation disconnect_indication_sender: sender "\<lambda>addr. joza_msg_send_addr_disconnect_indication addr"
  "joza_msg_new JOZA_MSG_DISCONNECT_INDICATION"
  by unfold_locales (simp_all add: joza_msg_send_addr_disconnect_indication_def msg_setters msg_ids Let_def joza_msg_new_def)

interpretation diagnostic_sender: sender "\<lambda>addr. joza_msg_send_addr_diagnostic addr cause diagnostic"
  "(joza_msg_new JOZA_MSG_DIAGNOSTIC)\<lparr>m_cause := cause, m_diagnostic := diagnostic\<rparr>"
  for cause :: byte and diagnostic :: byte
  by unfold_locales (simp_all add: joza_msg_send_addr_diagnostic_def msg_setters msg_ids Let_def joza_msg_new_def)

interpretation directory_request_sender: sender "\<lambda>addr. joza_msg_send_addr_directory_request addr"
  "joza_msg_new JOZA_MSG_DIRECTORY_REQUEST"
  by unfold_locales (simp_all add: joza_msg_send_addr_directory_request_def msg_setters msg_ids Let_def joza_msg_new_def)

interpretation enq_sender: sender "\<lambda>addr. joza_msg_send_addr_enq addr"
  "joza_msg_new JOZA_MSG_ENQ"
  by unfold_locales (simp_all add: joza_msg_send_addr_enq_def msg_setters msg_ids Let_def joza_msg_new_def)

interpretation ack_sender: sender "\<lambda>addr. joza_msg_send_addr_ack addr"
  "joza_msg_new JOZA_MSG_ACK"
  by unfold_locales (simp_all add: joza_msg_send_addr_ack_def msg_setters msg_ids Let_def joza_msg_new_def)

lemmas runs_senders [runs_intros] = data_sender.runs_send rr_sender.runs_send rnr_sender.runs_send
  clear_request_sender.runs_send clear_confirmation_sender.runs_send reset_request_sender.runs_send
  reset_confirmation_sender.runs_send connect_indication_sender.runs_send diagnostic_sender.runs_send
  enq_sender.runs_send

text \<open>The senders with strings, when the strings have no conversion in them.\<close>

definition plain_string :: "cstr \<Rightarrow> bool" where
  "plain_string s \<longleftrightarrow> 37 \<notin> set s \<and> length s < STRING_MAX"

lemma send_addr_call_request_plain:
  assumes "plain_string s" "plain_string t"
  shows "joza_msg_send_addr_call_request addr (Some s) (Some t) packet window throughput data =
     joza_msg_send ((joza_msg_new JOZA_MSG_CALL_REQUEST)\<lparr>m_address := addr, m_calling_address := Some s,
       m_called_address := Some t, m_packet := packet, m_window := window,
       m_throughput := throughput, m_data := data\<rparr>)"
  using assms
  by (simp add: fun_eq_iff joza_msg_send_addr_call_request_def plain_string_def set_calling_address_plain
      set_called_address_plain msg_setters Let_def)

lemma send_addr_call_accepted_plain:
  assumes "plain_string s" "plain_string t"
  shows "joza_msg_send_addr_call_accepted addr (Some s) (Some t) packet window throughput data =
     joza_msg_send ((joza_msg_new JOZA_MSG_CALL_ACCEPTED)\<lparr>m_address := addr, m_calling_address := Some s,
       m_called_address := Some t, m_packet := packet, m_window := window,
       m_throughput := throughput, m_data := data\<rparr>)"
  using assms
  by (simp add: fun_eq_iff joza_msg_send_addr_call_accepted_def plain_string_def set_calling_address_plain
      set_called_address_plain msg_setters Let_def)

lemma send_addr_connect_plain:
  assumes "plain_string s" "plain_string t"
  shows "joza_msg_send_addr_connect addr (Some s) (Some t) directionality =
     joza_msg_send ((joza_msg_new JOZA_MSG_CONNECT)\<lparr>m_address := addr, m_calling_address := Some s,
       m_host_name := Some t, m_directionality := directionality\<rparr>)"
  using assms
  by (simp add: fun_eq_iff joza_msg_send_addr_connect_def plain_string_def set_calling_address_plain
      set_host_name_plain msg_setters Let_def)

lemma runs_call_accepted:
  assumes "plain_string s" "plain_string t" "addr \<noteq> None"
  shows "runs (joza_msg_send_addr_call_accepted addr (Some s) (Some t) packet window throughput data) w (\<lambda>_. True)"
proof -
  let ?m = "(joza_msg_new JOZA_MSG_CALL_ACCEPTED)\<lparr>m_address := addr, m_calling_address := Some s,
       m_called_address := Some t, m_packet := packet, m_window := window,
       m_throughput := throughput, m_data := data\<rparr>"
  obtain frame where "joza_msg_frame ?m w = Inr frame"
    using joza_msg_frame_safe [of ?m w] by (auto simp: msg_ids)
  then show ?thesis
    using joza_msg_send_total [of ?m w frame] assms
    by (auto simp: runs_def send_addr_call_accepted_plain)
qed

lemma runs_call_request:
  assumes "plain_string s" "plain_string t" "addr \<noteq> None"
  shows "runs (joza_msg_send_addr_call_request addr (Some s) (Some t) packet window throughput data) w (\<lambda>_. True)"
proof -
  let ?m = "(joza_msg_new JOZA_MSG_CALL_REQUEST)\<lparr>m_address := addr, m_calling_address := Some s,
       m_called_address := Some t, m_packet := packet, m_window := window,
       m_throughput := throughput, m_data := data\<rparr>"
  obtain frame where "joza_msg_frame ?m w = Inr frame"
    using joza_msg_frame_safe [of ?m w] by (auto simp: msg_ids)
  then show ?thesis
    using joza_msg_send_total [of ?m w frame] assms
    by (auto simp: runs_def send_addr_call_request_plain)
qed

end
