(* ===== verification/Joza_Lib.thy ===== *)
theory Joza_Lib
  imports Joza_Facilities
begin

text \<open>
  The library routines of \<^verbatim>\<open>src/lib.c\<close>: names that are safe to print (\<^verbatim>\<open>safeascii\<close>),
  telephone-style names (\<^verbatim>\<open>safe121\<close>, \<^verbatim>\<open>pack121\<close>, \<^verbatim>\<open>unpack121\<close>), bisection in ordered arrays
  (\<^verbatim>\<open>ifind\<close>, \<^verbatim>\<open>namefind\<close>) and the index sort of strings (\<^verbatim>\<open>sort3\<close>, \<^verbatim>\<open>iisort\<close>).
  A character array is the list of its bytes and a read outside it is \<open>Undefined\<close>.
  \<^verbatim>\<open>ifind\<close> and \<^verbatim>\<open>namefind\<close> share a search loop, \<open>bisect\<close>, whose correctness is proved once.
\<close>

section \<open>Strings\<close>

definition cstrdup :: "cstr \<Rightarrow> cstr" where
  "cstrdup s = take (length s) s"

definition strnlen_s :: "bytes option \<Rightarrow> nat \<Rightarrow> nat" where
  "strnlen_s s maxsize = (case s of None \<Rightarrow> 0 | Some mem \<Rightarrow> strnlen mem maxsize)"

definition p_ini :: cstr where "p_ini = lit ''%&+,.:=_''"
definition p_mid :: cstr where "p_mid = lit ''%&+,.:=_- ''"

text \<open>
  \<^verbatim>\<open>isalnum\<close> in the C locale: ASCII letters and digits. The code passes it plain \<^verbatim>\<open>char\<close>s; for the bytes from 128
  on, which are negative where \<^verbatim>\<open>char\<close> is signed, ISO C leaves it undefined, and it is false here, as in the C locale of glibc.
\<close>

definition isalnum :: "byte \<Rightarrow> bool" where
  "isalnum c \<longleftrightarrow> (48 \<le> c \<and> c \<le> 57) \<or> (65 \<le> c \<and> c \<le> 90) \<or> (97 \<le> c \<and> c \<le> 122)"

definition val_init :: "byte \<Rightarrow> bool" where
  "val_init C = (C \<noteq> 0 \<and> (isalnum C \<or> C \<in> set p_ini))"

definition val_mid :: "byte \<Rightarrow> bool" where
  "val_mid C = (C \<noteq> 0 \<and> (isalnum C \<or> C \<in> set p_mid))"

text \<open>
  One pass of the loop of \<^verbatim>\<open>safeascii\<close> per step: \<open>i\<close> is the index, \<open>k\<close> the passes left; the
  result is the final value of \<^verbatim>\<open>bad\<close>.
\<close>

fun safeascii_loop :: "bytes \<Rightarrow> nat \<Rightarrow> nat \<Rightarrow> nat \<Rightarrow> int \<Rightarrow> int res" where
  "safeascii_loop mem i 0 state bad = Inr bad"
| "safeascii_loop mem i (Suc k) state bad =
     bind_res (mem_read mem i) (\<lambda>c.
       let bad' = (if state = 1 \<and> \<not> val_init c then int i else bad);
           state' = (if state = 1 then 2 else if state = 2 \<and> \<not> val_mid c then 3 else state)
       in if state' = 3
          then if c \<noteq> 0 then Inr (int i)
               else bind_res (mem_read mem (i - 1)) (\<lambda>p.
                      Inr (if p = 32 then int i - 1 else bad'))
          else safeascii_loop mem (Suc i) k state' bad')"

definition safeascii :: "bytes option \<Rightarrow> nat \<Rightarrow> bool res" where
  "safeascii mem n =
     (case mem of
        None \<Rightarrow> Inl Assert_failed
      | Some m \<Rightarrow> bind_res (safeascii_loop m 0 n 1 (-1)) (\<lambda>bad. Inr (bad = -1)))"

section \<open>Telephone-style names\<close>

fun safe121_loop :: "nat \<Rightarrow> bytes \<Rightarrow> bool" where
  "safe121_loop i [] = True"
| "safe121_loop i (c # cs) =
     (if (i = 3 \<or> i = 8) \<and> c \<noteq> 45 then False
      else if sint c < 48 \<or> sint c > 57 then False
      else safe121_loop (Suc i) cs)"

definition safe121 :: "bytes option \<Rightarrow> nat \<Rightarrow> bool" where
  "safe121 str n =
     (let len = strnlen_s str n in
      if len \<noteq> 11 \<and> len \<noteq> 8 then False
      else safe121_loop 0 (take len (case str of None \<Rightarrow> [] | Some m \<Rightarrow> m)))"

fun pack121_loop :: "bytes \<Rightarrow> u32 \<Rightarrow> u32 \<Rightarrow> u32" where
  "pack121_loop [] val scale = val"
| "pack121_loop (c # cs) val scale =
     pack121_loop cs (val + (of_int (sint c - 48)) * scale) (scale div 10)"

definition pack121 :: "bytes option \<Rightarrow> nat \<Rightarrow> u32 res" where
  "pack121 str n =
     bind_res (c_assert (safe121 str n)) (\<lambda>_.
     bind_res (c_assert (safe121 str n)) (\<lambda>_.
     Inr (pack121_loop (take (strnlen_s str n) (case str of None \<Rightarrow> [] | Some m \<Rightarrow> m)) 0 100000000)))"

text \<open>The digit of weight \<open>10 ^ i\<close> of the number, as a character.\<close>

definition digit121 :: "u32 \<Rightarrow> nat \<Rightarrow> byte" where
  "digit121 x i = 48 + of_nat (unat x div 10 ^ i mod 10)"

text \<open>The static buffer of \<^verbatim>\<open>unpack121\<close>, all twelve bytes of it.\<close>

definition unpack121 :: "u32 \<Rightarrow> bytes" where
  "unpack121 x =
     [digit121 x 8, digit121 x 7, digit121 x 6, 45,
      digit121 x 5, digit121 x 4, digit121 x 3, digit121 x 2,
      (if digit121 x 0 = 48 \<and> digit121 x 1 = 48 then 0 else 45),
      digit121 x 1, digit121 x 0, 0]"

section \<open>Bisection\<close>

text \<open>
  The loop of \<^verbatim>\<open>ifind\<close> and \<^verbatim>\<open>namefind\<close>: \<open>ge mid\<close> is the test that moves the lower end.
\<close>

function bisect :: "(nat \<Rightarrow> bool) \<Rightarrow> nat \<Rightarrow> nat \<Rightarrow> nat \<times> nat" where
  "bisect ge lo hi =
     (if hi - lo > 1
      then let mid = (hi + lo) div 2 in
           if ge mid then bisect ge mid hi else bisect ge lo mid
      else (lo, hi))"
  by pat_completeness auto
termination
  by (relation "measure (\<lambda>(ge, lo, hi). hi - lo)") auto

declare bisect.simps [simp del]

definition ifind :: "u32 list \<Rightarrow> nat \<Rightarrow> u32 \<Rightarrow> nat res" where
  "ifind arr n X =
     (if length arr < n \<or> arr = [] then Inl Undefined
      else case bisect (\<lambda>mid. X \<ge> arr ! mid) 0 n of
             (lo, hi) \<Rightarrow> Inr (if X \<le> arr ! lo then lo else hi))"

definition namefind :: "cstr list \<Rightarrow> nat \<Rightarrow> nat list \<Rightarrow> cstr \<Rightarrow> nat res" where
  "namefind arr n nidx str =
     (if length nidx < n \<or> (\<exists>i \<in> set (take n nidx). length arr \<le> i) then Inl Undefined
      else Inr (fst (bisect (\<lambda>mid. strcmp str (arr ! (nidx ! (mid - 1))) \<ge> 0) 0 (n + 1))))"

section \<open>Index sort\<close>

text \<open>
  An index array is a list of positions in the array of strings. \<open>strat\<close> is the string an entry
  of it points to.
\<close>

definition strat :: "cstr list \<Rightarrow> nat list \<Rightarrow> nat \<Rightarrow> cstr" where
  "strat arr indx a = arr ! (indx ! a)"

definition swap_at :: "nat list \<Rightarrow> nat \<Rightarrow> nat \<Rightarrow> nat list" where
  "swap_at indx a b = indx[a := indx ! b, b := indx ! a]"

definition sort3 :: "cstr list \<Rightarrow> nat list \<Rightarrow> nat \<Rightarrow> nat \<Rightarrow> nat \<Rightarrow> nat list res" where
  "sort3 arr indx a b c =
     (if (\<exists>k \<in> {a, b, c}. length indx \<le> k \<or> length arr \<le> indx ! k) then Inl Undefined
      else
        let i1 = (if strcmp (strat arr indx a) (strat arr indx c) > 0 then swap_at indx a c else indx);
            i2 = (if strcmp (strat arr i1 b) (strat arr i1 c) > 0 then swap_at i1 b c else i1);
            i3 = (if strcmp (strat arr i2 a) (strat arr i2 b) > 0 then swap_at i2 a b else i2)
        in Inr i3)"

text \<open>The inner loop of \<^verbatim>\<open>iisort\<close>, which shifts the larger entries and drops \<^verbatim>\<open>index\<close> in the gap.\<close>

fun iisort_shift :: "cstr list \<Rightarrow> nat \<Rightarrow> nat \<Rightarrow> nat \<Rightarrow> nat list \<Rightarrow> nat list" where
  "iisort_shift arr left index 0 indx = indx[0 := index]"
| "iisort_shift arr left index (Suc i) indx =
     (if Suc i > left \<and> strcmp (strat arr indx i) (arr ! index) > 0
      then iisort_shift arr left index i (indx[Suc i := indx ! i])
      else indx[Suc i := index])"

function iisort_loop :: "cstr list \<Rightarrow> nat \<Rightarrow> nat \<Rightarrow> nat \<Rightarrow> nat list \<Rightarrow> nat list" where
  "iisort_loop arr left right j indx =
     (if j < right
      then iisort_loop arr left right (Suc j) (iisort_shift arr left (indx ! j) j indx)
      else indx)"
  by pat_completeness auto
termination
  by (relation "measure (\<lambda>(arr, left, right, j, indx). right - j)") auto

declare iisort_loop.simps [simp del]

text \<open>The loops read exactly the entries from \<open>left\<close> up to \<open>right\<close> and the strings they point to.\<close>

definition iisort :: "cstr list \<Rightarrow> nat list \<Rightarrow> nat \<Rightarrow> nat \<Rightarrow> nat list res" where
  "iisort arr indx left right =
     (if left + 1 < right \<and>
         (length indx < right \<or> (\<exists>i \<in> set (drop left (take right indx)). length arr \<le> i))
      then Inl Undefined
      else Inr (iisort_loop arr left right (left + 1) indx))"

section \<open>Safe names\<close>

lemma val_init_mid: "val_init c \<Longrightarrow> val_mid c"
  by (auto simp: val_init_def val_mid_def p_ini_def p_mid_def lit_def)

lemma val_mid_nonzero: "val_mid c \<Longrightarrow> c \<noteq> 0"
  by (simp add: val_mid_def)

lemma not_val_mid_0 [simp]: "\<not> val_mid 0"
  by (simp add: val_mid_def)

lemma not_val_init_space [simp]: "\<not> val_init 32"
  by (simp add: val_init_def isalnum_def p_ini_def lit_def)

lemma safeascii_loop_mid:
  assumes "is_cstr s" "p \<noteq> []"
  shows "\<exists>b. safeascii_loop (p @ s @ 0 # r) (length p) k 2 bad = Inr b \<and>
           (b = -1 \<longleftrightarrow> bad = -1 \<and> (\<forall>c \<in> set (take k s). val_mid c) \<and>
                       (length s < k \<longrightarrow> last (p @ s) \<noteq> 32))"
  using assms
proof (induction s arbitrary: p k)
  case Nil
  have "(p @ 0 # r) ! (length p - 1) = last p"
    using Nil.prems(2) by (simp add: nth_append last_conv_nth)
  then show ?case
    using Nil.prems(2) by (cases k) (auto simp: mem_read_def nth_append last_conv_nth)
next
  case (Cons c s)
  show ?case
  proof (cases k)
    case 0
    then show ?thesis by simp
  next
    case (Suc k')
    have rd: "mem_read (p @ (c # s) @ 0 # r) (length p) = Inr c"
      by (simp add: mem_read_def)
    show ?thesis
    proof (cases "val_mid c")
      case True
      have "\<exists>b. safeascii_loop ((p @ [c]) @ s @ 0 # r) (length (p @ [c])) k' 2 bad = Inr b \<and>
           (b = -1 \<longleftrightarrow> bad = -1 \<and> (\<forall>c \<in> set (take k' s). val_mid c) \<and>
                       (length s < k' \<longrightarrow> last ((p @ [c]) @ s) \<noteq> 32))"
        by (rule Cons.IH) (use Cons.prems in auto)
      then show ?thesis using Suc True rd by (simp add: Let_def)
    next
      case False
      then show ?thesis using Suc rd Cons.prems by (simp add: Let_def)
    qed
  qed
qed

text \<open>
  What \<^verbatim>\<open>safeascii\<close> accepts, for a terminated string that fits: a valid first character, valid
  other characters, and no space at the end, which it only checks when it sees the NUL.
\<close>

lemma safeascii_spec:
  assumes "is_cstr s" "s \<noteq> []" "length s \<le> n"
  shows "safeascii (Some (s @ 0 # r)) n =
     Inr (val_init (hd s) \<and> (\<forall>c \<in> set (tl s). val_mid c) \<and> (length s < n \<longrightarrow> last s \<noteq> 32))"
proof -
  obtain c t where s: "s = c # t" using assms(2) by (cases s) auto
  obtain k where n: "n = Suc k" using assms(3) s by (cases n) auto
  have step: "safeascii_loop (s @ 0 # r) 0 n 1 (-1) =
      safeascii_loop ([c] @ t @ 0 # r) (length [c]) k 2 (if val_init c then -1 else 0)"
    using s n by (simp add: mem_read_def)
  obtain b where b: "safeascii_loop ([c] @ t @ 0 # r) (length [c]) k 2 (if val_init c then -1 else 0) = Inr b"
      "b = -1 \<longleftrightarrow> (if val_init c then -1 else 0) = (-1 :: int) \<and> (\<forall>d \<in> set (take k t). val_mid d) \<and>
         (length t < k \<longrightarrow> last ([c] @ t) \<noteq> 32)"
    using safeascii_loop_mid [of t "[c]" r k "if val_init c then -1 else 0"] assms(1) s by auto
  have "take k t = t" using assms(3) s n by simp
  then show ?thesis
    unfolding safeascii_def option.case step b(1)
    using b(2) s n by (auto split: if_splits)
qed

section \<open>Telephone-style names\<close>

lemma safe121_loop_False:
  "i \<le> 3 \<Longrightarrow> length cs + i > 3 \<Longrightarrow> \<not> safe121_loop i cs"
proof (induction i cs rule: safe121_loop.induct)
  case (1 i)
  then show ?case by simp
next
  case (2 i c cs)
  then show ?case by (cases "i = 3") auto
qed

lemma strnlen_le: "strnlen mem n \<le> length mem"
  using length_takeWhile_le [of "\<lambda>c. c \<noteq> 0" "take n mem"] by (simp add: strnlen_def)

lemma safe121_never: "safe121 str n = False"
proof (cases str)
  case None
  then show ?thesis by (simp add: safe121_def strnlen_s_def)
next
  case (Some m)
  have "\<not> safe121_loop 0 (take (strnlen m n) m)" if "strnlen m n > 3"
    using that strnlen_le [of m n] by (intro safe121_loop_False) auto
  then show ?thesis using Some by (auto simp: safe121_def strnlen_s_def Let_def)
qed

lemma digit121_inj:
  "digit121 x i = digit121 y i \<longleftrightarrow> unat x div 10 ^ i mod 10 = unat y div 10 ^ i mod 10"
proof -
  have "unat (of_nat (k mod 10) :: byte) = k mod 10" for k
    by (rule unat_of_nat_byte) (simp add: order.strict_trans [OF mod_less_divisor])
  then show ?thesis
    unfolding digit121_def by (metis add_left_cancel)
qed

section \<open>Bisection\<close>

text \<open>
  When the test is downward closed between the ends, the loop ends with the last index that
  passes it and its successor.
\<close>

lemma bisect_correct:
  assumes "lo < hi"
    and "\<forall>i j. lo < i \<and> i \<le> j \<and> j < hi \<and> ge j \<longrightarrow> ge i"
  shows "\<exists>k. bisect ge lo hi = (k, Suc k) \<and> lo \<le> k \<and> k < hi \<and>
           (\<forall>i. lo < i \<and> i \<le> k \<longrightarrow> ge i) \<and> (\<forall>i. k < i \<and> i < hi \<longrightarrow> \<not> ge i)"
  using assms
proof (induction ge lo hi rule: bisect.induct)
  case (1 ge lo hi)
  show ?case
  proof (cases "hi - lo > 1")
    case False
    then have "hi = Suc lo" using "1.prems"(1) by simp
    then show ?thesis by (auto simp: bisect.simps)
  next
    case True
    define mid where "mid = (hi + lo) div 2"
    have mid: "lo < mid" "mid < hi" using True by (auto simp: mid_def)
    show ?thesis
    proof (cases "ge mid")
      case True': True
      have "\<forall>i j. mid < i \<and> i \<le> j \<and> j < hi \<and> ge j \<longrightarrow> ge i"
        using "1.prems"(2) mid(1) by (meson less_trans)
      from "1.IH"(1) [OF True mid_def True' mid(2) this]
      obtain k where k: "bisect ge mid hi = (k, Suc k)" "mid \<le> k" "k < hi"
          "\<forall>i. mid < i \<and> i \<le> k \<longrightarrow> ge i" "\<forall>i. k < i \<and> i < hi \<longrightarrow> \<not> ge i"
        by blast
      have "ge i" if "lo < i" "i \<le> k" for i
        using that k(4) True' "1.prems"(2) mid(2) by (cases "i \<le> mid") auto
      then show ?thesis
        using k mid True True' by (auto simp: bisect.simps [of ge lo hi] Let_def mid_def [symmetric])
    next
      case False
      have "\<forall>i j. lo < i \<and> i \<le> j \<and> j < mid \<and> ge j \<longrightarrow> ge i"
        using "1.prems"(2) mid(2) by (meson less_trans)
      from "1.IH"(2) [OF True mid_def False mid(1) this]
      obtain k where k: "bisect ge lo mid = (k, Suc k)" "lo \<le> k" "k < mid"
          "\<forall>i. lo < i \<and> i \<le> k \<longrightarrow> ge i" "\<forall>i. k < i \<and> i < mid \<longrightarrow> \<not> ge i"
        by blast
      have "\<not> ge i" if "k < i" "i < hi" for i
        using that k(5) False "1.prems"(2) mid(1) by (meson not_less)
      then show ?thesis
        using k mid True False by (auto simp: bisect.simps [of ge lo hi] Let_def mid_def [symmetric])
    qed
  qed
qed

text \<open>\<^verbatim>\<open>ifind\<close> returns the number of smaller elements: where the key is, or would be put.\<close>

lemma sorted_filter_less:
  assumes "sorted xs" "k \<le> length xs" "\<forall>i < k. xs ! i < x" "\<forall>i. k \<le> i \<and> i < length xs \<longrightarrow> \<not> xs ! i < x"
  shows "length (filter (\<lambda>y. y < x) xs) = k"
proof -
  have "{i. i < length xs \<and> xs ! i < x} = {..<k}"
    using assms(2,3,4) by (auto simp: not_less [symmetric])
  then show ?thesis by (simp add: length_filter_conv_card)
qed

lemma ifind_spec:
  assumes "sorted_wrt (<) arr" "arr \<noteq> []"
  shows "ifind arr (length arr) X = Inr (length (filter (\<lambda>y. y < X) arr))"
proof -
  let ?n = "length arr"
  have srt: "sorted arr" using assms(1) by (simp add: strict_sorted_iff)
  have mono: "arr ! i \<le> arr ! j" if "i \<le> j" "j < ?n" for i j
    using srt that by (simp add: sorted_nth_mono)
  have smono: "arr ! i < arr ! j" if "i < j" "j < ?n" for i j
    using assms(1) that by (simp add: sorted_wrt_iff_nth_less)
  obtain k where k: "bisect (\<lambda>mid. X \<ge> arr ! mid) 0 ?n = (k, Suc k)" "k < ?n"
      "\<forall>i. 0 < i \<and> i \<le> k \<longrightarrow> arr ! i \<le> X" "\<forall>i. k < i \<and> i < ?n \<longrightarrow> \<not> arr ! i \<le> X"
    using bisect_correct [of 0 ?n "\<lambda>mid. X \<ge> arr ! mid"] assms(2) mono
    by (auto intro: order.trans)
  have "length (filter (\<lambda>y. y < X) arr) = (if X \<le> arr ! k then k else Suc k)"
  proof (cases "X \<le> arr ! k")
    case True
    have "\<forall>i < k. arr ! i < X"
    proof (intro allI impI)
      fix i assume "i < k"
      then show "arr ! i < X"
        using smono [of i k] k(2) k(3) [rule_format, of k] True by (cases k) auto
    qed
    moreover have "\<forall>i. k \<le> i \<and> i < ?n \<longrightarrow> \<not> arr ! i < X"
      using True mono by (meson leD order.trans)
    ultimately show ?thesis using sorted_filter_less [OF srt] k(2) True by simp
  next
    case False
    then have "\<forall>i < Suc k. arr ! i < X"
      using mono k(2) by (meson le_less_trans less_Suc_eq_le not_le)
    moreover have "\<forall>i. Suc k \<le> i \<and> i < ?n \<longrightarrow> \<not> arr ! i < X"
      using k(4) by (auto simp: Suc_le_eq)
    ultimately show ?thesis using sorted_filter_less [OF srt, of "Suc k"] k(2) False by simp
  qed
  then show ?thesis using assms(2) k(1) by (simp add: ifind_def)
qed

lemma strcmp_refl [simp]: "strcmp s s = 0"
  by simp

text \<open>
  Strings in the order of an index array, and \<^verbatim>\<open>namefind\<close>: the number of names that are not
  greater than the one looked for.
\<close>

definition index_sorted :: "cstr list \<Rightarrow> nat list \<Rightarrow> bool" where
  "index_sorted arr nidx = sorted_wrt (\<lambda>i j. strcmp (arr ! i) (arr ! j) \<le> 0) nidx"

lemma namefind_spec:
  assumes "index_sorted arr nidx" "\<forall>i \<in> set nidx. i < length arr"
  shows "namefind arr (length nidx) nidx str =
     Inr (length (filter (\<lambda>i. strcmp (arr ! i) str \<le> 0) nidx))"
proof -
  let ?n = "length nidx"
  let ?ge = "\<lambda>mid. strcmp str (arr ! (nidx ! (mid - 1))) \<ge> 0"
  have ge: "?ge m \<longleftrightarrow> strcmp (arr ! (nidx ! (m - 1))) str \<le> 0" for m
    by (subst strcmp_antisym) simp
  have srt: "strcmp (arr ! (nidx ! i)) (arr ! (nidx ! j)) \<le> 0" if "i \<le> j" "j < ?n" for i j
    using assms(1) that
    by (cases "i = j") (auto simp: index_sorted_def sorted_wrt_iff_nth_less)
  have down: "\<forall>i j. 0 < i \<and> i \<le> j \<and> j < ?n + 1 \<and> ?ge j \<longrightarrow> ?ge i"
    unfolding ge
  proof (intro allI impI)
    fix i j assume a: "0 < i \<and> i \<le> j \<and> j < ?n + 1 \<and> strcmp (arr ! (nidx ! (j - 1))) str \<le> 0"
    then have "strcmp (arr ! (nidx ! (i - 1))) (arr ! (nidx ! (j - 1))) \<le> 0"
      by (intro srt) auto
    then show "strcmp (arr ! (nidx ! (i - 1))) str \<le> 0"
      using a by (blast intro: strcmp_le_trans)
  qed
  obtain k where k: "bisect ?ge 0 (?n + 1) = (k, Suc k)" "k < ?n + 1"
      "\<forall>i. 0 < i \<and> i \<le> k \<longrightarrow> ?ge i" "\<forall>i. k < i \<and> i < ?n + 1 \<longrightarrow> \<not> ?ge i"
    using bisect_correct [OF _ down] by auto
  have "{i. i < ?n \<and> strcmp (arr ! (nidx ! i)) str \<le> 0} = {..<k}"
  proof (intro set_eqI iffI)
    fix i assume "i \<in> {i. i < ?n \<and> strcmp (arr ! (nidx ! i)) str \<le> 0}"
    then show "i \<in> {..<k}" using k(4) [rule_format, of "Suc i"] ge [of "Suc i"] by (cases "i < k") auto
  next
    fix i assume "i \<in> {..<k}"
    then show "i \<in> {i. i < ?n \<and> strcmp (arr ! (nidx ! i)) str \<le> 0}"
      using k(2) k(3) [rule_format, of "Suc i"] ge [of "Suc i"] by auto
  qed
  then have "length (filter (\<lambda>i. strcmp (arr ! i) str \<le> 0) nidx) = k"
    by (simp add: length_filter_conv_card)
  moreover have "\<not> (\<exists>i \<in> set nidx. length arr \<le> i)" using assms(2) by (auto simp: not_le)
  ultimately show ?thesis using k(1) by (simp add: namefind_def)
qed

section \<open>Insertion sort of an index array\<close>

lemma index_sorted_append:
  "index_sorted arr (S @ T) \<longleftrightarrow>
     index_sorted arr S \<and> index_sorted arr T \<and>
     (\<forall>s \<in> set S. \<forall>t \<in> set T. strcmp (arr ! s) (arr ! t) \<le> 0)"
  by (simp add: index_sorted_def sorted_wrt_append)

lemma iisort_shift_split:
  assumes "length A = left"
  shows "\<exists>S1 S2. S = S1 @ S2 \<and>
     iisort_shift arr left x (left + length S) (A @ S @ y # R) = A @ S1 @ x # S2 @ R \<and>
     (\<forall>z \<in> set S2. strcmp (arr ! z) (arr ! x) > 0) \<and>
     (S1 \<noteq> [] \<longrightarrow> strcmp (arr ! last S1) (arr ! x) \<le> 0)"
  using assms
proof (induction S arbitrary: y R rule: rev_induct)
  case Nil
  have "iisort_shift arr left x left (A @ y # R) = A @ x # R"
    using Nil by (cases left) (auto simp: list_update_append)
  then show ?case by simp
next
  case (snoc z S)
  let ?i = "left + length S"
  have zi: "(A @ (S @ [z]) @ y # R) ! ?i = z"
    using snoc.prems by (simp add: nth_append)
  have upd: "(A @ (S @ [z]) @ y # R)[Suc ?i := v] = A @ S @ z # v # R" for v
    using snoc.prems by (simp add: list_update_append)
  show ?case
  proof (cases "strcmp (arr ! z) (arr ! x) > 0")
    case True
    have "iisort_shift arr left x (left + length (S @ [z])) (A @ (S @ [z]) @ y # R) =
        iisort_shift arr left x ?i (A @ S @ z # z # R)"
      using True zi upd [of z] by (simp add: strat_def)
    moreover obtain S1 S2 where "S = S1 @ S2"
        "iisort_shift arr left x ?i (A @ S @ z # z # R) = A @ S1 @ x # S2 @ z # R"
        "\<forall>z \<in> set S2. strcmp (arr ! z) (arr ! x) > 0"
        "S1 \<noteq> [] \<longrightarrow> strcmp (arr ! last S1) (arr ! x) \<le> 0"
      using snoc.IH [of z "z # R"] snoc.prems by blast
    ultimately show ?thesis
      using True by (intro exI [of _ S1] exI [of _ "S2 @ [z]"]) simp
  next
    case False
    have "iisort_shift arr left x (left + length (S @ [z])) (A @ (S @ [z]) @ y # R) =
        A @ (S @ [z]) @ x # R"
      using False zi upd [of x] by (simp add: strat_def)
    then show ?thesis
      using False by (intro exI [of _ "S @ [z]"] exI [of _ "[]"]) simp
  qed
qed

lemma index_sorted_insert:
  assumes "index_sorted arr (S1 @ S2)" "\<forall>z \<in> set S2. strcmp (arr ! z) (arr ! x) > 0"
    and "S1 \<noteq> [] \<longrightarrow> strcmp (arr ! last S1) (arr ! x) \<le> 0"
  shows "index_sorted arr (S1 @ x # S2)"
proof -
  have below: "strcmp (arr ! s) (arr ! x) \<le> 0" if "s \<in> set S1" for s
  proof -
    have ne: "S1 \<noteq> []" using that by auto
    then have "S1 = butlast S1 @ [last S1]" by simp
    then have "strcmp (arr ! s) (arr ! last S1) \<le> 0"
      using assms(1) that
      by (metis index_sorted_append append_Nil2 in_set_conv_decomp list.set_intros(1) rotate1.simps(2)
          set_ConsD set_rotate1 strcmp_refl order_refl)
    then show ?thesis using assms(3) ne by (blast intro: strcmp_le_trans)
  qed
  have above: "strcmp (arr ! x) (arr ! z) \<le> 0" if "z \<in> set S2" for z
    using assms(2) that strcmp_antisym [of "arr ! x" "arr ! z"] by force
  show ?thesis
    using assms(1) below above
    by (auto simp: index_sorted_append index_sorted_def sorted_wrt_append)
qed

lemma iisort_loop_sorts:
  assumes "length A = left" "index_sorted arr S"
  shows "\<exists>S'. iisort_loop arr left (left + length S + length T) (left + length S) (A @ S @ T @ R) =
       A @ S' @ R \<and> mset S' = mset (S @ T) \<and> index_sorted arr S'"
  using assms
proof (induction T arbitrary: S)
  case Nil
  then show ?case by (simp add: iisort_loop.simps)
next
  case (Cons x T)
  have x: "(A @ S @ (x # T) @ R) ! (left + length S) = x"
    using Cons.prems(1) by (simp add: nth_append)
  obtain S1 S2 where sp: "S = S1 @ S2"
      "iisort_shift arr left x (left + length S) (A @ S @ x # T @ R) = A @ S1 @ x # S2 @ T @ R"
      "\<forall>z \<in> set S2. strcmp (arr ! z) (arr ! x) > 0"
      "S1 \<noteq> [] \<longrightarrow> strcmp (arr ! last S1) (arr ! x) \<le> 0"
    using iisort_shift_split [OF Cons.prems(1), of S arr x x "T @ R"] by blast
  let ?S = "S1 @ x # S2"
  have srt: "index_sorted arr ?S"
    using index_sorted_insert sp Cons.prems(2) by blast
  have "iisort_loop arr left (left + length S + length (x # T)) (left + length S) (A @ S @ (x # T) @ R) =
      iisort_loop arr left (left + length ?S + length T) (left + length ?S) (A @ ?S @ T @ R)"
    using sp(1,2) x by (subst iisort_loop.simps) simp
  moreover obtain S' where
      "iisort_loop arr left (left + length ?S + length T) (left + length ?S) (A @ ?S @ T @ R) = A @ S' @ R"
      "mset S' = mset (?S @ T)" "index_sorted arr S'"
    using Cons.IH [OF Cons.prems(1) srt] by blast
  ultimately show ?case using sp(1) by auto
qed

lemma iisort_spec:
  assumes "length A = left" "right = left + length S" "\<forall>i \<in> set S. i < length arr"
  shows "\<exists>S'. iisort arr (A @ S @ R) left right = Inr (A @ S' @ R) \<and> mset S' = mset S \<and>
     index_sorted arr S'"
proof (cases S)
  case Nil
  then show ?thesis
    using assms by (auto simp: iisort_def iisort_loop.simps index_sorted_def)
next
  case (Cons x T)
  have "drop left (take right (A @ S @ R)) = S" using assms(1,2) by simp
  then have "iisort arr (A @ S @ R) left right = Inr (iisort_loop arr left right (left + 1) (A @ S @ R))"
    using assms by (auto simp: iisort_def not_le)
  moreover have "\<exists>S'. iisort_loop arr left (left + length [x] + length T) (left + length [x]) (A @ [x] @ T @ R) =
       A @ S' @ R \<and> mset S' = mset ([x] @ T) \<and> index_sorted arr S'"
    by (rule iisort_loop_sorts) (use assms(1) in \<open>auto simp: index_sorted_def\<close>)
  ultimately show ?thesis using assms(2) Cons by auto
qed

section \<open>Properties\<close>

text \<open>
  \<^verbatim>\<open>safeascii\<close> accepts a terminated string that fits the limit exactly when its first character
  is alphanumeric or one of the permitted marks, the others are too or are a space or hyphen,
  and it does not end in a space; the last check is only made when the string is shorter than
  the limit. It never reads past the terminating NUL.
\<close>

theorem safeascii_accepts:
  assumes "is_cstr s" "s \<noteq> []" "length s \<le> n"
  shows "safeascii (Some (s @ [0])) n =
     Inr (val_init (hd s) \<and> (\<forall>c \<in> set (tl s). val_mid c) \<and> (length s < n \<longrightarrow> last s \<noteq> 32))"
  using safeascii_spec [OF assms, of "[]"] by simp

theorem safeascii_accepts_witness:
  "safeascii (Some ([65, 32] @ [0])) 16 =
     Inr (val_init (hd [65, 32]) \<and> (\<forall>c \<in> set (tl [65, 32]). val_mid c) \<and>
       (length [65, 32 :: byte] < 16 \<longrightarrow> last [65, 32 :: byte] \<noteq> 32))"
  by (rule safeascii_accepts) simp_all

text \<open>
  No telephone-style name is ever accepted: the position that must hold a hyphen is also
  required to hold a digit, so \<^verbatim>\<open>safe121\<close> is false for every input and \<^verbatim>\<open>pack121\<close> always fails
  its assertion, even on what \<^verbatim>\<open>unpack121\<close> prints.
\<close>

theorem safe121_rejects_everything:
  "safe121 str n = False \<and> pack121 str n = Inl Assert_failed \<and>
   pack121 (Some (unpack121 x)) 12 = Inl Assert_failed"
  by (simp add: pack121_def safe121_never)

text \<open>
  \<^verbatim>\<open>ifind\<close> on a strictly increasing array returns the position of the key, or the one where
  it would be inserted: the number of smaller elements.
\<close>

theorem ifind_correct:
  assumes "sorted_wrt (<) arr" "arr \<noteq> []"
  shows "ifind arr (length arr) X = Inr (length (filter (\<lambda>y. y < X) arr))"
  using assms by (rule ifind_spec)

theorem ifind_correct_witness:
  "ifind [2, 5, 9] (length [2, 5, 9 :: u32]) 7 = Inr (length (filter (\<lambda>y. y < 7) [2, 5, 9 :: u32]))"
  by (rule ifind_correct) simp_all

text \<open>
  \<^verbatim>\<open>namefind\<close> on an index array that orders the names returns how many names are not greater
  than the one looked for, so the name is at that place or absent.
\<close>

theorem namefind_correct:
  assumes "index_sorted arr nidx" "\<forall>i \<in> set nidx. i < length arr"
  shows "namefind arr (length nidx) nidx str =
     Inr (length (filter (\<lambda>i. strcmp (arr ! i) str \<le> 0) nidx))"
  using assms by (rule namefind_spec)

theorem namefind_correct_witness:
  "namefind [[66], [65]] (length [1, 0 :: nat]) [1, 0] [65] =
     Inr (length (filter (\<lambda>i. strcmp ([[66], [65]] ! i) [65] \<le> 0) [1, 0 :: nat]))"
  by (rule namefind_correct) (simp_all add: index_sorted_def)

text \<open>
  The insertion sort \<^verbatim>\<open>iisort\<close> orders exactly the entries from \<open>left\<close> up to \<open>right\<close>: they are
  permuted into the order of the names they point to, and the rest of the array is untouched.
\<close>

theorem iisort_correct:
  assumes "length A = left" "right = left + length S" "\<forall>i \<in> set S. i < length arr"
  shows "\<exists>S'. iisort arr (A @ S @ R) left right = Inr (A @ S' @ R) \<and> mset S' = mset S \<and>
     index_sorted arr S'"
  using assms by (rule iisort_spec)

theorem iisort_correct_witness:
  "\<exists>S'. iisort [[67], [66], [65]] ([2] @ [0, 1] @ [2]) 1 3 = Inr ([2] @ S' @ [2]) \<and> mset S' = mset [0, 1] \<and>
     index_sorted [[67], [66], [65]] S'"
  by (rule iisort_correct) simp_all

end
