(* ===== verification/Joza_Validate.thy ===== *)
theory Joza_Validate
  imports Joza_Send Joza_Lib
begin

text \<open>
  The helpers of \<^verbatim>\<open>src/msg.c\<close>: the key of a worker from the address of its connection, the
  senders that log what they send, and the range checks that every message passes before it is
  processed. Log output is not modelled; the name lookups made for it are, since they assert.
\<close>

section \<open>Operations\<close>

text \<open>
  \<^verbatim>\<open>memcpy\<close> of the bytes 1 to 4 of the frame into a 32-bit integer, on a little-endian host.
\<close>

definition msg_addr2key :: "zframe option \<Rightarrow> wkey_t res" where
  "msg_addr2key z =
     (case z of
        None \<Rightarrow> Inl Undefined
      | Some f \<Rightarrow>
        bind_res (mem_read f 1) (\<lambda>a.
        bind_res (mem_read f 2) (\<lambda>b.
        bind_res (mem_read f 3) (\<lambda>c.
        bind_res (mem_read f 4) (\<lambda>d.
        Inr (ucast a + push_bit 8 (ucast b) + push_bit 16 (ucast c) + push_bit 24 (ucast d)))))))"

definition diagnostic :: "zframe option \<Rightarrow> cstr option \<Rightarrow> cause_t \<Rightarrow> diag_t \<Rightarrow> unit io" where
  "diagnostic A name C D =
     bind_io (lift_res (cause_name (cause_code C))) (\<lambda>_.
     bind_io (joza_msg_send_addr_diagnostic A (of_nat (cause_code C)) (of_nat (diag_code D))) (\<lambda>_.
     return_io ()))"

definition call_request :: "zframe option \<Rightarrow> zframe option \<Rightarrow> cstr option \<Rightarrow> cstr option \<Rightarrow> packet_t \<Rightarrow>
    seq_t \<Rightarrow> tput_t \<Rightarrow> zframe option \<Rightarrow> unit io" where
  "call_request call_addr return_addr xname yname pkt window tput data =
     bind_io (joza_msg_send_addr_call_request call_addr xname yname (of_nat pkt) window (of_nat tput) data) (\<lambda>ret w.
       if ret = -1 then diagnostic return_addr xname c_zmq_sendmsg_err (errno2diag (zerrno w)) w
       else Inr ((), w))"

definition directory_request :: "zframe option \<Rightarrow> zhash \<Rightarrow> unit io" where
  "directory_request A D = bind_io (joza_msg_send_addr_directory A (Some D)) (\<lambda>_. return_io ())"

text \<open>The buffer behind a string member.\<close>

definition buffer :: "cstr option \<Rightarrow> bytes option" where
  "buffer s = map_option (\<lambda>t. t @ [0]) s"

definition prevalidate_name :: "cstr option \<Rightarrow> diag_t \<Rightarrow> diag_t \<Rightarrow> diag_t \<Rightarrow> diag_t res \<Rightarrow> diag_t res" where
  "prevalidate_name s too_short too_long format_invalid rest =
     (if strnlen_s (buffer s) (NAME_LEN + 1) = 0 then Inr too_short
      else if strnlen_s (buffer s) (NAME_LEN + 1) > NAME_LEN then Inr too_long
      else bind_res (safeascii (buffer s) NAME_LEN) (\<lambda>safe.
             if \<not> safe then Inr format_invalid else rest))"

definition prevalidate_facilities :: "joza_msg \<Rightarrow> diag_t \<Rightarrow> diag_t" where
  "prevalidate_facilities msg ret =
     (let packet = joza_msg_const_packet msg; window = joza_msg_const_window msg;
          throughput = joza_msg_const_throughput msg in
      if packet_rngchk (unat packet) < 0 then d_packet_facility_too_small
      else if packet_rngchk (unat packet) > 0 then d_packet_facility_too_large
      else if seq_rngchk window < 0 then d_window_facility_too_small
      else if seq_rngchk window > 0 then d_window_facility_too_large
      else if tput_rngchk (unat throughput) < 0 then d_throughput_facility_too_small
      else if tput_rngchk (unat throughput) > 0 then d_throughput_facility_too_large
      else ret)"

definition prevalidate_message :: "joza_msg \<Rightarrow> diag_t res" where
  "prevalidate_message msg =
     (let i = joza_msg_const_id msg; ret = d_unspecified;
          ret = (if i = JOZA_MSG_DATA \<and> joza_msg_const_q msg > Q_MAX
                 then d_invalid_q_too_large else ret);
          ret = (if (i = JOZA_MSG_DATA \<or> i = JOZA_MSG_RR \<or> i = JOZA_MSG_RNR) \<and>
                    joza_msg_const_pr msg > SEQ_MAX
                 then d_pr_too_large else ret);
          ret = (if i = JOZA_MSG_DATA \<and> joza_msg_const_ps msg > SEQ_MAX then d_ps_too_large else ret)
      in
      bind_res
        (if i = JOZA_MSG_DATA then
           bind_res (zframe_size (joza_msg_data msg)) (\<lambda>data_len.
           bind_res (packet_bytes p_last) (\<lambda>limit.
             let ret = (if data_len = 0 then d_data_too_short else ret)
             in Inr (if data_len > limit then d_data_too_long else ret)))
         else Inr ret) (\<lambda>ret.
      bind_res
        (if i = JOZA_MSG_CALL_REQUEST \<or> i = JOZA_MSG_CALL_ACCEPTED then
           bind_res (zframe_size (joza_msg_data msg)) (\<lambda>data_len.
           bind_res (packet_bytes p_default) (\<lambda>limit.
             Inr (if data_len > limit then d_data_too_long else ret)))
         else Inr ret) (\<lambda>ret.
      bind_res
        (if i = JOZA_MSG_CALL_REQUEST \<or> i = JOZA_MSG_CALL_ACCEPTED \<or> i = JOZA_MSG_CONNECT then
           prevalidate_name (joza_msg_calling_address msg) d_calling_address_too_short
             d_calling_address_too_long d_calling_address_format_invalid (Inr ret)
         else Inr ret) (\<lambda>ret.
      bind_res
        (if i = JOZA_MSG_CALL_REQUEST \<or> i = JOZA_MSG_CALL_ACCEPTED then
           prevalidate_name (joza_msg_called_address msg) d_called_address_too_short
             d_called_address_too_long d_called_address_format_invalid
             (Inr (prevalidate_facilities msg ret))
         else Inr ret) (\<lambda>ret.
      let ret = (if i = JOZA_MSG_CLEAR_REQUEST \<or> i = JOZA_MSG_RESET_REQUEST \<or> i = JOZA_MSG_DIAGNOSTIC
                 then if unat (joza_msg_const_cause msg) > CAUSE_MAX then d_invalid_cause
                      else if unat (joza_msg_const_diagnostic msg) > d_last then d_invalid_diagnostic
                      else ret
                 else ret);
          ret = (if i = JOZA_MSG_CONNECT \<and> \<not> iodir_validate (unat (joza_msg_const_directionality msg))
                 then d_invalid_directionality_facility else ret)
      in Inr ret)))))"

section \<open>What a message must satisfy\<close>

text \<open>Names of workers: one to sixteen printable characters.\<close>

definition valid_name :: "cstr option \<Rightarrow> bool" where
  "valid_name s =
     (case s of
        None \<Rightarrow> False
      | Some t \<Rightarrow> t \<noteq> [] \<and> length t \<le> NAME_LEN \<and> val_init (hd t) \<and> (\<forall>c \<in> set (tl t). val_mid c) \<and>
          (length t < NAME_LEN \<longrightarrow> last t \<noteq> 32))"

definition data_length :: "joza_msg \<Rightarrow> nat" where
  "data_length m = length (data_of m)"

definition valid_message :: "joza_msg \<Rightarrow> bool" where
  "valid_message m \<longleftrightarrow>
     (m_id m = JOZA_MSG_DATA \<longrightarrow> m_ps m \<le> SEQ_MAX \<and> 0 < data_length m \<and> data_length m \<le> 4096) \<and>
     (m_id m \<in> {JOZA_MSG_DATA, JOZA_MSG_RR, JOZA_MSG_RNR} \<longrightarrow> m_pr m \<le> SEQ_MAX) \<and>
     (m_id m \<in> {JOZA_MSG_CALL_REQUEST, JOZA_MSG_CALL_ACCEPTED} \<longrightarrow>
        data_length m \<le> 128 \<and> valid_name (m_called_address m) \<and>
        packet_rngchk (unat (m_packet m)) = 0 \<and> seq_rngchk (m_window m) = 0 \<and>
        tput_rngchk (unat (m_throughput m)) = 0) \<and>
     (m_id m \<in> {JOZA_MSG_CALL_REQUEST, JOZA_MSG_CALL_ACCEPTED, JOZA_MSG_CONNECT} \<longrightarrow>
        valid_name (m_calling_address m)) \<and>
     (m_id m \<in> {JOZA_MSG_CLEAR_REQUEST, JOZA_MSG_RESET_REQUEST, JOZA_MSG_DIAGNOSTIC} \<longrightarrow>
        unat (m_cause m) \<le> CAUSE_MAX \<and> unat (m_diagnostic m) \<le> d_last) \<and>
     (m_id m = JOZA_MSG_CONNECT \<longrightarrow> iodir_validate (unat (m_directionality m)))"

section \<open>Lemmas\<close>

lemma cause_name_ok: "\<exists>s. cause_name (cause_code C) = Inr s"
  using cause_code_less [of C] by (simp add: cause_name_def)

lemma diagnostic_total:
  assumes "A \<noteq> None"
  shows "\<exists>w'. diagnostic A name C D w = Inr ((), w') \<and> only_net w w'"
proof -
  obtain s where "cause_name (cause_code C) = Inr s" using cause_name_ok by blast
  then show ?thesis
    using diagnostic_sender.total [OF assms, of "of_nat (cause_code C)" "of_nat (diag_code D)" w]
    by (auto simp: diagnostic_def bind_io_def)
qed

lemma runs_diagnostic [runs_intros]: "A \<noteq> None \<Longrightarrow> runs (diagnostic A name C D) w (\<lambda>_. True)"
  using diagnostic_total by (fastforce simp: runs_def)

lemma diagnostic_delivers:
  assumes "\<And>h x. zfail w h x = None" "zrouter w"
  shows "diagnostic (Some a) name C D w =
     Inr ((), w\<lparr>zsent := zsent w @ wire w a ((joza_msg_new JOZA_MSG_DIAGNOSTIC)
       \<lparr>m_cause := of_nat (cause_code C), m_diagnostic := of_nat (diag_code D)\<rparr>)\<rparr>)"
proof -
  obtain s where "cause_name (cause_code C) = Inr s" using cause_name_ok by blast
  then show ?thesis
    using diagnostic_sender.delivers [OF assms] by (simp add: diagnostic_def bind_io_def)
qed

lemma prevalidate_name_ok:
  assumes "\<forall>t. s = Some t \<longrightarrow> is_cstr t" "too_short \<noteq> x" "too_long \<noteq> x" "format_invalid \<noteq> x"
  shows "(\<exists>d. prevalidate_name s too_short too_long format_invalid (Inr r) = Inr d \<and>
     (d = x \<longleftrightarrow> valid_name s \<and> r = x))"
proof (cases s)
  case None
  then show ?thesis
    using assms by (simp add: prevalidate_name_def strnlen_s_def buffer_def valid_name_def)
next
  case (Some t)
  have len: "strnlen_s (buffer s) (NAME_LEN + 1) = min (length t) (NAME_LEN + 1)"
    using assms(1) Some by (simp add: strnlen_s_def buffer_def strnlen_buffer)
  show ?thesis
  proof (cases "t \<noteq> [] \<and> length t \<le> NAME_LEN")
    case False
    then show ?thesis
      unfolding prevalidate_name_def len using assms Some
      by (auto simp: valid_name_def min_def)
  next
    case True
    then have "safeascii (buffer s) NAME_LEN =
        Inr (val_init (hd t) \<and> (\<forall>c \<in> set (tl t). val_mid c) \<and> (length t < NAME_LEN \<longrightarrow> last t \<noteq> 32))"
      using safeascii_spec [of t NAME_LEN "[]"] assms(1) Some by (simp add: buffer_def)
    moreover have "min (length t) (NAME_LEN + 1) = length t" using True by simp
    ultimately show ?thesis
      unfolding prevalidate_name_def len using assms True Some
      by (auto simp: valid_name_def)
  qed
qed

lemma q_never_too_large: "\<not> (q :: byte) > Q_MAX"
proof -
  have "unat q \<le> 255" using unat_lt_256 [of q] by simp
  then show ?thesis by (simp add: Q_MAX_def word_less_nat_alt not_less)
qed

lemma prevalidate_facilities_iff:
  "prevalidate_facilities m ret = d_unspecified \<longleftrightarrow>
     packet_rngchk (unat (m_packet m)) = 0 \<and> seq_rngchk (m_window m) = 0 \<and>
     tput_rngchk (unat (m_throughput m)) = 0 \<and> ret = d_unspecified"
  by (simp add: prevalidate_facilities_def msg_getters Let_def seq_rngchk_def)

lemma prevalidate_call:
  assumes "m_id m = JOZA_MSG_CALL_REQUEST \<or> m_id m = JOZA_MSG_CALL_ACCEPTED" "well_received router m"
  shows "\<exists>d. prevalidate_message m = Inr d \<and> (d = d_unspecified \<longleftrightarrow> valid_message m)"
proof -
  obtain data where data: "m_data m = Some data"
    using assms by (auto simp: well_received_def)
  let ?r1 = "if length data > 128 then d_data_too_long else d_unspecified"
  have cs: "\<forall>t. m_calling_address m = Some t \<longrightarrow> is_cstr t" "\<forall>t. m_called_address m = Some t \<longrightarrow> is_cstr t"
    using assms by (auto simp: well_received_def wire_string_def)
  obtain d1 where d1: "prevalidate_name (m_calling_address m) d_calling_address_too_short
       d_calling_address_too_long d_calling_address_format_invalid (Inr ?r1) = Inr d1"
      "d1 = d_unspecified \<longleftrightarrow> valid_name (m_calling_address m) \<and> ?r1 = d_unspecified"
    using prevalidate_name_ok [OF cs(1), of d_calling_address_too_short d_unspecified
       d_calling_address_too_long d_calling_address_format_invalid ?r1] by auto
  obtain d2 where d2: "prevalidate_name (m_called_address m) d_called_address_too_short
       d_called_address_too_long d_called_address_format_invalid (Inr (prevalidate_facilities m d1)) = Inr d2"
      "d2 = d_unspecified \<longleftrightarrow> valid_name (m_called_address m) \<and> prevalidate_facilities m d1 = d_unspecified"
    using prevalidate_name_ok [OF cs(2), of d_called_address_too_short d_unspecified
       d_called_address_too_long d_called_address_format_invalid "prevalidate_facilities m d1"] by auto
  have "prevalidate_message m = Inr d2"
    using assms(1) data d1(1) d2(1)
    by (auto simp: prevalidate_message_def msg_getters msg_ids Let_def)
  moreover have "valid_message m \<longleftrightarrow> d2 = d_unspecified"
    using assms(1) data unfolding d2(2) prevalidate_facilities_iff d1(2)
    by (auto simp: valid_message_def msg_ids data_length_def data_of_def)
  ultimately show ?thesis by blast
qed

lemma prevalidate_connect:
  assumes "m_id m = JOZA_MSG_CONNECT" "well_received router m"
  shows "\<exists>d. prevalidate_message m = Inr d \<and> (d = d_unspecified \<longleftrightarrow> valid_message m)"
proof -
  have cs: "\<forall>t. m_calling_address m = Some t \<longrightarrow> is_cstr t"
    using assms by (auto simp: well_received_def wire_string_def)
  obtain d1 where d1: "prevalidate_name (m_calling_address m) d_calling_address_too_short
       d_calling_address_too_long d_calling_address_format_invalid (Inr d_unspecified) = Inr d1"
      "d1 = d_unspecified \<longleftrightarrow> valid_name (m_calling_address m)"
    using prevalidate_name_ok [OF cs, of d_calling_address_too_short d_unspecified
       d_calling_address_too_long d_calling_address_format_invalid d_unspecified] by auto
  then show ?thesis
    using assms(1)
    by (auto simp: prevalidate_message_def valid_message_def msg_getters msg_ids Let_def)
qed

lemma prevalidate_data:
  assumes "m_id m = JOZA_MSG_DATA" "well_received router m"
  shows "\<exists>d. prevalidate_message m = Inr d \<and> (d = d_unspecified \<longleftrightarrow> valid_message m)"
proof -
  obtain data where data: "m_data m = Some data"
    using assms by (auto simp: well_received_def)
  then show ?thesis
    using assms(1) q_never_too_large
    by (auto simp: prevalidate_message_def valid_message_def msg_getters msg_ids Let_def
        data_length_def data_of_def)
qed

lemma prevalidate_other:
  assumes "m_id m \<notin> {JOZA_MSG_DATA, JOZA_MSG_CALL_REQUEST, JOZA_MSG_CALL_ACCEPTED, JOZA_MSG_CONNECT}"
  shows "\<exists>d. prevalidate_message m = Inr d \<and> (d = d_unspecified \<longleftrightarrow> valid_message m)"
  using assms
  by (auto simp: prevalidate_message_def valid_message_def msg_getters msg_ids Let_def not_less)

lemma prevalidate_iff:
  assumes "well_received router m"
  shows "\<exists>d. prevalidate_message m = Inr d \<and> (d = d_unspecified \<longleftrightarrow> valid_message m)"
  using assms prevalidate_call prevalidate_connect prevalidate_data prevalidate_other by blast

text \<open>Keys: four bytes of the address.\<close>

lemma msg_addr2key_short: "length f < 5 \<Longrightarrow> msg_addr2key (Some f) = Inl Undefined"
  by (auto simp: msg_addr2key_def mem_read_def)

lemma msg_addr2key_ok: "5 \<le> length f \<Longrightarrow> \<exists>k. msg_addr2key (Some f) = Inr k"
  by (auto simp: msg_addr2key_def mem_read_def)

section \<open>Properties\<close>

text \<open>
  The ranges that the headers document, with the names and the windows as parameters: sequence numbers of 0 to 8
  (\<^verbatim>\<open>mylimits.h\<close>), DATA of 1 to 4096 bytes and data of calls of at most 128, packet sizes \<^verbatim>\<open>p_first\<close> to \<^verbatim>\<open>p_last\<close>,
  throughputs up to \<^verbatim>\<open>t_last\<close>, the enumerated causes, diagnostics and directions.
\<close>

definition message_in_range :: "(cstr \<Rightarrow> bool) \<Rightarrow> nat set \<Rightarrow> joza_msg \<Rightarrow> bool" where
  "message_in_range name windows m \<longleftrightarrow>
     (m_id m = JOZA_MSG_DATA \<longrightarrow> unat (m_ps m) \<le> 8 \<and> 1 \<le> length (data_of m) \<and> length (data_of m) \<le> 4096) \<and>
     (m_id m \<in> {JOZA_MSG_DATA, JOZA_MSG_RR, JOZA_MSG_RNR} \<longrightarrow> unat (m_pr m) \<le> 8) \<and>
     (m_id m \<in> {JOZA_MSG_CALL_REQUEST, JOZA_MSG_CALL_ACCEPTED} \<longrightarrow>
        length (data_of m) \<le> 128 \<and> (\<exists>s. m_called_address m = Some s \<and> name s) \<and>
        unat (m_packet m) \<in> {4..12} \<and> unat (m_window m) \<in> windows \<and> unat (m_throughput m) \<in> {3..44}) \<and>
     (m_id m \<in> {JOZA_MSG_CALL_REQUEST, JOZA_MSG_CALL_ACCEPTED, JOZA_MSG_CONNECT} \<longrightarrow>
        (\<exists>s. m_calling_address m = Some s \<and> name s)) \<and>
     (m_id m \<in> {JOZA_MSG_CLEAR_REQUEST, JOZA_MSG_RESET_REQUEST, JOZA_MSG_DIAGNOSTIC} \<longrightarrow>
        unat (m_cause m) \<le> CAUSE_MAX \<and> unat (m_diagnostic m) \<le> d_last) \<and>
     (m_id m = JOZA_MSG_CONNECT \<longrightarrow> unat (m_directionality m) \<in> {0..3})"

text \<open>
  Names as \<^verbatim>\<open>lib.h\<close> documents them: the first and the last character are alphanumeric or one of
  \<^verbatim>\<open>%&+,.:=_\<close>, the others may also be spaces. The code also takes hyphens after the first
  character, and a space at the end of a name of sixteen characters.
\<close>

definition name_char :: "byte \<Rightarrow> bool" where
  "name_char c \<longleftrightarrow> isalnum c \<or> c \<in> set (lit ''%&+,.:=_'')"

definition documented_name :: "cstr \<Rightarrow> bool" where
  "documented_name t \<longleftrightarrow> t \<noteq> [] \<and> length t \<le> 16 \<and> name_char (hd t) \<and> name_char (last t) \<and>
     list_all (\<lambda>c. name_char c \<or> c = 32) t"

definition accepted_name :: "cstr \<Rightarrow> bool" where
  "accepted_name t \<longleftrightarrow> t \<noteq> [] \<and> length t \<le> 16 \<and> name_char (hd t) \<and> (length t < 16 \<longrightarrow> last t \<noteq> 32) \<and>
     list_all (\<lambda>c. name_char c \<or> c = 32 \<or> c = 45) (tl t)"

definition odd_name :: "cstr \<Rightarrow> bool" where
  "odd_name t \<longleftrightarrow> 45 \<in> set (tl t) \<or> (length t = 16 \<and> last t = 32)"

definition documented_message :: "joza_msg \<Rightarrow> bool" where
  "documented_message m \<longleftrightarrow> message_in_range documented_name {1..7} m"

text \<open>What the code accepts beyond that: windows of 0 and 8, and such names.\<close>

definition odd_message :: "joza_msg \<Rightarrow> bool" where
  "odd_message m \<longleftrightarrow>
     (m_id m \<in> {JOZA_MSG_CALL_REQUEST, JOZA_MSG_CALL_ACCEPTED} \<and>
        (m_window m = 0 \<or> m_window m = 8 \<or> (\<exists>s. m_called_address m = Some s \<and> odd_name s))) \<or>
     (m_id m \<in> {JOZA_MSG_CALL_REQUEST, JOZA_MSG_CALL_ACCEPTED, JOZA_MSG_CONNECT} \<and>
        (\<exists>s. m_calling_address m = Some s \<and> odd_name s))"

lemma valid_name_accepted: "valid_name s \<longleftrightarrow> (\<exists>t. s = Some t \<and> accepted_name t)"
proof (cases s)
  case (Some t)
  have "val_init c \<longleftrightarrow> name_char c" "val_mid c \<longleftrightarrow> name_char c \<or> c = 32 \<or> c = 45" for c
    by (auto simp: val_init_def val_mid_def name_char_def p_ini_def p_mid_def lit_def isalnum_def)
  then show ?thesis using Some by (auto simp: valid_name_def accepted_name_def NAME_LEN_def list_all_iff)
qed (simp add: valid_name_def)

lemma not_name_char_space: "\<not> name_char 32"
  by (simp add: name_char_def isalnum_def lit_def)

lemma documented_accepted: "documented_name t \<Longrightarrow> accepted_name t"
  using not_name_char_space by (cases t) (auto simp: accepted_name_def documented_name_def list_all_iff)

lemma accepted_documented: "accepted_name t \<Longrightarrow> \<not> odd_name t \<Longrightarrow> documented_name t"
proof (cases t)
  case (Cons c cs)
  assume t: "accepted_name t" "\<not> odd_name t"
  have "name_char (last cs)" if "cs \<noteq> []"
  proof -
    have "name_char (last cs) \<or> last cs = 32 \<or> last cs = 45"
      using t(1) Cons last_in_set [OF that] by (auto simp: accepted_name_def list_all_iff)
    moreover have "last cs \<noteq> 45" using t(2) Cons last_in_set [OF that] by (auto simp: odd_name_def)
    moreover have "last cs \<noteq> 32" using t Cons that by (auto simp: odd_name_def accepted_name_def)
    ultimately show ?thesis by blast
  qed
  then show ?thesis using t Cons by (auto simp: accepted_name_def documented_name_def odd_name_def list_all_iff)
qed (simp add: accepted_name_def)

lemma valid_message_in_range: "valid_message m \<longleftrightarrow> message_in_range accepted_name {0..8} m"
proof -
  have r: "(x :: seq_t) \<le> SEQ_MAX \<longleftrightarrow> unat x \<le> 8" "seq_rngchk x = 0 \<longleftrightarrow> unat x \<in> {0..8}" for x
    by (simp_all add: SEQ_MAX_def seq_rngchk_0 word_le_nat_alt)
  have "iodir_validate x \<longleftrightarrow> x \<in> {0..3}" "packet_rngchk x = 0 \<longleftrightarrow> x \<in> {4..12}" "tput_rngchk x = 0 \<longleftrightarrow> x \<in> {3..44}"
      "0 < x \<longleftrightarrow> 1 \<le> x" for x
    by (auto simp: iodir_validate_iff packet_rngchk_0 tput_rngchk_0)
  then show ?thesis
    by (simp only: valid_message_def message_in_range_def data_length_def valid_name_accepted r)
qed

lemma valid_message_documented: "valid_message m \<longleftrightarrow> documented_message m \<or> (valid_message m \<and> odd_message m)"
proof -
  have w: "(w :: seq_t) = 0 \<longleftrightarrow> unat w = 0" "(w :: seq_t) = 8 \<longleftrightarrow> unat w = 8" for w by (simp_all add: word_unat_eq_iff)
  have u: "n \<in> {0..8} \<longleftrightarrow> n \<in> {1..7} \<or> n = 0 \<or> n = 8" for n :: nat by (simp; linarith)
  have "valid_message m" if "documented_message m"
    using that documented_accepted unfolding valid_message_in_range documented_message_def message_in_range_def u by blast
  moreover have "documented_message m" if "valid_message m" "\<not> odd_message m"
    using that accepted_documented
    unfolding valid_message_in_range documented_message_def message_in_range_def odd_message_def w u
    by blast
  ultimately show ?thesis by blast
qed

text \<open>
  C21. \<^verbatim>\<open>prevalidate_message\<close> on any message that was received: it returns without a fault, and it
  returns \<^verbatim>\<open>d_unspecified\<close> exactly for the messages whose sequence numbers, data length, names,
  facilities, causes, diagnostics and direction are in the documented ranges, and for those that
  are out of them only by a window of 0 or 8 (the code checks the range of sequence numbers in place of that of
  windows, 1 to 7), a hyphen in a name, or a space at the end of a name of sixteen characters.
\<close>

theorem prevalidate_correct:
  assumes "well_received router m"
  shows "\<exists>d. prevalidate_message m = Inr d \<and>
     (d = d_unspecified \<longleftrightarrow> documented_message m \<or> (message_in_range accepted_name {0..8} m \<and> odd_message m))"
  using prevalidate_iff [OF assms] valid_message_documented [of m] unfolding valid_message_in_range by blast

theorem prevalidate_correct_witness:
  "\<exists>d. prevalidate_message ((joza_msg_new JOZA_MSG_RR)\<lparr>m_address := Some [0], m_pr := 9\<rparr>) = Inr d \<and> d \<noteq> d_unspecified"
proof -
  let ?m = "(joza_msg_new JOZA_MSG_RR)\<lparr>m_address := Some [0], m_pr := 9\<rparr>"
  have "\<not> documented_message ?m" "\<not> message_in_range accepted_name {0..8} ?m"
    by (simp_all add: documented_message_def message_in_range_def msg_ids)
  then show ?thesis
    using prevalidate_correct [of True ?m] by (auto simp: well_received_def msg_ids)
qed

end
