(* ===== verification/Joza_Action.thy ===== *)
theory Joza_Action
  imports Joza_Enums
begin

text \<open>
  The action tables of \<^verbatim>\<open>src/action.c\<close>: what the broker does with a message of a given type
  that arrives on a channel in a given state, from the caller (\<^verbatim>\<open>x_action_table\<close>) or from the
  callee (\<^verbatim>\<open>y_action_table\<close>). The rows are written as in the source. C fills the elements of
  an array that its initialiser does not name with zero, the value of \<^verbatim>\<open>a_unspecified\<close>;
  \<open>init_row\<close> does so here.
\<close>

section \<open>Definitions\<close>

datatype action_t =
    a_unspecified
  | a_discard
  | a_reset
  | a_clear
  | a_disconnect
  | a_x_connect
  | a_x_disconnect
  | a_x_call_request
  | a_x_call_accepted
  | a_x_clear_request
  | a_x_clear_confirmation
  | a_x_data
  | a_x_rr
  | a_x_rnr
  | a_x_reset
  | a_x_reset_confirmation
  | a_y_disconnect
  | a_y_call_request
  | a_y_call_accepted
  | a_y_call_collision
  | a_y_clear_request
  | a_y_clear_confirmation
  | a_y_data
  | a_y_rr
  | a_y_rnr
  | a_y_reset
  | a_y_reset_confirmation

primrec action_code :: "action_t \<Rightarrow> nat" where
  "action_code a_unspecified = 0"
| "action_code a_discard = 1"
| "action_code a_reset = 2"
| "action_code a_clear = 3"
| "action_code a_disconnect = 4"
| "action_code a_x_connect = 5"
| "action_code a_x_disconnect = 6"
| "action_code a_x_call_request = 7"
| "action_code a_x_call_accepted = 8"
| "action_code a_x_clear_request = 9"
| "action_code a_x_clear_confirmation = 10"
| "action_code a_x_data = 11"
| "action_code a_x_rr = 12"
| "action_code a_x_rnr = 13"
| "action_code a_x_reset = 14"
| "action_code a_x_reset_confirmation = 15"
| "action_code a_y_disconnect = 16"
| "action_code a_y_call_request = 17"
| "action_code a_y_call_accepted = 18"
| "action_code a_y_call_collision = 19"
| "action_code a_y_clear_request = 20"
| "action_code a_y_clear_confirmation = 21"
| "action_code a_y_data = 22"
| "action_code a_y_rr = 23"
| "action_code a_y_rnr = 24"
| "action_code a_y_reset = 25"
| "action_code a_y_reset_confirmation = 26"

definition action_names :: "string list" where
  "action_names = [
     ''UNSPECIFIED'', ''DISCARD'', ''RESET'', ''CLEAR'', ''DISCONNECT'', ''X_CONNECT'',
     ''X_DISCONNECT'', ''X_CALL_REQUEST'', ''X_CALL_ACCEPTED'', ''X_CLEAR_REQUEST'',
     ''X_CLEAR_CONFIRMATION'', ''X_DATA'', ''X_RR'', ''X_RNR'', ''X_RESET'',
     ''X_RESET_CONFIRMATION'', ''Y_DISCONNECT'', ''Y_CALL_REQUEST'', ''Y_CALL_ACCEPTED'',
     ''Y_CALL_COLLISION'', ''Y_CLEAR_REQUEST'', ''Y_CLEAR_CONFIRMATION'', ''Y_DATA'', ''Y_RR'',
     ''Y_RNR'', ''Y_RESET'', ''Y_RESET_CONFIRMATION'']"

definition action_name :: "action_t \<Rightarrow> string res" where
  "action_name a =
     bind_res (c_assert (action_code a \<le> action_code a_y_reset_confirmation))
       (\<lambda>_. Inr (action_names ! action_code a))"

definition ACTION_STATE_COUNT :: nat where "ACTION_STATE_COUNT = 9"
definition ACTION_MESSAGE_COUNT :: nat where "ACTION_MESSAGE_COUNT = 16"

definition init_row :: "action_t list \<Rightarrow> action_t list" where
  "init_row r = r @ replicate (ACTION_MESSAGE_COUNT - length r) a_unspecified"

definition x_action_table :: "action_t list list" where
  "x_action_table = map init_row [
     \<comment> \<open>state_ready\<close>
     [
      a_clear, a_clear, a_clear, a_x_call_request, a_clear, a_x_clear_request, a_clear,
      a_clear, a_clear, a_clear, a_clear, a_x_disconnect, a_clear, a_discard, a_discard,
      a_discard],
     \<comment> \<open>state_x_call_request\<close>
     [
      a_clear, a_clear, a_clear, a_clear, a_clear, a_x_clear_request, a_clear, a_clear,
      a_clear, a_clear, a_clear, a_x_disconnect, a_clear, a_discard, a_clear, a_clear],
     \<comment> \<open>state_y_call_request\<close>
     [
      a_clear, a_clear, a_clear, a_clear, a_clear, a_clear, a_clear, a_clear, a_clear, a_clear,
      a_clear, a_x_disconnect, a_clear, a_discard, a_clear, a_clear],
     \<comment> \<open>state_data_transfer\<close>
     [
      a_x_data, a_x_rr, a_x_rnr, a_clear, a_clear, a_x_clear_request, a_clear, a_x_reset,
      a_reset, a_reset, a_reset, a_x_disconnect, a_reset, a_discard, a_clear, a_clear],
     \<comment> \<open>state_call_collision\<close>
     [
      a_clear, a_clear, a_clear, a_clear, a_clear, a_x_clear_request, a_clear, a_clear,
      a_clear, a_clear, a_clear, a_x_disconnect, a_clear, a_discard, a_clear, a_clear],
     \<comment> \<open>state_x_clear_request\<close>
     [
      a_clear, a_clear, a_clear, a_clear, a_clear, a_discard, a_clear, a_clear, a_clear,
      a_clear, a_clear, a_x_disconnect, a_clear, a_discard, a_clear, a_clear],
     \<comment> \<open>state_y_clear_request\<close>
     [
      a_discard, a_discard, a_discard, a_discard, a_discard, a_x_clear_confirmation,
      a_x_clear_confirmation, a_discard, a_discard, a_discard, a_discard, a_x_disconnect,
      a_discard, a_discard, a_discard, a_discard],
     \<comment> \<open>state_x_reset_request\<close>
     [
      a_reset, a_reset, a_reset, a_clear, a_clear, a_x_clear_request, a_clear, a_discard,
      a_reset, a_reset, a_reset, a_x_disconnect, a_reset, a_discard, a_clear, a_clear],
     \<comment> \<open>state_y_reset_request\<close>
     [
      a_discard, a_discard, a_discard, a_clear, a_clear, a_x_clear_request, a_clear,
      a_x_reset_confirmation, a_x_reset_confirmation, a_discard, a_discard, a_x_disconnect,
      a_discard, a_discard, a_clear, a_clear]]"

definition y_action_table :: "action_t list list" where
  "y_action_table = map init_row [
     \<comment> \<open>state_ready\<close>
     [
      a_clear, a_clear, a_clear, a_y_call_request, a_clear, a_y_clear_request, a_clear,
      a_clear, a_clear, a_clear, a_clear, a_y_disconnect, a_clear, a_clear, a_clear],
     \<comment> \<open>state_x_call_request\<close>
     [
      a_clear, a_clear, a_clear, a_y_call_collision, a_y_call_accepted, a_y_clear_request,
      a_clear, a_clear, a_clear, a_clear, a_clear, a_y_disconnect, a_clear, a_clear, a_clear],
     \<comment> \<open>state_y_call_request\<close>
     [
      a_clear, a_clear, a_clear, a_clear, a_clear, a_y_clear_request, a_clear, a_clear,
      a_clear, a_clear, a_clear, a_y_disconnect, a_clear, a_clear, a_clear],
     \<comment> \<open>state_data_transfer\<close>
     [
      a_y_data, a_y_rr, a_y_rnr, a_clear, a_clear, a_y_clear_request, a_clear, a_y_reset,
      a_reset, a_reset, a_reset, a_y_disconnect, a_reset, a_clear, a_clear],
     \<comment> \<open>state_call_collision\<close>
     [
      a_clear, a_clear, a_clear, a_clear, a_y_call_accepted, a_y_clear_request, a_clear,
      a_clear, a_clear, a_clear, a_clear, a_y_disconnect, a_clear, a_clear, a_clear],
     \<comment> \<open>state_x_clear_request\<close>
     [
      a_clear, a_clear, a_clear, a_clear, a_clear, a_y_clear_confirmation,
      a_y_clear_confirmation, a_clear, a_clear, a_clear, a_clear, a_y_disconnect, a_clear,
      a_clear, a_clear],
     \<comment> \<open>state_y_clear_request\<close>
     [
      a_discard, a_discard, a_discard, a_discard, a_discard, a_discard, a_discard, a_discard,
      a_discard, a_discard, a_discard, a_y_disconnect, a_discard, a_discard, a_discard],
     \<comment> \<open>state_x_reset_request\<close>
     [
      a_discard, a_discard, a_discard, a_clear, a_clear, a_y_clear_request, a_clear,
      a_y_reset_confirmation, a_y_reset_confirmation, a_reset, a_reset, a_y_disconnect,
      a_reset, a_clear, a_clear],
     \<comment> \<open>state_y_reset_request\<close>
     [
      a_reset, a_reset, a_reset, a_clear, a_clear, a_y_clear_request, a_clear, a_discard,
      a_reset, a_reset, a_reset, a_y_disconnect, a_reset, a_clear, a_clear]]"

text \<open>
  \<^verbatim>\<open>msg_id\<close> is an \<^verbatim>\<open>int\<close>; a negative one passes the assertion and indexes outside the table.
\<close>

definition action_get :: "state_t \<Rightarrow> int \<Rightarrow> bool \<Rightarrow> action_t res" where
  "action_get state msg_id is_y =
     bind_res (c_assert (msg_id < int ACTION_MESSAGE_COUNT)) (\<lambda>_.
     bind_res (c_assert (state_code state < ACTION_STATE_COUNT)) (\<lambda>_.
     if msg_id < 0 then Inl Undefined
     else if is_y then Inr (y_action_table ! state_code state ! nat msg_id)
     else Inr (x_action_table ! state_code state ! nat msg_id)))"

end
