(* ===== verification/Joza_Channel.thy ===== *)
theory Joza_Channel
  imports Joza_Validate Joza_Action
begin

text \<open>
  The channel of \<^verbatim>\<open>src/channel.c\<close>: the connection between a caller X and a callee Y with its
  state, its sequence numbers and its facilities, the action taken for each kind of message,
  and the dispatcher. An action that updates members through pointers returns them with its
  state. Log output is not modelled; the lookups made for it that can assert are.
\<close>

section \<open>The channel\<close>

record channel =
  ch_lcn :: lcn_t
  ch_xzaddr :: "zframe option"
  ch_yzaddr :: "zframe option"
  ch_xname :: "cstr option"
  ch_yname :: "cstr option"
  ch_state :: state_t
  ch_xps :: seq_t
  ch_xpr :: seq_t
  ch_yps :: seq_t
  ch_ypr :: seq_t
  ch_window :: seq_t
  ch_pkt :: packet_t
  ch_tput :: tput_t
  ch_ctime :: int
  ch_mtime :: int

definition STATE2DIAG :: "state_t \<Rightarrow> nat" where
  "STATE2DIAG s = state_code s - state_code state_ready + diag_code d_invalid_message_for_state_ready"

definition channel_create :: "lcn_t \<Rightarrow> zframe option \<Rightarrow> cstr option \<Rightarrow> zframe option \<Rightarrow> cstr option \<Rightarrow>
    packet_t \<Rightarrow> seq_t \<Rightarrow> tput_t \<Rightarrow> channel io" where
  "channel_create lcn xzaddr xname yzaddr yname pkt window tput w =
     (let (ctime, w1) = g_get_monotonic_time w; (mtime, w2) = g_get_monotonic_time w1 in
      bind_res (packet_bytes pkt) (\<lambda>_.
      bind_res (tput_bps tput) (\<lambda>_.
      Inr (\<lparr>ch_lcn = lcn, ch_xzaddr = xzaddr, ch_yzaddr = yzaddr, ch_xname = xname, ch_yname = yname,
        ch_state = state_ready, ch_xps = SEQ_MIN, ch_xpr = SEQ_MIN, ch_yps = SEQ_MIN, ch_ypr = SEQ_MIN,
        ch_window = window, ch_pkt = pkt, ch_tput = tput, ch_ctime = ctime, ch_mtime = mtime\<rparr>, w2))))"

section \<open>Actions\<close>

definition cause_byte :: "cause_t \<Rightarrow> byte" where "cause_byte c = of_nat (cause_code c)"
definition diag_byte :: "diag_t \<Rightarrow> byte" where "diag_byte d = of_nat (diag_code d)"

definition do_reset :: "zframe option \<Rightarrow> zframe option \<Rightarrow> state_t \<Rightarrow> state_t io" where
  "do_reset self_zaddr other_zaddr state =
     bind_io (joza_msg_send_addr_reset_request self_zaddr (cause_byte c_local_procedure_error)
        (of_nat (STATE2DIAG state))) (\<lambda>_.
     bind_io (joza_msg_send_addr_reset_request other_zaddr (cause_byte c_remote_procedure_error)
        (of_nat (STATE2DIAG state))) (\<lambda>_.
     return_io state_y_reset_request))"

definition do_clear :: "zframe option \<Rightarrow> zframe option \<Rightarrow> state_t \<Rightarrow> state_t io" where
  "do_clear self_zaddr other_zaddr state =
     bind_io (joza_msg_send_addr_clear_request self_zaddr (cause_byte c_local_procedure_error)
        (of_nat (STATE2DIAG state))) (\<lambda>_.
     bind_io (joza_msg_send_addr_clear_request other_zaddr (cause_byte c_remote_procedure_error)
        (of_nat (STATE2DIAG state))) (\<lambda>_.
     return_io state_ready))"

definition do_i_disconnect :: "zframe option \<Rightarrow> zframe option \<Rightarrow> state_t io" where
  "do_i_disconnect self_zaddr other_zaddr =
     bind_io (joza_msg_send_addr_clear_request other_zaddr (cause_byte c_worker_originated)
        (diag_byte d_worker_originated)) (\<lambda>ret.
     bind_io (\<lambda>w. if ret = -1
                  then diagnostic self_zaddr None c_zmq_sendmsg_err (errno2diag (zerrno w)) w
                  else Inr ((), w)) (\<lambda>_.
     return_io state_ready))"

text \<open>\<^verbatim>\<open>strcmp\<close> of two string pointers.\<close>

definition strcmp_ptr :: "cstr option \<Rightarrow> cstr option \<Rightarrow> int res" where
  "strcmp_ptr s t =
     (case s of None \<Rightarrow> Inl Undefined
      | Some a \<Rightarrow> (case t of None \<Rightarrow> Inl Undefined | Some b \<Rightarrow> Inr (strcmp a b)))"

definition do_y_call_accepted :: "zframe option \<Rightarrow> zframe option \<Rightarrow> joza_msg \<Rightarrow> cstr option \<Rightarrow> cstr option \<Rightarrow>
    state_t \<Rightarrow> seq_t \<Rightarrow> packet_t \<Rightarrow> tput_t \<Rightarrow> (state_t \<times> seq_t \<times> packet_t \<times> tput_t) io" where
  "do_y_call_accepted self_zaddr other_zaddr M self_name other_name state self_window self_pkt self_tput =
     (let xname = joza_msg_calling_address M; yname = joza_msg_called_address M;
          pkt = unat (joza_msg_packet M); tput = unat (joza_msg_throughput M); window = joza_msg_window M;
          keep = (state, self_window, self_pkt, self_tput);
          refuse = (\<lambda>c d. bind_io (diagnostic self_zaddr self_name c d) (\<lambda>_. return_io keep)) in
      bind_io (lift_res (packet_negotiate pkt self_pkt)) (\<lambda>ok.
      if \<not> ok then refuse c_invalid_facility_request d_invalid_packet_facility_negotiation
      else bind_io (lift_res (window_negotiate window self_window)) (\<lambda>ok.
      if \<not> ok then refuse c_invalid_facility_request d_invalid_window_facility_negotiation
      else bind_io (lift_res (tput_negotiate tput self_tput)) (\<lambda>ok.
      if \<not> ok then refuse c_invalid_facility_request d_invalid_throughput_facility_negotiation
      else bind_io (lift_res (strcmp_ptr xname other_name)) (\<lambda>x.
      if x \<noteq> 0 then refuse c_invalid_forwarding_request d_caller_forwarding_not_allowed
      else bind_io (lift_res (strcmp_ptr yname self_name)) (\<lambda>y.
      if y \<noteq> 0 then refuse c_invalid_forwarding_request d_callee_forwarding_not_allowed
      else bind_io (joza_msg_send_addr_call_accepted other_zaddr xname yname (of_nat pkt) window
             (of_nat tput) (joza_msg_data M)) (\<lambda>_.
           return_io (state_data_transfer, window, pkt, tput))))))))"

definition do_y_call_collision :: "zframe option \<Rightarrow> state_t io" where
  "do_y_call_collision self_zaddr =
     bind_io (diagnostic self_zaddr None c_call_collision d_call_collision) (\<lambda>_.
     return_io state_call_collision)"

definition do_i_clear_request :: "zframe option \<Rightarrow> zframe option \<Rightarrow> joza_msg \<Rightarrow> bool \<Rightarrow> state_t \<Rightarrow> state_t io" where
  "do_i_clear_request self_zaddr other_zaddr M is_y state =
     (if joza_msg_cause M \<noteq> cause_byte c_worker_originated then
        bind_io (diagnostic self_zaddr None c_malformed_message d_invalid_cause) (\<lambda>_. return_io state)
      else if joza_msg_diagnostic M \<noteq> diag_byte d_worker_originated then
        bind_io (diagnostic self_zaddr None c_malformed_message d_invalid_diagnostic) (\<lambda>_. return_io state)
      else
        bind_io (joza_msg_send_addr_clear_request other_zaddr (cause_byte c_worker_originated)
          (diag_byte d_worker_originated)) (\<lambda>_. return_io (STATE_CLEAR_REQUEST is_y)))"

definition do_i_clear_confirmation :: "zframe option \<Rightarrow> (state_t \<times> seq_t \<times> seq_t \<times> seq_t \<times> seq_t) io" where
  "do_i_clear_confirmation other_zaddr =
     bind_io (joza_msg_send_addr_clear_confirmation other_zaddr) (\<lambda>_. return_io (state_ready, 0, 0, 0, 0))"

text \<open>
  The last sequence number of the window: \<^verbatim>\<open>(other_pr + window_size - 1) % SEQ_MAX\<close> is computed
  in \<^verbatim>\<open>int\<close>, where the remainder has the sign of the dividend, and converted to \<^verbatim>\<open>seq_t\<close>.
\<close>

definition window_top :: "seq_t \<Rightarrow> seq_t \<Rightarrow> seq_t" where
  "window_top other_pr window_size =
     word_of_int ((uint other_pr + uint window_size - 1) smod uint SEQ_MAX)"

definition next_seq :: "seq_t \<Rightarrow> seq_t" where
  "next_seq ps = word_of_int ((uint ps + 1) smod (uint SEQ_MAX + 1))"

definition do_i_data :: "zframe option \<Rightarrow> zframe option \<Rightarrow> joza_msg \<Rightarrow> packet_t \<Rightarrow> seq_t \<Rightarrow> seq_t \<Rightarrow> seq_t \<Rightarrow>
    seq_t \<Rightarrow> seq_t \<Rightarrow> (seq_t \<times> seq_t) io" where
  "do_i_data self_zaddr other_zaddr M packet_size window_size self_ps self_pr other_ps other_pr =
     (let pr = joza_msg_pr M; ps = joza_msg_ps M;
          refuse = (\<lambda>d. bind_io (diagnostic self_zaddr None c_local_procedure_error d)
                          (\<lambda>_. return_io (self_ps, self_pr))) in
      bind_io (lift_res (zframe_size (joza_msg_data M))) (\<lambda>data_len.
      bind_io (lift_res (packet_bytes packet_size)) (\<lambda>limit.
      if data_len > limit then refuse d_data_too_long_for_packet_facility
      else if ps \<noteq> self_ps then refuse d_ps_out_of_order
      else if \<not> seq_in_range ps other_pr (window_top other_pr window_size) then refuse d_ps_not_in_window
      else if \<not> seq_in_range pr self_pr other_ps then refuse d_pr_invalid_window_update
      else bind_io (joza_msg_send_addr_data other_zaddr (joza_msg_q M) pr ps (joza_msg_data M)) (\<lambda>_.
           return_io (next_seq self_ps, pr)))))"

definition do_i_rr :: "zframe option \<Rightarrow> zframe option \<Rightarrow> joza_msg \<Rightarrow> seq_t \<Rightarrow> seq_t \<Rightarrow> seq_t io" where
  "do_i_rr self_zaddr other_zaddr M self_pr other_ps =
     (let pr = joza_msg_pr M in
      if \<not> seq_in_range pr self_pr other_ps
      then bind_io (diagnostic self_zaddr None c_local_procedure_error d_pr_invalid_window_update)
             (\<lambda>_. return_io self_pr)
      else bind_io (joza_msg_send_addr_rr other_zaddr pr) (\<lambda>_. return_io pr))"

definition do_i_rnr :: "zframe option \<Rightarrow> zframe option \<Rightarrow> joza_msg \<Rightarrow> seq_t \<Rightarrow> seq_t \<Rightarrow> seq_t io" where
  "do_i_rnr self_zaddr other_zaddr M self_pr other_ps =
     (let pr = joza_msg_pr M in
      if \<not> seq_in_range pr self_pr other_ps
      then bind_io (diagnostic self_zaddr None c_local_procedure_error d_pr_invalid_window_update)
             (\<lambda>_. return_io self_pr)
      else bind_io (joza_msg_send_addr_rnr other_zaddr pr) (\<lambda>_. return_io pr))"

definition do_i_reset :: "zframe option \<Rightarrow> zframe option \<Rightarrow> joza_msg \<Rightarrow> unit io" where
  "do_i_reset self_zaddr other_zaddr M =
     (if joza_msg_cause M \<noteq> cause_byte c_worker_originated then
        diagnostic self_zaddr None c_malformed_message d_invalid_cause
      else if joza_msg_diagnostic M \<noteq> diag_byte d_worker_originated then
        diagnostic self_zaddr None c_malformed_message d_invalid_diagnostic
      else
        bind_io (joza_msg_send_addr_reset_request other_zaddr (cause_byte c_worker_originated)
          (diag_byte d_worker_originated)) (\<lambda>_. return_io ()))"

definition do_i_reset_confirmation :: "zframe option \<Rightarrow> (state_t \<times> seq_t \<times> seq_t \<times> seq_t \<times> seq_t) io" where
  "do_i_reset_confirmation other_zaddr =
     bind_io (joza_msg_send_addr_reset_confirmation other_zaddr)
       (\<lambda>_. return_io (state_data_transfer, 0, 0, 0, 0))"

section \<open>Dispatch\<close>

text \<open>
  One case of the switch per action. X and Y share the actions of the \<^verbatim>\<open>do_i\<close> family, with their
  members exchanged.
\<close>

definition dispatch_action :: "channel \<Rightarrow> joza_msg \<Rightarrow> action_t \<Rightarrow> zframe option \<Rightarrow> zframe option \<Rightarrow> channel io" where
  "dispatch_action c M a self_zaddr other_zaddr =
     (let state = ch_state c;
          to_state = (\<lambda>s. return_io (c\<lparr>ch_state := s\<rparr>)) in
      case a of
        a_unspecified \<Rightarrow> (\<lambda>_. Inl Aborted)
      | a_disconnect \<Rightarrow> (\<lambda>_. Inl Aborted)
      | a_x_connect \<Rightarrow> (\<lambda>_. Inl Aborted)
      | a_x_call_request \<Rightarrow> (\<lambda>_. Inl Aborted)
      | a_x_call_accepted \<Rightarrow> (\<lambda>_. Inl Aborted)
      | a_y_call_request \<Rightarrow> (\<lambda>_. Inl Aborted)
      | a_discard \<Rightarrow> return_io c
      | a_reset \<Rightarrow> bind_io (do_reset self_zaddr other_zaddr state) to_state
      | a_clear \<Rightarrow> bind_io (do_clear self_zaddr other_zaddr state) to_state
      | a_x_disconnect \<Rightarrow> bind_io (do_i_disconnect self_zaddr other_zaddr) to_state
      | a_x_clear_request \<Rightarrow> bind_io (do_i_clear_request self_zaddr other_zaddr M False state) to_state
      | a_x_clear_confirmation \<Rightarrow>
          bind_io (do_i_clear_confirmation other_zaddr) (\<lambda>(s, xps, xpr, yps, ypr).
            return_io (c\<lparr>ch_state := s, ch_xps := xps, ch_xpr := xpr, ch_yps := yps, ch_ypr := ypr\<rparr>))
      | a_x_data \<Rightarrow>
          bind_io (do_i_data self_zaddr other_zaddr M (ch_pkt c) (ch_window c) (ch_xps c) (ch_xpr c)
            (ch_yps c) (ch_ypr c)) (\<lambda>(ps, pr). return_io (c\<lparr>ch_xps := ps, ch_xpr := pr\<rparr>))
      | a_x_rr \<Rightarrow>
          bind_io (do_i_rr self_zaddr other_zaddr M (ch_xpr c) (ch_yps c)) (\<lambda>pr. return_io (c\<lparr>ch_xpr := pr\<rparr>))
      | a_x_rnr \<Rightarrow>
          bind_io (do_i_rnr self_zaddr other_zaddr M (ch_xpr c) (ch_yps c)) (\<lambda>pr. return_io (c\<lparr>ch_xpr := pr\<rparr>))
      | a_x_reset \<Rightarrow> bind_io (do_i_reset self_zaddr other_zaddr M) (\<lambda>_. return_io c)
      | a_x_reset_confirmation \<Rightarrow>
          bind_io (do_i_reset_confirmation other_zaddr) (\<lambda>(s, xps, xpr, yps, ypr).
            return_io (c\<lparr>ch_state := s, ch_xps := xps, ch_xpr := xpr, ch_yps := yps, ch_ypr := ypr\<rparr>))
      | a_y_disconnect \<Rightarrow> bind_io (do_i_disconnect self_zaddr other_zaddr) to_state
      | a_y_call_accepted \<Rightarrow>
          bind_io (do_y_call_accepted self_zaddr other_zaddr M (ch_yname c) (ch_xname c) state
            (ch_window c) (ch_pkt c) (ch_tput c)) (\<lambda>(s, window, pkt, tput).
            return_io (c\<lparr>ch_state := s, ch_window := window, ch_pkt := pkt, ch_tput := tput\<rparr>))
      | a_y_call_collision \<Rightarrow> bind_io (do_y_call_collision self_zaddr) to_state
      | a_y_clear_request \<Rightarrow> bind_io (do_i_clear_request self_zaddr other_zaddr M True state) to_state
      | a_y_clear_confirmation \<Rightarrow>
          bind_io (do_i_clear_confirmation other_zaddr) (\<lambda>(s, xps, xpr, yps, ypr).
            return_io (c\<lparr>ch_state := s, ch_xps := xps, ch_xpr := xpr, ch_yps := yps, ch_ypr := ypr\<rparr>))
      | a_y_data \<Rightarrow>
          bind_io (do_i_data self_zaddr other_zaddr M (ch_pkt c) (ch_window c) (ch_yps c) (ch_ypr c)
            (ch_xps c) (ch_xpr c)) (\<lambda>(ps, pr). return_io (c\<lparr>ch_yps := ps, ch_ypr := pr\<rparr>))
      | a_y_rr \<Rightarrow>
          bind_io (do_i_rr self_zaddr other_zaddr M (ch_ypr c) (ch_xps c)) (\<lambda>pr. return_io (c\<lparr>ch_ypr := pr\<rparr>))
      | a_y_rnr \<Rightarrow>
          bind_io (do_i_rnr self_zaddr other_zaddr M (ch_ypr c) (ch_xps c)) (\<lambda>pr. return_io (c\<lparr>ch_ypr := pr\<rparr>))
      | a_y_reset \<Rightarrow> bind_io (do_i_reset self_zaddr other_zaddr M) (\<lambda>_. return_io c)
      | a_y_reset_confirmation \<Rightarrow>
          bind_io (do_i_reset_confirmation other_zaddr) (\<lambda>(s, yps, ypr, xps, xpr).
            return_io (c\<lparr>ch_state := s, ch_yps := yps, ch_ypr := ypr, ch_xps := xps, ch_xpr := xpr\<rparr>)))"

definition channel_dispatch :: "channel \<Rightarrow> joza_msg \<Rightarrow> bool \<Rightarrow> (state_t \<times> channel) io" where
  "channel_dispatch channel M is_y w =
     (let (mtime, w1) = g_get_monotonic_time w; c = channel\<lparr>ch_mtime := mtime\<rparr>;
          self_zaddr = (if is_y then ch_yzaddr c else ch_xzaddr c);
          other_zaddr = (if \<not> is_y then ch_yzaddr c else ch_xzaddr c) in
      bind_io (lift_res (action_get (ch_state c) (joza_msg_const_id M) is_y)) (\<lambda>a.
      bind_io (dispatch_action c M a self_zaddr other_zaddr) (\<lambda>c'.
      return_io (ch_state c', c'))) w1)"

definition channel_set_state :: "channel \<Rightarrow> state_t \<Rightarrow> channel" where
  "channel_set_state channel state = channel\<lparr>ch_state := state\<rparr>"

definition channel_is_closed :: "channel \<Rightarrow> bool" where
  "channel_is_closed channel \<longleftrightarrow> ch_state channel = state_ready"

section \<open>Well-formed channels\<close>

text \<open>
  Facilities and sequence numbers in range, both addresses present, and names that can be passed
  to the formatting setters.
\<close>

definition channel_ok :: "channel \<Rightarrow> bool" where
  "channel_ok c \<longleftrightarrow>
     packet_rngchk (ch_pkt c) = 0 \<and> seq_rngchk (ch_window c) = 0 \<and> tput_rngchk (ch_tput c) = 0 \<and>
     ch_xps c \<le> SEQ_MAX \<and> ch_xpr c \<le> SEQ_MAX \<and> ch_yps c \<le> SEQ_MAX \<and> ch_ypr c \<le> SEQ_MAX \<and>
     ch_xzaddr c \<noteq> None \<and> ch_yzaddr c \<noteq> None \<and>
     (\<exists>x. ch_xname c = Some x \<and> plain_string x) \<and> (\<exists>y. ch_yname c = Some y \<and> plain_string y)"

text \<open>What no message changes: the number of the channel, its two ends and their names.\<close>

definition same_ends :: "channel \<Rightarrow> channel \<Rightarrow> bool" where
  "same_ends c c' \<longleftrightarrow> ch_lcn c' = ch_lcn c \<and> ch_xzaddr c' = ch_xzaddr c \<and> ch_yzaddr c' = ch_yzaddr c \<and>
     ch_xname c' = ch_xname c \<and> ch_yname c' = ch_yname c \<and> ch_ctime c' = ch_ctime c"

text \<open>The states that one message can lead to.\<close>

fun successors :: "state_t \<Rightarrow> state_t set" where
  "successors state_x_call_request = {state_x_call_request, state_call_collision, state_data_transfer,
     state_x_clear_request, state_y_clear_request, state_ready}"
| "successors state_call_collision = {state_call_collision, state_data_transfer, state_x_clear_request,
     state_y_clear_request, state_ready}"
| "successors state_data_transfer = {state_data_transfer, state_x_clear_request, state_y_clear_request,
     state_y_reset_request, state_ready}"
| "successors state_x_clear_request = {state_x_clear_request, state_ready}"
| "successors state_y_clear_request = {state_y_clear_request, state_ready}"
| "successors state_y_reset_request = {state_y_reset_request, state_data_transfer,
     state_x_clear_request, state_y_clear_request, state_ready}"
| "successors _ = {}"

definition live_state :: "state_t \<Rightarrow> bool" where
  "live_state s \<longleftrightarrow> s \<in> {state_x_call_request, state_call_collision, state_data_transfer,
     state_x_clear_request, state_y_clear_request, state_y_reset_request}"

definition aborting :: "action_t \<Rightarrow> bool" where
  "aborting a \<longleftrightarrow> a \<in> {a_unspecified, a_disconnect, a_x_connect, a_x_call_request, a_x_call_accepted,
     a_y_call_request}"

section \<open>Actions run\<close>

lemma next_seq_unat: "unat (next_seq x) = (unat x + 1) mod 9"
proof -
  have "uint x + 1 = int (unat x + 1)" unfolding uint_nat by linarith
  moreover have "int n smod 9 = int (n mod 9)" for n by (simp add: smod_int_alt_def sgn_if zmod_int)
  moreover have "uint SEQ_MAX + 1 = 9" by (simp add: SEQ_MAX_def)
  ultimately have "next_seq x = of_nat ((unat x + 1) mod 9)"
    unfolding next_seq_def by (simp only: of_int_of_nat_eq)
  then show ?thesis by (simp add: unat_of_nat_u16)
qed

lemma next_seq_le: "x \<le> SEQ_MAX \<Longrightarrow> next_seq x \<le> SEQ_MAX"
  using next_seq_unat [of x] by (simp add: SEQ_MAX_def word_le_nat_alt)

section \<open>Sequence numbers modulo nine\<close>

text \<open>How many packets lie from \<open>p\<close> up to but not including \<open>s\<close>.\<close>

definition outstanding :: "seq_t \<Rightarrow> seq_t \<Rightarrow> nat" where
  "outstanding p s = (unat s + 9 - unat p) mod 9"

lemma unat_seq_le: "x \<le> SEQ_MAX \<Longrightarrow> unat x \<le> 8"
  by (simp add: SEQ_MAX_def word_le_nat_alt)

lemma outstanding_zero [simp]: "outstanding x x = 0"
proof -
  have "unat x + 9 - unat x = 9" by simp
  then show ?thesis by (simp add: outstanding_def)
qed

lemma seq_in_range_unat:
  "seq_in_range x lo hi \<longleftrightarrow>
     (unat hi < unat lo \<and> (unat x \<le> unat hi \<or> unat lo \<le> unat x)) \<or>
     (unat lo < unat hi \<and> unat lo \<le> unat x \<and> unat x \<le> unat hi) \<or>
     (unat hi = unat lo \<and> unat x = unat lo)"
  by (auto simp: seq_in_range_def word_less_nat_alt word_le_nat_alt word_unat_eq_iff)

lemma mod9_cases: "n < 18 \<Longrightarrow> n mod 9 = (if n < 9 then n else n - (9 :: nat))"
  by (simp add: mod_if)

lemma mod8_cases: "n < 16 \<Longrightarrow> n mod 8 = (if n < 8 then n else n - (8 :: nat))"
  by (simp add: mod_if)

lemma int_smod_8: "int n smod 8 = int (n mod 8)"
  by (simp add: smod_int_alt_def sgn_if zmod_int)

lemma window_top_unat:
  assumes "lo \<le> SEQ_MAX" "1 \<le> unat w" "unat w \<le> 8"
  shows "unat (window_top lo w) = (unat lo + unat w - 1) mod 8"
proof -
  let ?n = "unat lo + unat w - 1"
  have "uint lo + uint w - 1 = int ?n" using assms(2) unfolding uint_nat by linarith
  moreover have "uint SEQ_MAX = 8" by (simp add: SEQ_MAX_def)
  ultimately have "window_top lo w = word_of_int (int ?n smod 8)"
    by (simp add: window_top_def)
  also have "int ?n smod 8 = int (?n mod 8)" by (rule int_smod_8)
  finally have "window_top lo w = of_nat (?n mod 8)" by simp
  then show ?thesis by (simp add: unat_of_nat_u16)
qed

text \<open>
  A packet in the window is at most \<open>w\<close> packets after the lowest one the peer accepts. The
  window holds \<open>w\<close> numbers, or one more when it wraps, since its end is taken modulo 8 and
  the numbers run modulo 9.
\<close>

lemma in_window_outstanding:
  assumes "lo \<le> SEQ_MAX" "ps \<le> SEQ_MAX" "1 \<le> unat w" "unat w \<le> 7"
    and "seq_in_range ps lo (window_top lo w)"
  shows "outstanding lo ps \<le> unat w"
proof -
  have top: "unat (window_top lo w) = (unat lo + unat w - 1) mod 8"
    using assms window_top_unat by simp
  have "unat lo \<le> 8" "unat ps \<le> 8" using assms unat_seq_le by auto
  then show ?thesis
    using assms(3,4,5) unfolding seq_in_range_unat top outstanding_def
    by (auto simp: mod9_cases mod8_cases split: if_splits)
qed

lemma window_update_outstanding:
  assumes "pr \<le> SEQ_MAX" "self_pr \<le> SEQ_MAX" "other_ps \<le> SEQ_MAX"
    and "seq_in_range pr self_pr other_ps"
  shows "outstanding pr other_ps \<le> outstanding self_pr other_ps"
proof -
  have "unat pr \<le> 8" "unat self_pr \<le> 8" "unat other_ps \<le> 8" using assms unat_seq_le by auto
  then show ?thesis
    using assms(4) unfolding seq_in_range_unat outstanding_def
    by (auto simp: mod9_cases split: if_splits)
qed

lemma outstanding_next:
  assumes "p \<le> SEQ_MAX" "s \<le> SEQ_MAX"
  shows "outstanding p (next_seq s) = (outstanding p s + 1) mod 9"
proof -
  have "unat p \<le> 8" "unat s \<le> 8" using assms unat_seq_le by auto
  then show ?thesis
    unfolding outstanding_def next_seq_unat
    by (auto simp: mod9_cases)
qed

text \<open>With window 0 the check of the window never fails: flow control is off.\<close>

lemma window_zero_open:
  assumes "lo \<le> SEQ_MAX" "ps \<le> SEQ_MAX"
  shows "seq_in_range ps lo (window_top lo 0)"
proof (cases "lo = 0")
  case True
  have "window_top lo 0 = word_of_int (-1)"
    using True by (simp add: window_top_def SEQ_MAX_def smod_int_alt_def)
  then have "unat (window_top lo 0) = 65535"
    by (simp add: unsigned_minus_1_eq_mask mask_eq_exp_minus_1)
  then show ?thesis
    using True unat_lt_65536 [of ps] by (auto simp: seq_in_range_unat)
next
  case False
  then have pos: "0 < unat lo" by (simp add: unat_gt_0)
  have le: "unat lo \<le> 8" using assms unat_seq_le by simp
  have "uint lo - 1 = int (unat lo - 1)" using pos unfolding uint_nat by linarith
  moreover have "int (unat lo - 1) smod 8 = int (unat lo - 1)"
    using le by (simp only: int_smod_8) simp
  ultimately have "window_top lo 0 = of_nat (unat lo - 1)"
    by (simp add: window_top_def SEQ_MAX_def)
  then have "unat (window_top lo 0) = unat lo - 1"
    using le by (simp add: unat_of_nat_u16)
  then show ?thesis using pos by (auto simp: seq_in_range_unat)
qed

section \<open>The action tables\<close>

text \<open>The states an action can leave a channel in.\<close>

fun action_states :: "state_t \<Rightarrow> action_t \<Rightarrow> state_t list" where
  "action_states s a_reset = [state_y_reset_request]"
| "action_states s a_clear = [state_ready]"
| "action_states s a_x_disconnect = [state_ready]"
| "action_states s a_y_disconnect = [state_ready]"
| "action_states s a_x_clear_request = [s, state_x_clear_request]"
| "action_states s a_y_clear_request = [s, state_y_clear_request]"
| "action_states s a_x_clear_confirmation = [state_ready]"
| "action_states s a_y_clear_confirmation = [state_ready]"
| "action_states s a_x_reset_confirmation = [state_data_transfer]"
| "action_states s a_y_reset_confirmation = [state_data_transfer]"
| "action_states s a_y_call_accepted = [s, state_data_transfer]"
| "action_states s a_y_call_collision = [state_call_collision]"
| "action_states s a = [s]"

definition live_states :: "state_t list" where
  "live_states = [state_x_call_request, state_call_collision, state_data_transfer,
     state_x_clear_request, state_y_clear_request, state_y_reset_request]"

text \<open>What the proofs need to know of an entry for message \<open>j\<close> in a live state.\<close>

definition entry_ok :: "state_t \<Rightarrow> nat \<Rightarrow> action_t \<Rightarrow> bool" where
  "entry_ok s j a \<longleftrightarrow>
     \<not> aborting a \<and> list_all (\<lambda>t. t \<in> successors s) (action_states s a) \<and>
     ((a = a_x_data \<or> a = a_y_data) \<longrightarrow> j = 0 \<and> s = state_data_transfer) \<and>
     ((a = a_x_rr \<or> a = a_y_rr) \<longrightarrow> j = 1 \<and> s = state_data_transfer) \<and>
     ((a = a_x_rnr \<or> a = a_y_rnr) \<longrightarrow> j = 2 \<and> s = state_data_transfer) \<and>
     (a = a_y_call_collision \<longrightarrow> s = state_x_call_request) \<and>
     (a = a_y_call_accepted \<longrightarrow> j = 4 \<and> (s = state_x_call_request \<or> s = state_call_collision))"

lemma x_table_entries:
  "list_all (\<lambda>s. list_all (\<lambda>j. entry_ok s j (x_action_table ! state_code s ! j)) [0..<16]) live_states"
  by code_simp

lemma y_table_entries:
  "list_all (\<lambda>s. list_all (\<lambda>j. entry_ok s j (y_action_table ! state_code s ! j)) [0..<15]) live_states"
  by code_simp

lemma y_table_directory:
  "list_all (\<lambda>s. y_action_table ! state_code s ! 15 = a_unspecified) live_states"
  by code_simp

lemma live_state_iff: "live_state s \<longleftrightarrow> s \<in> set live_states"
  by (auto simp: live_state_def live_states_def)

lemma action_get_live:
  assumes "live_state s" "0 \<le> i" "i < 16" "is_y \<Longrightarrow> i < 15"
  shows "\<exists>a. action_get s i is_y = Inr a \<and> entry_ok s (nat i) a"
proof -
  have i: "nat i \<in> set [0..<16]" "is_y \<Longrightarrow> nat i \<in> set [0..<15]"
    using assms by auto
  have get: "action_get s i is_y =
      Inr (if is_y then y_action_table ! state_code s ! nat i else x_action_table ! state_code s ! nat i)"
    using assms(2,3) by (simp add: action_get_def ACTION_MESSAGE_COUNT_def ACTION_STATE_COUNT_def)
  have "entry_ok s (nat i) (if is_y then y_action_table ! state_code s ! nat i
      else x_action_table ! state_code s ! nat i)"
    using x_table_entries y_table_entries i assms(1) unfolding live_state_iff list_all_iff by simp
  then show ?thesis using get by blast
qed

section \<open>Flow control\<close>

text \<open>
  Before the call is accepted no packet has been sent, and afterwards at most one packet more
  than the window is on its way in either direction.
\<close>

definition flow_ok :: "channel \<Rightarrow> bool" where
  "flow_ok c \<longleftrightarrow>
     (ch_state c = state_x_call_request \<or> ch_state c = state_call_collision \<longrightarrow>
        ch_xps c = 0 \<and> ch_xpr c = 0 \<and> ch_yps c = 0 \<and> ch_ypr c = 0) \<and>
     (1 \<le> unat (ch_window c) \<and> unat (ch_window c) \<le> 7 \<longrightarrow>
        outstanding (ch_ypr c) (ch_xps c) \<le> unat (ch_window c) + 1 \<and>
        outstanding (ch_xpr c) (ch_yps c) \<le> unat (ch_window c) + 1)"

section \<open>Every action returns\<close>

lemma do_reset_runs:
  "a \<noteq> None \<Longrightarrow> b \<noteq> None \<Longrightarrow> runs (do_reset a b s) w (\<lambda>t. t = state_y_reset_request)"
  by (auto simp: do_reset_def intro!: runs_intros)

lemma do_clear_runs:
  "a \<noteq> None \<Longrightarrow> b \<noteq> None \<Longrightarrow> runs (do_clear a b s) w (\<lambda>t. t = state_ready)"
  by (auto simp: do_clear_def intro!: runs_intros)

lemma runs_if: "(b \<Longrightarrow> runs (\<lambda>w. m w) w P) \<Longrightarrow> (\<not> b \<Longrightarrow> runs (\<lambda>w. n w) w P) \<Longrightarrow>
    runs (\<lambda>w. if b then m w else n w) w P"
  by (auto simp: runs_def)

lemma do_i_disconnect_runs:
  assumes "a \<noteq> None" "b \<noteq> None"
  shows "runs (do_i_disconnect a b) w (\<lambda>t. t = state_ready)"
proof -
  have "runs (\<lambda>w. if ret = -1 then diagnostic a None c_zmq_sendmsg_err (errno2diag (zerrno w)) w
      else Inr ((), w)) v (\<lambda>_. True)" for ret :: int and v
  proof (cases "ret = -1")
    case True
    then show ?thesis
      using diagnostic_total [OF assms(1)] by (fastforce simp: runs_def)
  next
    case False
    then show ?thesis by (auto simp: runs_def only_net_refl)
  qed
  then show ?thesis
    unfolding do_i_disconnect_def using assms by (auto intro!: runs_intros)
qed

lemma do_y_call_collision_runs:
  "a \<noteq> None \<Longrightarrow> runs (do_y_call_collision a) w (\<lambda>t. t = state_call_collision)"
  by (auto simp: do_y_call_collision_def intro!: runs_intros)

lemma do_i_clear_request_runs:
  "a \<noteq> None \<Longrightarrow> b \<noteq> None \<Longrightarrow>
     runs (do_i_clear_request a b M is_y s) w (\<lambda>t. t = s \<or> t = STATE_CLEAR_REQUEST is_y)"
  by (auto simp: do_i_clear_request_def intro!: runs_intros)

lemma do_i_clear_confirmation_runs:
  "b \<noteq> None \<Longrightarrow> runs (do_i_clear_confirmation b) w (\<lambda>r. r = (state_ready, 0, 0, 0, 0))"
  by (auto simp: do_i_clear_confirmation_def intro!: runs_intros)

lemma do_i_reset_confirmation_runs:
  "b \<noteq> None \<Longrightarrow> runs (do_i_reset_confirmation b) w (\<lambda>r. r = (state_data_transfer, 0, 0, 0, 0))"
  by (auto simp: do_i_reset_confirmation_def intro!: runs_intros)

lemma do_i_reset_runs: "a \<noteq> None \<Longrightarrow> b \<noteq> None \<Longrightarrow> runs (do_i_reset a b M) w (\<lambda>_. True)"
  by (auto simp: do_i_reset_def intro!: runs_intros)

lemma do_i_rr_runs:
  "a \<noteq> None \<Longrightarrow> b \<noteq> None \<Longrightarrow>
     runs (do_i_rr a b M self_pr other_ps) w
       (\<lambda>pr. pr = self_pr \<or> (pr = m_pr M \<and> seq_in_range pr self_pr other_ps))"
  by (auto simp: do_i_rr_def msg_getters Let_def intro!: runs_intros)

lemma do_i_rnr_runs:
  "a \<noteq> None \<Longrightarrow> b \<noteq> None \<Longrightarrow>
     runs (do_i_rnr a b M self_pr other_ps) w
       (\<lambda>pr. pr = self_pr \<or> (pr = m_pr M \<and> seq_in_range pr self_pr other_ps))"
  by (auto simp: do_i_rnr_def msg_getters Let_def intro!: runs_intros)

lemma do_i_data_runs:
  assumes "a \<noteq> None" "b \<noteq> None" "m_data M = Some d" "packet_rngchk pkt = 0"
  shows "runs (do_i_data a b M pkt window self_ps self_pr other_ps other_pr) w
    (\<lambda>(ps, pr). (ps = self_ps \<and> pr = self_pr) \<or>
       (ps = next_seq self_ps \<and> pr = m_pr M \<and> seq_in_range self_ps other_pr (window_top other_pr window) \<and>
        seq_in_range pr self_pr other_ps))"
proof -
  have "packet_bytes pkt = Inr (2 ^ pkt)" using assms(4) by (rule packet_bytes_eq)
  then show ?thesis
    unfolding do_i_data_def msg_getters Let_def assms(3) zframe_size_simps bind_lift_res
    using assms(1,2) by (auto intro!: runs_intros)
qed

lemma do_y_call_accepted_runs:
  assumes "a \<noteq> None" "b \<noteq> None" "m_calling_address M = Some x" "m_called_address M = Some y"
    and "self_name = Some s" "plain_string s" "other_name = Some t" "plain_string t"
    and "packet_rngchk (unat (m_packet M)) = 0" "packet_rngchk pkt = 0"
    and "seq_rngchk (m_window M) = 0" "seq_rngchk window = 0"
    and "tput_rngchk (unat (m_throughput M)) = 0" "tput_rngchk tput = 0"
  shows "runs (do_y_call_accepted a b M self_name other_name state window pkt tput) w
    (\<lambda>r. r = (state, window, pkt, tput) \<or>
       r = (state_data_transfer, m_window M, unat (m_packet M), unat (m_throughput M)))"
proof -
  obtain n1 n2 n3 where n: "packet_negotiate (unat (m_packet M)) pkt = Inr n1"
      "window_negotiate (m_window M) window = Inr n2" "tput_negotiate (unat (m_throughput M)) tput = Inr n3"
    using packet_facility.total_in_range window_facility.total_in_range tput_facility.total_in_range assms
    by metis
  show ?thesis
    unfolding do_y_call_accepted_def msg_getters Let_def assms(3,4,5,7) n strcmp_ptr_def option.case
      bind_lift_res
    using assms(1,2,6,8) by (auto intro!: runs_intros runs_call_accepted)
qed

section \<open>Every dispatch keeps the channel well formed\<close>

definition dispatch_post :: "channel \<Rightarrow> channel \<Rightarrow> bool" where
  "dispatch_post c c' \<longleftrightarrow> channel_ok c' \<and> flow_ok c' \<and> same_ends c c'"

text \<open>What a valid message with identifier \<open>j\<close> provides.\<close>

definition message_ok :: "nat \<Rightarrow> joza_msg \<Rightarrow> bool" where
  "message_ok j M \<longleftrightarrow>
     (j = 0 \<longrightarrow> m_data M \<noteq> None) \<and> (j = 0 \<or> j = 1 \<or> j = 2 \<longrightarrow> m_pr M \<le> SEQ_MAX) \<and>
     (j = 4 \<longrightarrow> m_calling_address M \<noteq> None \<and> m_called_address M \<noteq> None \<and>
        packet_rngchk (unat (m_packet M)) = 0 \<and> seq_rngchk (m_window M) = 0 \<and>
        tput_rngchk (unat (m_throughput M)) = 0)"

lemma dispatch_post_state:
  "channel_ok c \<Longrightarrow> flow_ok c \<Longrightarrow>
     (s = ch_state c \<or> s \<notin> {state_x_call_request, state_call_collision} \<or>
      (s = state_call_collision \<and> ch_state c = state_x_call_request)) \<Longrightarrow>
     dispatch_post c (c\<lparr>ch_state := s\<rparr>)"
  by (auto simp: dispatch_post_def channel_ok_def flow_ok_def same_ends_def)

lemma dispatch_post_refl: "channel_ok c \<Longrightarrow> flow_ok c \<Longrightarrow> dispatch_post c c"
  by (auto simp: dispatch_post_def same_ends_def)

lemma dispatch_post_zero:
  "channel_ok c \<Longrightarrow>
     dispatch_post c (c\<lparr>ch_state := s, ch_xps := 0, ch_xpr := 0, ch_yps := 0, ch_ypr := 0\<rparr>)"
  by (auto simp: dispatch_post_def channel_ok_def flow_ok_def same_ends_def SEQ_MAX_def)

lemma outstanding_send:
  assumes "lo \<le> SEQ_MAX" "ps \<le> SEQ_MAX" "seq_in_range ps lo (window_top lo win)"
    and "1 \<le> unat win" "unat win \<le> 7"
  shows "outstanding lo (next_seq ps) \<le> unat win + 1"
  using in_window_outstanding [OF assms(1,2,4,5,3)] outstanding_next [OF assms(1,2)] assms(5)
  by (simp add: mod_le_divisor)

lemma dispatch_post_x_data:
  assumes "channel_ok c" "flow_ok c" "ch_state c = state_data_transfer" "pr \<le> SEQ_MAX"
    and "seq_in_range (ch_xps c) (ch_ypr c) (window_top (ch_ypr c) (ch_window c))"
    and "seq_in_range pr (ch_xpr c) (ch_yps c)"
  shows "dispatch_post c (c\<lparr>ch_xps := next_seq (ch_xps c), ch_xpr := pr\<rparr>)"
proof -
  have r: "ch_xps c \<le> SEQ_MAX" "ch_ypr c \<le> SEQ_MAX" "ch_xpr c \<le> SEQ_MAX" "ch_yps c \<le> SEQ_MAX"
    using assms(1) by (auto simp: channel_ok_def)
  have "outstanding pr (ch_yps c) \<le> outstanding (ch_xpr c) (ch_yps c)"
    using window_update_outstanding [OF assms(4) r(3,4) assms(6)] .
  then show ?thesis
    using assms r outstanding_send [OF r(2,1) assms(5)] next_seq_le [OF r(1)]
    by (fastforce simp: dispatch_post_def channel_ok_def flow_ok_def same_ends_def)
qed

lemma dispatch_post_y_data:
  assumes "channel_ok c" "flow_ok c" "ch_state c = state_data_transfer" "pr \<le> SEQ_MAX"
    and "seq_in_range (ch_yps c) (ch_xpr c) (window_top (ch_xpr c) (ch_window c))"
    and "seq_in_range pr (ch_ypr c) (ch_xps c)"
  shows "dispatch_post c (c\<lparr>ch_yps := next_seq (ch_yps c), ch_ypr := pr\<rparr>)"
proof -
  have r: "ch_xps c \<le> SEQ_MAX" "ch_ypr c \<le> SEQ_MAX" "ch_xpr c \<le> SEQ_MAX" "ch_yps c \<le> SEQ_MAX"
    using assms(1) by (auto simp: channel_ok_def)
  have "outstanding pr (ch_xps c) \<le> outstanding (ch_ypr c) (ch_xps c)"
    using window_update_outstanding [OF assms(4) r(2,1) assms(6)] .
  then show ?thesis
    using assms r outstanding_send [OF r(3,4) assms(5)] next_seq_le [OF r(4)]
    by (fastforce simp: dispatch_post_def channel_ok_def flow_ok_def same_ends_def)
qed

lemma dispatch_post_x_pr:
  assumes "channel_ok c" "flow_ok c" "ch_state c = state_data_transfer" "pr \<le> SEQ_MAX"
    and "seq_in_range pr (ch_xpr c) (ch_yps c)"
  shows "dispatch_post c (c\<lparr>ch_xpr := pr\<rparr>)"
proof -
  have "ch_xpr c \<le> SEQ_MAX" "ch_yps c \<le> SEQ_MAX" using assms(1) by (auto simp: channel_ok_def)
  then have "outstanding pr (ch_yps c) \<le> outstanding (ch_xpr c) (ch_yps c)"
    using window_update_outstanding assms by blast
  then show ?thesis
    using assms by (fastforce simp: dispatch_post_def channel_ok_def flow_ok_def same_ends_def)
qed

lemma dispatch_post_y_pr:
  assumes "channel_ok c" "flow_ok c" "ch_state c = state_data_transfer" "pr \<le> SEQ_MAX"
    and "seq_in_range pr (ch_ypr c) (ch_xps c)"
  shows "dispatch_post c (c\<lparr>ch_ypr := pr\<rparr>)"
proof -
  have "ch_ypr c \<le> SEQ_MAX" "ch_xps c \<le> SEQ_MAX" using assms(1) by (auto simp: channel_ok_def)
  then have "outstanding pr (ch_xps c) \<le> outstanding (ch_ypr c) (ch_xps c)"
    using window_update_outstanding assms by blast
  then show ?thesis
    using assms by (fastforce simp: dispatch_post_def channel_ok_def flow_ok_def same_ends_def)
qed

lemma dispatch_post_x_pr':
  "channel_ok c \<Longrightarrow> flow_ok c \<Longrightarrow> ch_state c = state_data_transfer \<Longrightarrow>
     pr = ch_xpr c \<or> (pr \<le> SEQ_MAX \<and> seq_in_range pr (ch_xpr c) (ch_yps c)) \<Longrightarrow>
     dispatch_post c (c\<lparr>ch_xpr := pr\<rparr>)"
  using dispatch_post_x_pr dispatch_post_refl by auto

lemma dispatch_post_y_pr':
  "channel_ok c \<Longrightarrow> flow_ok c \<Longrightarrow> ch_state c = state_data_transfer \<Longrightarrow>
     pr = ch_ypr c \<or> (pr \<le> SEQ_MAX \<and> seq_in_range pr (ch_ypr c) (ch_xps c)) \<Longrightarrow>
     dispatch_post c (c\<lparr>ch_ypr := pr\<rparr>)"
  using dispatch_post_y_pr dispatch_post_refl by auto

lemma dispatch_post_accepted:
  assumes "channel_ok c" "flow_ok c" "ch_state c = state_x_call_request \<or> ch_state c = state_call_collision"
    and "packet_rngchk pkt = 0" "seq_rngchk win = 0" "tput_rngchk tput = 0"
  shows "dispatch_post c (c\<lparr>ch_state := state_data_transfer, ch_window := win, ch_pkt := pkt, ch_tput := tput\<rparr>)"
  using assms by (auto simp: dispatch_post_def channel_ok_def flow_ok_def same_ends_def)

lemmas dispatch_posts = dispatch_post_refl dispatch_post_state dispatch_post_zero dispatch_post_x_data
  dispatch_post_y_data dispatch_post_x_pr dispatch_post_y_pr dispatch_post_accepted

lemma dispatch_clear_runs:
  assumes "channel_ok c" "flow_ok c" "za \<noteq> None" "zb \<noteq> None"
    and "a \<in> {a_discard, a_reset, a_clear, a_x_disconnect, a_y_disconnect, a_x_clear_request,
      a_y_clear_request, a_x_reset, a_y_reset}"
  shows "runs (dispatch_action c M a za zb) w
    (\<lambda>c'. ch_state c' \<in> set (action_states (ch_state c) a) \<and> dispatch_post c c')"
  using assms
  by (auto simp: dispatch_action_def Let_def STATE_CLEAR_REQUEST_def
      intro!: runs_return dispatch_posts runs_bind [OF do_reset_runs] runs_bind [OF do_clear_runs]
        runs_bind [OF do_i_disconnect_runs] runs_bind [OF do_i_clear_request_runs]
        runs_bind [OF do_i_reset_runs])

lemma dispatch_confirm_runs:
  assumes "channel_ok c" "zb \<noteq> None"
    and "a \<in> {a_x_clear_confirmation, a_y_clear_confirmation, a_x_reset_confirmation, a_y_reset_confirmation}"
  shows "runs (dispatch_action c M a za zb) w
    (\<lambda>c'. ch_state c' \<in> set (action_states (ch_state c) a) \<and> dispatch_post c c')"
proof -
  have swap: "c\<lparr>ch_state := s, ch_yps := 0, ch_ypr := 0, ch_xps := 0, ch_xpr := 0\<rparr> =
      c\<lparr>ch_state := s, ch_xps := 0, ch_xpr := 0, ch_yps := 0, ch_ypr := 0\<rparr>" for s
    by simp
  show ?thesis
    using assms
    by (auto simp: dispatch_action_def Let_def swap
        intro!: runs_return dispatch_post_zero runs_bind [OF do_i_clear_confirmation_runs]
          runs_bind [OF do_i_reset_confirmation_runs])
qed

lemma dispatch_data_runs:
  assumes "channel_ok c" "flow_ok c" "za \<noteq> None" "zb \<noteq> None" "ch_state c = state_data_transfer"
    and "message_ok j M" "a \<in> {a_x_data, a_y_data} \<Longrightarrow> j = 0" "a \<in> {a_x_rr, a_y_rr} \<Longrightarrow> j = 1"
    and "a \<in> {a_x_rnr, a_y_rnr} \<Longrightarrow> j = 2" "a \<in> {a_x_data, a_y_data, a_x_rr, a_y_rr, a_x_rnr, a_y_rnr}"
  shows "runs (dispatch_action c M a za zb) w
    (\<lambda>c'. ch_state c' \<in> set (action_states (ch_state c) a) \<and> dispatch_post c c')"
proof -
  have pr: "m_pr M \<le> SEQ_MAX" using assms(6-10) by (auto simp: message_ok_def)
  have ref: "dispatch_post c c" using assms(1,2) by (rule dispatch_post_refl)
  have pkt: "packet_rngchk (ch_pkt c) = 0" using assms(1) by (simp add: channel_ok_def)
  have same: "c\<lparr>ch_xps := ch_xps c, ch_xpr := ch_xpr c\<rparr> = c" "c\<lparr>ch_yps := ch_yps c, ch_ypr := ch_ypr c\<rparr> = c"
      "c\<lparr>ch_xpr := ch_xpr c\<rparr> = c" "c\<lparr>ch_ypr := ch_ypr c\<rparr> = c" by simp_all
  have data: "\<exists>d. m_data M = Some d" if "a \<in> {a_x_data, a_y_data}"
    using assms(6,7) that by (auto simp: message_ok_def)
  show ?thesis
    using assms(10)
  proof (elim insertE emptyE)
    assume a: "a = a_x_data"
    then obtain d where "m_data M = Some d" using data by auto
    then show ?thesis
      using a assms(1-5) pr ref pkt same
      by (auto simp: dispatch_action_def Let_def intro!: runs_bind [OF do_i_data_runs] runs_return
          dispatch_post_x_data)
  next
    assume a: "a = a_y_data"
    then obtain d where "m_data M = Some d" using data by auto
    then show ?thesis
      using a assms(1-5) pr ref pkt same
      by (auto simp: dispatch_action_def Let_def intro!: runs_bind [OF do_i_data_runs] runs_return
          dispatch_post_y_data)
  qed (use assms(1-5) pr ref same in \<open>auto simp: dispatch_action_def Let_def
        intro!: runs_bind [OF do_i_rr_runs] runs_bind [OF do_i_rnr_runs] runs_return
          dispatch_post_x_pr' dispatch_post_y_pr'\<close>)
qed

lemma dispatch_call_runs:
  assumes "channel_ok c" "flow_ok c" "za \<noteq> None" "zb \<noteq> None" "entry_ok (ch_state c) j a"
    and "message_ok j M" "a \<in> {a_y_call_accepted, a_y_call_collision}"
  shows "runs (dispatch_action c M a za zb) w
    (\<lambda>c'. ch_state c' \<in> set (action_states (ch_state c) a) \<and> dispatch_post c c')"
proof (cases "a = a_y_call_accepted")
  case False
  then show ?thesis
    using assms by (auto simp: dispatch_action_def Let_def entry_ok_def
        intro!: runs_bind [OF do_y_call_collision_runs] runs_return dispatch_post_state)
next
  case True
  have st: "ch_state c = state_x_call_request \<or> ch_state c = state_call_collision" and "j = 4"
    using assms(5) True by (auto simp: entry_ok_def)
  then obtain x y where m: "m_calling_address M = Some x" "m_called_address M = Some y"
      "packet_rngchk (unat (m_packet M)) = 0" "seq_rngchk (m_window M) = 0"
      "tput_rngchk (unat (m_throughput M)) = 0"
    using assms(6) by (auto simp: message_ok_def)
  obtain s t where c: "ch_yname c = Some s" "plain_string s" "ch_xname c = Some t" "plain_string t"
      "packet_rngchk (ch_pkt c) = 0" "seq_rngchk (ch_window c) = 0" "tput_rngchk (ch_tput c) = 0"
    using assms(1) by (auto simp: channel_ok_def)
  have same: "c\<lparr>ch_state := ch_state c, ch_window := ch_window c, ch_pkt := ch_pkt c, ch_tput := ch_tput c\<rparr> = c"
    by simp
  show ?thesis
    unfolding True dispatch_action_def Let_def action_t.case
    by (rule runs_bind [OF do_y_call_accepted_runs [OF assms(3,4) m(1,2) c(1,2,3,4) m(3) c(5) m(4) c(6) m(5) c(7)]])
      (use assms(1,2) same st m in \<open>auto intro!: runs_return dispatch_post_state dispatch_post_accepted\<close>)
qed

lemma dispatch_action_runs:
  assumes "channel_ok c" "flow_ok c" "za \<noteq> None" "zb \<noteq> None" "entry_ok (ch_state c) j a" "message_ok j M"
  shows "runs (dispatch_action c M a za zb) w
    (\<lambda>c'. ch_state c' \<in> successors (ch_state c) \<and> dispatch_post c c')"
proof -
  have succ: "set (action_states (ch_state c) a) \<subseteq> successors (ch_state c)"
    using assms(5) by (auto simp: entry_ok_def list_all_iff)
  have "runs (dispatch_action c M a za zb) w
    (\<lambda>c'. ch_state c' \<in> set (action_states (ch_state c) a) \<and> dispatch_post c c')"
  proof (cases "a \<in> {a_x_data, a_y_data, a_x_rr, a_y_rr, a_x_rnr, a_y_rnr}")
    case True
    then show ?thesis
      by (intro dispatch_data_runs [where j = j]) (use assms in \<open>auto simp: entry_ok_def\<close>)
  next
    case False
    then consider "a \<in> {a_discard, a_reset, a_clear, a_x_disconnect, a_y_disconnect, a_x_clear_request,
        a_y_clear_request, a_x_reset, a_y_reset}"
      | "a \<in> {a_x_clear_confirmation, a_y_clear_confirmation, a_x_reset_confirmation, a_y_reset_confirmation}"
      | "a \<in> {a_y_call_accepted, a_y_call_collision}"
      using assms(5) by (cases a) (auto simp: entry_ok_def aborting_def)
    then show ?thesis
    proof cases
      case 1
      then show ?thesis by (rule dispatch_clear_runs [OF assms(1-4)])
    next
      case 2
      then show ?thesis by (rule dispatch_confirm_runs [OF assms(1,4)])
    next
      case 3
      then show ?thesis by (rule dispatch_call_runs [OF assms(1-6)])
    qed
  qed
  then show ?thesis by (rule runs_mono) (use succ in auto)
qed

section \<open>The dispatcher\<close>

text \<open>A dispatch reads the clock once; otherwise only the network changes.\<close>

definition ticked :: "nat \<Rightarrow> world \<Rightarrow> world \<Rightarrow> bool" where
  "ticked n w w' \<longleftrightarrow> only_net (w\<lparr>gtick := gtick w + n\<rparr>) w'"

lemma valid_message_ok:
  assumes "well_received r M" "valid_message M"
  shows "message_ok (nat (m_id M)) M"
proof -
  have "0 \<le> m_id M" using assms(1) by (simp add: well_received_def)
  then have n: "nat (m_id M) = 0 \<longleftrightarrow> m_id M = 0" "nat (m_id M) = 1 \<longleftrightarrow> m_id M = 1"
      "nat (m_id M) = 2 \<longleftrightarrow> m_id M = 2" "nat (m_id M) = 4 \<longleftrightarrow> m_id M = 4"
    by auto
  have "m_id M = 0 \<Longrightarrow> m_data M \<noteq> None"
    using assms(1) by (simp add: well_received_def msg_ids)
  moreover have "m_id M = 0 \<or> m_id M = 1 \<or> m_id M = 2 \<Longrightarrow> m_pr M \<le> SEQ_MAX"
    using assms(2) by (auto simp: valid_message_def msg_ids)
  moreover have "m_id M = 4 \<Longrightarrow> m_calling_address M \<noteq> None \<and> m_called_address M \<noteq> None"
    using assms(1) by (auto simp: well_received_def msg_ids)
  moreover have "m_id M = 4 \<Longrightarrow> packet_rngchk (unat (m_packet M)) = 0 \<and> seq_rngchk (m_window M) = 0 \<and>
        tput_rngchk (unat (m_throughput M)) = 0"
    using assms(2) by (simp add: valid_message_def msg_ids)
  ultimately show ?thesis unfolding message_ok_def n by blast
qed

lemma channel_dispatch_unfold:
  assumes "action_get (ch_state c) (m_id M) is_y = Inr a"
  shows "channel_dispatch c M is_y w =
     bind_io (dispatch_action (c\<lparr>ch_mtime := gclock w (gtick w)\<rparr>) M a
        (if is_y then ch_yzaddr c else ch_xzaddr c) (if is_y then ch_xzaddr c else ch_yzaddr c))
       (\<lambda>c'. return_io (ch_state c', c')) (w\<lparr>gtick := Suc (gtick w)\<rparr>)"
  using assms by (simp add: channel_dispatch_def g_get_monotonic_time_def msg_getters)

lemma channel_dispatch_ok:
  assumes "channel_ok c" "flow_ok c" "live_state (ch_state c)" "well_received r M" "valid_message M"
    and "m_id M < 16" "is_y \<Longrightarrow> m_id M < 15"
  shows "\<exists>c' w'. channel_dispatch c M is_y w = Inr ((ch_state c', c'), w') \<and> ticked 1 w w' \<and>
     ch_state c' \<in> successors (ch_state c) \<and> channel_ok c' \<and> flow_ok c' \<and> same_ends c c'"
proof -
  let ?c = "c\<lparr>ch_mtime := gclock w (gtick w)\<rparr>" and ?w = "w\<lparr>gtick := Suc (gtick w)\<rparr>"
  have c: "channel_ok ?c" "flow_ok ?c"
    using assms(1,2) by (auto simp: channel_ok_def flow_ok_def)
  have ends: "same_ends ?c d \<longleftrightarrow> same_ends c d" for d by (simp add: same_ends_def)
  have "0 \<le> m_id M" using assms(4) by (simp add: well_received_def)
  then obtain a where a: "action_get (ch_state c) (m_id M) is_y = Inr a" "entry_ok (ch_state c) (nat (m_id M)) a"
    using action_get_live assms(3,6,7) by blast
  let ?za = "if is_y then ch_yzaddr c else ch_xzaddr c" and ?zb = "if is_y then ch_xzaddr c else ch_yzaddr c"
  have z: "?za \<noteq> None" "?zb \<noteq> None" using assms(1) by (auto simp: channel_ok_def)
  have "runs (dispatch_action ?c M a ?za ?zb) ?w
      (\<lambda>c'. ch_state c' \<in> successors (ch_state ?c) \<and> dispatch_post ?c c')"
    by (rule dispatch_action_runs [OF c z _ valid_message_ok [OF assms(4,5)]]) (use a in simp)
  then obtain c' w' where "dispatch_action ?c M a ?za ?zb ?w = Inr (c', w')" "only_net ?w w'"
      "ch_state c' \<in> successors (ch_state c)" "channel_ok c'" "flow_ok c'" "same_ends c c'"
    by (auto simp: runs_def dispatch_post_def ends)
  then show ?thesis
    unfolding channel_dispatch_unfold [OF a(1)] by (auto simp: bind_io_def ticked_def)
qed

lemma channel_dispatch_enq:
  "16 \<le> m_id M \<Longrightarrow> channel_dispatch c M is_y w = Inl Assert_failed"
  by (simp add: channel_dispatch_def g_get_monotonic_time_def msg_getters action_get_def
      ACTION_MESSAGE_COUNT_def c_assert_def)

lemma channel_dispatch_directory:
  assumes "live_state (ch_state c)" "m_id M = JOZA_MSG_DIRECTORY"
  shows "channel_dispatch c M True w = Inl Aborted"
proof -
  have "y_action_table ! state_code (ch_state c) ! 15 = a_unspecified"
    using y_table_directory assms(1) by (simp add: live_state_iff list_all_iff)
  then have "action_get (ch_state c) (m_id M) True = Inr a_unspecified"
    using assms(2) by (simp add: action_get_def msg_ids ACTION_MESSAGE_COUNT_def ACTION_STATE_COUNT_def)
  then show ?thesis
    by (simp add: channel_dispatch_unfold dispatch_action_def bind_io_def)
qed

text \<open>The messages that a channel processes, in the order in which they come.\<close>

inductive chan_steps :: "channel \<Rightarrow> channel \<Rightarrow> bool" where
  chan_refl: "chan_steps c c"
| chan_step: "chan_steps c d \<Longrightarrow> live_state (ch_state d) \<Longrightarrow> well_received r M \<Longrightarrow> valid_message M \<Longrightarrow>
     channel_dispatch d M is_y w = Inr ((s, e), w') \<Longrightarrow> chan_steps c e"

definition fresh_channel :: "channel \<Rightarrow> bool" where
  "fresh_channel c \<longleftrightarrow> channel_ok c \<and> ch_state c = state_x_call_request \<and>
     ch_xps c = 0 \<and> ch_xpr c = 0 \<and> ch_yps c = 0 \<and> ch_ypr c = 0"

lemma fresh_flow_ok: "fresh_channel c \<Longrightarrow> flow_ok c"
  by (simp add: fresh_channel_def flow_ok_def)

lemma successors_live: "s' \<in> successors s \<Longrightarrow> live_state s' \<or> s' = state_ready"
  by (cases s) (auto simp: live_state_def)

lemma same_ends_trans: "same_ends c d \<Longrightarrow> same_ends d e \<Longrightarrow> same_ends c e"
  by (simp add: same_ends_def)

lemma chan_steps_inv:
  "chan_steps c d \<Longrightarrow> fresh_channel c \<Longrightarrow>
     channel_ok d \<and> flow_ok d \<and> same_ends c d \<and> (live_state (ch_state d) \<or> ch_state d = state_ready)"
proof (induction rule: chan_steps.induct)
  case (chan_refl c)
  then show ?case
    using fresh_flow_ok by (auto simp: fresh_channel_def same_ends_def live_state_def)
next
  case (chan_step c d r M is_y w s e w')
  then have d: "channel_ok d" "flow_ok d" "same_ends c d" by auto
  have "m_id M < 16" "is_y \<Longrightarrow> m_id M < 15"
    using chan_step.hyps(2,5) channel_dispatch_enq [of M d is_y w] channel_dispatch_directory [of d M w]
    by (force simp: msg_ids)+
  then obtain e' w'' where "channel_dispatch d M is_y w = Inr ((ch_state e', e'), w'')"
      "ch_state e' \<in> successors (ch_state d)" "channel_ok e'" "flow_ok e'" "same_ends d e'"
    using channel_dispatch_ok [OF d(1,2) chan_step.hyps(2,3,4)] by metis
  then show ?case
    using chan_step.hyps(5) d(3) successors_live same_ends_trans by auto
qed

section \<open>What goes out\<close>

definition data_msg :: "joza_msg \<Rightarrow> joza_msg" where
  "data_msg M = (joza_msg_new JOZA_MSG_DATA)\<lparr>m_q := m_q M, m_pr := m_pr M, m_ps := m_ps M, m_data := m_data M\<rparr>"

definition diagnostic_msg :: "cause_t \<Rightarrow> diag_t \<Rightarrow> joza_msg" where
  "diagnostic_msg C D = (joza_msg_new JOZA_MSG_DIAGNOSTIC)
     \<lparr>m_cause := of_nat (cause_code C), m_diagnostic := of_nat (diag_code D)\<rparr>"

text \<open>Whether the broker passes a packet on, and the complaint if it does not.\<close>

definition data_verdict :: "joza_msg \<Rightarrow> packet_t \<Rightarrow> seq_t \<Rightarrow> seq_t \<Rightarrow> seq_t \<Rightarrow> seq_t \<Rightarrow> seq_t \<Rightarrow> diag_t option" where
  "data_verdict M pkt window self_ps self_pr other_ps other_pr =
     (if 2 ^ pkt < length (the (m_data M)) then Some d_data_too_long_for_packet_facility
      else if m_ps M \<noteq> self_ps then Some d_ps_out_of_order
      else if \<not> seq_in_range (m_ps M) other_pr (window_top other_pr window) then Some d_ps_not_in_window
      else if \<not> seq_in_range (m_pr M) self_pr other_ps then Some d_pr_invalid_window_update
      else None)"

lemma do_i_data_effect:
  assumes "m_data M = Some d" "packet_rngchk pkt = 0" "\<And>h x. zfail w h x = None" "zrouter w"
  shows "do_i_data (Some za) (Some zb) M pkt window self_ps self_pr other_ps other_pr w =
     (case data_verdict M pkt window self_ps self_pr other_ps other_pr of
        None \<Rightarrow> Inr ((next_seq self_ps, m_pr M), w\<lparr>zsent := zsent w @ wire w zb (data_msg M)\<rparr>)
      | Some diag \<Rightarrow> Inr ((self_ps, self_pr),
          w\<lparr>zsent := zsent w @ wire w za (diagnostic_msg c_local_procedure_error diag)\<rparr>))"
proof -
  have pk: "packet_bytes pkt = Inr (2 ^ pkt)" using assms(2) by (rule packet_bytes_eq)
  note diag = diagnostic_delivers [OF assms(3,4)]
  note send = data_sender.delivers [OF assms(3,4)]
  show ?thesis
    unfolding do_i_data_def msg_getters Let_def assms(1) zframe_size_simps pk bind_lift_res data_verdict_def
    by (auto simp: assms(1) diag send data_msg_def diagnostic_msg_def)
qed

text \<open>The negotiation of a call.\<close>

definition accepts_call :: "channel \<Rightarrow> joza_msg \<Rightarrow> bool" where
  "accepts_call c M \<longleftrightarrow>
     packet_negotiate (unat (m_packet M)) (ch_pkt c) = Inr True \<and>
     window_negotiate (m_window M) (ch_window c) = Inr True \<and>
     tput_negotiate (unat (m_throughput M)) (ch_tput c) = Inr True \<and>
     m_calling_address M = ch_xname c \<and> m_called_address M = ch_yname c"

lemma do_y_call_accepted_effect:
  assumes "m_calling_address M = Some x" "m_called_address M = Some y"
    and "self_name = Some s" "other_name = Some t"
    and "do_y_call_accepted a b M self_name other_name state window pkt tput w = Inr (r, w')"
  shows "(packet_negotiate (unat (m_packet M)) pkt = Inr True \<and> window_negotiate (m_window M) window = Inr True \<and>
      tput_negotiate (unat (m_throughput M)) tput = Inr True \<and> x = t \<and> y = s \<and>
      r = (state_data_transfer, m_window M, unat (m_packet M), unat (m_throughput M))) \<or>
    (\<not> (packet_negotiate (unat (m_packet M)) pkt = Inr True \<and> window_negotiate (m_window M) window = Inr True \<and>
      tput_negotiate (unat (m_throughput M)) tput = Inr True \<and> x = t \<and> y = s) \<and>
      r = (state, window, pkt, tput))"
  using assms(5) unfolding do_y_call_accepted_def msg_getters Let_def assms(1,2,3,4) strcmp_ptr_def option.case
  by (auto simp: bind_io_Inr lift_res_Inr split: if_splits)

lemma action_get_data_transfer:
  "action_get state_data_transfer JOZA_MSG_DATA False = Inr a_x_data"
  "action_get state_data_transfer JOZA_MSG_DATA True = Inr a_y_data"
  "action_get state_data_transfer JOZA_MSG_RESET_REQUEST False = Inr a_x_reset"
  "action_get state_data_transfer JOZA_MSG_RESET_CONFIRMATION True = Inr a_reset"
  by code_simp+

lemma action_get_accept:
  "action_get state_x_call_request JOZA_MSG_CALL_ACCEPTED True = Inr a_y_call_accepted"
  "action_get state_call_collision JOZA_MSG_CALL_ACCEPTED True = Inr a_y_call_accepted"
  by code_simp+

lemma wire_tick [simp]: "wire (w\<lparr>gtick := n\<rparr>) a m = wire w a m"
proof -
  have "frame_size m (w\<lparr>gtick := n\<rparr>) = frame_size m w"
    by (simp add: frame_size_def Let_def split: option.split)
  moreover have "serialize_body m (w\<lparr>gtick := n\<rparr>) = serialize_body m w"
    by (simp add: serialize_body_def Let_def split: option.split)
  moreover have "zframe_junk (w\<lparr>gtick := n\<rparr>) k = zframe_junk w k" for k
    by (simp add: zframe_junk_def)
  ultimately have "joza_msg_frame m (w\<lparr>gtick := n\<rparr>) = joza_msg_frame m w"
    by (simp add: joza_msg_frame_def Let_def cong: if_cong)
  then show ?thesis by (simp add: wire_def)
qed

lemma channel_x_data:
  assumes "channel_ok c" "ch_state c = state_data_transfer" "m_id M = JOZA_MSG_DATA" "m_data M = Some d"
    and "ch_xzaddr c = Some zx" "ch_yzaddr c = Some zy" "zrouter w" "\<And>h x. zfail w h x = None"
  shows "channel_dispatch c M False w =
     (case data_verdict M (ch_pkt c) (ch_window c) (ch_xps c) (ch_xpr c) (ch_yps c) (ch_ypr c) of
        None \<Rightarrow> Inr ((state_data_transfer, c\<lparr>ch_mtime := gclock w (gtick w), ch_xps := next_seq (ch_xps c), ch_xpr := m_pr M\<rparr>),
          w\<lparr>gtick := Suc (gtick w), zsent := zsent w @ wire w zy (data_msg M)\<rparr>)
      | Some diag \<Rightarrow> Inr ((state_data_transfer, c\<lparr>ch_mtime := gclock w (gtick w)\<rparr>),
          w\<lparr>gtick := Suc (gtick w), zsent := zsent w @ wire w zx (diagnostic_msg c_local_procedure_error diag)\<rparr>))"
proof -
  have pkt: "packet_rngchk (ch_pkt c) = 0" using assms(1) by (simp add: channel_ok_def)
  have fail: "zfail (w\<lparr>gtick := Suc (gtick w)\<rparr>) h x = None" for h x using assms(8) by simp
  note eff = do_i_data_effect [OF assms(4) pkt fail, simplified, OF assms(7)]
  have a: "action_get (ch_state c) (m_id M) False = Inr a_x_data"
    using action_get_data_transfer assms(2,3) by auto
  show ?thesis
    unfolding channel_dispatch_unfold [OF a] dispatch_action_def Let_def
    by (auto simp: assms(2,5,6) bind_io_def eff split: option.split)
qed

lemma channel_y_data:
  assumes "channel_ok c" "ch_state c = state_data_transfer" "m_id M = JOZA_MSG_DATA" "m_data M = Some d"
    and "ch_xzaddr c = Some zx" "ch_yzaddr c = Some zy" "zrouter w" "\<And>h x. zfail w h x = None"
  shows "channel_dispatch c M True w =
     (case data_verdict M (ch_pkt c) (ch_window c) (ch_yps c) (ch_ypr c) (ch_xps c) (ch_xpr c) of
        None \<Rightarrow> Inr ((state_data_transfer, c\<lparr>ch_mtime := gclock w (gtick w), ch_yps := next_seq (ch_yps c), ch_ypr := m_pr M\<rparr>),
          w\<lparr>gtick := Suc (gtick w), zsent := zsent w @ wire w zx (data_msg M)\<rparr>)
      | Some diag \<Rightarrow> Inr ((state_data_transfer, c\<lparr>ch_mtime := gclock w (gtick w)\<rparr>),
          w\<lparr>gtick := Suc (gtick w), zsent := zsent w @ wire w zy (diagnostic_msg c_local_procedure_error diag)\<rparr>))"
proof -
  have pkt: "packet_rngchk (ch_pkt c) = 0" using assms(1) by (simp add: channel_ok_def)
  have fail: "zfail (w\<lparr>gtick := Suc (gtick w)\<rparr>) h x = None" for h x using assms(8) by simp
  note eff = do_i_data_effect [OF assms(4) pkt fail, simplified, OF assms(7)]
  have a: "action_get (ch_state c) (m_id M) True = Inr a_y_data"
    using action_get_data_transfer assms(2,3) by auto
  show ?thesis
    unfolding channel_dispatch_unfold [OF a] dispatch_action_def Let_def
    by (auto simp: assms(2,5,6) bind_io_def eff split: option.split)
qed

lemma call_message:
  assumes "well_received r M" "valid_message M" "m_id M = JOZA_MSG_CALL_ACCEPTED"
  obtains x y where "m_calling_address M = Some x" "m_called_address M = Some y"
    "packet_rngchk (unat (m_packet M)) = 0" "seq_rngchk (m_window M) = 0" "tput_rngchk (unat (m_throughput M)) = 0"
proof -
  have "message_ok 4 M" using valid_message_ok [OF assms(1,2)] assms(3) by (simp add: msg_ids)
  then show ?thesis using that by (auto simp: message_ok_def)
qed

lemma channel_call_dispatch:
  assumes "channel_ok c" "ch_state c = state_x_call_request \<or> ch_state c = state_call_collision"
    and "well_received r M" "valid_message M" "m_id M = JOZA_MSG_CALL_ACCEPTED"
  shows "\<exists>c' w'. channel_dispatch c M True w = Inr ((ch_state c', c'), w') \<and>
     c' = (if accepts_call c M
           then c\<lparr>ch_mtime := gclock w (gtick w), ch_state := state_data_transfer, ch_window := m_window M,
                  ch_pkt := unat (m_packet M), ch_tput := unat (m_throughput M)\<rparr>
           else c\<lparr>ch_mtime := gclock w (gtick w)\<rparr>)"
proof -
  obtain x y where m: "m_calling_address M = Some x" "m_called_address M = Some y"
      "packet_rngchk (unat (m_packet M)) = 0" "seq_rngchk (m_window M) = 0"
      "tput_rngchk (unat (m_throughput M)) = 0"
    using call_message [OF assms(3,4,5)] .
  obtain s t where c: "ch_yname c = Some s" "plain_string s" "ch_xname c = Some t" "plain_string t"
      "packet_rngchk (ch_pkt c) = 0" "seq_rngchk (ch_window c) = 0" "tput_rngchk (ch_tput c) = 0"
      and z: "ch_yzaddr c \<noteq> None" "ch_xzaddr c \<noteq> None"
    using assms(1) by (auto simp: channel_ok_def)
  let ?w = "w\<lparr>gtick := Suc (gtick w)\<rparr>" and ?c = "c\<lparr>ch_mtime := gclock w (gtick w)\<rparr>"
  let ?act = "do_y_call_accepted (ch_yzaddr c) (ch_xzaddr c) M (ch_yname c) (ch_xname c) (ch_state c)
      (ch_window c) (ch_pkt c) (ch_tput c)"
  obtain r w' where r: "?act ?w = Inr (r, w')"
    using do_y_call_accepted_runs [OF z m(1,2) c(1,2,3,4) m(3) c(5) m(4) c(6) m(5) c(7), of "ch_state c" ?w]
    by (auto simp: runs_def)
  have a: "action_get (ch_state c) (m_id M) True = Inr a_y_call_accepted"
    using action_get_accept assms(2,5) by auto
  have "r = (if accepts_call c M then (state_data_transfer, m_window M, unat (m_packet M), unat (m_throughput M))
      else (ch_state c, ch_window c, ch_pkt c, ch_tput c))"
    using do_y_call_accepted_effect [OF m(1,2) c(1,3) r] m(1,2) c(1,3) by (auto simp: accepts_call_def)
  moreover have "?c\<lparr>ch_state := ch_state c, ch_window := ch_window c, ch_pkt := ch_pkt c, ch_tput := ch_tput c\<rparr> = ?c"
    by simp
  ultimately show ?thesis
    unfolding channel_dispatch_unfold [OF a] dispatch_action_def Let_def
    using r by (auto simp: bind_io_def)
qed

lemma reset_request_effect:
  assumes "\<And>h x. zfail w h x = None" "zrouter w" "m_cause M = cause_byte c_worker_originated"
    and "m_diagnostic M = diag_byte d_worker_originated"
  shows "do_i_reset a (Some zb) M w =
     Inr ((), w\<lparr>zsent := zsent w @ wire w zb ((joza_msg_new JOZA_MSG_RESET_REQUEST)
       \<lparr>m_cause := cause_byte c_worker_originated, m_diagnostic := diag_byte d_worker_originated\<rparr>)\<rparr>)"
  using reset_request_sender.delivers [OF assms(1,2)] assms(3,4)
  by (simp add: do_i_reset_def msg_getters bind_io_def)

lemma do_reset_effect:
  assumes "\<And>h x. zfail w h x = None" "zrouter w"
  shows "do_reset (Some za) (Some zb) s w =
     Inr (state_y_reset_request, w\<lparr>zsent := zsent w @
       wire w za ((joza_msg_new JOZA_MSG_RESET_REQUEST)
         \<lparr>m_cause := cause_byte c_local_procedure_error, m_diagnostic := of_nat (STATE2DIAG s)\<rparr>) @
       wire w zb ((joza_msg_new JOZA_MSG_RESET_REQUEST)
         \<lparr>m_cause := cause_byte c_remote_procedure_error, m_diagnostic := of_nat (STATE2DIAG s)\<rparr>)\<rparr>)"
proof -
  note one = reset_request_sender.delivers [OF assms]
  have two: "joza_msg_send_addr_reset_request (Some zb) c d (w\<lparr>zsent := l\<rparr>) =
      Inr (0, w\<lparr>zsent := l @ wire w zb ((joza_msg_new JOZA_MSG_RESET_REQUEST)\<lparr>m_cause := c, m_diagnostic := d\<rparr>)\<rparr>)"
    for c d l
    using reset_request_sender.delivers [of "w\<lparr>zsent := l\<rparr>" zb c d] assms by simp
  show ?thesis by (simp add: do_reset_def bind_io_def one two)
qed

section \<open>Properties\<close>

definition demo_channel :: channel where
  "demo_channel = \<lparr>ch_lcn = 1, ch_xzaddr = Some [0, 1, 1, 1, 1], ch_yzaddr = Some [0, 2, 2, 2, 2],
     ch_xname = Some (lit ''ALICE''), ch_yname = Some (lit ''BOB''), ch_state = state_x_call_request,
     ch_xps = 0, ch_xpr = 0, ch_yps = 0, ch_ypr = 0, ch_window = 2, ch_pkt = 7, ch_tput = 10,
     ch_ctime = 0, ch_mtime = 0\<rparr>"

lemma demo_channel_fresh: "fresh_channel demo_channel"
  by (simp add: fresh_channel_def channel_ok_def demo_channel_def packet_rngchk_0 tput_rngchk_0
      seq_rngchk_0 SEQ_MAX_def plain_string_def lit_def STRING_MAX_def)

lemma demo_disconnect:
  "well_received True ((joza_msg_new JOZA_MSG_DISCONNECT)\<lparr>m_address := Some a\<rparr>)"
  "valid_message ((joza_msg_new JOZA_MSG_DISCONNECT)\<lparr>m_address := Some a\<rparr>)"
  by (simp_all add: well_received_def valid_message_def msg_ids)

text \<open>
  C5. Dispatching the messages that the action tables cover, that is all but ENQ, ACK and, from the callee,
  DIRECTORY: for a well-formed channel that is not closed, such a message that was
  received and passed the range checks is processed without a failed assertion, an abort or
  undefined behaviour. The state moves along one of the transitions of \<open>successors\<close>, which lists
  those of the code (\<^verbatim>\<open>doc/state.dot\<close> has others for resets), and the channel stays well formed, keeps
  its two ends, and keeps the flow-control invariant, whether or not the broker's sends succeed.
\<close>

theorem channel_dispatch_correct:
  assumes "channel_ok c" "flow_ok c" "live_state (ch_state c)" "well_received r M" "valid_message M"
    and "m_id M < 16" "is_y \<Longrightarrow> m_id M < 15"
  shows "\<exists>c' w'. channel_dispatch c M is_y w = Inr ((ch_state c', c'), w') \<and> ticked 1 w w' \<and>
     ch_state c' \<in> successors (ch_state c) \<and> channel_ok c' \<and> flow_ok c' \<and> same_ends c c'"
  using assms by (rule channel_dispatch_ok)

theorem channel_dispatch_correct_witness:
  "\<exists>c' w'. channel_dispatch demo_channel ((joza_msg_new JOZA_MSG_DISCONNECT)\<lparr>m_address := Some [0, 1, 1, 1, 1]\<rparr>)
       False quiet_world = Inr ((ch_state c', c'), w') \<and> ticked 1 quiet_world w' \<and>
     ch_state c' \<in> successors (ch_state demo_channel) \<and> channel_ok c' \<and> flow_ok c' \<and> same_ends demo_channel c'"
  by (rule channel_dispatch_correct [OF _ _ _ demo_disconnect])
    (use demo_channel_fresh fresh_flow_ok in
      \<open>auto simp: fresh_channel_def live_state_def msg_ids demo_channel_def\<close>)

text \<open>
  C8. Over any sequence of valid messages from either end, a channel that starts in
  \<^verbatim>\<open>state_x_call_request\<close> stays well formed and keeps the flow-control invariant: with a window
  of 1 to 7, at most one packet more than the window is outstanding in each direction. The
  states \<^verbatim>\<open>state_y_call_request\<close> and \<^verbatim>\<open>state_x_reset_request\<close> are never reached.
\<close>

theorem channel_run_invariant:
  assumes "fresh_channel c" "chan_steps c d"
  shows "channel_ok d \<and> flow_ok d \<and> same_ends c d \<and>
     ch_state d \<notin> {state_y_call_request, state_x_reset_request}"
  using chan_steps_inv [OF assms(2,1)] by (auto simp: live_state_def)

theorem channel_run_invariant_witness:
  "\<exists>d w'. channel_dispatch demo_channel ((joza_msg_new JOZA_MSG_DISCONNECT)\<lparr>m_address := Some [0, 1, 1, 1, 1]\<rparr>)
       False quiet_world = Inr ((ch_state d, d), w') \<and>
     channel_ok d \<and> flow_ok d \<and> same_ends demo_channel d \<and>
     ch_state d \<notin> {state_y_call_request, state_x_reset_request}"
proof -
  let ?M = "(joza_msg_new JOZA_MSG_DISCONNECT)\<lparr>m_address := Some [0, 1, 1, 1, 1]\<rparr>"
  have live: "live_state (ch_state demo_channel)" by (simp add: demo_channel_def live_state_def)
  have "channel_ok demo_channel" "flow_ok demo_channel"
    using demo_channel_fresh fresh_flow_ok by (auto simp: fresh_channel_def)
  then have "\<exists>d w'. channel_dispatch demo_channel ?M False quiet_world = Inr ((ch_state d, d), w') \<and>
      ticked 1 quiet_world w' \<and> ch_state d \<in> successors (ch_state demo_channel) \<and> channel_ok d \<and>
      flow_ok d \<and> same_ends demo_channel d"
    by (rule channel_dispatch_ok [OF _ _ live demo_disconnect]) (simp_all add: msg_ids)
  then obtain d w' where d: "channel_dispatch demo_channel ?M False quiet_world = Inr ((ch_state d, d), w')"
    by blast
  have "chan_steps demo_channel d"
    by (rule chan_step [OF chan_refl live demo_disconnect d])
  then show ?thesis using d channel_run_invariant [OF demo_channel_fresh] by blast
qed

text \<open>
  C23. Identifiers beyond the action tables stop the broker, whatever else the message holds: ENQ
  and ACK from either end of a call fail the assertion of \<^verbatim>\<open>action_get\<close>, and a DIRECTORY from the
  callee, for which the callee's table has no column, reaches \<^verbatim>\<open>abort\<close>.
\<close>

theorem channel_dispatch_uncovered:
  assumes "live_state (ch_state c)"
    and "m_id M \<in> {JOZA_MSG_ENQ, JOZA_MSG_ACK} \<or> (m_id M = JOZA_MSG_DIRECTORY \<and> is_y)"
  shows "channel_dispatch c M is_y w = Inl (if m_id M = JOZA_MSG_DIRECTORY then Aborted else Assert_failed)"
  using assms channel_dispatch_enq [of M c is_y w] channel_dispatch_directory [of c M w] by (auto simp: msg_ids)

theorem channel_dispatch_uncovered_witness:
  "well_received True ((joza_msg_new JOZA_MSG_ENQ)\<lparr>m_address := Some [0, 1, 1, 1, 1]\<rparr>) \<and>
   channel_dispatch demo_channel ((joza_msg_new JOZA_MSG_ENQ)\<lparr>m_address := Some [0, 1, 1, 1, 1]\<rparr>) False quiet_world =
     Inl Assert_failed"
  using channel_dispatch_uncovered [of demo_channel "(joza_msg_new JOZA_MSG_ENQ)\<lparr>m_address := Some [0, 1, 1, 1, 1]\<rparr>" False quiet_world]
  by (simp add: demo_channel_def live_state_def well_received_def msg_ids)

text \<open>
  C7. Data transfer, for each end: a DATA message is passed on, unchanged, to the other end if
  and only if it fits the packet facility, carries the expected sequence number, lies in the
  other end's window and makes a valid window update; then the sender's counters advance. In
  every other case the sender gets exactly one DIAGNOSTIC that names the first check that
  failed, and the channel does not change.
\<close>

theorem channel_data_forwarding:
  assumes "channel_ok c" "ch_state c = state_data_transfer" "m_id M = JOZA_MSG_DATA" "m_data M = Some d"
    and "ch_xzaddr c = Some zx" "ch_yzaddr c = Some zy" "zrouter w" "\<And>h x. zfail w h x = None"
  shows "channel_dispatch c M False w =
     (case data_verdict M (ch_pkt c) (ch_window c) (ch_xps c) (ch_xpr c) (ch_yps c) (ch_ypr c) of
        None \<Rightarrow> Inr ((state_data_transfer, c\<lparr>ch_mtime := gclock w (gtick w), ch_xps := next_seq (ch_xps c), ch_xpr := m_pr M\<rparr>),
          w\<lparr>gtick := Suc (gtick w), zsent := zsent w @ wire w zy (data_msg M)\<rparr>)
      | Some diag \<Rightarrow> Inr ((state_data_transfer, c\<lparr>ch_mtime := gclock w (gtick w)\<rparr>),
          w\<lparr>gtick := Suc (gtick w), zsent := zsent w @ wire w zx (diagnostic_msg c_local_procedure_error diag)\<rparr>)) \<and>
     channel_dispatch c M True w =
     (case data_verdict M (ch_pkt c) (ch_window c) (ch_yps c) (ch_ypr c) (ch_xps c) (ch_xpr c) of
        None \<Rightarrow> Inr ((state_data_transfer, c\<lparr>ch_mtime := gclock w (gtick w), ch_yps := next_seq (ch_yps c), ch_ypr := m_pr M\<rparr>),
          w\<lparr>gtick := Suc (gtick w), zsent := zsent w @ wire w zx (data_msg M)\<rparr>)
      | Some diag \<Rightarrow> Inr ((state_data_transfer, c\<lparr>ch_mtime := gclock w (gtick w)\<rparr>),
          w\<lparr>gtick := Suc (gtick w), zsent := zsent w @ wire w zy (diagnostic_msg c_local_procedure_error diag)\<rparr>))"
  using channel_x_data [OF assms] channel_y_data [OF assms] by blast

definition demo_open :: channel where
  "demo_open = demo_channel\<lparr>ch_state := state_data_transfer\<rparr>"

definition demo_data :: joza_msg where
  "demo_data = (joza_msg_new JOZA_MSG_DATA)\<lparr>m_data := Some [1, 2, 3]\<rparr>"

lemma demo_open_ok: "channel_ok demo_open" "ch_state demo_open = state_data_transfer"
  using demo_channel_fresh by (auto simp: fresh_channel_def channel_ok_def demo_open_def)

lemma demo_verdict:
  "data_verdict demo_data (ch_pkt demo_open) (ch_window demo_open) (ch_xps demo_open) (ch_xpr demo_open)
     (ch_yps demo_open) (ch_ypr demo_open) = None"
  by (simp add: data_verdict_def demo_data_def demo_open_def demo_channel_def joza_msg_new_def
      seq_in_range_def window_top_def SEQ_MAX_def smod_int_alt_def)

theorem channel_data_forwarding_witness:
  "channel_dispatch demo_open demo_data False quiet_world =
     Inr ((state_data_transfer, demo_open\<lparr>ch_mtime := 0, ch_xps := 1, ch_xpr := 0\<rparr>),
       quiet_world\<lparr>gtick := 1, zsent := wire quiet_world [0, 2, 2, 2, 2] (data_msg demo_data)\<rparr>)"
proof -
  have "m_id demo_data = JOZA_MSG_DATA" "m_data demo_data = Some [1, 2, 3]"
    by (simp_all add: demo_data_def)
  moreover have "ch_xzaddr demo_open = Some [0, 1, 1, 1, 1]" "ch_yzaddr demo_open = Some [0, 2, 2, 2, 2]"
    by (simp_all add: demo_open_def demo_channel_def)
  moreover have "zrouter quiet_world" "zfail quiet_world h x = None" for h x
    by (simp_all add: quiet_world_def)
  ultimately have "channel_dispatch demo_open demo_data False quiet_world =
     Inr ((state_data_transfer, demo_open\<lparr>ch_mtime := gclock quiet_world (gtick quiet_world),
         ch_xps := next_seq (ch_xps demo_open), ch_xpr := m_pr demo_data\<rparr>),
       quiet_world\<lparr>gtick := Suc (gtick quiet_world),
         zsent := zsent quiet_world @ wire quiet_world [0, 2, 2, 2, 2] (data_msg demo_data)\<rparr>)"
    using channel_data_forwarding [OF demo_open_ok, of demo_data] demo_verdict by simp
  then show ?thesis
    by (simp add: quiet_world_def demo_open_def demo_channel_def demo_data_def joza_msg_new_def next_seq_def
        SEQ_MAX_def smod_int_alt_def)
qed

text \<open>
  C22. Answering a call: while the caller waits, a CALL_ACCEPTED from the callee opens the channel
  if and only if each facility lies between the protocol's default and the value the caller
  asked for and the names are those of the two ends; the channel then has the facilities of the
  answer. Otherwise nothing but the time stamp changes and the callee may try again.
\<close>

theorem channel_call_accepted:
  assumes "channel_ok c" "ch_state c = state_x_call_request \<or> ch_state c = state_call_collision"
    and "well_received r M" "valid_message M" "m_id M = JOZA_MSG_CALL_ACCEPTED"
  shows "\<exists>c' w'. channel_dispatch c M True w = Inr ((ch_state c', c'), w') \<and>
     (if min p_negotiate (ch_pkt c) \<le> unat (m_packet M) \<and> unat (m_packet M) \<le> max p_negotiate (ch_pkt c) \<and>
         min WINDOW_NEGOTIATE (ch_window c) \<le> m_window M \<and> m_window M \<le> max WINDOW_NEGOTIATE (ch_window c) \<and>
         min t_negotiate (ch_tput c) \<le> unat (m_throughput M) \<and> unat (m_throughput M) \<le> max t_negotiate (ch_tput c) \<and>
         m_calling_address M = ch_xname c \<and> m_called_address M = ch_yname c
      then c' = c\<lparr>ch_mtime := gclock w (gtick w), ch_state := state_data_transfer, ch_window := m_window M,
             ch_pkt := unat (m_packet M), ch_tput := unat (m_throughput M)\<rparr>
      else c' = c\<lparr>ch_mtime := gclock w (gtick w)\<rparr>)"
proof -
  have rng: "packet_rngchk (unat (m_packet M)) = 0" "seq_rngchk (m_window M) = 0"
      "tput_rngchk (unat (m_throughput M)) = 0" "packet_rngchk (ch_pkt c) = 0"
      "seq_rngchk (ch_window c) = 0" "tput_rngchk (ch_tput c) = 0"
    using call_message [OF assms(3,4,5)] assms(1) by (auto simp: channel_ok_def)
  have eq: "accepts_call c M \<longleftrightarrow>
      min p_negotiate (ch_pkt c) \<le> unat (m_packet M) \<and> unat (m_packet M) \<le> max p_negotiate (ch_pkt c) \<and>
      min WINDOW_NEGOTIATE (ch_window c) \<le> m_window M \<and> m_window M \<le> max WINDOW_NEGOTIATE (ch_window c) \<and>
      min t_negotiate (ch_tput c) \<le> unat (m_throughput M) \<and> unat (m_throughput M) \<le> max t_negotiate (ch_tput c) \<and>
      m_calling_address M = ch_xname c \<and> m_called_address M = ch_yname c"
    unfolding accepts_call_def packet_facility.accepted_iff window_facility.accepted_iff tput_facility.accepted_iff
    using rng by auto
  show ?thesis
    unfolding eq [symmetric] using channel_call_dispatch [OF assms, of w]
    by (cases "accepts_call c M") auto
qed

definition demo_answer :: joza_msg where
  "demo_answer = (joza_msg_new JOZA_MSG_CALL_ACCEPTED)\<lparr>m_address := Some [0, 2, 2, 2, 2],
     m_calling_address := Some (lit ''ALICE''), m_called_address := Some (lit ''BOB''), m_packet := 7,
     m_window := 2, m_throughput := 10, m_data := Some []\<rparr>"

lemma demo_answer_ok: "well_received True demo_answer" "valid_message demo_answer" "m_id demo_answer = JOZA_MSG_CALL_ACCEPTED"
  by (simp_all add: demo_answer_def well_received_def valid_message_def msg_ids wire_string_def lit_def
      STRING_MAX_def data_length_def data_of_def valid_name_def NAME_LEN_def val_init_def val_mid_def isalnum_def
      packet_rngchk_0 seq_rngchk_0 tput_rngchk_0)

theorem channel_call_accepted_witness:
  "\<exists>c' w'. channel_dispatch demo_channel demo_answer True quiet_world = Inr ((ch_state c', c'), w') \<and>
     c' = demo_channel\<lparr>ch_mtime := 0, ch_state := state_data_transfer\<rparr>"
proof -
  have "channel_ok demo_channel" using demo_channel_fresh by (simp add: fresh_channel_def)
  moreover have "ch_state demo_channel = state_x_call_request \<or> ch_state demo_channel = state_call_collision"
    by (simp add: demo_channel_def)
  ultimately show ?thesis
    using channel_call_accepted [OF _ _ demo_answer_ok, of demo_channel quiet_world]
    by (simp add: demo_channel_def demo_answer_def quiet_world_def packet_enum tput_enum WINDOW_NEGOTIATE_def)
qed

text \<open>
  A reset that the caller asks for is never completed: the broker passes RESET_REQUEST to
  the callee without changing state, so the callee's RESET_CONFIRMATION counts as an error, both
  ends are sent a new RESET_REQUEST, and the channel ends up waiting in
  \<^verbatim>\<open>state_y_reset_request\<close> with its counters as they were.
\<close>

theorem channel_reset_never_confirmed:
  assumes "ch_state c = state_data_transfer" "ch_xzaddr c = Some zx" "ch_yzaddr c = Some zy"
    and "zrouter w" "\<And>h x. zfail w h x = None"
    and "M1 = (joza_msg_new JOZA_MSG_RESET_REQUEST)
      \<lparr>m_cause := cause_byte c_worker_originated, m_diagnostic := diag_byte d_worker_originated\<rparr>"
    and "M2 = joza_msg_new JOZA_MSG_RESET_CONFIRMATION"
  shows "\<exists>c1 w1 c2 w2. channel_dispatch c M1 False w = Inr ((state_data_transfer, c1), w1) \<and>
     channel_dispatch c1 M2 True w1 = Inr ((state_y_reset_request, c2), w2) \<and>
     ch_xps c2 = ch_xps c \<and> ch_xpr c2 = ch_xpr c \<and> ch_yps c2 = ch_yps c \<and> ch_ypr c2 = ch_ypr c \<and>
     zsent w2 = zsent w @ wire w zy M1 @
       wire w zy ((joza_msg_new JOZA_MSG_RESET_REQUEST)\<lparr>m_cause := cause_byte c_local_procedure_error,
         m_diagnostic := diag_byte d_invalid_message_for_state_data_transfer\<rparr>) @
       wire w zx ((joza_msg_new JOZA_MSG_RESET_REQUEST)\<lparr>m_cause := cause_byte c_remote_procedure_error,
         m_diagnostic := diag_byte d_invalid_message_for_state_data_transfer\<rparr>)"
proof -
  let ?w = "w\<lparr>gtick := Suc (gtick w)\<rparr>"
  let ?c1 = "c\<lparr>ch_mtime := gclock w (gtick w)\<rparr>" and ?w1 = "?w\<lparr>zsent := zsent w @ wire w zy M1\<rparr>"
  have a1: "action_get (ch_state c) (m_id M1) False = Inr a_x_reset"
    and a2: "action_get (ch_state ?c1) (m_id M2) True = Inr a_reset"
    using action_get_data_transfer assms(1,6,7) by simp_all
  have "do_i_reset (Some zx) (Some zy) M1 ?w = Inr ((), ?w1)"
    using reset_request_effect [of ?w M1] assms(4,5,6) by simp
  then have s1: "channel_dispatch c M1 False w = Inr ((state_data_transfer, ?c1), ?w1)"
    unfolding channel_dispatch_unfold [OF a1] dispatch_action_def by (simp add: assms(1,2,3) bind_io_def)
  let ?w2 = "?w1\<lparr>gtick := Suc (gtick ?w1)\<rparr>"
  have "STATE2DIAG state_data_transfer = diag_code d_invalid_message_for_state_data_transfer"
    by (simp add: STATE2DIAG_def)
  then have "do_reset (Some zy) (Some zx) state_data_transfer ?w2 =
     Inr (state_y_reset_request, ?w2\<lparr>zsent := (zsent w @ wire w zy M1) @
       wire w zy ((joza_msg_new JOZA_MSG_RESET_REQUEST)\<lparr>m_cause := cause_byte c_local_procedure_error,
         m_diagnostic := diag_byte d_invalid_message_for_state_data_transfer\<rparr>) @
       wire w zx ((joza_msg_new JOZA_MSG_RESET_REQUEST)\<lparr>m_cause := cause_byte c_remote_procedure_error,
         m_diagnostic := diag_byte d_invalid_message_for_state_data_transfer\<rparr>)\<rparr>)"
    using do_reset_effect [of ?w2 zy zx state_data_transfer] assms(4,5) by (simp add: diag_byte_def)
  then have "\<exists>c2 w2. channel_dispatch ?c1 M2 True ?w1 = Inr ((state_y_reset_request, c2), w2) \<and>
     ch_xps c2 = ch_xps c \<and> ch_xpr c2 = ch_xpr c \<and> ch_yps c2 = ch_yps c \<and> ch_ypr c2 = ch_ypr c \<and>
     zsent w2 = zsent w @ wire w zy M1 @
       wire w zy ((joza_msg_new JOZA_MSG_RESET_REQUEST)\<lparr>m_cause := cause_byte c_local_procedure_error,
         m_diagnostic := diag_byte d_invalid_message_for_state_data_transfer\<rparr>) @
       wire w zx ((joza_msg_new JOZA_MSG_RESET_REQUEST)\<lparr>m_cause := cause_byte c_remote_procedure_error,
         m_diagnostic := diag_byte d_invalid_message_for_state_data_transfer\<rparr>)"
    unfolding channel_dispatch_unfold [OF a2] dispatch_action_def by (simp add: assms(1,2,3) bind_io_def)
  then show ?thesis using s1 by blast
qed

theorem channel_reset_never_confirmed_witness:
  "\<exists>M1 c1 w1 c2 w2. channel_dispatch demo_open M1 False quiet_world = Inr ((state_data_transfer, c1), w1) \<and>
     channel_dispatch c1 (joza_msg_new JOZA_MSG_RESET_CONFIRMATION) True w1 =
       Inr ((state_y_reset_request, c2), w2)"
  using channel_reset_never_confirmed [of demo_open "[0, 1, 1, 1, 1]" "[0, 2, 2, 2, 2]" quiet_world, OF _ _ _ _ _ refl refl]
  by (simp add: demo_open_def demo_channel_def quiet_world_def) blast

text \<open>
  The window check counts its two ends with different moduli: of the nine sequence numbers, a
  window of \<open>w\<close> (1 to 7) admits \<open>w\<close> while it does not reach 8, and one more when it wraps.
\<close>

theorem window_admits:
  assumes "lo \<le> SEQ_MAX" "1 \<le> unat win" "unat win \<le> 7"
  shows "card {n. n \<le> 8 \<and> seq_in_range (of_nat n) lo (window_top lo win)} =
     (if unat lo + unat win \<le> 8 then unat win else unat win + 1)"
proof -
  let ?l = "unat lo" and ?w = "unat win"
  have l: "?l \<le> 8" using assms(1) by (rule unat_seq_le)
  have top: "unat (window_top lo win) = (if ?l + ?w \<le> 8 then ?l + ?w - 1 else ?l + ?w - 9)"
    using window_top_unat [OF assms(1,2)] assms(2,3) l by (auto simp: mod8_cases)
  have un: "unat (of_nat n :: seq_t) = n" if "n \<le> 8" for n
    using that by (simp add: unat_of_nat_u16)
  show ?thesis
  proof (cases "?l + ?w \<le> 8")
    case True
    then have "{n. n \<le> 8 \<and> seq_in_range (of_nat n) lo (window_top lo win)} = {?l..<?l + ?w}"
      using top assms(2) by (auto simp: seq_in_range_unat un)
    then show ?thesis using True by simp
  next
    case False
    then have "{n. n \<le> 8 \<and> seq_in_range (of_nat n) lo (window_top lo win)} = {?l..<9} \<union> {..<?l + ?w - 8}"
      using top assms(2,3) l by (auto simp: seq_in_range_unat un)
    moreover have "{?l..<9} \<inter> {..<?l + ?w - 8} = {}" using assms(3) by auto
    ultimately show ?thesis using False l assms(3) by (simp add: card_Un_disjoint)
  qed
qed

theorem window_admits_witness:
  "card {n. n \<le> 8 \<and> seq_in_range (of_nat n) 7 (window_top 7 2)} =
     (if unat (7 :: seq_t) + unat (2 :: seq_t) \<le> 8 then unat (2 :: seq_t) else unat (2 :: seq_t) + 1)"
  by (rule window_admits) (simp_all add: SEQ_MAX_def)

text \<open>
  A window of 0 passes the range checks of \<^verbatim>\<open>prevalidate_message\<close> and of the negotiation, which
  test it as a sequence number, and switches flow control off: no packet in sequence is ever
  refused for being outside the window.
\<close>

theorem window_zero_disables_flow_control:
  assumes "lo \<le> SEQ_MAX" "ps \<le> SEQ_MAX"
  shows "seq_rngchk 0 = 0 \<and> window_negotiate 0 0 = Inr True \<and> seq_in_range ps lo (window_top lo 0)"
  using window_zero_open [OF assms] window_facility.accepted_refl [of 0] by (simp add: seq_rngchk_0)

theorem window_zero_disables_flow_control_witness:
  "seq_rngchk 0 = 0 \<and> window_negotiate 0 0 = Inr True \<and> seq_in_range 5 3 (window_top 3 0)"
  by (rule window_zero_disables_flow_control) (simp_all add: SEQ_MAX_def)

end
