(* ===== verification/Joza_Tables.thy ===== *)
theory Joza_Tables
  imports Joza_Channel
begin

text \<open>
  Workers (\<^verbatim>\<open>src/worker.c\<close>) and the tables of workers and channels (\<^verbatim>\<open>src/workers_table.c\<close>,
  \<^verbatim>\<open>src/channels_table.c\<close>). The tables are GLib hash tables, here association lists with distinct
  keys; a pointer to an object of a table is its key. The order in which GLib visits a table is
  not documented, so it is an argument of the searches. The locale \<open>hash_table\<close> states the laws
  the broker relies on; it is interpreted for both tables.
\<close>

section \<open>Hash tables\<close>

type_synonym ('k, 'v) ght = "('k \<times> 'v) list"

text \<open>\<^verbatim>\<open>g_hash_table_insert\<close> replaces the value of a key that is present.\<close>

definition ght_insert :: "('k, 'v) ght \<Rightarrow> 'k \<Rightarrow> 'v \<Rightarrow> ('k, 'v) ght" where
  "ght_insert t k v = filter (\<lambda>p. fst p \<noteq> k) t @ [(k, v)]"

definition ght_remove :: "('k, 'v) ght \<Rightarrow> 'k \<Rightarrow> ('k, 'v) ght" where
  "ght_remove t k = filter (\<lambda>p. fst p \<noteq> k) t"

text \<open>An assignment through a pointer to the value of a key.\<close>

definition ght_modify :: "('k, 'v) ght \<Rightarrow> 'k \<Rightarrow> ('v \<Rightarrow> 'v) \<Rightarrow> ('k, 'v) ght" where
  "ght_modify t k f = map (\<lambda>p. if fst p = k then (k, f (snd p)) else p) t"

locale hash_table =
  fixes lookup :: "'t \<Rightarrow> 'k \<Rightarrow> 'v option"
    and insert :: "'t \<Rightarrow> 'k \<Rightarrow> 'v \<Rightarrow> 't"
    and remove :: "'t \<Rightarrow> 'k \<Rightarrow> 't"
    and size_of :: "'t \<Rightarrow> nat"
    and inv :: "'t \<Rightarrow> bool"
  assumes lookup_insert: "lookup (insert t k v) k' = (if k' = k then Some v else lookup t k')"
    and lookup_remove: "lookup (remove t k) k' = (if k' = k then None else lookup t k')"
    and inv_insert: "inv t \<Longrightarrow> inv (insert t k v)"
    and inv_remove: "inv t \<Longrightarrow> inv (remove t k)"
    and size_dom: "inv t \<Longrightarrow> finite (dom (lookup t)) \<and> size_of t = card (dom (lookup t))"
begin

lemma insert_present_size:
  assumes "inv t" "lookup t k \<noteq> None"
  shows "size_of (insert t k v) = size_of t"
proof -
  have "dom (lookup (insert t k v)) = dom (lookup t)"
    using assms(2) by (auto simp: lookup_insert split: if_splits)
  then show ?thesis using size_dom [OF assms(1)] size_dom [OF inv_insert [OF assms(1)]] by metis
qed

lemma insert_new_size:
  assumes "inv t" "lookup t k = None"
  shows "size_of (insert t k v) = Suc (size_of t)"
proof -
  have "dom (lookup (insert t k v)) = Set.insert k (dom (lookup t))"
    by (auto simp: lookup_insert split: if_splits)
  moreover have "k \<notin> dom (lookup t)" using assms(2) by auto
  ultimately show ?thesis
    using size_dom [OF assms(1)] size_dom [OF inv_insert [OF assms(1)]] by (metis card_insert_disjoint)
qed

lemma remove_size_le: "inv t \<Longrightarrow> size_of (remove t k) \<le> size_of t"
proof -
  assume t: "inv t"
  have "dom (lookup (remove t k)) \<subseteq> dom (lookup t)"
    by (auto simp: lookup_remove split: if_splits)
  then show ?thesis using size_dom [OF t] size_dom [OF inv_remove [OF t]] by (metis card_mono)
qed

end

section \<open>Workers\<close>

datatype role_t = READY | X_CALLER | Y_CALLEE

record worker =
  wk_wkey :: wkey_t
  wk_address :: "cstr option"
  wk_hostname :: "cstr option"
  wk_zaddr :: "zframe option"
  wk_iodir :: iodir_t
  wk_lcn :: lcn_t
  wk_role :: role_t
  wk_ctime :: int
  wk_mtime :: int
  wk_atime :: int

definition worker_create :: "zframe option \<Rightarrow> cstr option \<Rightarrow> cstr option \<Rightarrow> iodir_t \<Rightarrow> worker io" where
  "worker_create Z A N io w =
     (let (elapsed_time, w1) = g_get_monotonic_time w in
      bind_res (iodir_name io) (\<lambda>_.
      bind_res (msg_addr2key Z) (\<lambda>key.
      Inr (\<lparr>wk_wkey = key, wk_address = A, wk_hostname = N, wk_zaddr = Z, wk_iodir = io, wk_lcn = 0,
        wk_role = READY, wk_ctime = elapsed_time, wk_mtime = elapsed_time, wk_atime = elapsed_time\<rparr>, w1))))"

definition worker_get_address :: "worker \<Rightarrow> cstr option" where "worker_get_address W = wk_address W"
definition worker_get_atime :: "worker \<Rightarrow> int" where "worker_get_atime W = wk_atime W"
definition worker_get_lcn :: "worker \<Rightarrow> lcn_t" where "worker_get_lcn W = wk_lcn W"
definition worker_get_role :: "worker \<Rightarrow> role_t" where "worker_get_role W = wk_role W"
definition worker_get_zaddr :: "worker \<Rightarrow> zframe option" where "worker_get_zaddr W = wk_zaddr W"

definition worker_is_allowed_incoming_call :: "worker \<Rightarrow> bool" where
  "worker_is_allowed_incoming_call W = iodir_incoming_calls_allowed (wk_iodir W)"

definition worker_is_allowed_outgoing_call :: "worker \<Rightarrow> bool" where
  "worker_is_allowed_outgoing_call W = iodir_incoming_calls_allowed (wk_iodir W)"

definition worker_is_available_for_call :: "worker \<Rightarrow> bool" where
  "worker_is_available_for_call W = (worker_is_allowed_incoming_call W \<and> wk_role W = READY)"

definition worker_is_x_caller :: "worker \<Rightarrow> bool" where
  "worker_is_x_caller W = (wk_role W = X_CALLER)"

definition worker_set_role_to_ready :: "worker \<Rightarrow> worker" where
  "worker_set_role_to_ready W = W\<lparr>wk_lcn := 0, wk_role := READY\<rparr>"

definition worker_set_role_to_x_caller :: "worker \<Rightarrow> lcn_t \<Rightarrow> worker" where
  "worker_set_role_to_x_caller W lcn = W\<lparr>wk_lcn := lcn, wk_role := X_CALLER\<rparr>"

definition worker_set_role_to_y_callee :: "worker \<Rightarrow> lcn_t \<Rightarrow> worker" where
  "worker_set_role_to_y_callee W lcn = W\<lparr>wk_lcn := lcn, wk_role := Y_CALLEE\<rparr>"

definition worker_update_atime :: "worker \<Rightarrow> worker io" where
  "worker_update_atime W w = (case g_get_monotonic_time w of (t, w') \<Rightarrow> Inr (W\<lparr>wk_atime := t\<rparr>, w'))"

definition worker_update_mtime :: "worker \<Rightarrow> worker io" where
  "worker_update_mtime W w = (case g_get_monotonic_time w of (t, w') \<Rightarrow> Inr (W\<lparr>wk_mtime := t\<rparr>, w'))"

section \<open>The table of workers\<close>

type_synonym workers_table_t = "(wkey_t, worker) ght"

definition WORKER_REMOVAL_TIMEOUT :: int where "WORKER_REMOVAL_TIMEOUT = 30 * 1000"

definition s_compare_worker_to_name :: "worker \<Rightarrow> cstr option \<Rightarrow> bool res" where
  "s_compare_worker_to_name w str =
     bind_res (strcmp_ptr str (worker_get_address w)) (\<lambda>r. Inr (if r = 0 then True else False))"

definition s_cull_dead_worker :: "worker \<Rightarrow> bool io" where
  "s_cull_dead_worker worker w =
     (case g_get_monotonic_time w of
        (now, w') \<Rightarrow> let delta_t = (now - wk_atime worker) sdiv 1000
                   in Inr (delta_t > WORKER_REMOVAL_TIMEOUT, w'))"

definition workers_table_create :: workers_table_t where
  "workers_table_create = []"

definition workers_table_is_empty :: "workers_table_t \<Rightarrow> bool" where
  "workers_table_is_empty t = (length t = 0)"

definition workers_table_is_full :: "workers_table_t \<Rightarrow> bool" where
  "workers_table_is_full t = (length t \<ge> WORKER_COUNT)"

text \<open>\<^verbatim>\<open>g_hash_table_find\<close> visits the entries in some order and stops at the first hit.\<close>

fun find_entry :: "('v \<Rightarrow> bool res) \<Rightarrow> ('k, 'v) ght \<Rightarrow> 'k option res" where
  "find_entry P [] = Inr None"
| "find_entry P ((k, v) # t) = bind_res (P v) (\<lambda>hit. if hit then Inr (Some k) else find_entry P t)"

type_synonym order_t = "workers_table_t \<Rightarrow> workers_table_t"

definition workers_table_lookup_by_address :: "order_t \<Rightarrow> workers_table_t \<Rightarrow> cstr option \<Rightarrow> wkey_t option res" where
  "workers_table_lookup_by_address order t address =
     find_entry (\<lambda>w. s_compare_worker_to_name w address) (order t)"

definition workers_table_add_new_worker :: "workers_table_t \<Rightarrow> wkey_t \<Rightarrow> zframe option \<Rightarrow> cstr option \<Rightarrow>
    cstr option \<Rightarrow> iodir_t \<Rightarrow> workers_table_t io" where
  "workers_table_add_new_worker t key zaddr address hostname iodir =
     bind_io (worker_create zaddr address hostname iodir) (\<lambda>new_worker.
     bind_io (worker_update_atime new_worker) (\<lambda>new_worker.
     return_io (ght_insert t key new_worker)))"

definition workers_table_lookup_by_key :: "workers_table_t \<Rightarrow> wkey_t \<Rightarrow> worker option" where
  "workers_table_lookup_by_key t key = map_of t key"

definition s_is_other :: "wkey_t \<Rightarrow> worker \<Rightarrow> wkey_t \<times> worker \<Rightarrow> bool" where
  "s_is_other key worker p = (if fst p \<noteq> key \<and> wk_lcn (snd p) = wk_lcn worker then True else False)"

definition workers_table_lookup_other :: "order_t \<Rightarrow> workers_table_t \<Rightarrow> wkey_t \<Rightarrow> worker \<Rightarrow> wkey_t option" where
  "workers_table_lookup_other order t key worker =
     map_option fst (List.find (s_is_other key worker) (order t))"

definition workers_table_remove_by_key :: "workers_table_t \<Rightarrow> wkey_t \<Rightarrow> workers_table_t" where
  "workers_table_remove_by_key t key = ght_remove t key"

text \<open>
  The text of a directory entry is freed right after \<^verbatim>\<open>zhash_insert\<close> stored the pointer to it in
  a table without \<^verbatim>\<open>zhash_autofree\<close>.
\<close>

definition s_add_directory_entry_to_zhash :: "worker \<Rightarrow> zhash \<Rightarrow> zhash res" where
  "s_add_directory_entry_to_zhash worker hash =
     bind_res (iodir_name (wk_iodir worker)) (\<lambda>_.
       case worker_get_address worker of
         None \<Rightarrow> Inl Undefined
       | Some a \<Rightarrow> Inr (zhash_insert hash a Dangling))"

fun add_directory_entries :: "(wkey_t \<times> worker) list \<Rightarrow> zhash \<Rightarrow> zhash res" where
  "add_directory_entries [] dir = Inr dir"
| "add_directory_entries (p # t) dir =
     bind_res (s_add_directory_entry_to_zhash (snd p) dir) (add_directory_entries t)"

definition workers_table_create_directory_zhash :: "order_t \<Rightarrow> workers_table_t \<Rightarrow> zhash res" where
  "workers_table_create_directory_zhash order t = add_directory_entries (order t) []"

section \<open>The table of channels\<close>

type_synonym channels_table_t = "(lcn_t, channel) ght"

definition channels_table_create :: channels_table_t where
  "channels_table_create = []"

text \<open>
  The key that \<^verbatim>\<open>channels_table_find_free_lcn\<close> looks up is the address of its parameter, \<open>addr\<close>.
\<close>

definition lookup_pointer :: "channels_table_t \<Rightarrow> nat \<Rightarrow> channel option" where
  "lookup_pointer t addr = map_option snd (List.find (\<lambda>p. unat (fst p) = addr) t)"

partial_function (option) channels_table_find_free_lcn :: "nat \<Rightarrow> channels_table_t \<Rightarrow> lcn_t \<Rightarrow> lcn_t option" where
  "channels_table_find_free_lcn addr t lcn =
     (if lookup_pointer t addr \<noteq> None
      then let lcn1 = lcn + 1; lcn2 = (if lcn1 > LCN_MAX then LCN_MIN else lcn1)
           in channels_table_find_free_lcn addr t lcn2
      else Some lcn)"

definition channels_table_is_full :: "channels_table_t \<Rightarrow> bool" where
  "channels_table_is_full t = (length t \<ge> CHAN_COUNT)"

definition channels_table_add_new_channel :: "channels_table_t \<Rightarrow> lcn_t \<Rightarrow> zframe option \<Rightarrow> cstr option \<Rightarrow>
    zframe option \<Rightarrow> cstr option \<Rightarrow> packet_t \<Rightarrow> seq_t \<Rightarrow> tput_t \<Rightarrow> channels_table_t io" where
  "channels_table_add_new_channel t lcn xzaddr xaddress yzaddr yaddress pkt window tput =
     bind_io (channel_create lcn xzaddr xaddress yzaddr yaddress pkt window tput) (\<lambda>new_channel.
     return_io (ght_insert t lcn (new_channel\<lparr>ch_state := state_x_call_request\<rparr>)))"

definition channels_table_lookup_by_lcn :: "channels_table_t \<Rightarrow> lcn_t \<Rightarrow> channel option" where
  "channels_table_lookup_by_lcn t lcn = map_of t lcn"

definition channels_table_remove_by_lcn :: "channels_table_t \<Rightarrow> lcn_t \<Rightarrow> channels_table_t" where
  "channels_table_remove_by_lcn t lcn = ght_remove t lcn"

section \<open>The laws of the tables\<close>

definition table_inv :: "('k, 'v) ght \<Rightarrow> bool" where
  "table_inv t = distinct (map fst t)"

lemma map_of_ght_insert: "map_of (ght_insert t k v) = (map_of t)(k \<mapsto> v)"
proof -
  have "k \<notin> fst ` set (filter (\<lambda>p. fst p \<noteq> k) t)" by auto
  from map_of_snoc_new [OF this, of v] show ?thesis
    unfolding ght_insert_def by (simp only: map_of_filter_key fun_upd_upd)
qed

lemma map_of_ght_remove: "map_of (ght_remove t k) = (map_of t)(k := None)"
  by (simp add: ght_remove_def map_of_filter_key)

lemma table_inv_insert: "table_inv t \<Longrightarrow> table_inv (ght_insert t k v)"
  by (auto simp: table_inv_def ght_insert_def distinct_map_filter_fst)

lemma table_inv_remove: "table_inv t \<Longrightarrow> table_inv (ght_remove t k)"
  by (auto simp: table_inv_def ght_remove_def distinct_map_filter_fst)

lemma table_size: "table_inv t \<Longrightarrow> finite (dom (map_of t)) \<and> length t = card (dom (map_of t))"
  by (simp add: table_inv_def finite_dom_map_of dom_map_of_conv_image_fst)
    (metis distinct_card length_map list.set_map)

lemma map_fst_ght_modify [simp]: "map fst (ght_modify t k f) = map fst t"
  by (induction t) (auto simp: ght_modify_def)

lemma table_inv_modify [simp]: "table_inv (ght_modify t k f) = table_inv t"
  by (simp add: table_inv_def)

lemma length_ght_modify [simp]: "length (ght_modify t k f) = length t"
  by (simp add: ght_modify_def)

lemma map_of_ght_modify: "map_of (ght_modify t k f) k' = (if k' = k then map_option f (map_of t k) else map_of t k')"
  by (induction t) (auto simp: ght_modify_def)

lemma workers_lookup_map: "workers_table_lookup_by_key t = map_of t"
  by (simp add: fun_eq_iff workers_table_lookup_by_key_def)

lemma channels_lookup_map: "channels_table_lookup_by_lcn t = map_of t"
  by (simp add: fun_eq_iff channels_table_lookup_by_lcn_def)

lemmas table_facts = map_of_ght_insert map_of_ght_remove table_inv_insert table_inv_remove table_size

interpretation workers: hash_table workers_table_lookup_by_key ght_insert workers_table_remove_by_key length table_inv
  by unfold_locales (simp_all add: workers_lookup_map workers_table_remove_by_key_def table_facts)

interpretation channels: hash_table channels_table_lookup_by_lcn ght_insert channels_table_remove_by_lcn length table_inv
  by unfold_locales (simp_all add: channels_lookup_map channels_table_remove_by_lcn_def table_facts)

end
