(* ===== verification/Joza_Poll.thy ===== *)
theory Joza_Poll
  imports Joza_Tables
begin

text \<open>
  The broker of \<^verbatim>\<open>src/poll.c\<close>: the state behind the event loop and the handlers of its two events, a
  message on the socket and the timer. A pointer to a worker is its key in the table of workers.
  Log output, the socket's set-up and the event loop of CZMQ are not modelled.
\<close>

section \<open>State\<close>

text \<open>
  Beside the members of \<^verbatim>\<open>joza_poll_t\<close> that hold state and the two globals of the file, the record
  has what GLib and the compiler leave open: the order in which GLib visits the table of workers,
  and the address of the parameter of \<^verbatim>\<open>channels_table_find_free_lcn\<close>.
\<close>

record broker =
  b_workers :: workers_table_t
  b_channels :: channels_table_t
  b_lcn :: lcn_t
  b_shutdown :: bool
  b_order :: order_t
  b_addr :: nat

definition POLL_WORKER_PING_TIMER :: int where "POLL_WORKER_PING_TIMER = 10000"
definition POLL_WORKER_REMOVAL_TIMEOUT :: int where "POLL_WORKER_REMOVAL_TIMEOUT = 30000"

definition poll_create :: "order_t \<Rightarrow> nat \<Rightarrow> broker" where
  "poll_create order addr = \<lparr>b_workers = workers_table_create, b_channels = channels_table_create,
     b_lcn = LCN_MIN, b_shutdown = False, b_order = order, b_addr = addr\<rparr>"

definition catch_signal :: "broker \<Rightarrow> broker" where
  "catch_signal b = b\<lparr>b_shutdown := True\<rparr>"

text \<open>Reading and writing through a pointer to a worker.\<close>

definition deref_worker :: "broker \<Rightarrow> wkey_t \<Rightarrow> worker res" where
  "deref_worker b p =
     (case workers_table_lookup_by_key (b_workers b) p of None \<Rightarrow> Inl Undefined | Some W \<Rightarrow> Inr W)"

definition modify_worker :: "wkey_t \<Rightarrow> (worker \<Rightarrow> worker) \<Rightarrow> broker \<Rightarrow> broker" where
  "modify_worker p f b = b\<lparr>b_workers := ght_modify (b_workers b) p f\<rparr>"

text \<open>
  The first parameter of \<^verbatim>\<open>s_remove_channel\<close> is declared as a pointer to a worker, but both calls
  pass a pointer to a channel. Reading and writing a channel as if it were a worker is undefined.
\<close>

datatype object = Worker_object wkey_t | Channel_object lcn_t

section \<open>Messages\<close>

definition s_process_directory_request_from_unconnected_worker :: "zframe option \<Rightarrow> broker \<Rightarrow> broker io" where
  "s_process_directory_request_from_unconnected_worker zaddr b =
     bind_io (lift_res (workers_table_create_directory_zhash (b_order b) (b_workers b))) (\<lambda>dir.
     bind_io (directory_request zaddr dir) (\<lambda>_.
     return_io b))"

definition s_remove_channel :: "object \<Rightarrow> wkey_t option \<Rightarrow> broker \<Rightarrow> broker res" where
  "s_remove_channel worker other b =
     (case worker of
        Channel_object _ \<Rightarrow> Inl Undefined
      | Worker_object p \<Rightarrow>
          bind_res (deref_worker b p) (\<lambda>W.
          let b1 = b\<lparr>b_channels := channels_table_remove_by_lcn (b_channels b) (worker_get_lcn W)\<rparr>;
              b2 = modify_worker p worker_set_role_to_ready b1 in
          case other of
            None \<Rightarrow> Inl Undefined
          | Some q \<Rightarrow> Inr (modify_worker q worker_set_role_to_ready b2)))"

definition s_process_msg_from_connected_worker :: "wkey_t \<Rightarrow> joza_msg \<Rightarrow> broker \<Rightarrow> broker io" where
  "s_process_msg_from_connected_worker p msg b =
     bind_io (lift_res (deref_worker b p)) (\<lambda>worker.
     let lcn = worker_get_lcn worker;
         other = workers_table_lookup_other (b_order b) (b_workers b) p worker in
     case channels_table_lookup_by_lcn (b_channels b) lcn of
       None \<Rightarrow> return_io b
     | Some channel \<Rightarrow>
         if other = None then return_io b
         else bind_io (if worker_is_x_caller worker then channel_dispatch channel msg False
                       else channel_dispatch channel msg True) (\<lambda>(_, channel).
              let b = b\<lparr>b_channels := ght_modify (b_channels b) lcn (\<lambda>_. channel)\<rparr> in
              if channel_is_closed channel
              then lift_res (s_remove_channel (Channel_object lcn) other b)
              else return_io b))"

text \<open>
  The last branch of \<^verbatim>\<open>s_process_call_request_from_unconnected_worker\<close>: a number for the channel, the
  roles of the two workers, the channel and the message to the callee.
\<close>

definition place_call :: "wkey_t \<Rightarrow> worker \<Rightarrow> wkey_t \<Rightarrow> worker \<Rightarrow> joza_msg \<Rightarrow> broker \<Rightarrow> broker io" where
  "place_call p worker q other msg b =
     (case channels_table_find_free_lcn (b_addr b) (b_channels b) (b_lcn b) of
        None \<Rightarrow> (\<lambda>_. Inl Diverged)
      | Some lcn \<Rightarrow>
          let b = b\<lparr>b_lcn := lcn\<rparr>;
              b = modify_worker p (\<lambda>W. worker_set_role_to_x_caller W lcn) b;
              b = modify_worker q (\<lambda>W. worker_set_role_to_y_callee W lcn) b in
          bind_io (channels_table_add_new_channel (b_channels b) lcn (worker_get_zaddr worker)
            (worker_get_address worker) (worker_get_zaddr other) (worker_get_address other)
            (unat (joza_msg_const_packet msg)) (joza_msg_const_window msg)
            (unat (joza_msg_const_throughput msg))) (\<lambda>channels.
          bind_io (joza_msg_send_addr_call_request (worker_get_zaddr other)
            (joza_msg_calling_address msg) (joza_msg_called_address msg) (joza_msg_packet msg)
            (joza_msg_window msg) (joza_msg_throughput msg) (joza_msg_data msg)) (\<lambda>_.
          return_io (b\<lparr>b_channels := channels\<rparr>))))"

definition s_process_call_request_from_unconnected_worker :: "wkey_t \<Rightarrow> joza_msg \<Rightarrow> broker \<Rightarrow> broker io" where
  "s_process_call_request_from_unconnected_worker p msg b =
     (let refuse = (\<lambda>c d. bind_io (diagnostic (joza_msg_const_address msg) None c d) (\<lambda>_. return_io b)) in
      bind_io (lift_res (deref_worker b p)) (\<lambda>worker.
      if channels_table_is_full (b_channels b) then refuse c_network_congestion d_no_channels_available
      else if \<not> worker_is_allowed_outgoing_call worker then refuse c_access_barred d_output_barred
      else
        bind_io (lift_res (workers_table_lookup_by_address (b_order b) (b_workers b)
          (joza_msg_called_address msg))) (\<lambda>found.
        case found of
          None \<Rightarrow> refuse c_unknown_address d_unknown_worker_address
        | Some q \<Rightarrow>
            bind_io (lift_res (deref_worker b q)) (\<lambda>other.
            if \<not> worker_is_allowed_incoming_call other then refuse c_access_barred d_input_barred
            else if \<not> worker_is_available_for_call worker then refuse c_number_busy d_number_busy
            else place_call p worker q other msg b))))"

definition s_process_msg_from_unconnected_worker :: "wkey_t \<Rightarrow> joza_msg \<Rightarrow> wkey_t \<Rightarrow> broker \<Rightarrow> broker io" where
  "s_process_msg_from_unconnected_worker p msg key b =
     (if joza_msg_const_id msg = JOZA_MSG_CALL_REQUEST \<and> \<not> b_shutdown b then
        s_process_call_request_from_unconnected_worker p msg b
      else if joza_msg_const_id msg = JOZA_MSG_DIRECTORY_REQUEST \<and> \<not> b_shutdown b then
        s_process_directory_request_from_unconnected_worker (joza_msg_const_address msg) b
      else if joza_msg_const_id msg = JOZA_MSG_DISCONNECT then
        return_io (b\<lparr>b_workers := workers_table_remove_by_key (b_workers b) key\<rparr>)
      else return_io b)"

definition s_process_msg_from_known_worker :: "wkey_t \<Rightarrow> joza_msg \<Rightarrow> wkey_t \<Rightarrow> broker \<Rightarrow> broker io" where
  "s_process_msg_from_known_worker p msg key b =
     bind_io (lift_res (deref_worker b p)) (\<lambda>worker.
     bind_io (worker_update_atime worker) (\<lambda>worker.
     let b = modify_worker p (\<lambda>_. worker) b in
     case worker_get_role worker of
       X_CALLER \<Rightarrow> s_process_msg_from_connected_worker p msg b
     | Y_CALLEE \<Rightarrow> s_process_msg_from_connected_worker p msg b
     | READY \<Rightarrow> s_process_msg_from_unconnected_worker p msg key b))"

definition s_process_msg_from_unknown_worker :: "joza_msg \<Rightarrow> wkey_t \<Rightarrow> broker \<Rightarrow> broker io" where
  "s_process_msg_from_unknown_worker msg key b =
     (if joza_msg_id msg = JOZA_MSG_CONNECT then
        let refuse = (\<lambda>c d. bind_io (diagnostic (joza_msg_const_address msg) None c d) (\<lambda>_. return_io b)) in
        if workers_table_is_full (b_workers b) then refuse c_network_congestion d_no_connections_available
        else
          bind_io (lift_res (workers_table_lookup_by_address (b_order b) (b_workers b)
            (joza_msg_calling_address msg))) (\<lambda>found.
          if found \<noteq> None then refuse c_address_in_use d_address_in_use
          else
            bind_io (workers_table_add_new_worker (b_workers b) key (joza_msg_address msg)
              (joza_msg_calling_address msg) (joza_msg_host_name msg)
              (unat (joza_msg_directionality msg))) (\<lambda>workers.
            bind_io (joza_msg_send_addr_connect_indication (joza_msg_const_address msg)) (\<lambda>_.
            return_io (b\<lparr>b_workers := workers\<rparr>))))
      else return_io b)"

definition s_process :: "joza_msg \<Rightarrow> broker \<Rightarrow> (int \<times> broker) io" where
  "s_process msg b =
     bind_io (lift_res (prevalidate_message msg)) (\<lambda>diag.
     bind_io
       (if diag \<noteq> d_unspecified then
          bind_io (diagnostic (joza_msg_const_address msg) None c_malformed_message diag) (\<lambda>_. return_io b)
        else
          bind_io (lift_res (msg_addr2key (joza_msg_address msg))) (\<lambda>key.
          case workers_table_lookup_by_key (b_workers b) key of
            Some _ \<Rightarrow> s_process_msg_from_known_worker key msg key b
          | None \<Rightarrow> s_process_msg_from_unknown_worker msg key b))
       (\<lambda>b. return_io (0, b)))"

text \<open>The callback for the socket; \<open>pollin\<close> tells whether there is something to read.\<close>

definition s_recv :: "bool \<Rightarrow> broker \<Rightarrow> (int \<times> broker) io" where
  "s_recv pollin b =
     (if pollin then
        bind_io joza_msg_recv (\<lambda>msg.
        case msg of None \<Rightarrow> return_io (0, b) | Some msg \<Rightarrow> s_process msg b)
      else return_io (0, b))"

section \<open>The timer\<close>

definition s_disconnect_idle_channel :: "wkey_t \<Rightarrow> broker \<Rightarrow> broker io" where
  "s_disconnect_idle_channel p b =
     bind_io (lift_res (deref_worker b p)) (\<lambda>worker.
     let lcn = worker_get_lcn worker in
     case channels_table_lookup_by_lcn (b_channels b) lcn of
       None \<Rightarrow> (\<lambda>_. Inl Undefined)
     | Some channel \<Rightarrow>
         let disconnect_msg = joza_msg_new JOZA_MSG_DISCONNECT in
         bind_io (if worker_is_x_caller worker then channel_dispatch channel disconnect_msg False
                  else channel_dispatch channel disconnect_msg True) (\<lambda>(_, channel).
         let b = b\<lparr>b_channels := ght_modify (b_channels b) lcn (\<lambda>_. channel)\<rparr> in
         if channel_is_closed channel then
           let other = workers_table_lookup_other (b_order b) (b_workers b) p worker in
           bind_io (lift_res (s_remove_channel (Channel_object lcn) other b)) (\<lambda>b.
           bind_io (lift_res (deref_worker b p)) (\<lambda>worker.
           bind_io (worker_update_atime worker) (\<lambda>worker.
           let b = modify_worker p (\<lambda>_. worker) b in
           case other of
             None \<Rightarrow> (\<lambda>_. Inl Undefined)
           | Some q \<Rightarrow>
               bind_io (lift_res (deref_worker b q)) (\<lambda>W.
               bind_io (worker_update_atime W) (\<lambda>W.
               return_io (modify_worker q (\<lambda>_. W) b))))))
         else return_io b))"

text \<open>Whether the worker is to be removed from the table.\<close>

definition s_ping_worker :: "wkey_t \<Rightarrow> broker \<Rightarrow> (bool \<times> broker) io" where
  "s_ping_worker p b =
     bind_io (lift_res (deref_worker b p)) (\<lambda>worker w.
     let (now, w) = g_get_monotonic_time w;
         idle_time = (now - worker_get_atime worker) sdiv 1000 in
     if idle_time > POLL_WORKER_REMOVAL_TIMEOUT \<or> b_shutdown b then
       if worker_get_role worker = READY then Inr ((True, b), w)
       else bind_io (s_disconnect_idle_channel p b) (\<lambda>b. return_io (False, b)) w
     else if idle_time > POLL_WORKER_PING_TIMER then
       bind_io (joza_msg_send_addr_enq (worker_get_zaddr worker)) (\<lambda>_. return_io (False, b)) w
     else Inr ((False, b), w))"

text \<open>\<^verbatim>\<open>g_hash_table_foreach_remove\<close> over the workers in the order of the visit.\<close>

fun ping_workers :: "wkey_t list \<Rightarrow> broker \<Rightarrow> broker io" where
  "ping_workers [] b = return_io b"
| "ping_workers (p # ps) b =
     bind_io (s_ping_worker p b) (\<lambda>(remove, b).
     ping_workers ps
       (if remove then b\<lparr>b_workers := workers_table_remove_by_key (b_workers b) p\<rparr> else b))"

datatype control = Continue int broker | Exit int

definition s_ping :: "broker \<Rightarrow> control io" where
  "s_ping b =
     bind_io (ping_workers (map fst (b_order b (b_workers b))) b) (\<lambda>b.
     if b_shutdown b \<and> workers_table_is_empty (b_workers b) then return_io (Exit 1)
     else return_io (Continue 0 b))"

end
