(* ===== verification/Joza_Broker.thy ===== *)
theory Joza_Broker
  imports Joza_Poll
begin

text \<open>
  Correctness of the event handlers of \<^verbatim>\<open>src/poll.c\<close>: the invariant of the broker's state, the
  faults that a message or the timer can cause, what each kind of message does, and the
  refinement of an abstract switchboard.
\<close>

section \<open>Outcomes\<close>

text \<open>Either a fault that satisfies \<open>F\<close>, or a result that satisfies \<open>P\<close>.\<close>

definition outcome :: "'a io \<Rightarrow> world \<Rightarrow> (fault \<Rightarrow> bool) \<Rightarrow> ('a \<Rightarrow> bool) \<Rightarrow> bool" where
  "outcome m w F P = (case m w of Inl f \<Rightarrow> F f | Inr (x, _) \<Rightarrow> P x)"

named_theorems outcome_intros \<open>rules for the outcomes of computations\<close>

lemma outcome_return [outcome_intros]: "P x \<Longrightarrow> outcome (return_io x) w F P"
  by (simp add: outcome_def)

lemma outcome_fault [outcome_intros]: "F f \<Longrightarrow> outcome (\<lambda>_. Inl f) w F P"
  by (simp add: outcome_def)

lemma outcome_lift [outcome_intros]:
  "(\<And>f. r = Inl f \<Longrightarrow> F f) \<Longrightarrow> (\<And>x. r = Inr x \<Longrightarrow> P x) \<Longrightarrow> outcome (lift_res r) w F P"
  by (cases r) (simp_all add: outcome_def)

lemma outcome_bind:
  "outcome m w F Q \<Longrightarrow> (\<And>x w'. Q x \<Longrightarrow> m w = Inr (x, w') \<Longrightarrow> outcome (f x) w' F P) \<Longrightarrow> outcome (bind_io m f) w F P"
  by (cases "m w") (auto simp: outcome_def bind_io_def)

lemma outcome_runs: "runs m w Q \<Longrightarrow> (\<And>x. Q x \<Longrightarrow> P x) \<Longrightarrow> outcome m w F P"
  by (auto simp: outcome_def runs_def)

lemma outcome_after: "runs m w (\<lambda>_. True) \<Longrightarrow> P x \<Longrightarrow> outcome (bind_io m (\<lambda>_. return_io x)) w F P"
  by (auto simp: outcome_def runs_def bind_io_def)

lemma outcome_mono:
  "outcome m w F P \<Longrightarrow> (\<And>f. F f \<Longrightarrow> G f) \<Longrightarrow> (\<And>x. P x \<Longrightarrow> Q x) \<Longrightarrow> outcome m w G Q"
  by (auto simp: outcome_def split: sum.splits prod.splits)

section \<open>The invariant\<close>

text \<open>The order in which GLib visits a table has every entry once.\<close>

definition fair_order :: "order_t \<Rightarrow> bool" where
  "fair_order order \<longleftrightarrow> (\<forall>t. mset (order t) = mset t)"

definition worker_ok :: "wkey_t \<Rightarrow> worker \<Rightarrow> bool" where
  "worker_ok k W \<longleftrightarrow> wk_wkey W = k \<and> (\<exists>z. wk_zaddr W = Some z \<and> msg_addr2key (Some z) = Inr k) \<and>
     (\<exists>a. wk_address W = Some a \<and> plain_string a) \<and> iodir_validate (wk_iodir W) \<and>
     (wk_role W = READY \<longleftrightarrow> wk_lcn W = 0)"

definition workers_ok :: "workers_table_t \<Rightarrow> bool" where
  "workers_ok t \<longleftrightarrow> table_inv t \<and> length t \<le> WORKER_COUNT \<and>
     (\<forall>k W. map_of t k = Some W \<longrightarrow> worker_ok k W) \<and>
     (\<forall>k k' W W'. map_of t k = Some W \<longrightarrow> map_of t k' = Some W' \<longrightarrow> wk_address W = wk_address W' \<longrightarrow> k = k')"

text \<open>Every channel has the first logical channel number, so there is at most one.\<close>

definition channels_ok :: "channels_table_t \<Rightarrow> bool" where
  "channels_ok t \<longleftrightarrow> table_inv t \<and>
     (\<forall>n c. map_of t n = Some c \<longrightarrow> n = LCN_MIN \<and> ch_lcn c = n \<and> channel_ok c \<and> flow_ok c \<and> live_state (ch_state c))"

definition calls_ok :: "workers_table_t \<Rightarrow> channels_table_t \<Rightarrow> bool" where
  "calls_ok t ch \<longleftrightarrow> (\<forall>k W. map_of t k = Some W \<longrightarrow> wk_role W \<noteq> READY \<longrightarrow>
     wk_lcn W = LCN_MIN \<and> map_of ch LCN_MIN \<noteq> None)"

definition broker_ok :: "broker \<Rightarrow> bool" where
  "broker_ok b \<longleftrightarrow> fair_order (b_order b) \<and> workers_ok (b_workers b) \<and> channels_ok (b_channels b) \<and>
     calls_ok (b_workers b) (b_channels b) \<and> b_lcn b = LCN_MIN"

text \<open>Names without a conversion character.\<close>

definition plain_names :: "joza_msg \<Rightarrow> bool" where
  "plain_names M \<longleftrightarrow> (\<forall>s. m_calling_address M = Some s \<longrightarrow> 37 \<notin> set s) \<and>
     (\<forall>s. m_called_address M = Some s \<longrightarrow> 37 \<notin> set s)"

section \<open>The tables under the invariant\<close>

lemma workers_ok_worker: "workers_ok t \<Longrightarrow> map_of t k = Some W \<Longrightarrow> worker_ok k W"
  by (simp add: workers_ok_def)

lemma worker_ok_address: "worker_ok k W \<Longrightarrow> wk_address W \<noteq> None"
  by (auto simp: worker_ok_def)

lemma workers_ok_name:
  assumes "workers_ok t" "map_of t k = Some W" "map_of t k' = Some W'" "wk_address W = wk_address W'"
  shows "k = k'"
proof -
  have "\<forall>k k' W W'. map_of t k = Some W \<longrightarrow> map_of t k' = Some W' \<longrightarrow> wk_address W = wk_address W' \<longrightarrow> k = k'"
    using assms(1) unfolding workers_ok_def by (elim conjE) assumption
  from this [rule_format, OF assms(2-4)] show ?thesis .
qed

lemma fair_order_set: "fair_order order \<Longrightarrow> set (order t) = set t"
  unfolding fair_order_def by (metis set_mset_mset)

lemma table_inv_map_of: "table_inv t \<Longrightarrow> (k, v) \<in> set t \<longleftrightarrow> map_of t k = Some v"
  by (simp add: table_inv_def map_of_eq_Some_iff)

lemma deref_worker_Some: "map_of (b_workers b) k = Some W \<Longrightarrow> deref_worker b k = Inr W"
  by (simp add: deref_worker_def workers_table_lookup_by_key_def)

text \<open>The search by name, when every worker has a name.\<close>

lemma find_entry_names:
  assumes "\<forall>p \<in> set t. wk_address (snd p) \<noteq> None"
  shows "\<exists>r. find_entry (\<lambda>W. s_compare_worker_to_name W (Some s)) t = Inr r \<and>
     (case r of None \<Rightarrow> \<forall>k W. (k, W) \<in> set t \<longrightarrow> wk_address W \<noteq> Some s
      | Some k \<Rightarrow> \<exists>W. (k, W) \<in> set t \<and> wk_address W = Some s)"
  using assms
proof (induction t)
  case Nil
  then show ?case by simp
next
  case (Cons p t)
  obtain k W where p: "p = (k, W)" by (cases p)
  obtain a where a: "wk_address W = Some a" using Cons.prems p by auto
  have c: "s_compare_worker_to_name W (Some s) = Inr (s = a)"
    using a by (simp add: s_compare_worker_to_name_def worker_get_address_def strcmp_ptr_def)
  show ?case
  proof (cases "s = a")
    case True
    then show ?thesis using c a p by auto
  next
    case False
    have "\<forall>p \<in> set t. wk_address (snd p) \<noteq> None" using Cons.prems by simp
    from Cons.IH [OF this] obtain r where
      "find_entry (\<lambda>W. s_compare_worker_to_name W (Some s)) t = Inr r"
      "case r of None \<Rightarrow> \<forall>k W. (k, W) \<in> set t \<longrightarrow> wk_address W \<noteq> Some s
       | Some k \<Rightarrow> \<exists>W. (k, W) \<in> set t \<and> wk_address W = Some s"
      by blast
    then show ?thesis using c False a p by (auto split: option.splits)
  qed
qed

lemma lookup_by_address:
  assumes "workers_ok t" "fair_order order"
  shows "\<exists>r. workers_table_lookup_by_address order t (Some s) = Inr r \<and>
     (case r of None \<Rightarrow> \<forall>k W. map_of t k = Some W \<longrightarrow> wk_address W \<noteq> Some s
      | Some k \<Rightarrow> \<exists>W. map_of t k = Some W \<and> wk_address W = Some s)"
proof -
  have t: "table_inv t" using assms(1) by (simp add: workers_ok_def)
  have m: "(k, W) \<in> set (order t) \<longleftrightarrow> map_of t k = Some W" for k W
    by (simp add: fair_order_set [OF assms(2)] table_inv_map_of [OF t])
  have "\<forall>p \<in> set (order t). wk_address (snd p) \<noteq> None"
    using workers_ok_worker [OF assms(1)] worker_ok_address m by fastforce
  from find_entry_names [OF this, of s] show ?thesis
    unfolding workers_table_lookup_by_address_def m .
qed

section \<open>Keeping the invariant\<close>

lemma workers_ok_modify:
  assumes "workers_ok t" "map_of t k = Some W"
    and "worker_ok k (f W)" "wk_address (f W) = wk_address W"
  shows "workers_ok (ght_modify t k f)"
proof -
  have m: "map_of (ght_modify t k f) k' = (if k' = k then Some (f W) else map_of t k')" for k'
    by (simp add: map_of_ght_modify assms(2))
  have "table_inv t" "length t \<le> WORKER_COUNT" using assms(1) by (simp_all add: workers_ok_def)
  moreover have "worker_ok k' W'" if "map_of (ght_modify t k f) k' = Some W'" for k' W'
    using that assms(3) workers_ok_worker [OF assms(1)] by (simp add: m split: if_splits)
  moreover have orig: "\<exists>V. map_of t k' = Some V \<and> wk_address V = wk_address W'"
    if "map_of (ght_modify t k f) k' = Some W'" for k' W'
    using that assms(2,4) by (auto simp: m split: if_splits)
  moreover have "k' = k''" if "map_of (ght_modify t k f) k' = Some W'"
      "map_of (ght_modify t k f) k'' = Some W''" "wk_address W' = wk_address W''" for k' k'' W' W''
    using orig [OF that(1)] orig [OF that(2)] that(3) workers_ok_name [OF assms(1)] by metis
  ultimately show ?thesis unfolding workers_ok_def by simp
qed

lemma workers_ok_remove:
  assumes "workers_ok t"
  shows "workers_ok (ght_remove t k)"
proof -
  have m: "map_of (ght_remove t k) k' = (if k' = k then None else map_of t k')" for k'
    by (simp add: map_of_ght_remove)
  have "table_inv t" "length t \<le> WORKER_COUNT" using assms by (simp_all add: workers_ok_def)
  then have "table_inv (ght_remove t k)" "length (ght_remove t k) \<le> WORKER_COUNT"
    using workers.remove_size_le [of t k] table_inv_remove [of t k]
    by (simp_all add: workers_table_remove_by_key_def)
  moreover have "worker_ok k' W'" if "map_of (ght_remove t k) k' = Some W'" for k' W'
    using that workers_ok_worker [OF assms] by (simp add: m split: if_splits)
  moreover have "k' = k''" if "map_of (ght_remove t k) k' = Some W'"
      "map_of (ght_remove t k) k'' = Some W''" "wk_address W' = wk_address W''" for k' k'' W' W''
    using that workers_ok_name [OF assms, of k' W' k'' W''] by (simp add: m split: if_splits)
  ultimately show ?thesis unfolding workers_ok_def by simp
qed

lemma workers_ok_insert:
  assumes "workers_ok t" "map_of t k = None" "length t < WORKER_COUNT" "worker_ok k W"
    and "\<And>k' W'. map_of t k' = Some W' \<Longrightarrow> wk_address W' \<noteq> wk_address W"
  shows "workers_ok (ght_insert t k W)"
proof -
  have m: "map_of (ght_insert t k W) k' = (if k' = k then Some W else map_of t k')" for k'
    by (simp add: map_of_ght_insert)
  have "table_inv t" using assms(1) by (simp add: workers_ok_def)
  then have "table_inv (ght_insert t k W)" "length (ght_insert t k W) \<le> WORKER_COUNT"
    using workers.insert_new_size [of t k W] table_inv_insert [of t k W] assms(2,3)
    by (simp_all add: workers_table_lookup_by_key_def)
  moreover have "worker_ok k' W'" if "map_of (ght_insert t k W) k' = Some W'" for k' W'
    using that assms(4) workers_ok_worker [OF assms(1)] by (simp add: m split: if_splits)
  moreover have "k' = k''" if "map_of (ght_insert t k W) k' = Some W'"
      "map_of (ght_insert t k W) k'' = Some W''" "wk_address W' = wk_address W''" for k' k'' W' W''
    using that workers_ok_name [OF assms(1), of k' W' k'' W''] assms(5) [of k'] assms(5) [of k'']
    by (auto simp: m split: if_splits)
  ultimately show ?thesis unfolding workers_ok_def by simp
qed

lemma channels_ok_modify:
  assumes "channels_ok t" "map_of t n = Some c" "channel_ok c'" "flow_ok c'" "live_state (ch_state c')" "same_ends c c'"
  shows "channels_ok (ght_modify t n (\<lambda>_. c'))"
proof -
  have m: "map_of (ght_modify t n (\<lambda>_. c')) k = (if k = n then Some c' else map_of t k)" for k
    by (simp add: map_of_ght_modify assms(2))
  have "ch_lcn c' = ch_lcn c" using assms(6) by (simp add: same_ends_def)
  then show ?thesis using assms unfolding channels_ok_def by (simp add: m)
qed

lemma channels_ok_other: "channels_ok t \<Longrightarrow> n \<noteq> LCN_MIN \<Longrightarrow> map_of t n = None"
  by (cases "map_of t n") (auto simp: channels_ok_def)

lemma channels_ok_insert:
  assumes "channels_ok t" "fresh_channel c" "ch_lcn c = LCN_MIN"
  shows "channels_ok (ght_insert t LCN_MIN c)"
  using assms fresh_flow_ok [OF assms(2)] channels_ok_other [OF assms(1)] table_inv_insert
  unfolding channels_ok_def fresh_channel_def
  by (auto simp: map_of_ght_insert live_state_def split: if_splits)

lemma calls_ok_modify_channel:
  "calls_ok t ch \<Longrightarrow> calls_ok t (ght_modify ch n (\<lambda>_. c))"
  unfolding calls_ok_def by (auto simp: map_of_ght_modify)

lemma calls_ok_modify_worker:
  "calls_ok t ch \<Longrightarrow> map_of t k = Some W \<Longrightarrow> wk_role (f W) = wk_role W \<Longrightarrow> wk_lcn (f W) = wk_lcn W \<Longrightarrow>
     calls_ok (ght_modify t k f) ch"
  unfolding calls_ok_def by (simp add: map_of_ght_modify)

lemma calls_ok_remove: "calls_ok t ch \<Longrightarrow> calls_ok (ght_remove t k) ch"
  unfolding calls_ok_def by (simp add: map_of_ght_remove)

lemma calls_ok_insert: "calls_ok t ch \<Longrightarrow> wk_role W = READY \<Longrightarrow> calls_ok (ght_insert t k W) ch"
  unfolding calls_ok_def by (simp add: map_of_ght_insert)

text \<open>The search for a free channel number compares with an address, and so never moves on.\<close>

lemma lookup_pointer_dom: "lookup_pointer t addr \<noteq> None \<longleftrightarrow> addr \<in> unat ` dom (map_of t)"
proof -
  have "lookup_pointer t addr \<noteq> None \<longleftrightarrow> (\<exists>p \<in> set t. unat (fst p) = addr)"
    by (force simp: lookup_pointer_def find_None_iff simp del: not_None_eq)
  then show ?thesis by (auto simp: dom_map_of_conv_image_fst)
qed

text \<open>What the search computes: a fixed point of its loop cannot return when the address is a key.\<close>

lemma find_free_lcn_returns:
  "addr \<notin> unat ` dom (map_of t) \<Longrightarrow> channels_table_find_free_lcn addr t lcn = Some lcn"
  using lookup_pointer_dom [of t addr] by (subst channels_table_find_free_lcn.simps) simp

lemma find_free_lcn_diverges:
  assumes "addr \<in> unat ` dom (map_of t)"
  shows "channels_table_find_free_lcn addr t lcn = None"
proof -
  have l: "lookup_pointer t addr \<noteq> None" using assms lookup_pointer_dom by blast
  have "channels_table_find_free_lcn addr t lcn = Some r \<Longrightarrow> lookup_pointer t addr = None" for r
    by (erule channels_table_find_free_lcn.raw_induct [rotated]) (auto simp: Let_def split: if_splits)
  then show ?thesis using l by (cases "channels_table_find_free_lcn addr t lcn") auto
qed

section \<open>The abstract switchboard\<close>

text \<open>
  What the broker promises, without tables, addresses and clocks: who is registered under which
  name, with which directionality and role, and the names of the two ends of the call.
\<close>

record switchboard =
  sb_workers :: "wkey_t \<rightharpoonup> cstr \<times> iodir_t \<times> role_t"
  sb_call :: "(cstr \<times> cstr) option"
  sb_shutdown :: bool

definition worker_view :: "worker \<Rightarrow> cstr \<times> iodir_t \<times> role_t" where
  "worker_view W = (the (wk_address W), wk_iodir W, wk_role W)"

definition switchboard_of :: "broker \<Rightarrow> switchboard" where
  "switchboard_of b = \<lparr>sb_workers = (\<lambda>k. map_option worker_view (map_of (b_workers b) k)),
     sb_call = map_option (\<lambda>c. (the (ch_xname c), the (ch_yname c))) (map_of (b_channels b) LCN_MIN),
     sb_shutdown = b_shutdown b\<rparr>"

definition registered :: "switchboard \<Rightarrow> cstr \<Rightarrow> wkey_t \<Rightarrow> bool" where
  "registered s n q \<longleftrightarrow> (\<exists>io r. sb_workers s q = Some (n, io, r))"

definition switch_connect :: "wkey_t \<Rightarrow> joza_msg \<Rightarrow> switchboard \<Rightarrow> switchboard \<Rightarrow> bool" where
  "switch_connect k M s s' =
     (let n = the (m_calling_address M) in
      if card (dom (sb_workers s)) < WORKER_COUNT \<and> (\<nexists>q. registered s n q)
      then s' = s\<lparr>sb_workers := (sb_workers s)(k \<mapsto> (n, unat (m_directionality M), READY))\<rparr>
      else s' = s)"

text \<open>
  A call, as \<^verbatim>\<open>README.md\<close>, \<^verbatim>\<open>worker.h\<close> and \<^verbatim>\<open>iodir.h\<close> describe it: a worker that may place calls asks for a
  channel with another idle worker that takes calls.
\<close>

definition idle_callee :: "switchboard \<Rightarrow> wkey_t \<Rightarrow> cstr \<Rightarrow> wkey_t \<Rightarrow> iodir_t \<Rightarrow> bool" where
  "idle_callee s k n' q io' \<longleftrightarrow> q \<noteq> k \<and> sb_workers s q = Some (n', io', READY) \<and> iodir_incoming_calls_allowed io'"

definition connect_ends :: "wkey_t \<Rightarrow> cstr \<Rightarrow> iodir_t \<Rightarrow> wkey_t \<Rightarrow> cstr \<Rightarrow> iodir_t \<Rightarrow> switchboard \<Rightarrow> switchboard" where
  "connect_ends k n io q n' io' s =
     s\<lparr>sb_workers := (sb_workers s)(k \<mapsto> (n, io, X_CALLER), q \<mapsto> (n', io', Y_CALLEE)), sb_call := Some (n, n')\<rparr>"

definition switch_call :: "wkey_t \<Rightarrow> cstr \<Rightarrow> iodir_t \<Rightarrow> joza_msg \<Rightarrow> switchboard \<Rightarrow> switchboard \<Rightarrow> bool" where
  "switch_call k n io M s s' =
     (let n' = the (m_called_address M) in
      if iodir_outgoing_calls_allowed io \<and> (\<exists>q io'. idle_callee s k n' q io')
      then \<exists>q io'. idle_callee s k n' q io' \<and> s' = connect_ends k n io q n' io' s
      else s' = s)"

definition switch_step :: "wkey_t \<Rightarrow> joza_msg \<Rightarrow> switchboard \<Rightarrow> switchboard \<Rightarrow> bool" where
  "switch_step k M s s' =
     (case sb_workers s k of
        None \<Rightarrow> if m_id M = JOZA_MSG_CONNECT then switch_connect k M s s' else s' = s
      | Some (n, io, r) \<Rightarrow>
          if r \<noteq> READY then s' = s
          else if m_id M = JOZA_MSG_CALL_REQUEST \<and> \<not> sb_shutdown s then switch_call k n io M s s'
          else if m_id M = JOZA_MSG_DISCONNECT then s' = s\<lparr>sb_workers := (sb_workers s)(k := None)\<rparr>
          else s' = s)"

text \<open>What one message may do to the switchboard.\<close>

definition message_step :: "joza_msg \<Rightarrow> switchboard \<Rightarrow> switchboard \<Rightarrow> bool" where
  "message_step M s s' =
     (if valid_message M then \<exists>k. msg_addr2key (m_address M) = Inr k \<and> switch_step k M s s' else s' = s)"

text \<open>
  The messages on which the broker and its documentation part ways: a call request from a free
  worker that may place calls but not take them, or take but not place them; a call request that
  names a worker that takes calls and is in a call, is the caller itself, or is asked for while
  there is a call already; and a DISCONNECT in a call.
\<close>

definition disputed_request :: "wkey_t \<Rightarrow> iodir_t \<Rightarrow> joza_msg \<Rightarrow> switchboard \<Rightarrow> bool" where
  "disputed_request k io M s \<longleftrightarrow>
     iodir_incoming_calls_allowed io \<noteq> iodir_outgoing_calls_allowed io \<or>
     (\<exists>q io' r'. sb_workers s q = Some (the (m_called_address M), io', r') \<and> iodir_incoming_calls_allowed io' \<and>
        (r' \<noteq> READY \<or> q = k \<or> sb_call s \<noteq> None))"

definition disputed :: "joza_msg \<Rightarrow> switchboard \<Rightarrow> bool" where
  "disputed M s \<longleftrightarrow> (\<exists>k n io r. msg_addr2key (m_address M) = Inr k \<and> sb_workers s k = Some (n, io, r) \<and>
     (if r = READY then m_id M = JOZA_MSG_CALL_REQUEST \<and> disputed_request k io M s else m_id M = JOZA_MSG_DISCONNECT))"

text \<open>
  The same step with the conditions the code has in place of the documented ones: the caller needs
  the permission to take calls (\<^verbatim>\<open>worker.c:118\<close>), and the callee may be in a call.
\<close>

definition can_be_called :: "switchboard \<Rightarrow> cstr \<Rightarrow> wkey_t \<Rightarrow> bool" where
  "can_be_called s n q \<longleftrightarrow> (\<exists>io r. sb_workers s q = Some (n, io, r) \<and> iodir_incoming_calls_allowed io)"

definition coded_call :: "wkey_t \<Rightarrow> cstr \<Rightarrow> iodir_t \<Rightarrow> joza_msg \<Rightarrow> switchboard \<Rightarrow> switchboard \<Rightarrow> bool" where
  "coded_call k n io M s s' =
     (let n' = the (m_called_address M) in
      if iodir_incoming_calls_allowed io \<and> (\<exists>q. can_be_called s n' q)
      then \<exists>q io' r'. sb_workers s q = Some (n', io', r') \<and> iodir_incoming_calls_allowed io' \<and>
        s' = connect_ends k n io q n' io' s
      else s' = s)"

definition coded_step :: "wkey_t \<Rightarrow> joza_msg \<Rightarrow> switchboard \<Rightarrow> switchboard \<Rightarrow> bool" where
  "coded_step k M s s' =
     (case sb_workers s k of
        None \<Rightarrow> if m_id M = JOZA_MSG_CONNECT then switch_connect k M s s' else s' = s
      | Some (n, io, r) \<Rightarrow>
          if r \<noteq> READY then s' = s
          else if m_id M = JOZA_MSG_CALL_REQUEST \<and> \<not> sb_shutdown s then coded_call k n io M s s'
          else if m_id M = JOZA_MSG_DISCONNECT then s' = s\<lparr>sb_workers := (sb_workers s)(k := None)\<rparr>
          else s' = s)"

definition coded_message_step :: "joza_msg \<Rightarrow> switchboard \<Rightarrow> switchboard \<Rightarrow> bool" where
  "coded_message_step M s s' =
     (if valid_message M then \<exists>k. msg_addr2key (m_address M) = Inr k \<and> coded_step k M s s' else s' = s)"

text \<open>On undisputed messages the two agree.\<close>

lemma coded_call_undisputed:
  assumes "coded_call k n io M s s'" "\<not> disputed_request k io M s"
  shows "switch_call k n io M s s'"
proof -
  let ?n' = "the (m_called_address M)"
  have callee: "idle_callee s k ?n' q io'" if "sb_workers s q = Some (?n', io', r')" "iodir_incoming_calls_allowed io'" for q io' r'
    using assms(2) that by (auto simp: disputed_request_def idle_callee_def)
  have "iodir_outgoing_calls_allowed io = iodir_incoming_calls_allowed io" using assms(2) by (simp add: disputed_request_def)
  moreover have "(\<exists>q io'. idle_callee s k ?n' q io') \<longleftrightarrow> (\<exists>q. can_be_called s ?n' q)"
    using callee unfolding can_be_called_def by (meson idle_callee_def)
  ultimately show ?thesis
    using assms(1) unfolding coded_call_def switch_call_def Let_def by (metis callee)
qed

lemma coded_message_undisputed:
  assumes "coded_message_step M s s'" "\<not> disputed M s"
  shows "message_step M s s'"
proof (cases "valid_message M")
  case True
  then obtain k where k: "msg_addr2key (m_address M) = Inr k" "coded_step k M s s'"
    using assms(1) by (auto simp: coded_message_step_def)
  moreover have "switch_step k M s s'"
    using k assms(2) coded_call_undisputed [of k _ _ M s s']
    by (auto simp: coded_step_def switch_step_def disputed_def split: option.splits if_splits)
  ultimately show ?thesis using True by (auto simp: message_step_def)
qed (use assms(1) in \<open>simp add: coded_message_step_def message_step_def\<close>)

lemma switchboard_workers [simp]:
  "sb_workers (switchboard_of b) k = map_option worker_view (map_of (b_workers b) k)"
  by (simp add: switchboard_of_def)

lemma switchboard_shutdown [simp]: "sb_shutdown (switchboard_of b) = b_shutdown b"
  by (simp add: switchboard_of_def)

lemma switchboard_dom [simp]: "dom (sb_workers (switchboard_of b)) = dom (map_of (b_workers b))"
  by (auto simp: dom_def)

section \<open>Faults\<close>

text \<open>
  Faults of a message from a worker in a call: an identifier that the action tables do not cover,
  or a message that closes the channel, whose removal is undefined.
\<close>

definition call_fault :: "channel \<Rightarrow> joza_msg \<Rightarrow> bool \<Rightarrow> fault \<Rightarrow> bool" where
  "call_fault c M is_y f \<longleftrightarrow>
     (m_id M \<in> {JOZA_MSG_ENQ, JOZA_MSG_ACK} \<and> f = Assert_failed) \<or>
     (m_id M = JOZA_MSG_DIRECTORY \<and> is_y \<and> f = Aborted) \<or>
     (f = Undefined \<and> (\<exists>v c' v'. channel_dispatch c M is_y v = Inr ((state_ready, c'), v')))"

definition ready_fault :: "joza_msg \<Rightarrow> broker \<Rightarrow> fault \<Rightarrow> bool" where
  "ready_fault M b f \<longleftrightarrow> \<not> b_shutdown b \<and>
     ((m_id M = JOZA_MSG_DIRECTORY_REQUEST \<and> f = Undefined) \<or>
      (m_id M = JOZA_MSG_CALL_REQUEST \<and> f = Diverged \<and> b_addr b \<in> unat ` dom (map_of (b_channels b))))"

definition broker_fault :: "joza_msg \<Rightarrow> broker \<Rightarrow> fault \<Rightarrow> bool" where
  "broker_fault M b f \<longleftrightarrow>
     (\<exists>z. m_address M = Some z \<and> length z < 5 \<and> f = Undefined) \<or>
     (\<exists>k W. msg_addr2key (m_address M) = Inr k \<and> map_of (b_workers b) k = Some W \<and>
        (if wk_role W = READY then ready_fault M b f
         else \<exists>c. map_of (b_channels b) LCN_MIN = Some c \<and> call_fault c M (wk_role W = Y_CALLEE) f))"

section \<open>Messages from workers in a call\<close>

lemma dispatch_outcome:
  assumes "channel_ok c" "flow_ok c" "live_state (ch_state c)" "well_received r M" "valid_message M"
  shows "outcome (channel_dispatch c M is_y) w (call_fault c M is_y)
     (\<lambda>(s, c'). s = ch_state c' \<and> channel_ok c' \<and> flow_ok c' \<and> same_ends c c' \<and>
        (live_state (ch_state c') \<or> ch_state c' = state_ready))"
proof -
  have id: "m_id M \<le> 17" using assms(4) by (simp add: well_received_def)
  consider "16 \<le> m_id M" | "is_y" "m_id M = JOZA_MSG_DIRECTORY" | "m_id M < 16" "is_y \<Longrightarrow> m_id M < 15"
    by (force simp: msg_ids)
  then show ?thesis
  proof cases
    case 1
    then show ?thesis
      using id by (simp add: outcome_def channel_dispatch_enq call_fault_def msg_ids) arith
  next
    case 2
    then show ?thesis
      using channel_dispatch_directory [OF assms(3)] by (simp add: outcome_def call_fault_def)
  next
    case 3
    from channel_dispatch_ok [OF assms 3, where w = w] obtain c' w' where
      "channel_dispatch c M is_y w = Inr ((ch_state c', c'), w')" "ch_state c' \<in> successors (ch_state c)"
      "channel_ok c'" "flow_ok c'" "same_ends c c'" by blast
    then show ?thesis using successors_live by (auto simp: outcome_def)
  qed
qed

lemma channels_okD:
  "channels_ok t \<Longrightarrow> map_of t n = Some c \<Longrightarrow>
     n = LCN_MIN \<and> ch_lcn c = n \<and> channel_ok c \<and> flow_ok c \<and> live_state (ch_state c)"
  by (simp add: channels_ok_def)

lemma broker_ok_channel:
  assumes "broker_ok b" "map_of (b_channels b) LCN_MIN = Some c"
    and "channel_ok c'" "flow_ok c'" "same_ends c c'" "live_state (ch_state c')"
  shows "broker_ok (b\<lparr>b_channels := ght_modify (b_channels b) LCN_MIN (\<lambda>_. c')\<rparr>)"
    and "switchboard_of (b\<lparr>b_channels := ght_modify (b_channels b) LCN_MIN (\<lambda>_. c')\<rparr>) = switchboard_of b"
proof -
  show "broker_ok (b\<lparr>b_channels := ght_modify (b_channels b) LCN_MIN (\<lambda>_. c')\<rparr>)"
    using assms(1) channels_ok_modify [OF _ assms(2,3,4,6,5)] calls_ok_modify_channel
    by (simp add: broker_ok_def)
  show "switchboard_of (b\<lparr>b_channels := ght_modify (b_channels b) LCN_MIN (\<lambda>_. c')\<rparr>) = switchboard_of b"
    using assms(2,5) by (simp add: switchboard_of_def map_of_ght_modify same_ends_def)
qed

lemma in_call:
  assumes "broker_ok b" "map_of (b_workers b) p = Some W" "wk_role W \<noteq> READY"
  shows "wk_lcn W = LCN_MIN" "\<exists>c. map_of (b_channels b) LCN_MIN = Some c"
  using assms by (auto simp: broker_ok_def calls_ok_def)

lemma connected_outcome:
  assumes "broker_ok b" "map_of (b_workers b) p = Some W" "wk_role W \<noteq> READY"
    and "well_received r M" "valid_message M" "map_of (b_channels b) LCN_MIN = Some c"
  shows "outcome (s_process_msg_from_connected_worker p M b) w (call_fault c M (wk_role W = Y_CALLEE))
     (\<lambda>b'. broker_ok b' \<and> switchboard_of b' = switchboard_of b)"
proof -
  let ?y = "wk_role W = Y_CALLEE" and ?other = "workers_table_lookup_other (b_order b) (b_workers b) p W"
  have c: "channel_ok c" "flow_ok c" "live_state (ch_state c)"
    using assms(1,6) channels_okD by (auto simp: broker_ok_def)
  have x: "worker_is_x_caller W \<longleftrightarrow> \<not> ?y"
    using assms(3) by (cases "wk_role W") (simp_all add: worker_is_x_caller_def)
  have eq: "s_process_msg_from_connected_worker p M b =
     (if ?other = None then return_io b
      else bind_io (channel_dispatch c M ?y) (\<lambda>(_, c').
        let b' = b\<lparr>b_channels := ght_modify (b_channels b) LCN_MIN (\<lambda>_. c')\<rparr> in
        if channel_is_closed c' then lift_res (s_remove_channel (Channel_object LCN_MIN) ?other b')
        else return_io b'))"
    unfolding s_process_msg_from_connected_worker_def deref_worker_Some [OF assms(2)] bind_lift_res
      worker_get_lcn_def in_call(1) [OF assms(1,2,3)] channels_table_lookup_by_lcn_def x
    by (cases ?y) (simp_all add: assms(6) Let_def)
  show ?thesis
  proof (cases "?other = None")
    case True
    then show ?thesis using assms(1) by (simp add: eq outcome_return)
  next
    case False
    show ?thesis
      unfolding eq if_not_P [OF False]
    proof (rule outcome_bind [OF dispatch_outcome [OF c assms(4,5)]], clarify)
      fix s c' w'
      assume c': "channel_ok c'" "flow_ok c'" "same_ends c c'" "live_state (ch_state c') \<or> ch_state c' = state_ready"
        and d: "channel_dispatch c M ?y w = Inr ((ch_state c', c'), w')"
      show "outcome (let b' = b\<lparr>b_channels := ght_modify (b_channels b) LCN_MIN (\<lambda>_. c')\<rparr> in
          if channel_is_closed c' then lift_res (s_remove_channel (Channel_object LCN_MIN) ?other b')
          else return_io b') w' (call_fault c M ?y) (\<lambda>b'. broker_ok b' \<and> switchboard_of b' = switchboard_of b)"
      proof (cases "ch_state c' = state_ready")
        case True
        then have "call_fault c M ?y Undefined" using d unfolding call_fault_def by metis
        then show ?thesis
          using True by (simp add: channel_is_closed_def s_remove_channel_def outcome_def)
      next
        case False
        then have "live_state (ch_state c')" using c' by blast
        then show ?thesis
          using False broker_ok_channel [OF assms(1,6) c'(1,2,3)]
          by (simp add: channel_is_closed_def outcome_return)
      qed
    qed
  qed
qed

section \<open>Calls\<close>

lemma channels_ok_length: "channels_ok t \<Longrightarrow> length t \<le> 1"
proof -
  assume t: "channels_ok t"
  have "dom (map_of t) \<subseteq> {LCN_MIN}" using channels_ok_other [OF t] by fastforce
  moreover have "finite (dom (map_of t)) \<and> length t = card (dom (map_of t))"
    using t by (intro table_size) (simp add: channels_ok_def)
  ultimately show ?thesis using card_mono [of "{LCN_MIN}" "dom (map_of t)"] by simp
qed

lemma channels_never_full: "channels_ok t \<Longrightarrow> \<not> channels_table_is_full t"
  using channels_ok_length [of t] by (simp add: channels_table_is_full_def CHAN_COUNT_def)

lemma registered_iff:
  assumes "workers_ok (b_workers b)"
  shows "registered (switchboard_of b) n q \<longleftrightarrow> (\<exists>W. map_of (b_workers b) q = Some W \<and> wk_address W = Some n)"
  using workers_ok_worker [OF assms, of q] by (auto simp: registered_def worker_view_def worker_ok_def)

lemma can_be_called_iff:
  assumes "workers_ok (b_workers b)"
  shows "can_be_called (switchboard_of b) n q \<longleftrightarrow>
     (\<exists>W. map_of (b_workers b) q = Some W \<and> wk_address W = Some n \<and> worker_is_allowed_incoming_call W)"
  using workers_ok_worker [OF assms, of q]
  by (auto simp: can_be_called_def worker_view_def worker_ok_def worker_is_allowed_incoming_call_def)

lemma add_new_channel:
  assumes "packet_rngchk pkt = 0" "tput_rngchk tput = 0" "seq_rngchk window = 0"
    and "xz \<noteq> None" "yz \<noteq> None" "xn = Some x" "plain_string x" "yn = Some y" "plain_string y"
  shows "\<exists>c w'. channels_table_add_new_channel t lcn xz xn yz yn pkt window tput w = Inr (ght_insert t lcn c, w') \<and>
     fresh_channel c \<and> ch_lcn c = lcn \<and> ch_xname c = xn \<and> ch_yname c = yn \<and> ch_xzaddr c = xz \<and> ch_yzaddr c = yz \<and>
     ch_pkt c = pkt \<and> ch_window c = window \<and> ch_tput c = tput \<and> only_net (w\<lparr>gtick := gtick w + 2\<rparr>) w'"
proof -
  obtain n m where "packet_bytes pkt = Inr n" "tput_bps tput = Inr m"
    using assms(1,2) by (auto simp: packet_bytes_def tput_bps_def)
  then show ?thesis
    using assms
    by (auto simp: channels_table_add_new_channel_def channel_create_def g_get_monotonic_time_def bind_io_def
        fresh_channel_def channel_ok_def SEQ_MIN_def SEQ_MAX_def only_net_refl)
qed

lemma LCN_MIN_nonzero [simp]: "LCN_MIN \<noteq> 0"
  by (simp add: LCN_MIN_def)

text \<open>The state after a call was set up.\<close>

definition placed_call :: "wkey_t \<Rightarrow> wkey_t \<Rightarrow> channel \<Rightarrow> broker \<Rightarrow> broker" where
  "placed_call p q c b = b\<lparr>b_lcn := LCN_MIN,
     b_workers := ght_modify (ght_modify (b_workers b) p (\<lambda>W. worker_set_role_to_x_caller W LCN_MIN)) q
       (\<lambda>W. worker_set_role_to_y_callee W LCN_MIN),
     b_channels := ght_insert (b_channels b) LCN_MIN c\<rparr>"

lemma placed_call_ok:
  assumes "broker_ok b" "map_of (b_workers b) p = Some W" "map_of (b_workers b) q = Some V"
    and "fresh_channel c" "ch_lcn c = LCN_MIN"
  shows "broker_ok (placed_call p q c b)"
proof -
  let ?t = "ght_modify (b_workers b) p (\<lambda>W. worker_set_role_to_x_caller W LCN_MIN)"
  have b: "workers_ok (b_workers b)" "channels_ok (b_channels b)" using assms(1) by (simp_all add: broker_ok_def)
  have "workers_ok ?t"
    using workers_ok_worker [OF b(1) assms(2)]
    by (intro workers_ok_modify [OF b(1) assms(2)]) (simp_all add: worker_ok_def worker_set_role_to_x_caller_def)
  moreover have "\<exists>U. map_of ?t q = Some U"
    using assms(2,3) by (simp add: map_of_ght_modify)
  ultimately have "workers_ok (ght_modify ?t q (\<lambda>W. worker_set_role_to_y_callee W LCN_MIN))"
    using workers_ok_worker [of ?t q]
    by (auto intro!: workers_ok_modify simp: worker_ok_def worker_set_role_to_y_callee_def)
  moreover have "calls_ok (ght_modify ?t q (\<lambda>W. worker_set_role_to_y_callee W LCN_MIN)) (ght_insert (b_channels b) LCN_MIN c)"
    using assms(1) by (auto simp: broker_ok_def calls_ok_def map_of_ght_modify map_of_ght_insert
        worker_set_role_to_y_callee_def worker_set_role_to_x_caller_def split: if_splits)
  ultimately show ?thesis
    using assms(1) channels_ok_insert [OF b(2) assms(4,5)] by (simp add: broker_ok_def placed_call_def)
qed

lemma placed_call_view:
  assumes "map_of (b_workers b) p = Some W" "map_of (b_workers b) q = Some V"
    and "worker_view W = (n, io, r)" "worker_view V = (n', io', r')"
    and "ch_xname c = Some n" "ch_yname c = Some n'"
  shows "switchboard_of (placed_call p q c b) = (switchboard_of b)
     \<lparr>sb_workers := (sb_workers (switchboard_of b))(p \<mapsto> (n, io, X_CALLER), q \<mapsto> (n', io', Y_CALLEE)), sb_call := Some (n, n')\<rparr>"
  using assms
  by (auto simp: switchboard_of_def placed_call_def fun_eq_iff map_of_ght_modify map_of_ght_insert worker_view_def
      worker_set_role_to_y_callee_def worker_set_role_to_x_caller_def)

lemma valid_name_plain: "valid_name (Some s) \<Longrightarrow> 37 \<notin> set s \<Longrightarrow> plain_string s"
  by (simp add: valid_name_def plain_string_def NAME_LEN_def STRING_MAX_def)

lemma call_names:
  assumes "well_received r M" "valid_message M" "plain_names M" "m_id M = JOZA_MSG_CALL_REQUEST"
  shows "\<exists>x y. m_calling_address M = Some x \<and> plain_string x \<and> m_called_address M = Some y \<and> plain_string y"
proof -
  obtain x y where "m_calling_address M = Some x" "m_called_address M = Some y"
    using assms(1,4) by (auto simp: well_received_def)
  moreover have "valid_name (m_calling_address M)" "valid_name (m_called_address M)"
    using assms(2,4) by (auto simp: valid_message_def)
  ultimately show ?thesis using assms(3) valid_name_plain by (auto simp: plain_names_def)
qed

lemma outcome_refuse:
  "A \<noteq> None \<Longrightarrow> P b \<Longrightarrow> outcome (bind_io (diagnostic A N c d) (\<lambda>_. return_io b)) w F P"
  by (rule outcome_after [OF runs_diagnostic])

definition no_free_number :: "broker \<Rightarrow> fault \<Rightarrow> bool" where
  "no_free_number b f \<longleftrightarrow> f = Diverged \<and> b_addr b \<in> unat ` dom (map_of (b_channels b))"

text \<open>The last branch: the channel number, the roles, the channel, and the message to the callee.\<close>

lemma place_call_outcome:
  assumes "broker_ok b" "map_of (b_workers b) p = Some W" "map_of (b_workers b) q = Some V"
    and "well_received r M" "valid_message M" "plain_names M" "m_id M = JOZA_MSG_CALL_REQUEST"
    and "\<And>c. fresh_channel c \<Longrightarrow> ch_lcn c = LCN_MIN \<Longrightarrow> ch_xname c = wk_address W \<Longrightarrow> ch_yname c = wk_address V \<Longrightarrow>
      P (placed_call p q c b)"
  shows "outcome (place_call p W q V M b) w (no_free_number b) P"
proof (cases "b_addr b \<in> unat ` dom (map_of (b_channels b))")
  case True
  then show ?thesis by (simp add: place_call_def find_free_lcn_diverges outcome_def no_free_number_def)
next
  case False
  then have lcn: "channels_table_find_free_lcn (b_addr b) (b_channels b) (b_lcn b) = Some LCN_MIN"
    using assms(1) find_free_lcn_returns by (simp add: broker_ok_def)
  have ws: "workers_ok (b_workers b)" using assms(1) by (simp add: broker_ok_def)
  obtain a a' z z' where a: "wk_address W = Some a" "plain_string a" "wk_address V = Some a'" "plain_string a'"
      "wk_zaddr W = Some z" "wk_zaddr V = Some z'"
    using workers_ok_worker [OF ws assms(2)] workers_ok_worker [OF ws assms(3)] by (auto simp: worker_ok_def)
  obtain x y where xy: "m_calling_address M = Some x" "plain_string x" "m_called_address M = Some y" "plain_string y"
    using call_names [OF assms(4-7)] by blast
  have rng: "packet_rngchk (unat (m_packet M)) = 0" "seq_rngchk (m_window M) = 0" "tput_rngchk (unat (m_throughput M)) = 0"
    using assms(5,7) by (simp_all add: valid_message_def)
  obtain c w1 where c: "channels_table_add_new_channel (b_channels b) LCN_MIN (Some z) (Some a) (Some z') (Some a')
      (unat (m_packet M)) (m_window M) (unat (m_throughput M)) w = Inr (ght_insert (b_channels b) LCN_MIN c, w1)"
      "fresh_channel c" "ch_lcn c = LCN_MIN" "ch_xname c = Some a" "ch_yname c = Some a'"
    using add_new_channel [OF rng(1,3,2), of "Some z" "Some z'" "Some a" a "Some a'" a'] a by blast
  obtain v w2 where s: "joza_msg_send_addr_call_request (Some z') (Some x) (Some y) (m_packet M) (m_window M)
      (m_throughput M) (m_data M) w1 = Inr (v, w2)"
    using runs_call_request [OF xy(2,4), of "Some z'"] unfolding runs_def by blast
  have "P (placed_call p q c b)" using assms(8) c a by simp
  then show ?thesis
    using a xy c s
    by (simp add: place_call_def lcn outcome_def modify_worker_def worker_get_zaddr_def worker_get_address_def msg_getters
        placed_call_def Let_def)
qed

lemma call_outcome:
  assumes "broker_ok b" "map_of (b_workers b) p = Some W" "wk_role W = READY"
    and "well_received True M" "valid_message M" "plain_names M" "m_id M = JOZA_MSG_CALL_REQUEST"
  shows "outcome (s_process_call_request_from_unconnected_worker p M b) w (no_free_number b)
     (\<lambda>b'. broker_ok b' \<and> coded_call p (the (wk_address W)) (wk_iodir W) M (switchboard_of b) (switchboard_of b'))"
proof -
  have ws: "workers_ok (b_workers b)" "channels_ok (b_channels b)" "fair_order (b_order b)"
    using assms(1) by (simp_all add: broker_ok_def)
  have z: "m_address M \<noteq> None" using assms(4) by (simp add: well_received_def)
  obtain y where y: "m_called_address M = Some y" using call_names [OF assms(4-7)] by blast
  let ?s = "switchboard_of b" and ?io = "wk_iodir W"
  have stay: "coded_call p n ?io M ?s ?s" if "\<not> (iodir_incoming_calls_allowed ?io \<and> (\<exists>q. can_be_called ?s y q))" for n
    using that y unfolding coded_call_def Let_def by (simp only: option.sel if_False)
  obtain found where found: "workers_table_lookup_by_address (b_order b) (b_workers b) (Some y) = Inr found"
      "case found of None \<Rightarrow> \<forall>k W. map_of (b_workers b) k = Some W \<longrightarrow> wk_address W \<noteq> Some y
       | Some k \<Rightarrow> \<exists>W. map_of (b_workers b) k = Some W \<and> wk_address W = Some y"
    using lookup_by_address [OF ws(1,3), of y] by blast
  note def = s_process_call_request_from_unconnected_worker_def deref_worker_Some [OF assms(2)]
    channels_never_full [OF ws(2)] msg_getters y found(1)
  consider "\<not> worker_is_allowed_outgoing_call W" | "worker_is_allowed_outgoing_call W" "found = None"
    | q V where "worker_is_allowed_outgoing_call W" "found = Some q" "map_of (b_workers b) q = Some V" "wk_address V = Some y"
    using found(2) by (cases found) auto
  then show ?thesis
  proof cases
    case 1
    then show ?thesis
      using stay assms(1) z
      by (simp add: def outcome_refuse worker_is_allowed_outgoing_call_def)
  next
    case 2
    then have "\<not> (\<exists>q. can_be_called ?s y q)" using found(2) can_be_called_iff [OF ws(1)] by auto
    then show ?thesis using 2 stay assms(1) z by (simp add: def outcome_refuse)
  next
    case 3
    have uniq: "can_be_called ?s y q' \<longleftrightarrow> q' = q \<and> worker_is_allowed_incoming_call V" for q'
      using 3(3,4) can_be_called_iff [OF ws(1), of y q'] workers_ok_name [OF ws(1) 3(3), of q'] by auto
    show ?thesis
    proof (cases "worker_is_allowed_incoming_call V")
      case False
      then show ?thesis
        using 3 stay assms(1) z uniq by (simp add: def deref_worker_Some [OF 3(3)] outcome_refuse)
    next
      case True
      have av: "worker_is_available_for_call W"
        using 3(1) assms(3)
        by (simp add: worker_is_available_for_call_def worker_is_allowed_outgoing_call_def worker_is_allowed_incoming_call_def)
      obtain a where a: "wk_address W = Some a"
        using workers_ok_worker [OF ws(1) assms(2)] by (auto simp: worker_ok_def)
      have P: "broker_ok (placed_call p q c b) \<and>
          coded_call p (the (wk_address W)) ?io M ?s (switchboard_of (placed_call p q c b))"
        if c: "fresh_channel c" "ch_lcn c = LCN_MIN" "ch_xname c = wk_address W" "ch_yname c = wk_address V" for c
      proof -
        have "switchboard_of (placed_call p q c b) = ?s\<lparr>sb_workers := (sb_workers ?s)(p \<mapsto> (a, ?io, X_CALLER),
            q \<mapsto> (y, wk_iodir V, Y_CALLEE)), sb_call := Some (a, y)\<rparr>"
          using placed_call_view [OF assms(2) 3(3), of a ?io READY y "wk_iodir V" "wk_role V" c] a 3(4) c(3,4) assms(3)
          by (simp add: worker_view_def)
        moreover have "sb_workers ?s q = Some (y, wk_iodir V, wk_role V)" using 3(3,4) by (simp add: worker_view_def)
        ultimately show ?thesis
          using placed_call_ok [OF assms(1,2) 3(3) c(1,2)] 3(1) True uniq y a
          unfolding coded_call_def connect_ends_def Let_def worker_is_allowed_outgoing_call_def worker_is_allowed_incoming_call_def
          by auto
      qed
      have "s_process_call_request_from_unconnected_worker p M b = place_call p W q V M b"
        using 3 True av by (simp add: def deref_worker_Some [OF 3(3)])
      then show ?thesis
        by (simp only:) (rule place_call_outcome [OF assms(1,2) 3(3) assms(4-7)], rule P)
    qed
  qed
qed

section \<open>Messages from workers without a call\<close>

lemma add_directory_entries_dangling:
  assumes "\<forall>p \<in> set t. worker_ok (fst p) (snd p)" "\<forall>e \<in> set h. snd e = Dangling"
  shows "\<exists>h'. add_directory_entries t h = Inr h' \<and> (\<forall>e \<in> set h'. snd e = Dangling) \<and> (t \<noteq> [] \<or> h \<noteq> [] \<longrightarrow> h' \<noteq> [])"
  using assms
proof (induction t arbitrary: h)
  case Nil
  then show ?case by simp
next
  case (Cons p t)
  obtain a where a: "wk_address (snd p) = Some a" "iodir_validate (wk_iodir (snd p))"
    using Cons.prems(1) by (auto simp: worker_ok_def)
  let ?h = "zhash_insert h a Dangling"
  have "s_add_directory_entry_to_zhash (snd p) h = Inr ?h"
    using a by (simp add: s_add_directory_entry_to_zhash_def iodir_name_ok worker_get_address_def)
  moreover have "\<forall>e \<in> set ?h. snd e = Dangling" "?h \<noteq> []"
    using Cons.prems(2) by (auto simp: zhash_insert_def)
  ultimately show ?case using Cons.IH [of ?h] Cons.prems(1) by auto
qed

lemma directory_undefined:
  assumes "broker_ok b" "map_of (b_workers b) p = Some W" "A \<noteq> None"
  shows "s_process_directory_request_from_unconnected_worker A b w = Inl Undefined"
proof -
  have ws: "workers_ok (b_workers b)" "fair_order (b_order b)" "table_inv (b_workers b)"
    using assms(1) by (simp_all add: broker_ok_def workers_ok_def)
  have set: "set (b_order b (b_workers b)) = set (b_workers b)" using fair_order_set [OF ws(2)] .
  have "\<forall>p \<in> set (b_order b (b_workers b)). worker_ok (fst p) (snd p)"
    using workers_ok_worker [OF ws(1)] table_inv_map_of [OF ws(3)] unfolding set by force
  moreover have "b_order b (b_workers b) \<noteq> []" using assms(2) set by auto
  ultimately obtain h where h: "workers_table_create_directory_zhash (b_order b) (b_workers b) = Inr h"
      "\<forall>e \<in> set h. snd e = Dangling" "h \<noteq> []"
    using add_directory_entries_dangling [of "b_order b (b_workers b)" "[]"]
    by (auto simp: workers_table_create_directory_zhash_def)
  then have "Dangling \<in> snd ` set h" by (cases h) auto
  then show ?thesis
    by (simp add: s_process_directory_request_from_unconnected_worker_def h(1) directory_request_def
        joza_msg_send_addr_directory_def msg_setters zhash_dup_def Let_def bind_io_def)
qed

lemma broker_ok_remove:
  assumes "broker_ok b"
  shows "broker_ok (b\<lparr>b_workers := workers_table_remove_by_key (b_workers b) k\<rparr>)"
    and "switchboard_of (b\<lparr>b_workers := workers_table_remove_by_key (b_workers b) k\<rparr>) =
      (switchboard_of b)\<lparr>sb_workers := (sb_workers (switchboard_of b))(k := None)\<rparr>"
proof -
  show "broker_ok (b\<lparr>b_workers := workers_table_remove_by_key (b_workers b) k\<rparr>)"
    using assms workers_ok_remove calls_ok_remove by (simp add: broker_ok_def workers_table_remove_by_key_def)
  show "switchboard_of (b\<lparr>b_workers := workers_table_remove_by_key (b_workers b) k\<rparr>) =
      (switchboard_of b)\<lparr>sb_workers := (sb_workers (switchboard_of b))(k := None)\<rparr>"
    by (auto simp: switchboard_of_def workers_table_remove_by_key_def map_of_ght_remove fun_eq_iff)
qed

lemma ready_step:
  assumes "map_of (b_workers b) k = Some W" "wk_role W = READY"
  shows "coded_step k M (switchboard_of b) s' =
     (if m_id M = JOZA_MSG_CALL_REQUEST \<and> \<not> b_shutdown b
      then coded_call k (the (wk_address W)) (wk_iodir W) M (switchboard_of b) s'
      else if m_id M = JOZA_MSG_DISCONNECT
      then s' = (switchboard_of b)\<lparr>sb_workers := (sb_workers (switchboard_of b))(k := None)\<rparr>
      else s' = switchboard_of b)"
  using assms by (simp add: coded_step_def worker_view_def)

lemma unconnected_outcome:
  assumes "broker_ok b" "map_of (b_workers b) k = Some W" "wk_role W = READY"
    and "well_received True M" "valid_message M" "plain_names M"
  shows "outcome (s_process_msg_from_unconnected_worker k M k b) w (ready_fault M b)
     (\<lambda>b'. broker_ok b' \<and> coded_step k M (switchboard_of b) (switchboard_of b'))"
proof -
  have z: "m_address M \<noteq> None" using assms(4) by (simp add: well_received_def)
  note def = s_process_msg_from_unconnected_worker_def msg_getters ready_step [OF assms(2,3)] ready_fault_def
  consider "m_id M = JOZA_MSG_CALL_REQUEST" "\<not> b_shutdown b"
    | "m_id M = JOZA_MSG_DIRECTORY_REQUEST" "\<not> b_shutdown b"
    | "m_id M = JOZA_MSG_DISCONNECT"
    | "m_id M \<noteq> JOZA_MSG_DISCONNECT" "m_id M \<in> {JOZA_MSG_CALL_REQUEST, JOZA_MSG_DIRECTORY_REQUEST} \<Longrightarrow> b_shutdown b"
    by auto
  then show ?thesis
  proof cases
    case 1
    then have eq: "s_process_msg_from_unconnected_worker k M k b = s_process_call_request_from_unconnected_worker k M b"
      by (simp add: def)
    show ?thesis
      unfolding eq
      by (rule outcome_mono [OF call_outcome [OF assms 1(1)]]) (use 1 in \<open>simp_all add: def no_free_number_def\<close>)
  next
    case 2
    then show ?thesis
      using directory_undefined [OF assms(1,2) z] by (simp add: def outcome_def msg_ids)
  next
    case 3
    then show ?thesis
      using broker_ok_remove [OF assms(1), of k] by (simp add: def outcome_return msg_ids)
  next
    case 4
    then show ?thesis using assms(1) by (auto simp: def intro: outcome_return)
  qed
qed

section \<open>Every message\<close>

text \<open>An access changes the time stamp and nothing the switchboard shows.\<close>

lemma broker_ok_access:
  assumes "broker_ok b" "map_of (b_workers b) k = Some W"
  shows "broker_ok (modify_worker k (\<lambda>_. W\<lparr>wk_atime := t\<rparr>) b)"
    and "switchboard_of (modify_worker k (\<lambda>_. W\<lparr>wk_atime := t\<rparr>) b) = switchboard_of b"
    and "map_of (b_workers (modify_worker k (\<lambda>_. W\<lparr>wk_atime := t\<rparr>) b)) k = Some (W\<lparr>wk_atime := t\<rparr>)"
proof -
  have ws: "workers_ok (b_workers b)" using assms(1) by (simp add: broker_ok_def)
  have "workers_ok (ght_modify (b_workers b) k (\<lambda>_. W\<lparr>wk_atime := t\<rparr>))"
    using workers_ok_worker [OF ws assms(2)]
    by (intro workers_ok_modify [OF ws assms(2)]) (simp_all add: worker_ok_def)
  then show "broker_ok (modify_worker k (\<lambda>_. W\<lparr>wk_atime := t\<rparr>) b)"
    using assms calls_ok_modify_worker by (simp add: broker_ok_def modify_worker_def)
  show "switchboard_of (modify_worker k (\<lambda>_. W\<lparr>wk_atime := t\<rparr>) b) = switchboard_of b"
    using assms(2) by (auto simp: switchboard_of_def modify_worker_def map_of_ght_modify worker_view_def)
  show "map_of (b_workers (modify_worker k (\<lambda>_. W\<lparr>wk_atime := t\<rparr>) b)) k = Some (W\<lparr>wk_atime := t\<rparr>)"
    using assms(2) by (simp add: modify_worker_def map_of_ght_modify)
qed

lemma modify_worker_fields [simp]:
  "b_channels (modify_worker k f b) = b_channels b" "b_shutdown (modify_worker k f b) = b_shutdown b"
  "b_addr (modify_worker k f b) = b_addr b" "b_order (modify_worker k f b) = b_order b" "b_lcn (modify_worker k f b) = b_lcn b"
  by (simp_all add: modify_worker_def)

definition known_fault :: "worker \<Rightarrow> joza_msg \<Rightarrow> broker \<Rightarrow> fault \<Rightarrow> bool" where
  "known_fault W M b f =
     (if wk_role W = READY then ready_fault M b f
      else \<exists>c. map_of (b_channels b) LCN_MIN = Some c \<and> call_fault c M (wk_role W = Y_CALLEE) f)"

lemma known_outcome:
  assumes "broker_ok b" "map_of (b_workers b) k = Some W"
    and "well_received True M" "valid_message M" "plain_names M"
  shows "outcome (s_process_msg_from_known_worker k M k b) w (known_fault W M b)
     (\<lambda>b'. broker_ok b' \<and> coded_step k M (switchboard_of b) (switchboard_of b'))"
proof -
  let ?t = "gclock w (gtick w)" and ?w = "w\<lparr>gtick := Suc (gtick w)\<rparr>"
  let ?b = "modify_worker k (\<lambda>_. W\<lparr>wk_atime := ?t\<rparr>) b"
  have step: "outcome (s_process_msg_from_known_worker k M k b) w F P \<longleftrightarrow>
     outcome (if wk_role W = READY then s_process_msg_from_unconnected_worker k M k ?b
              else s_process_msg_from_connected_worker k M ?b) ?w F P" for F P
    by (cases "wk_role W")
      (simp_all add: outcome_def s_process_msg_from_known_worker_def deref_worker_Some [OF assms(2)] bind_io_def
        worker_update_atime_def g_get_monotonic_time_def worker_get_role_def Let_def)
  note ok = broker_ok_access [OF assms(1,2), of ?t]
  show ?thesis
  proof (cases "wk_role W = READY")
    case True
    have "ready_fault M ?b = ready_fault M b" by (simp add: fun_eq_iff ready_fault_def)
    then show ?thesis
      using True unconnected_outcome [OF ok(1,3) _ assms(3,4,5), of ?w] ok(2)
      by (simp add: step known_fault_def [abs_def])
  next
    case False
    then obtain c where c: "map_of (b_channels b) LCN_MIN = Some c" using in_call(2) [OF assms(1,2)] by blast
    have s: "coded_step k M (switchboard_of b) s' \<longleftrightarrow> s' = switchboard_of b" for s'
      using False assms(2) by (simp add: coded_step_def worker_view_def)
    have "outcome (s_process_msg_from_connected_worker k M ?b) ?w (call_fault c M (wk_role W = Y_CALLEE))
        (\<lambda>b'. broker_ok b' \<and> switchboard_of b' = switchboard_of b)"
      using connected_outcome [OF ok(1,3) _ assms(3,4), of c ?w] c ok(2) False by simp
    then show ?thesis unfolding step s using False c by (simp add: known_fault_def [abs_def])
  qed
qed

lemma connect_outcome:
  assumes "broker_ok b" "map_of (b_workers b) k = None" "m_id M = JOZA_MSG_CONNECT"
    and "well_received True M" "valid_message M" "plain_names M" "msg_addr2key (m_address M) = Inr k"
  shows "outcome (s_process_msg_from_unknown_worker M k b) w F
     (\<lambda>b'. broker_ok b' \<and> switch_connect k M (switchboard_of b) (switchboard_of b'))"
proof -
  have ws: "workers_ok (b_workers b)" "fair_order (b_order b)" "table_inv (b_workers b)"
    using assms(1) by (simp_all add: broker_ok_def workers_ok_def)
  obtain z n h where z: "m_address M = Some z" "m_calling_address M = Some n" "m_host_name M = Some h"
    using assms(3,4) by (auto simp: well_received_def)
  have n: "plain_string n" "iodir_validate (unat (m_directionality M))"
    using assms(3,5,6) z valid_name_plain by (auto simp: valid_message_def plain_names_def)
  have size: "card (dom (map_of (b_workers b))) = length (b_workers b)"
    using table_size [OF ws(3)] by simp
  obtain found where found: "workers_table_lookup_by_address (b_order b) (b_workers b) (Some n) = Inr found"
      "case found of None \<Rightarrow> \<forall>k W. map_of (b_workers b) k = Some W \<longrightarrow> wk_address W \<noteq> Some n
       | Some k \<Rightarrow> \<exists>W. map_of (b_workers b) k = Some W \<and> wk_address W = Some n"
    using lookup_by_address [OF ws(1,2), of n] by blast
  have used: "(\<exists>q. registered (switchboard_of b) n q) \<longleftrightarrow> found \<noteq> None"
    using found(2) registered_iff [OF ws(1), of n] by (cases found) auto
  note def = s_process_msg_from_unknown_worker_def msg_getters assms(3) z workers_table_is_full_def found(1)
  show ?thesis
  proof (cases "length (b_workers b) < WORKER_COUNT \<and> found = None")
    case False
    then have "switch_connect k M (switchboard_of b) (switchboard_of b)"
      using z used size by (auto simp: switch_connect_def)
    then show ?thesis using False assms(1) by (auto simp: def outcome_refuse)
  next
    case True
    let ?W = "\<lambda>t u. \<lparr>wk_wkey = k, wk_address = Some n, wk_hostname = Some h, wk_zaddr = Some z,
      wk_iodir = unat (m_directionality M), wk_lcn = 0, wk_role = READY, wk_ctime = t, wk_mtime = t, wk_atime = u\<rparr>"
    obtain t u w1 where a: "workers_table_add_new_worker (b_workers b) k (Some z) (Some n) (Some h)
        (unat (m_directionality M)) w = Inr (ght_insert (b_workers b) k (?W t u), w1)"
      using assms(7) z n(2)
      by (auto simp: workers_table_add_new_worker_def worker_create_def worker_update_atime_def
          g_get_monotonic_time_def iodir_name_ok bind_io_def)
    obtain v w2 where s: "joza_msg_send_addr_connect_indication (Some z) w1 = Inr (v, w2)"
      using connect_indication_sender.total [of "Some z" w1] by auto
    let ?b = "b\<lparr>b_workers := ght_insert (b_workers b) k (?W t u)\<rparr>"
    have "workers_ok (ght_insert (b_workers b) k (?W t u))"
      using True found(2) n z assms(7)
      by (intro workers_ok_insert [OF ws(1) assms(2)]) (auto simp: worker_ok_def)
    then have "broker_ok ?b" using assms(1) calls_ok_insert by (simp add: broker_ok_def)
    moreover have "switchboard_of ?b = (switchboard_of b)\<lparr>sb_workers :=
        (sb_workers (switchboard_of b))(k \<mapsto> (n, unat (m_directionality M), READY))\<rparr>"
      by (auto simp: switchboard_of_def map_of_ght_insert worker_view_def fun_eq_iff)
    ultimately show ?thesis
      using True a s z used size by (simp add: def outcome_def bind_io_def switch_connect_def)
  qed
qed

lemma unknown_outcome:
  assumes "broker_ok b" "map_of (b_workers b) k = None"
    and "well_received True M" "valid_message M" "plain_names M" "msg_addr2key (m_address M) = Inr k"
  shows "outcome (s_process_msg_from_unknown_worker M k b) w F
     (\<lambda>b'. broker_ok b' \<and> coded_step k M (switchboard_of b) (switchboard_of b'))"
proof (cases "m_id M = JOZA_MSG_CONNECT")
  case True
  then show ?thesis using connect_outcome [OF assms(1,2) True assms(3-6)] assms(2) by (simp add: coded_step_def)
next
  case False
  then show ?thesis
    using assms(1,2) by (simp add: s_process_msg_from_unknown_worker_def msg_getters coded_step_def outcome_return)
qed

lemma well_received_address: "well_received True M \<Longrightarrow> \<exists>z. m_address M = Some z"
  by (simp add: well_received_def)

lemma s_process_outcome:
  assumes "broker_ok b" "well_received True M" "plain_names M"
  shows "outcome (s_process M b) w (broker_fault M b)
     (\<lambda>(r, b'). r = 0 \<and> broker_ok b' \<and> coded_message_step M (switchboard_of b) (switchboard_of b'))"
proof -
  obtain z where z: "m_address M = Some z" using well_received_address [OF assms(2)] by blast
  obtain d where d: "prevalidate_message M = Inr d" "d = d_unspecified \<longleftrightarrow> valid_message M"
    using prevalidate_iff [OF assms(2)] by blast
  let ?P = "\<lambda>b'. broker_ok b' \<and> coded_message_step M (switchboard_of b) (switchboard_of b')"
  let ?body = "if d \<noteq> d_unspecified then
        bind_io (diagnostic (m_address M) None c_malformed_message d) (\<lambda>_. return_io b)
      else
        bind_io (lift_res (msg_addr2key (m_address M))) (\<lambda>key.
        case workers_table_lookup_by_key (b_workers b) key of
          Some _ \<Rightarrow> s_process_msg_from_known_worker key M key b
        | None \<Rightarrow> s_process_msg_from_unknown_worker M key b)"
  have "outcome ?body w (broker_fault M b) ?P"
  proof (cases "valid_message M")
    case False
    then have "?P b" using assms(1) by (simp add: coded_message_step_def)
    then show ?thesis using False d(2) z by (simp add: outcome_refuse)
  next
    case True
    show ?thesis
    proof (cases "length z < 5")
      case short: True
      then have "broker_fault M b Undefined" using z by (auto simp: broker_fault_def)
      then show ?thesis
        using True d(2) z msg_addr2key_short [OF short] by (simp add: outcome_def)
    next
      case False
      then obtain k where k: "msg_addr2key (m_address M) = Inr k" using msg_addr2key_ok [of z] z by auto
      have step: "coded_message_step M s s' \<longleftrightarrow> coded_step k M s s'" for s s'
        using True k by (simp add: coded_message_step_def)
      show ?thesis
      proof (cases "map_of (b_workers b) k")
        case None
        then show ?thesis
          using True d(2) k step unknown_outcome [OF assms(1) None assms(2) True assms(3) k]
          by (simp add: workers_table_lookup_by_key_def)
      next
        case (Some W)
        have "broker_fault M b f" if "known_fault W M b f" for f
          using that k Some by (auto simp: broker_fault_def known_fault_def)
        then have "outcome (s_process_msg_from_known_worker k M k b) w (broker_fault M b) ?P"
          using outcome_mono [OF known_outcome [OF assms(1) Some assms(2) True assms(3)]] step by simp
        then show ?thesis using True d(2) k Some by (simp add: workers_table_lookup_by_key_def)
      qed
    qed
  qed
  then have "outcome (bind_io ?body (\<lambda>b. return_io (0, b))) w (broker_fault M b) (\<lambda>(r, b'). r = 0 \<and> ?P b')"
    by (rule outcome_bind) (simp add: outcome_return)
  then show ?thesis unfolding s_process_def d(1) msg_getters bind_lift_res .
qed

section \<open>Hanging up and the timer\<close>

lemma disconnect_column:
  "list_all (\<lambda>s. x_action_table ! state_code s ! 11 = a_x_disconnect \<and>
     y_action_table ! state_code s ! 11 = a_y_disconnect) live_states"
  by code_simp

lemma disconnect_dispatch:
  assumes "channel_ok c" "live_state (ch_state c)" "m_id M = JOZA_MSG_DISCONNECT"
  shows "\<exists>c' w'. channel_dispatch c M is_y w = Inr ((state_ready, c'), w') \<and> ch_state c' = state_ready"
proof -
  let ?a = "if is_y then a_y_disconnect else a_x_disconnect" and ?w = "w\<lparr>gtick := Suc (gtick w)\<rparr>"
  let ?za = "if is_y then ch_yzaddr c else ch_xzaddr c" and ?zb = "if is_y then ch_xzaddr c else ch_yzaddr c"
  have a: "action_get (ch_state c) (m_id M) is_y = Inr ?a"
    using disconnect_column assms(2,3)
    by (simp add: live_state_iff list_all_iff action_get_def msg_ids ACTION_MESSAGE_COUNT_def ACTION_STATE_COUNT_def)
  have "?za \<noteq> None" "?zb \<noteq> None" using assms(1) by (auto simp: channel_ok_def)
  then obtain w' where "do_i_disconnect ?za ?zb ?w = Inr (state_ready, w')"
    using do_i_disconnect_runs [of ?za ?zb ?w] by (auto simp: runs_def)
  then have "dispatch_action (c\<lparr>ch_mtime := gclock w (gtick w)\<rparr>) M ?a ?za ?zb ?w =
      Inr (c\<lparr>ch_mtime := gclock w (gtick w), ch_state := state_ready\<rparr>, w')"
    by (cases is_y) (simp_all add: dispatch_action_def bind_io_def)
  then show ?thesis unfolding channel_dispatch_unfold [OF a] by (simp add: bind_io_def)
qed

text \<open>Closing a channel is undefined, whichever of the two calls of \<^verbatim>\<open>s_remove_channel\<close> does it.\<close>

lemma hang_up:
  assumes "broker_ok b" "map_of (b_workers b) p = Some W" "wk_role W \<noteq> READY" "m_id M = JOZA_MSG_DISCONNECT"
    and "workers_table_lookup_other (b_order b) (b_workers b) p W \<noteq> None"
  shows "s_process_msg_from_connected_worker p M b w = Inl Undefined"
proof -
  obtain c where c: "map_of (b_channels b) LCN_MIN = Some c" using in_call(2) [OF assms(1-3)] by blast
  then have "channel_ok c" "live_state (ch_state c)" using assms(1) channels_okD by (auto simp: broker_ok_def)
  then obtain c' w' where "channel_dispatch c M (\<not> worker_is_x_caller W) w = Inr ((state_ready, c'), w')"
      "ch_state c' = state_ready"
    using disconnect_dispatch [OF _ _ assms(4)] by blast
  then show ?thesis
    using c assms(5)
    unfolding s_process_msg_from_connected_worker_def deref_worker_Some [OF assms(2)] bind_lift_res
      worker_get_lcn_def in_call(1) [OF assms(1-3)] channels_table_lookup_by_lcn_def
    by (cases "worker_is_x_caller W")
      (simp_all add: Let_def bind_io_def channel_is_closed_def s_remove_channel_def)
qed

lemma disconnect_idle_undefined:
  assumes "broker_ok b" "map_of (b_workers b) p = Some W" "wk_role W \<noteq> READY"
  shows "s_disconnect_idle_channel p b w = Inl Undefined"
proof -
  let ?M = "joza_msg_new JOZA_MSG_DISCONNECT"
  obtain c where c: "map_of (b_channels b) LCN_MIN = Some c" using in_call(2) [OF assms] by blast
  then have "channel_ok c" "live_state (ch_state c)" using assms(1) channels_okD by (auto simp: broker_ok_def)
  moreover have "m_id ?M = JOZA_MSG_DISCONNECT" by simp
  ultimately obtain c' w' where "channel_dispatch c ?M (\<not> worker_is_x_caller W) w = Inr ((state_ready, c'), w')"
      "ch_state c' = state_ready"
    using disconnect_dispatch by blast
  then show ?thesis
    using c
    unfolding s_disconnect_idle_channel_def deref_worker_Some [OF assms(2)] bind_lift_res
      worker_get_lcn_def in_call(1) [OF assms] channels_table_lookup_by_lcn_def
    by (cases "worker_is_x_caller W")
      (simp_all add: Let_def bind_io_def channel_is_closed_def s_remove_channel_def)
qed

text \<open>Whether a worker is to go at time \<open>t\<close>.\<close>

definition expired :: "broker \<Rightarrow> int \<Rightarrow> worker \<Rightarrow> bool" where
  "expired b t W \<longleftrightarrow> (t - wk_atime W) sdiv 1000 > POLL_WORKER_REMOVAL_TIMEOUT \<or> b_shutdown b"

lemma ping_worker_ready:
  assumes "broker_ok b" "map_of (b_workers b) p = Some W" "wk_role W = READY \<or> \<not> expired b (gclock w (gtick w)) W"
  shows "\<exists>w'. s_ping_worker p b w = Inr ((expired b (gclock w (gtick w)) W, b), w') \<and> only_net (w\<lparr>gtick := Suc (gtick w)\<rparr>) w'"
proof -
  let ?w = "w\<lparr>gtick := Suc (gtick w)\<rparr>"
  have "wk_zaddr W \<noteq> None"
    using assms(1,2) workers_ok_worker [of "b_workers b" p W] by (auto simp: broker_ok_def worker_ok_def)
  then obtain v w' where "joza_msg_send_addr_enq (wk_zaddr W) ?w = Inr (v, w')" "only_net ?w w'"
    using enq_sender.total [of "wk_zaddr W" ?w] by auto
  then show ?thesis
    using assms(3) only_net_refl
    by (auto simp: s_ping_worker_def deref_worker_Some [OF assms(2)] g_get_monotonic_time_def worker_get_atime_def
        worker_get_role_def worker_get_zaddr_def expired_def bind_io_def Let_def)
qed

lemma ping_worker_busy:
  assumes "broker_ok b" "map_of (b_workers b) p = Some W" "wk_role W \<noteq> READY" "expired b (gclock w (gtick w)) W"
  shows "s_ping_worker p b w = Inl Undefined"
  using assms(3,4) disconnect_idle_undefined [OF assms(1-3)]
  by (auto simp: s_ping_worker_def deref_worker_Some [OF assms(2)] g_get_monotonic_time_def worker_get_atime_def
      worker_get_role_def expired_def bind_io_def Let_def)

text \<open>
  A visit is the number of the clock reading and the key of the worker. Each worker visited costs
  one reading.
\<close>

definition due :: "broker \<Rightarrow> world \<Rightarrow> nat \<times> wkey_t \<Rightarrow> bool" where
  "due b w v \<longleftrightarrow> (\<exists>W. map_of (b_workers b) (snd v) = Some W \<and> expired b (gclock w (fst v)) W)"

definition busy_due :: "broker \<Rightarrow> world \<Rightarrow> nat \<times> wkey_t \<Rightarrow> bool" where
  "busy_due b w v \<longleftrightarrow> (\<exists>W. map_of (b_workers b) (snd v) = Some W \<and> wk_role W \<noteq> READY \<and> expired b (gclock w (fst v)) W)"

definition drop_worker :: "wkey_t \<Rightarrow> broker \<Rightarrow> broker" where
  "drop_worker p b = b\<lparr>b_workers := workers_table_remove_by_key (b_workers b) p\<rparr>"

lemma map_of_drop_worker [simp]:
  "map_of (b_workers (drop_worker p b)) k = (if k = p then None else map_of (b_workers b) k)"
  by (simp add: drop_worker_def workers_table_remove_by_key_def map_of_ght_remove)

lemma drop_worker_fields [simp]:
  "b_shutdown (drop_worker p b) = b_shutdown b" "b_channels (drop_worker p b) = b_channels b"
  "b_order (drop_worker p b) = b_order b" "b_lcn (drop_worker p b) = b_lcn b" "b_addr (drop_worker p b) = b_addr b"
  by (simp_all add: drop_worker_def)

lemma expired_drop [simp]: "expired (drop_worker p b) = expired b"
  by (simp add: fun_eq_iff expired_def)

lemma drop_worker_ok: "broker_ok b \<Longrightarrow> broker_ok (drop_worker p b)"
  unfolding drop_worker_def by (rule broker_ok_remove)

lemma visit_key: "v \<in> set (enumerate n ps) \<Longrightarrow> snd v \<in> set ps"
  by (metis image_eqI list.set_map map_snd_enumerate)

text \<open>The rest of the visit does not notice that \<open>p\<close> is gone.\<close>

lemma due_drop:
  assumes "gclock w' = gclock w" "p \<notin> set ps"
  shows "filter (due (if e then drop_worker p b else b) w') (enumerate n ps) = filter (due b w) (enumerate n ps)"
    and "filter (busy_due (if e then drop_worker p b else b) w') (enumerate n ps) = filter (busy_due b w) (enumerate n ps)"
proof -
  have "snd v \<noteq> p" if "v \<in> set (enumerate n ps)" for v using visit_key [OF that] assms(2) by blast
  then show "filter (due (if e then drop_worker p b else b) w') (enumerate n ps) = filter (due b w) (enumerate n ps)"
    and "filter (busy_due (if e then drop_worker p b else b) w') (enumerate n ps) = filter (busy_due b w) (enumerate n ps)"
    using assms(1) by (auto intro!: filter_cong simp: due_def busy_due_def)
qed

lemma ping_workers_Cons:
  "s_ping_worker p b w = Inr ((e, b), w1) \<Longrightarrow>
     ping_workers (p # ps) b w = ping_workers ps (if e then drop_worker p b else b) w1"
  by (simp add: bind_io_def drop_worker_def)

lemma ping_workers_run:
  assumes "broker_ok b" "distinct ps" "\<forall>p \<in> set ps. map_of (b_workers b) p \<noteq> None"
    and "filter (busy_due b w) (enumerate (gtick w) ps) = []"
  shows "\<exists>b' w'. ping_workers ps b w = Inr (b', w') \<and> broker_ok b' \<and> b_shutdown b' = b_shutdown b \<and>
     b_channels b' = b_channels b \<and> gtick w' = gtick w + length ps \<and>
     (\<forall>k. map_of (b_workers b') k =
        (if k \<in> snd ` set (filter (due b w) (enumerate (gtick w) ps)) then None else map_of (b_workers b) k))"
  using assms
proof (induction ps arbitrary: b w)
  case Nil
  then show ?case by simp
next
  case (Cons p ps)
  obtain W where W: "map_of (b_workers b) p = Some W" using Cons.prems(3) by auto
  let ?e = "expired b (gclock w (gtick w)) W"
  have ready: "wk_role W = READY \<or> \<not> ?e"
    using Cons.prems(4) W by (auto simp: busy_due_def split: if_splits)
  obtain w1 where w1: "s_ping_worker p b w = Inr ((?e, b), w1)" "gclock w1 = gclock w" "gtick w1 = Suc (gtick w)"
    using ping_worker_ready [OF Cons.prems(1) W ready] only_netD by fastforce
  let ?b = "if ?e then drop_worker p b else b"
  have p: "p \<notin> set ps" "distinct ps" using Cons.prems(2) by auto
  have fields: "b_shutdown ?b = b_shutdown b" "b_channels ?b = b_channels b" by simp_all
  have "\<exists>b' w'. ping_workers ps ?b w1 = Inr (b', w') \<and> broker_ok b' \<and> b_shutdown b' = b_shutdown ?b \<and>
     b_channels b' = b_channels ?b \<and> gtick w' = gtick w1 + length ps \<and>
     (\<forall>k. map_of (b_workers b') k =
        (if k \<in> snd ` set (filter (due ?b w1) (enumerate (gtick w1) ps)) then None else map_of (b_workers ?b) k))"
  proof (rule Cons.IH)
    show "broker_ok ?b" using Cons.prems(1) drop_worker_ok by simp
    show "\<forall>q \<in> set ps. map_of (b_workers ?b) q \<noteq> None" using Cons.prems(3) p by auto
    show "filter (busy_due ?b w1) (enumerate (gtick w1) ps) = []"
      unfolding due_drop(2) [OF w1(2) p(1)] using Cons.prems(4) w1(3) by (simp split: if_splits)
  qed (rule p)
  then obtain b' w' where r: "ping_workers ps ?b w1 = Inr (b', w')" "broker_ok b'" "b_shutdown b' = b_shutdown b"
      "b_channels b' = b_channels b" "gtick w' = Suc (gtick w) + length ps"
      "\<forall>k. map_of (b_workers b') k =
        (if k \<in> snd ` set (filter (due b w) (enumerate (Suc (gtick w)) ps)) then None else map_of (b_workers ?b) k)"
    unfolding due_drop(1) [OF w1(2) p(1)] w1(3) fields by blast
  have "ping_workers (p # ps) b w = Inr (b', w')"
    unfolding ping_workers_Cons [OF w1(1)] by (rule r(1))
  moreover have "due b w (gtick w, p) \<longleftrightarrow> ?e" using W by (simp add: due_def)
  ultimately show ?case using r by (intro exI [of _ b'] exI [of _ w']) auto
qed

lemma ping_workers_busy:
  assumes "broker_ok b" "distinct ps" "\<forall>p \<in> set ps. map_of (b_workers b) p \<noteq> None"
    and "filter (busy_due b w) (enumerate (gtick w) ps) \<noteq> []"
  shows "ping_workers ps b w = Inl Undefined"
  using assms
proof (induction ps arbitrary: b w)
  case Nil
  then show ?case by simp
next
  case (Cons p ps)
  obtain W where W: "map_of (b_workers b) p = Some W" using Cons.prems(3) by auto
  let ?e = "expired b (gclock w (gtick w)) W"
  show ?case
  proof (cases "wk_role W = READY \<or> \<not> ?e")
    case False
    then show ?thesis using ping_worker_busy [OF Cons.prems(1) W] by (simp add: bind_io_def)
  next
    case True
    obtain w1 where w1: "s_ping_worker p b w = Inr ((?e, b), w1)" "gclock w1 = gclock w" "gtick w1 = Suc (gtick w)"
      using ping_worker_ready [OF Cons.prems(1) W True] only_netD by fastforce
    let ?b = "if ?e then drop_worker p b else b"
    have p: "p \<notin> set ps" "distinct ps" using Cons.prems(2) by auto
    have "\<not> busy_due b w (gtick w, p)" using True W by (auto simp: busy_due_def)
    then have "filter (busy_due ?b w1) (enumerate (gtick w1) ps) \<noteq> []"
      unfolding due_drop(2) [OF w1(2) p(1)] using Cons.prems(4) w1(3) by simp
    moreover have "broker_ok ?b" "\<forall>q \<in> set ps. map_of (b_workers ?b) q \<noteq> None"
      using Cons.prems(1,3) drop_worker_ok p by auto
    ultimately have "ping_workers ps ?b w1 = Inl Undefined" using Cons.IH p(2) by blast
    then show ?thesis unfolding ping_workers_Cons [OF w1(1)] .
  qed
qed

section \<open>Runs\<close>

text \<open>
  The events of the loop, with every environment: what was received, how GLib orders the table,
  where the parameter of the search lies in memory.
\<close>

inductive broker_run :: "broker \<Rightarrow> bool" where
  run_start: "fair_order order \<Longrightarrow> broker_run (poll_create order addr)"
| run_environment: "broker_run b \<Longrightarrow> fair_order order \<Longrightarrow> broker_run (b\<lparr>b_order := order, b_addr := addr\<rparr>)"
| run_recv: "broker_run b \<Longrightarrow> zrouter w \<Longrightarrow> (\<And>M v. joza_msg_recv w = Inr (Some M, v) \<Longrightarrow> plain_names M) \<Longrightarrow>
     s_recv pollin b w = Inr ((r, b'), w') \<Longrightarrow> broker_run b'"
| run_ping: "broker_run b \<Longrightarrow> s_ping b w = Inr (Continue r b', w') \<Longrightarrow> broker_run b'"
| run_signal: "broker_run b \<Longrightarrow> broker_run (catch_signal b)"

lemma s_recv_ok:
  assumes "broker_ok b" "zrouter w" "\<And>M v. joza_msg_recv w = Inr (Some M, v) \<Longrightarrow> plain_names M"
    and "s_recv pollin b w = Inr ((r, b'), w')"
  shows "broker_ok b'"
proof (cases "pollin")
  case False
  then show ?thesis using assms(1,4) by (simp add: s_recv_def)
next
  case True
  then obtain m v where m: "joza_msg_recv w = Inr (m, v)"
      "(case m of None \<Rightarrow> return_io (0, b) | Some M \<Rightarrow> s_process M b) v = Inr ((r, b'), w')"
    using assms(4) by (auto simp: s_recv_def bind_io_Inr)
  show ?thesis
  proof (cases m)
    case None
    then show ?thesis using m(2) assms(1) by simp
  next
    case (Some M)
    then have "well_received True M" "plain_names M"
      using m(1) assms(2,3) joza_msg_recv_well by fastforce+
    from s_process_outcome [OF assms(1) this, of v] show ?thesis
      using m(2) Some by (simp add: outcome_def)
  qed
qed

definition visits :: "broker \<Rightarrow> world \<Rightarrow> (nat \<times> wkey_t) list" where
  "visits b w = enumerate (gtick w) (map fst (b_order b (b_workers b)))"

lemma order_keys:
  assumes "broker_ok b"
  shows "distinct (map fst (b_order b (b_workers b)))" "set (map fst (b_order b (b_workers b))) = dom (map_of (b_workers b))"
proof -
  have o: "mset (b_order b (b_workers b)) = mset (b_workers b)" "distinct (map fst (b_workers b))"
    using assms by (auto simp: broker_ok_def fair_order_def workers_ok_def table_inv_def)
  then have m: "mset (map fst (b_order b (b_workers b))) = mset (map fst (b_workers b))" by simp
  show "distinct (map fst (b_order b (b_workers b)))"
    using mset_eq_imp_distinct_iff [OF m] o(2) by simp
  show "set (map fst (b_order b (b_workers b))) = dom (map_of (b_workers b))"
    using mset_eq_setD [OF m] by (simp add: dom_map_of_conv_image_fst)
qed

lemma s_ping_busy:
  assumes "broker_ok b" "filter (busy_due b w) (visits b w) \<noteq> []"
  shows "s_ping b w = Inl Undefined"
proof -
  have "\<forall>p \<in> set (map fst (b_order b (b_workers b))). map_of (b_workers b) p \<noteq> None"
    unfolding order_keys(2) [OF assms(1)] by auto
  from ping_workers_busy [OF assms(1) order_keys(1) [OF assms(1)] this] show ?thesis
    using assms(2) by (simp add: s_ping_def bind_io_def visits_def)
qed

lemma s_ping_run:
  assumes "broker_ok b" "filter (busy_due b w) (visits b w) = []"
  shows "\<exists>b' w'. s_ping b w = Inr (if b_shutdown b then Exit 1 else Continue 0 b', w') \<and> broker_ok b' \<and>
     b_channels b' = b_channels b \<and> b_shutdown b' = b_shutdown b \<and>
     (\<forall>k. map_of (b_workers b') k =
        (if k \<in> snd ` set (filter (due b w) (visits b w)) then None else map_of (b_workers b) k))"
proof -
  let ?ks = "map fst (b_order b (b_workers b))"
  have ks: "\<forall>p \<in> set ?ks. map_of (b_workers b) p \<noteq> None"
    unfolding order_keys(2) [OF assms(1)] by auto
  obtain b' w' where r: "ping_workers ?ks b w = Inr (b', w')" "broker_ok b'" "b_shutdown b' = b_shutdown b"
      "b_channels b' = b_channels b"
      "\<forall>k. map_of (b_workers b') k =
        (if k \<in> snd ` set (filter (due b w) (visits b w)) then None else map_of (b_workers b) k)"
    using ping_workers_run [OF assms(1) order_keys(1) [OF assms(1)] ks] assms(2) unfolding visits_def by blast
  have empty: "b_workers b' = []" if sd: "b_shutdown b"
  proof (rule ccontr)
    assume "b_workers b' \<noteq> []"
    then obtain k W where "map_of (b_workers b') k = Some W"
      by (metis list.set_intros(1) neq_Nil_conv surj_pair weak_map_of_SomeI)
    then have k: "map_of (b_workers b) k = Some W" "k \<notin> snd ` set (filter (due b w) (visits b w))"
      using r(5) by (metis option.distinct(1))+
    then have "k \<in> snd ` set (visits b w)"
      using order_keys(2) [OF assms(1)] by (metis domI list.set_map map_snd_enumerate visits_def)
    then obtain v where "v \<in> set (visits b w)" "snd v = k" by blast
    moreover from this have "due b w v" using k(1) sd by (auto simp: due_def expired_def)
    ultimately show False using k(2) by auto
  qed
  have "s_ping b w = Inr (if b_shutdown b then Exit 1 else Continue 0 b', w')"
    using r(1,3) empty by (auto simp: s_ping_def bind_io_def workers_table_is_empty_def)
  then show ?thesis using r by blast
qed

lemma poll_create_ok: "fair_order order \<Longrightarrow> broker_ok (poll_create order addr)"
  by (simp add: broker_ok_def poll_create_def workers_ok_def channels_ok_def calls_ok_def table_inv_def
      workers_table_create_def channels_table_create_def)

lemma broker_run_ok: "broker_run b \<Longrightarrow> broker_ok b"
proof (induction rule: broker_run.induct)
  case (run_start order addr)
  then show ?case by (rule poll_create_ok)
next
  case (run_environment b order addr)
  then show ?case by (simp add: broker_ok_def)
next
  case (run_recv b w pollin r b' w')
  then show ?case using s_recv_ok by blast
next
  case (run_ping b w r b' w')
  then show ?case
    using s_ping_busy [of b w] s_ping_run [of b w] by (cases "filter (busy_due b w) (visits b w) = []") (auto split: if_splits)
next
  case (run_signal b)
  then show ?case by (simp add: broker_ok_def catch_signal_def)
qed

section \<open>Exact effects\<close>

text \<open>What the broker does when every send succeeds.\<close>

definition reliable :: "world \<Rightarrow> bool" where
  "reliable w \<longleftrightarrow> zrouter w \<and> (\<forall>h x. zfail w h x = None)"

lemma reliable_tick [simp]: "reliable (w\<lparr>gtick := n\<rparr>) = reliable w"
  by (simp add: reliable_def)

lemma diagnostic_reliable:
  "reliable w \<Longrightarrow> diagnostic (Some z) N c d w = Inr ((), w\<lparr>zsent := zsent w @ wire w z (diagnostic_msg c d)\<rparr>)"
  unfolding reliable_def diagnostic_msg_def by (rule diagnostic_delivers) auto

lemma s_process_valid:
  assumes "well_received True M" "valid_message M" "msg_addr2key (m_address M) = Inr k"
  shows "s_process M b w = bind_io (case map_of (b_workers b) k of
      Some _ \<Rightarrow> s_process_msg_from_known_worker k M k b
    | None \<Rightarrow> s_process_msg_from_unknown_worker M k b) (\<lambda>b. return_io (0, b)) w"
proof -
  have "prevalidate_message M = Inr d_unspecified" using prevalidate_iff [OF assms(1)] assms(2) by blast
  then show ?thesis
    unfolding s_process_def by (simp add: msg_getters assms(3) workers_table_lookup_by_key_def)
qed

lemma known_worker_step:
  assumes "map_of (b_workers b) k = Some W"
  shows "s_process_msg_from_known_worker k M k b w =
     (if wk_role W = READY then s_process_msg_from_unconnected_worker k M k else s_process_msg_from_connected_worker k M)
       (modify_worker k (\<lambda>_. W\<lparr>wk_atime := gclock w (gtick w)\<rparr>) b) (w\<lparr>gtick := Suc (gtick w)\<rparr>)"
  by (cases "wk_role W")
    (simp_all add: s_process_msg_from_known_worker_def deref_worker_Some [OF assms] bind_io_def worker_update_atime_def
      g_get_monotonic_time_def worker_get_role_def Let_def)

text \<open>The time of the last access does not decide who the peer is.\<close>

definition has_peer :: "broker \<Rightarrow> wkey_t \<Rightarrow> bool" where
  "has_peer b k \<longleftrightarrow> (\<exists>W q V. map_of (b_workers b) k = Some W \<and> q \<noteq> k \<and> map_of (b_workers b) q = Some V \<and> wk_lcn V = wk_lcn W)"

lemma lookup_other_peer:
  assumes "broker_ok b" "map_of (b_workers b) k = Some W" "has_peer b k"
  shows "workers_table_lookup_other (b_order b) (b_workers b) k W \<noteq> None"
proof -
  have t: "table_inv (b_workers b)" "fair_order (b_order b)" using assms(1) by (simp_all add: broker_ok_def workers_ok_def)
  obtain q V where q: "q \<noteq> k" "map_of (b_workers b) q = Some V" "wk_lcn V = wk_lcn W"
    using assms(2,3) by (auto simp: has_peer_def)
  then have "(q, V) \<in> set (b_order b (b_workers b))"
    using fair_order_set [OF t(2)] table_inv_map_of [OF t(1)] by simp
  moreover have "s_is_other k W (q, V)" using q by (simp add: s_is_other_def)
  ultimately have "List.find (s_is_other k W) (b_order b (b_workers b)) \<noteq> None"
    unfolding find_None_iff by blast
  then show ?thesis by (simp add: workers_table_lookup_other_def)
qed

lemma has_peer_access:
  "map_of (b_workers b) k = Some W \<Longrightarrow> has_peer (modify_worker k (\<lambda>_. W\<lparr>wk_atime := t\<rparr>) b) k = has_peer b k"
  by (auto simp: has_peer_def modify_worker_def map_of_ght_modify)

end
