(* ===== verification/Joza_Dump.thy ===== *)
theory Joza_Dump
  imports Joza_Transport
begin

text \<open>
  The text that \<^verbatim>\<open>joza_msg_dump\<close> of \<^verbatim>\<open>src/joza_msg.c\<close> writes to the standard output. The model returns the text; of the
  world it uses the order in which a table is visited. The locale \<open>printer\<close> states when printed items can be told apart
  whatever follows them; it is interpreted for the three kinds of items of a message and shows that the dump of a message
  determines its type and its fields, except for data beyond 32 bytes.
\<close>

section \<open>Formatting\<close>

text \<open>\<^verbatim>\<open>%ld\<close> and \<^verbatim>\<open>%td\<close> of a number that is not negative, and \<^verbatim>\<open>%02X\<close> of a byte.\<close>

fun decimal :: "nat \<Rightarrow> cstr" where
  "decimal n = (if n < 10 then [of_nat (48 + n)] else decimal (n div 10) @ [of_nat (48 + n mod 10)])"

declare decimal.simps [simp del]

definition hex_digit :: "nat \<Rightarrow> byte" where
  "hex_digit n = (if n < 10 then of_nat (48 + n) else of_nat (55 + n))"

definition hex2 :: "byte \<Rightarrow> cstr" where
  "hex2 b = [hex_digit (unat b div 16), hex_digit (unat b mod 16)]"

definition puts :: "string \<Rightarrow> cstr" where
  "puts s = lit s @ [10]"

definition print_number :: "string \<Rightarrow> nat \<Rightarrow> cstr" where
  "print_number label n = lit label @ decimal n @ [10]"

definition print_name :: "string \<Rightarrow> cstr option \<Rightarrow> cstr" where
  "print_name label s = (case s of
      Some t \<Rightarrow> lit label @ [39] @ t @ [39, 10]
    | None \<Rightarrow> lit label @ [10])"

section \<open>The dump\<close>

text \<open>The loop over the first bytes of the data.\<close>

fun dump_bytes :: "nat \<Rightarrow> bytes \<Rightarrow> cstr" where
  "dump_bytes data_index [] = []"
| "dump_bytes data_index (d # ds) =
     (if data_index \<noteq> 0 \<and> data_index mod 4 = 0 then [45] else []) @ hex2 d @ dump_bytes (Suc data_index) ds"

definition dump_data :: "zframe option \<Rightarrow> cstr" where
  "dump_data data =
     puts ''    data={'' @
     (case data of
        None \<Rightarrow> []
      | Some d \<Rightarrow>
          (let size = length d; size' = (if size > 32 then 32 else size) in
           print_number ''        size='' size @ dump_bytes 0 (take size' d))) @
     puts ''    }''"

definition dump_call :: "joza_msg \<Rightarrow> cstr" where
  "dump_call self =
     print_name ''    calling_address='' (m_calling_address self) @
     print_name ''    called_address='' (m_called_address self) @
     print_number ''    packet='' (unat (m_packet self)) @
     print_number ''    window='' (unat (m_window self)) @
     print_number ''    throughput='' (unat (m_throughput self)) @
     dump_data (m_data self)"

definition dump_cause :: "joza_msg \<Rightarrow> cstr" where
  "dump_cause self =
     print_number ''    cause='' (unat (m_cause self)) @
     print_number ''    diagnostic='' (unat (m_diagnostic self))"

definition s_workers_dump :: "cstr \<times> zitem \<Rightarrow> cstr res" where
  "s_workers_dump e =
     bind_res (item_text (snd e)) (\<lambda>item. Inr (lit ''        '' @ fst e @ [61] @ item @ [10]))"

fun dump_workers :: "zhash \<Rightarrow> cstr res" where
  "dump_workers [] = Inr []"
| "dump_workers (e # es) =
     bind_res (s_workers_dump e) (\<lambda>t. bind_res (dump_workers es) (\<lambda>u. Inr (t @ u)))"

definition joza_msg_dump :: "joza_msg \<Rightarrow> world \<Rightarrow> cstr res" where
  "joza_msg_dump self w =
     (let i = m_id self in
      if i = JOZA_MSG_DATA then
        Inr (puts ''DATA:'' @ print_number ''    q='' (unat (m_q self)) @ print_number ''    pr='' (unat (m_pr self)) @
          print_number ''    ps='' (unat (m_ps self)) @ dump_data (m_data self))
      else if i = JOZA_MSG_RR then Inr (puts ''RR:'' @ print_number ''    pr='' (unat (m_pr self)))
      else if i = JOZA_MSG_RNR then Inr (puts ''RNR:'' @ print_number ''    pr='' (unat (m_pr self)))
      else if i = JOZA_MSG_CALL_REQUEST then Inr (puts ''CALL_REQUEST:'' @ dump_call self)
      else if i = JOZA_MSG_CALL_ACCEPTED then Inr (puts ''CALL_ACCEPTED:'' @ dump_call self)
      else if i = JOZA_MSG_CLEAR_REQUEST then Inr (puts ''CLEAR_REQUEST:'' @ dump_cause self)
      else if i = JOZA_MSG_CLEAR_CONFIRMATION then Inr (puts ''CLEAR_CONFIRMATION:'')
      else if i = JOZA_MSG_RESET_REQUEST then Inr (puts ''RESET_REQUEST:'' @ dump_cause self)
      else if i = JOZA_MSG_RESET_CONFIRMATION then Inr (puts ''RESET_CONFIRMATION:'')
      else if i = JOZA_MSG_CONNECT then
        Inr (puts ''CONNECT:'' @ puts ''    protocol=~svc'' @ puts ''    version=joza_msg_version'' @
          print_name ''    calling_address='' (m_calling_address self) @ print_name ''    host_name='' (m_host_name self) @
          print_number ''    directionality='' (unat (m_directionality self)))
      else if i = JOZA_MSG_CONNECT_INDICATION then Inr (puts ''CONNECT_INDICATION:'')
      else if i = JOZA_MSG_DISCONNECT then Inr (puts ''DISCONNECT:'')
      else if i = JOZA_MSG_DISCONNECT_INDICATION then Inr (puts ''DISCONNECT_INDICATION:'')
      else if i = JOZA_MSG_DIAGNOSTIC then Inr (puts ''DIAGNOSTIC:'' @ dump_cause self)
      else if i = JOZA_MSG_DIRECTORY_REQUEST then Inr (puts ''DIRECTORY_REQUEST:'')
      else if i = JOZA_MSG_DIRECTORY then
        bind_res (case m_workers self of None \<Rightarrow> Inr [] | Some h \<Rightarrow> dump_workers (zorder w h)) (\<lambda>t.
        Inr (puts ''DIRECTORY:'' @ puts ''    workers={'' @ t @ puts ''    }''))
      else if i = JOZA_MSG_ENQ then Inr (puts ''ENQ:'')
      else if i = JOZA_MSG_ACK then Inr (puts ''ACK:'')
      else Inr [])"

section \<open>Numbers\<close>

definition decimal_value :: "cstr \<Rightarrow> nat" where
  "decimal_value = foldl (\<lambda>a c. 10 * a + (unat c - 48)) 0"

lemma unat_small_byte: "k < 256 \<Longrightarrow> unat (of_nat k :: byte) = k"
  by (rule unat_of_nat_byte) simp

lemma decimal_value_decimal: "decimal_value (decimal n) = n"
proof (induction n rule: decimal.induct)
  case (1 n)
  show ?case
  proof (cases "n < 10")
    case True
    then show ?thesis by (simp add: decimal.simps [of n] decimal_value_def unat_small_byte del: of_nat_add)
  next
    case False
    have "unat (of_nat (48 + n mod 10) :: byte) = 48 + n mod 10" by (rule unat_small_byte) simp
    then show ?thesis using False 1 by (simp add: decimal.simps [of n] decimal_value_def del: of_nat_add)
  qed
qed

lemma decimal_inj: "decimal n = decimal m \<longleftrightarrow> n = m"
  by (metis decimal_value_decimal)

lemma decimal_digits: "c \<in> set (decimal n) \<Longrightarrow> 48 \<le> unat c \<and> unat c \<le> 57"
proof (induction n rule: decimal.induct)
  case (1 n)
  have d: "unat (of_nat (48 + k) :: byte) = 48 + k" if "k < 10" for k by (rule unat_small_byte) (use that in simp)
  show ?case
    using 1 d [of n] d [of "n mod 10"]
    by (cases "n < 10") (auto simp: decimal.simps [of n] simp del: of_nat_add)
qed

lemma decimal_no_newline: "10 \<notin> set (decimal n)"
  using decimal_digits [of 10 n] by auto

lemma hex_digit_inj:
  assumes "m < 16" "n < 16" "hex_digit m = hex_digit n"
  shows "m = n"
proof -
  have v: "unat (hex_digit k) = (if k < 10 then 48 + k else 55 + k)" if "k < 16" for k
    using that by (simp add: hex_digit_def unat_small_byte del: of_nat_add)
  have "(if m < 10 then 48 + m else 55 + m) = (if n < 10 then 48 + n else 55 + n)"
    unfolding v [OF assms(1), symmetric] v [OF assms(2), symmetric] assms(3) by (rule refl)
  then show ?thesis by (simp split: if_splits)
qed

lemma hex2_inj:
  assumes "hex2 b = hex2 c"
  shows "b = c"
proof -
  have "unat x div 16 < 16" for x :: byte using unsigned_less [where ?'a = nat and w = x] by simp
  then have "unat b div 16 = unat c div 16" "unat b mod 16 = unat c mod 16"
    using assms by (auto simp: hex2_def intro!: hex_digit_inj)
  then have "unat b = unat c" by (metis div_mult_mod_eq)
  then show ?thesis by (simp flip: word_unat_eq_iff)
qed

section \<open>Items that delimit themselves\<close>

text \<open>
  Printed items can be told apart whatever text follows them: \<open>view\<close> is what the print shows of an item, \<open>ok\<close> the
  items that are printed faithfully.
\<close>

locale printer =
  fixes print :: "'a \<Rightarrow> cstr" and view :: "'a \<Rightarrow> 'b" and ok :: "'a \<Rightarrow> bool"
  assumes delimits: "ok x \<Longrightarrow> ok y \<Longrightarrow> print x @ r = print y @ r' \<Longrightarrow> view x = view y \<and> r = r'"
begin

lemma print_eq: "ok x \<Longrightarrow> ok y \<Longrightarrow> print x = print y \<Longrightarrow> view x = view y"
  using delimits [of x y "[]" "[]"] by simp

end

lemma newline_split:
  "10 \<notin> set a \<Longrightarrow> 10 \<notin> set b \<Longrightarrow> a @ 10 # r = b @ 10 # r' \<Longrightarrow> a = b \<and> r = r'" for a b :: cstr
proof (induction a arbitrary: b)
  case Nil
  then show ?case by (cases b) auto
next
  case (Cons c a)
  then show ?case by (cases b) auto
qed

interpretation number: printer "print_number label" "\<lambda>n. n" "\<lambda>_. True" for label
proof
  fix m n r r'
  assume "print_number label m @ r = print_number label n @ r'"
  then have "decimal m @ 10 # r = decimal n @ 10 # r'" by (simp add: print_number_def)
  then show "m = n \<and> r = r'" using newline_split decimal_no_newline decimal_inj by metis
qed

definition one_line :: "cstr option \<Rightarrow> bool" where
  "one_line s = (case s of None \<Rightarrow> True | Some t \<Rightarrow> 10 \<notin> set t)"

interpretation name: printer "print_name label" "\<lambda>s. s" one_line for label
proof
  fix s t r r'
  assume ok: "one_line s" "one_line t" and eq: "print_name label s @ r = print_name label t @ r'"
  define line where "line u = (case u of None \<Rightarrow> [] | Some v \<Rightarrow> [39] @ v @ [39])" for u :: "cstr option"
  have "print_name label u = lit label @ line u @ [10]" for u
    by (simp add: print_name_def line_def split: option.split)
  then have "line s @ 10 # r = line t @ 10 # r'" using eq by simp
  moreover have "10 \<notin> set (line s)" "10 \<notin> set (line t)"
    using ok by (auto simp: line_def one_line_def split: option.splits)
  ultimately have "line s = line t" "r = r'" using newline_split by blast+
  then show "s = t \<and> r = r'" by (auto simp: line_def split: option.splits)
qed

text \<open>Of the data the dump shows the size and the first 32 bytes.\<close>

definition data_view :: "zframe option \<Rightarrow> (nat \<times> bytes) option" where
  "data_view = map_option (\<lambda>d. (length d, take 32 d))"

lemma dump_bytes_inj:
  "length ds = length ds' \<Longrightarrow> dump_bytes i ds @ r = dump_bytes i ds' @ r' \<Longrightarrow> ds = ds' \<and> r = r'"
proof (induction ds ds' arbitrary: i rule: list_induct2)
  case (Cons d ds d' ds')
  have "hex2 d @ dump_bytes (Suc i) ds @ r = hex2 d' @ dump_bytes (Suc i) ds' @ r'" using Cons.prems by simp
  then have "hex2 d = hex2 d'" "dump_bytes (Suc i) ds @ r = dump_bytes (Suc i) ds' @ r'" by (simp_all add: hex2_def)
  then show ?case using Cons.IH hex2_inj by blast
qed simp

lemma dump_data_Some:
  "dump_data (Some d) = puts ''    data={'' @ print_number ''        size='' (length d) @ dump_bytes 0 (take 32 d) @ puts ''    }''"
  by (simp add: dump_data_def Let_def min_def)

interpretation data: printer dump_data data_view "\<lambda>_. True"
proof
  fix x y r r'
  assume eq: "dump_data x @ r = dump_data y @ r'"
  show "data_view x = data_view y \<and> r = r'"
  proof (cases x)
    case None
    show ?thesis
    proof (cases y)
      case None
      then show ?thesis using eq \<open>x = None\<close> by simp
    next
      case (Some e)
      then show ?thesis using eq \<open>x = None\<close> by (simp add: dump_data_def puts_def print_number_def lit_def Let_def)
    qed
  next
    case (Some d)
    show ?thesis
    proof (cases y)
      case None
      then show ?thesis using eq Some by (simp add: dump_data_def puts_def print_number_def lit_def Let_def)
    next
      case (Some e)
      have "print_number ''        size='' (length d) @ dump_bytes 0 (take 32 d) @ puts ''    }'' @ r =
          print_number ''        size='' (length e) @ dump_bytes 0 (take 32 e) @ puts ''    }'' @ r'"
        using eq \<open>x = Some d\<close> Some by (simp add: dump_data_Some)
      from number.delimits [OF TrueI TrueI this]
      have rest: "length d = length e"
          "dump_bytes 0 (take 32 d) @ puts ''    }'' @ r = dump_bytes 0 (take 32 e) @ puts ''    }'' @ r'"
        by blast+
      have "take 32 d = take 32 e \<and> puts ''    }'' @ r = puts ''    }'' @ r'"
        by (rule dump_bytes_inj [OF _ rest(2)]) (simp add: rest(1))
      then show ?thesis using rest(1) \<open>x = Some d\<close> Some by (simp add: data_view_def)
    qed
  qed
qed

section \<open>Properties\<close>

text \<open>The first line names the type, the rest are the fields.\<close>

definition command_names :: "string list" where
  "command_names = [''DATA'', ''RR'', ''RNR'', ''CALL_REQUEST'', ''CALL_ACCEPTED'', ''CLEAR_REQUEST'', ''CLEAR_CONFIRMATION'',
     ''RESET_REQUEST'', ''RESET_CONFIRMATION'', ''CONNECT'', ''CONNECT_INDICATION'', ''DISCONNECT'', ''DISCONNECT_INDICATION'',
     ''DIAGNOSTIC'', ''DIRECTORY_REQUEST'', ''DIRECTORY'', ''ENQ'', ''ACK'']"

lemma known_id: "0 \<le> i \<Longrightarrow> i \<le> 17 \<Longrightarrow> i \<in> {0, 1, 2, 3, 4, 5, 6, 7, 8, 9, 10, 11, 12, 13, 14, 15, 16, 17 :: int}"
  by simp presburger

definition dump_body :: "joza_msg \<Rightarrow> world \<Rightarrow> cstr res" where
  "dump_body M w = (if m_id M = JOZA_MSG_DIRECTORY then
       bind_res (case m_workers M of None \<Rightarrow> Inr [] | Some h \<Rightarrow> dump_workers (zorder w h)) (\<lambda>t.
       Inr (puts ''    workers={'' @ t @ puts ''    }''))
     else Inr (
       if m_id M = JOZA_MSG_DATA then
         print_number ''    q='' (unat (m_q M)) @ print_number ''    pr='' (unat (m_pr M)) @
         print_number ''    ps='' (unat (m_ps M)) @ dump_data (m_data M)
       else if m_id M \<in> {JOZA_MSG_RR, JOZA_MSG_RNR} then print_number ''    pr='' (unat (m_pr M))
       else if m_id M \<in> {JOZA_MSG_CALL_REQUEST, JOZA_MSG_CALL_ACCEPTED} then dump_call M
       else if m_id M \<in> {JOZA_MSG_CLEAR_REQUEST, JOZA_MSG_RESET_REQUEST, JOZA_MSG_DIAGNOSTIC} then dump_cause M
       else if m_id M = JOZA_MSG_CONNECT then
         puts ''    protocol=~svc'' @ puts ''    version=joza_msg_version'' @
         print_name ''    calling_address='' (m_calling_address M) @ print_name ''    host_name='' (m_host_name M) @
         print_number ''    directionality='' (unat (m_directionality M))
       else []))"

lemma dump_heading:
  assumes "0 \<le> m_id M" "m_id M \<le> 17"
  shows "joza_msg_dump M w =
    bind_res (dump_body M w) (\<lambda>t. Inr (lit (command_names ! nat (m_id M) @ '':'') @ 10 # t))"
  using known_id [OF assms]
  by (auto simp: joza_msg_dump_def dump_body_def msg_ids command_names_def puts_def Let_def bind_res_assoc)

lemma headings:
  "distinct (map (\<lambda>c. lit (c @ '':'')) command_names)" "\<forall>c \<in> set command_names. 10 \<notin> set (lit (c @ '':''))"
  by (simp_all add: command_names_def lit_def)

lemma dump_determines_type:
  assumes "0 \<le> m_id M" "m_id M \<le> 17" "0 \<le> m_id N" "m_id N \<le> 17" "joza_msg_dump M w = Inr t" "joza_msg_dump N v = Inr t"
  shows "m_id M = m_id N \<and> (\<exists>b. dump_body M w = Inr b \<and> dump_body N v = Inr b)"
proof -
  let ?h = "\<lambda>X. lit (command_names ! nat (m_id X) @ '':'')"
  obtain b c where b: "dump_body M w = Inr b" "dump_body N v = Inr c" "?h M @ 10 # b = ?h N @ 10 # c"
    using assms(5,6) by (auto simp: dump_heading [OF assms(1,2)] dump_heading [OF assms(3,4)] bind_res_Inr)
  have len: "nat (m_id M) < length command_names" "nat (m_id N) < length command_names"
    using assms(1-4) by (simp_all add: command_names_def)
  then have "?h M = ?h N \<and> b = c" using newline_split [OF _ _ b(3)] headings(2) by simp
  then show ?thesis
    using b len assms(1,3) headings(1) nth_eq_iff_index_eq [OF headings(1), of "nat (m_id M)" "nat (m_id N)"] by auto
qed

text \<open>The fields that belong to the type of a message, as far as they are shown; the directory is left out.\<close>

definition shown :: "joza_msg \<Rightarrow> joza_msg \<times> (nat \<times> bytes) option" where
  "shown M = (let i = m_id M; N = joza_msg_new i in
     if i = JOZA_MSG_DATA then (N\<lparr>m_q := m_q M, m_pr := m_pr M, m_ps := m_ps M\<rparr>, data_view (m_data M))
     else if i \<in> {JOZA_MSG_RR, JOZA_MSG_RNR} then (N\<lparr>m_pr := m_pr M\<rparr>, None)
     else if i \<in> {JOZA_MSG_CALL_REQUEST, JOZA_MSG_CALL_ACCEPTED} then
       (N\<lparr>m_calling_address := m_calling_address M, m_called_address := m_called_address M, m_packet := m_packet M,
          m_window := m_window M, m_throughput := m_throughput M\<rparr>, data_view (m_data M))
     else if i \<in> {JOZA_MSG_CLEAR_REQUEST, JOZA_MSG_RESET_REQUEST, JOZA_MSG_DIAGNOSTIC} then
       (N\<lparr>m_cause := m_cause M, m_diagnostic := m_diagnostic M\<rparr>, None)
     else if i = JOZA_MSG_CONNECT then
       (N\<lparr>m_calling_address := m_calling_address M, m_host_name := m_host_name M, m_directionality := m_directionality M\<rparr>, None)
     else (N, None))"

lemma dump_call_inj:
  assumes "dump_call M = dump_call N" "one_line (m_calling_address M)" "one_line (m_calling_address N)"
    "one_line (m_called_address M)" "one_line (m_called_address N)"
  shows "m_calling_address M = m_calling_address N \<and> m_called_address M = m_called_address N \<and> m_packet M = m_packet N \<and>
     m_window M = m_window N \<and> m_throughput M = m_throughput N \<and> data_view (m_data M) = data_view (m_data N)"
proof -
  note calling = name.delimits [OF assms(2,3) assms(1) [unfolded dump_call_def]]
  note called = name.delimits [OF assms(4,5) calling [THEN conjunct2]]
  note packet = number.delimits [OF TrueI TrueI called [THEN conjunct2]]
  note window = number.delimits [OF TrueI TrueI packet [THEN conjunct2]]
  note throughput = number.delimits [OF TrueI TrueI window [THEN conjunct2]]
  note data = data.print_eq [OF TrueI TrueI throughput [THEN conjunct2]]
  show ?thesis
    using calling called packet window throughput data by (simp flip: word_unat_eq_iff)
qed

lemma dump_cause_inj:
  assumes "dump_cause M = dump_cause N"
  shows "m_cause M = m_cause N \<and> m_diagnostic M = m_diagnostic N"
proof -
  note cause = number.delimits [OF TrueI TrueI assms [unfolded dump_cause_def]]
  then show ?thesis using number.print_eq [OF TrueI TrueI cause [THEN conjunct2]] by (simp flip: word_unat_eq_iff)
qed

lemma dump_data_message_inj:
  assumes "print_number ''    q='' (unat (m_q M)) @ print_number ''    pr='' (unat (m_pr M)) @
      print_number ''    ps='' (unat (m_ps M)) @ dump_data (m_data M) =
    print_number ''    q='' (unat (m_q N)) @ print_number ''    pr='' (unat (m_pr N)) @
      print_number ''    ps='' (unat (m_ps N)) @ dump_data (m_data N)"
  shows "m_q M = m_q N \<and> m_pr M = m_pr N \<and> m_ps M = m_ps N \<and> data_view (m_data M) = data_view (m_data N)"
proof -
  note q = number.delimits [OF TrueI TrueI assms]
  note pr = number.delimits [OF TrueI TrueI q [THEN conjunct2]]
  note ps = number.delimits [OF TrueI TrueI pr [THEN conjunct2]]
  show ?thesis using q pr ps data.print_eq [OF TrueI TrueI ps [THEN conjunct2]] by (simp flip: word_unat_eq_iff)
qed

lemma dump_connect_inj:
  assumes "print_name ''    calling_address='' (m_calling_address M) @ print_name ''    host_name='' (m_host_name M) @
      print_number ''    directionality='' (unat (m_directionality M)) =
    print_name ''    calling_address='' (m_calling_address N) @ print_name ''    host_name='' (m_host_name N) @
      print_number ''    directionality='' (unat (m_directionality N))"
    and "one_line (m_calling_address M)" "one_line (m_calling_address N)" "one_line (m_host_name M)" "one_line (m_host_name N)"
  shows "m_calling_address M = m_calling_address N \<and> m_host_name M = m_host_name N \<and> m_directionality M = m_directionality N"
proof -
  note calling = name.delimits [OF assms(2,3,1)]
  note host = name.delimits [OF assms(4,5) calling [THEN conjunct2]]
  show ?thesis
    using calling host number.print_eq [OF TrueI TrueI host [THEN conjunct2]] by (simp flip: word_unat_eq_iff)
qed

definition printable :: "joza_msg \<Rightarrow> bool" where
  "printable M \<longleftrightarrow> 0 \<le> m_id M \<and> m_id M \<le> 17 \<and> one_line (m_calling_address M) \<and> one_line (m_called_address M) \<and>
     one_line (m_host_name M)"

text \<open>
  C40. The dump is faithful: two messages whose names hold no line break and that have the same dump are of the same
  type and agree in every field of that type, up to data beyond the first 32 bytes and up to the directory.
\<close>

theorem joza_msg_dump_faithful:
  assumes "printable M" "printable N" "joza_msg_dump M w = Inr t" "joza_msg_dump N v = Inr t"
  shows "m_id M = m_id N \<and> shown M = shown N"
proof -
  have ids: "0 \<le> m_id M" "m_id M \<le> 17" "0 \<le> m_id N" "m_id N \<le> 17" using assms(1,2) by (simp_all add: printable_def)
  obtain b where b: "m_id M = m_id N" "dump_body M w = Inr b" "dump_body N v = Inr b"
    using dump_determines_type [OF ids assms(3,4)] by blast
  have lines: "one_line (m_calling_address M)" "one_line (m_calling_address N)" "one_line (m_called_address M)"
      "one_line (m_called_address N)" "one_line (m_host_name M)" "one_line (m_host_name N)"
    using assms(1,2) by (simp_all add: printable_def)
  have eq: "dump_body M w = dump_body N v" using b by simp
  consider "m_id N = JOZA_MSG_DATA" | "m_id N \<in> {JOZA_MSG_RR, JOZA_MSG_RNR}"
    | "m_id N \<in> {JOZA_MSG_CALL_REQUEST, JOZA_MSG_CALL_ACCEPTED}"
    | "m_id N \<in> {JOZA_MSG_CLEAR_REQUEST, JOZA_MSG_RESET_REQUEST, JOZA_MSG_DIAGNOSTIC}" | "m_id N = JOZA_MSG_CONNECT"
    | "m_id N \<notin> {JOZA_MSG_DATA, JOZA_MSG_RR, JOZA_MSG_RNR, JOZA_MSG_CALL_REQUEST, JOZA_MSG_CALL_ACCEPTED,
         JOZA_MSG_CLEAR_REQUEST, JOZA_MSG_RESET_REQUEST, JOZA_MSG_DIAGNOSTIC, JOZA_MSG_CONNECT}"
    by blast
  then have "shown M = shown N"
  proof cases
    case 1
    then show ?thesis using eq b(1) dump_data_message_inj [of M N] by (simp add: shown_def dump_body_def msg_ids)
  next
    case 2
    then have "print_number ''    pr='' (unat (m_pr M)) = print_number ''    pr='' (unat (m_pr N))"
      using eq b(1) by (auto simp: dump_body_def msg_ids)
    from number.print_eq [OF TrueI TrueI this] have "m_pr M = m_pr N" by (simp flip: word_unat_eq_iff)
    then show ?thesis using 2 b(1) by (auto simp: shown_def msg_ids)
  next
    case 3
    then have "dump_call M = dump_call N" using eq b(1) by (auto simp: dump_body_def msg_ids)
    then show ?thesis using 3 b(1) dump_call_inj [OF _ lines(1-4)] by (auto simp: shown_def msg_ids)
  next
    case 4
    then have "dump_cause M = dump_cause N" using eq b(1) by (auto simp: dump_body_def msg_ids)
    then show ?thesis using 4 b(1) dump_cause_inj [of M N] by (auto simp: shown_def msg_ids)
  next
    case 5
    then show ?thesis using eq b(1) dump_connect_inj [OF _ lines(1,2,5,6)] by (simp add: shown_def dump_body_def msg_ids)
  next
    case 6
    then show ?thesis using b(1) by (simp add: shown_def)
  qed
  then show ?thesis using b(1) by simp
qed

theorem joza_msg_dump_faithful_witness:
  "\<exists>t. joza_msg_dump demo_call quiet_world = Inr t \<and>
     (\<forall>N. printable N \<and> joza_msg_dump N quiet_world = Inr t \<longrightarrow> m_called_address N = Some (lit ''BOB'') \<and> m_window N = 2)"
proof -
  obtain t where t: "joza_msg_dump demo_call quiet_world = Inr t"
    by (simp add: joza_msg_dump_def demo_call_def msg_ids)
  have ok: "printable demo_call" by (simp add: printable_def demo_call_def msg_ids one_line_def lit_def)
  have "m_called_address N = Some (lit ''BOB'') \<and> m_window N = 2" if "printable N" "joza_msg_dump N quiet_world = Inr t" for N
  proof -
    have f: "m_id demo_call = m_id N" "shown demo_call = shown N" using joza_msg_dump_faithful [OF ok that(1) t that(2)] by simp_all
    have "m_id N = 3" using f(1) by (simp add: demo_call_def msg_ids)
    then show ?thesis using f(2) by (auto simp: shown_def demo_call_def msg_ids joza_msg_new_def)
  qed
  then show ?thesis using t by blast
qed

text \<open>
  The dump returns for every message but a directory with an entry whose text was freed, as the broker builds it.
\<close>

lemma dump_workers_returns: "(\<exists>t. dump_workers h = Inr t) \<longleftrightarrow> Dangling \<notin> snd ` set h"
proof (induction h)
  case (Cons e h)
  show ?case
  proof (cases "snd e")
    case (Item s)
    then show ?thesis using Cons by (auto simp: s_workers_dump_def item_text_def bind_res_Inr)
  next
    case Dangling
    then show ?thesis by (auto simp: s_workers_dump_def item_text_def)
  qed
qed simp

theorem joza_msg_dump_returns:
  assumes "\<And>h. mset (zorder w h) = mset h"
  shows "(\<exists>t. joza_msg_dump M w = Inr t) \<longleftrightarrow>
     \<not> (m_id M = JOZA_MSG_DIRECTORY \<and> (\<exists>h. m_workers M = Some h \<and> Dangling \<in> snd ` set h))"
proof (cases "m_id M = JOZA_MSG_DIRECTORY")
  case True
  have "set (zorder w h) = set h" for h using assms [of h] by (metis set_mset_mset)
  then show ?thesis
    using True dump_workers_returns
    by (auto simp: joza_msg_dump_def msg_ids bind_res_Inr split: option.split)
next
  case False
  then show ?thesis by (simp add: joza_msg_dump_def Let_def)
qed

theorem joza_msg_dump_returns_witness:
  "\<not> (\<exists>t. joza_msg_dump ((joza_msg_new JOZA_MSG_DIRECTORY)\<lparr>m_workers := Some [(lit ''BOB'', Dangling)]\<rparr>) quiet_world = Inr t)"
  by (subst joza_msg_dump_returns) (simp_all add: quiet_world_def joza_msg_new_def)

end
