(* ===== verification/Joza_Main.thy ===== *)
theory Joza_Main
  imports Joza_Broker Joza_Dump
begin

text \<open>
  The start of the broker, \<^verbatim>\<open>src/main.c\<close>: the options are checked, the endpoint is built and the broker created. The parser
  of options is GLib's; its result is an argument, \<open>None\<close> when it reports an error and otherwise the values of the two
  variables that it sets.
\<close>

definition main_port :: int where "main_port = 5555"
definition verbose :: bool where "verbose = False"
definition PROTOCOL :: cstr where "PROTOCOL = lit ''tcp://*:''"

datatype startup = Exited int | Listening cstr broker

definition joza_main :: "(int \<times> bool) option \<Rightarrow> order_t \<Rightarrow> nat \<Rightarrow> startup res" where
  "joza_main options order addr =
     (case options of
        None \<Rightarrow> Inr (Exited 1)
      | Some (port, verb) \<Rightarrow>
          if port < 1 \<or> port > 65535 then Inr (Exited 1)
          else
            bind_res (if verb then tput_name TPUT_MAX else Inr []) (\<lambda>_.
            Inr (Listening (PROTOCOL @ decimal (nat port)) (poll_create order addr))))"

text \<open>
  The broker starts for exactly the legal port numbers, also when it is verbose: it listens at an endpoint from which the
  port can be read back, in a state that satisfies the invariant. Otherwise it exits with code 1.
\<close>

theorem joza_main_correct:
  assumes "fair_order order"
  shows "case options of
      None \<Rightarrow> joza_main options order addr = Inr (Exited 1)
    | Some (port, verb) \<Rightarrow>
        if 1 \<le> port \<and> port \<le> 65535
        then \<exists>e b. joza_main options order addr = Inr (Listening (PROTOCOL @ e) b) \<and> int (decimal_value e) = port \<and> broker_ok b
        else joza_main options order addr = Inr (Exited 1)"
proof -
  have name: "tput_name TPUT_MAX = Inr (tput_names ! TPUT_MAX)" by (simp add: tput_name_def tput_rngchk_0 tput_enum)
  have "int (decimal_value (decimal (nat port))) = port" if "1 \<le> port" for port
    using that by (simp add: decimal_value_decimal)
  then show ?thesis
    using name poll_create_ok [OF assms] by (auto simp: joza_main_def split: option.split)
qed

theorem joza_main_correct_witness:
  "\<exists>e b. joza_main (Some (main_port, verbose)) (\<lambda>t. t) 70000 = Inr (Listening (PROTOCOL @ e) b) \<and> decimal_value e = 5555 \<and>
     broker_ok b"
proof -
  have "fair_order (\<lambda>t. t)" by (simp add: fair_order_def)
  from joza_main_correct [OF this, of "Some (main_port, verbose)" 70000] show ?thesis
    by (auto simp: main_port_def verbose_def)
qed

end
