(* ===== verification/Joza_Sort.thy ===== *)
theory Joza_Sort
  imports Joza_Lib
begin

text \<open>
  The index sort \<^verbatim>\<open>qisort\<close> of \<^verbatim>\<open>src/lib.c\<close>: a quicksort on an array of indices with an explicit stack
  of brackets, which hands small brackets to \<^verbatim>\<open>iisort\<close>. The theory shows that the sort returns for every
  array of fewer than \<open>2 ^ 28\<close> strings, stays in its arrays and in its stack and yields a
  permutation of the indices; and that it does not sort, because a bracket includes its right end
  and \<^verbatim>\<open>iisort\<close> excludes it.

  A \<^verbatim>\<open>size_t\<close> is a natural number. Its subtractions are written out modulo \<open>2 ^ 64\<close>; the only sums,
  of two indices of one array, do not reach that. The stack is an array of \<^verbatim>\<open>int\<close>.
\<close>

section \<open>The sort\<close>

definition NSTACK :: nat where "NSTACK = 50"
definition QS_M :: nat where "QS_M = 7"

definition size_sub :: "nat \<Rightarrow> nat \<Rightarrow> nat" where
  "size_sub a b = nat ((int a - int b) mod 2 ^ 64)"

text \<open>Storing a \<^verbatim>\<open>size_t\<close> in an \<^verbatim>\<open>int\<close>, and reading it back.\<close>

definition size_to_int :: "nat \<Rightarrow> int" where
  "size_to_int x = signed_take_bit 31 (int x)"

definition int_to_size :: "int \<Rightarrow> nat" where
  "int_to_size z = nat (z mod 2 ^ 64)"

text \<open>An access to \<^verbatim>\<open>arr[indx[k]]\<close> is defined.\<close>

definition index_ok :: "cstr list \<Rightarrow> nat list \<Rightarrow> nat \<Rightarrow> bool" where
  "index_ok arr indx k \<longleftrightarrow> k < length indx \<and> indx ! k < length arr"

text \<open>The two scans of the partitioning loop; below index 0 lies the largest \<^verbatim>\<open>size_t\<close>.\<close>

function qisort_up :: "cstr list \<Rightarrow> nat list \<Rightarrow> cstr \<Rightarrow> nat \<Rightarrow> nat res" where
  "qisort_up arr indx value_cur i =
     (if \<not> index_ok arr indx (Suc i) then Inl Undefined
      else if strcmp (strat arr indx (Suc i)) value_cur < 0 then qisort_up arr indx value_cur (Suc i)
      else Inr (Suc i))"
  by pat_completeness auto
termination
  by (relation "measure (\<lambda>(arr, indx, value_cur, i). length indx - i)") (auto simp: index_ok_def)

declare qisort_up.simps [simp del]

fun qisort_down :: "cstr list \<Rightarrow> nat list \<Rightarrow> cstr \<Rightarrow> nat \<Rightarrow> nat res" where
  "qisort_down arr indx value_cur 0 = Inl Undefined"
| "qisort_down arr indx value_cur (Suc j) =
     (if \<not> index_ok arr indx j then Inl Undefined
      else if strcmp (strat arr indx j) value_cur > 0 then qisort_down arr indx value_cur j
      else Inr j)"

lemma qisort_down_less: "qisort_down arr indx v j = Inr j' \<Longrightarrow> j' < j"
  by (induction j) (auto split: if_splits)

text \<open>The partitioning loop, up to the crossing of the indices.\<close>

function qisort_cross :: "cstr list \<Rightarrow> cstr \<Rightarrow> nat \<Rightarrow> nat \<Rightarrow> nat list \<Rightarrow> (nat \<times> nat \<times> nat list) res" where
  "qisort_cross arr value_cur i j indx =
     (case qisort_up arr indx value_cur i of
        Inl e \<Rightarrow> Inl e
      | Inr i' \<Rightarrow>
          (case qisort_down arr indx value_cur j of
             Inl e \<Rightarrow> Inl e
           | Inr j' \<Rightarrow>
               if j' < i' then Inr (i', j', indx)
               else qisort_cross arr value_cur i' j' (swap_at indx i' j')))"
  by pat_completeness auto
termination
  by (relation "measure (\<lambda>(arr, value_cur, i, j, indx). j)") (auto dest: qisort_down_less)

declare qisort_cross.simps [simp del]

text \<open>The partitioning of a bracket: the pivot is chosen, the loop run and the pivot put in its place.\<close>

definition qisort_partition :: "cstr list \<Rightarrow> nat list \<Rightarrow> nat \<Rightarrow> nat \<Rightarrow> (nat \<times> nat \<times> nat list) res" where
  "qisort_partition arr indx left right =
     (let center = (left + right) div 2 in
      if length indx \<le> center \<or> length indx \<le> left + 1 then Inl Undefined
      else
        bind_res (sort3 arr (swap_at indx center (left + 1)) left (left + 1) right) (\<lambda>indx1.
          let index_cur = indx1 ! (left + 1) in
          bind_res (qisort_cross arr (arr ! index_cur) (left + 1) right indx1) (\<lambda>(i, j, indx2).
            Inr (i, j, indx2[left + 1 := indx2 ! j, j := index_cur]))))"

text \<open>
  The main loop. \<^verbatim>\<open>stack_size\<close> is even and positive when the stack is popped, and within the array when it
  is written, because of the test before.
\<close>

partial_function (option) qisort_loop ::
  "cstr list \<Rightarrow> nat \<Rightarrow> nat \<Rightarrow> nat \<Rightarrow> int list \<Rightarrow> nat list \<Rightarrow> nat list res option" where
  "qisort_loop arr left right stack_size stack indx =
     (if size_sub right left < QS_M then
        (case iisort arr indx left right of
           Inl e \<Rightarrow> Some (Inl e)
         | Inr indx' \<Rightarrow>
             if stack_size = 0 then Some (Inr indx')
             else qisort_loop arr (int_to_size (stack ! (stack_size - 2))) (int_to_size (stack ! (stack_size - 1)))
                    (stack_size - 2) stack indx')
      else
        (case qisort_partition arr indx left right of
           Inl e \<Rightarrow> Some (Inl e)
         | Inr (i, j, indx') \<Rightarrow>
             if stack_size + 2 > NSTACK then Some (Inl Aborted)
             else if size_sub right i + 1 \<ge> size_sub j left then
               qisort_loop arr left (size_sub j 1) (stack_size + 2)
                 (stack[stack_size + 1 := size_to_int right, stack_size := size_to_int i]) indx'
             else
               qisort_loop arr i right (stack_size + 2)
                 (stack[stack_size + 1 := size_to_int (size_sub j 1), stack_size := size_to_int left]) indx'))"

text \<open>The contents of \<^verbatim>\<open>indx\<close> before the call do not matter, its length does.\<close>

definition qisort :: "cstr list \<Rightarrow> nat \<Rightarrow> nat list \<Rightarrow> nat list res" where
  "qisort arr n indx =
     (if length indx < n then Inl Undefined
      else
        (case qisort_loop arr 0 (size_sub n 1) 0 (replicate NSTACK 0) ([0..<n] @ drop n indx) of
           None \<Rightarrow> Inl Diverged
         | Some r \<Rightarrow> r))"

section \<open>Index arithmetic\<close>

lemma size_sub_le: "b \<le> a \<Longrightarrow> a < 2 ^ 64 \<Longrightarrow> size_sub a b = a - b"
  by (simp add: size_sub_def nat_diff_distrib')

lemma stored_size: "x < 2 ^ 31 \<Longrightarrow> int_to_size (size_to_int x) = x"
  by (simp add: int_to_size_def size_to_int_def signed_take_bit_int_eq_self)

section \<open>Permutations\<close>

lemma mset_swap_at: "a < length indx \<Longrightarrow> b < length indx \<Longrightarrow> mset (swap_at indx a b) = mset indx"
  by (simp add: swap_at_def mset_swap)

lemma swap_at_other: "k \<noteq> a \<Longrightarrow> k \<noteq> b \<Longrightarrow> swap_at indx a b ! k = indx ! k"
  by (simp add: swap_at_def)

lemma length_swap_at [simp]: "length (swap_at indx a b) = length indx"
  by (simp add: swap_at_def)

text \<open>An index array all of whose entries point to strings, as long as it is.\<close>

definition indices :: "cstr list \<Rightarrow> nat list \<Rightarrow> bool" where
  "indices arr indx \<longleftrightarrow> (\<forall>k \<in> set indx. k < length arr)"

lemma indices_ok: "indices arr indx \<Longrightarrow> k < length indx \<Longrightarrow> index_ok arr indx k"
  by (simp add: indices_def index_ok_def)

lemma indices_perm: "mset xs = mset ys \<Longrightarrow> indices arr xs \<longleftrightarrow> indices arr ys"
  by (auto simp: indices_def dest: mset_eq_setD)

lemma sort3_spec:
  assumes "indices arr indx" "a < b" "b < c" "c < length indx"
  shows "\<exists>indx'. sort3 arr indx a b c = Inr indx' \<and> mset indx' = mset indx \<and>
     strcmp (strat arr indx' b) (strat arr indx' c) \<le> 0"
proof -
  have bnd: "a < length indx" "b < length indx" using assms by auto
  define i1 where "i1 = (if strcmp (strat arr indx a) (strat arr indx c) > 0 then swap_at indx a c else indx)"
  define i2 where "i2 = (if strcmp (strat arr i1 b) (strat arr i1 c) > 0 then swap_at i1 b c else i1)"
  define i3 where "i3 = (if strcmp (strat arr i2 a) (strat arr i2 b) > 0 then swap_at i2 a b else i2)"
  have len: "length i1 = length indx" "length i2 = length indx" by (simp_all add: i1_def i2_def)
  have "indx ! a < length arr" "indx ! b < length arr" "indx ! c < length arr"
    using assms bnd by (simp_all add: indices_def)
  then have "sort3 arr indx a b c = Inr i3"
    using assms bnd by (simp add: sort3_def i1_def i2_def i3_def Let_def)
  moreover have "mset i3 = mset indx"
    using assms bnd len by (simp add: i1_def i2_def i3_def mset_swap_at)
  moreover have "strcmp (strat arr i1 a) (strat arr i1 c) \<le> 0"
    using assms bnd by (auto simp: i1_def strat_def swap_at_def not_less strcmp_antisym [of "arr ! (indx ! c)"])
  moreover have "strcmp (strat arr i2 b) (strat arr i2 c) \<le> 0 \<and> strcmp (strat arr i2 a) (strat arr i2 c) \<le> 0"
    if "strcmp (strat arr i1 a) (strat arr i1 c) \<le> 0"
    using that assms bnd len strcmp_le_trans [of "strat arr i1 a" "strat arr i1 c" "strat arr i1 b"]
    by (auto simp: i2_def strat_def swap_at_def not_less strcmp_antisym [of "arr ! (i1 ! c)"])
  ultimately show ?thesis
    using assms bnd len by (auto simp: i3_def strat_def swap_at_def)
qed

section \<open>Partitioning\<close>

text \<open>Each scan stops at a sentinel: an entry on its way that is not smaller, or not greater, than the pivot.\<close>

lemma qisort_up_stops:
  assumes "indices arr indx" "i < u" "u < length indx" "strcmp (strat arr indx u) v \<ge> 0"
  shows "\<exists>i'. qisort_up arr indx v i = Inr i' \<and> i < i' \<and> i' \<le> u"
  using assms(2)
proof (induction "u - i" arbitrary: i)
  case 0
  then show ?case by simp
next
  case (Suc d)
  have ok: "index_ok arr indx (Suc i)" using Suc.prems assms by (intro indices_ok) auto
  show ?case
  proof (cases "strcmp (strat arr indx (Suc i)) v < 0")
    case True
    then have "Suc i \<noteq> u" using assms(4) by auto
    then have "\<exists>i'. qisort_up arr indx v (Suc i) = Inr i' \<and> Suc i < i' \<and> i' \<le> u"
      using Suc by (intro Suc.hyps(1)) auto
    then show ?thesis using True ok qisort_up.simps [of arr indx v i] by auto
  next
    case False
    then show ?thesis using ok Suc.prems by (simp add: qisort_up.simps [of arr indx v i])
  qed
qed

lemma qisort_down_stops:
  assumes "indices arr indx" "d < j" "j \<le> length indx" "strcmp (strat arr indx d) v \<le> 0"
  shows "\<exists>j'. qisort_down arr indx v j = Inr j' \<and> d \<le> j' \<and> j' < j"
  using assms(2,3)
proof (induction j)
  case 0
  then show ?case by simp
next
  case (Suc j)
  have ok: "index_ok arr indx j" using Suc.prems assms by (intro indices_ok) auto
  show ?case
  proof (cases "strcmp (strat arr indx j) v > 0")
    case True
    then have "d < j" using Suc.prems(1) assms(4) by (cases "d = j") auto
    then show ?thesis using Suc True ok by auto
  next
    case False
    then show ?thesis using ok Suc.prems by simp
  qed
qed

lemma qisort_cross_ok:
  assumes "indices arr indx" "p < i \<or> p = i" "i < right" "p < j" "j \<le> right" "right < length indx"
    and "arr ! (indx ! p) = v" "strcmp (strat arr indx right) v \<ge> 0"
  shows "\<exists>i' j' indx'. qisort_cross arr v i j indx = Inr (i', j', indx') \<and> mset indx' = mset indx \<and>
     indx' ! p = indx ! p \<and> j' < i' \<and> p < i' \<and> i' \<le> right \<and> p \<le> j' \<and> j' < right"
  using assms
proof (induction arr v i j indx rule: qisort_cross.induct)
  case (1 arr v i j indx)
  note prems = "1.prems"
  obtain i' where up: "qisort_up arr indx v i = Inr i'" "i < i'" "i' \<le> right"
    using qisort_up_stops [OF prems(1,3,6,8)] by blast
  obtain j' where down: "qisort_down arr indx v j = Inr j'" "p \<le> j'" "j' < j"
    using qisort_down_stops [OF prems(1,4), of v] prems(5,6,7) by (auto simp: strat_def)
  show ?case
  proof (cases "j' < i'")
    case True
    then show ?thesis
      using up down prems by (auto simp: qisort_cross.simps [of arr v i j])
  next
    case False
    let ?indx = "swap_at indx i' j'"
    have b: "i' < length indx" "j' < length indx" "p \<noteq> i'" "p \<noteq> j'" "right \<noteq> i'" "right \<noteq> j'"
      using up down prems False by auto
    have "strat arr ?indx right = strat arr indx right" "?indx ! p = indx ! p"
      using b by (simp_all add: strat_def swap_at_other)
    moreover have "mset ?indx = mset indx" using b by (simp add: mset_swap_at)
    moreover have "qisort_cross arr v i j indx = qisort_cross arr v i' j' ?indx"
      using up(1) down(1) False by (simp add: qisort_cross.simps [of arr v i j])
    moreover have "\<exists>i'' j'' indx'. qisort_cross arr v i' j' ?indx = Inr (i'', j'', indx') \<and> mset indx' = mset ?indx \<and>
        indx' ! p = ?indx ! p \<and> j'' < i'' \<and> p < i'' \<and> i'' \<le> right \<and> p \<le> j'' \<and> j'' < right"
    proof (rule "1.IH" [OF up(1) down(1) False])
      show "indices arr ?indx" using prems(1) indices_perm [OF calculation(3)] by simp
    qed (use up down prems b False calculation in auto)
    ultimately show ?thesis by simp
  qed
qed

text \<open>Partitioning a bracket of at least three entries keeps the indices and leaves two smaller brackets.\<close>

lemma qisort_partition_ok:
  assumes "indices arr indx" "left + 1 < right" "right < length indx"
  shows "\<exists>i j indx'. qisort_partition arr indx left right = Inr (i, j, indx') \<and> mset indx' = mset indx \<and>
     j < i \<and> left + 1 < i \<and> i \<le> right \<and> left + 1 \<le> j \<and> j < right"
proof -
  let ?c = "(left + right) div 2" and ?indx0 = "swap_at indx ((left + right) div 2) (left + 1)"
  have c: "?c < length indx" "left + 1 < length indx" using assms by auto
  have m0: "mset ?indx0 = mset indx" using c by (simp add: mset_swap_at)
  have "indices arr ?indx0" using assms(1) indices_perm [OF m0] by simp
  then obtain indx1 where s3: "sort3 arr ?indx0 left (left + 1) right = Inr indx1" "mset indx1 = mset indx"
      "strcmp (strat arr indx1 (left + 1)) (strat arr indx1 right) \<le> 0"
    using sort3_spec [of arr ?indx0 left "left + 1" right] assms m0 by auto
  have l1: "length indx1 = length indx" using s3(2) by (metis size_mset)
  have "indices arr indx1" using assms(1) indices_perm [OF s3(2)] by simp
  moreover have "strcmp (strat arr indx1 right) (arr ! (indx1 ! (left + 1))) \<ge> 0"
    using s3(3) strcmp_antisym [of "strat arr indx1 (left + 1)" "strat arr indx1 right"] by (simp add: strat_def)
  ultimately obtain i j indx2 where cr:
      "qisort_cross arr (arr ! (indx1 ! (left + 1))) (left + 1) right indx1 = Inr (i, j, indx2)"
      "mset indx2 = mset indx1" "indx2 ! (left + 1) = indx1 ! (left + 1)"
      "j < i" "left + 1 < i" "i \<le> right" "left + 1 \<le> j" "j < right"
    using qisort_cross_ok [of arr indx1 "left + 1" "left + 1" right right "arr ! (indx1 ! (left + 1))"] assms l1 by auto
  have l2: "length indx2 = length indx" using cr(2) s3(2) by (metis size_mset)
  have "mset (indx2[left + 1 := indx2 ! j, j := indx1 ! (left + 1)]) = mset indx"
    using mset_swap_at [of "left + 1" indx2 j] cr s3(2) l2 c assms by (simp add: swap_at_def)
  then show ?thesis
    using c s3(1) cr by (auto simp: qisort_partition_def Let_def)
qed

section \<open>Brackets\<close>

text \<open>
  A bracket at depth \<open>k\<close> of the stack holds at most \<open>n div 2 ^ k\<close> entries, because the larger part is pushed and
  the smaller one processed. That bounds the depth.
\<close>

definition bracket_ok :: "nat \<Rightarrow> nat \<Rightarrow> nat \<Rightarrow> nat \<Rightarrow> bool" where
  "bracket_ok n k left right \<longleftrightarrow> left \<le> right \<and> right < n \<and> (right - left + 1) * 2 ^ k \<le> n"

definition stack_ok :: "nat \<Rightarrow> nat \<Rightarrow> int list \<Rightarrow> bool" where
  "stack_ok n m stack \<longleftrightarrow> length stack = NSTACK \<and> 2 * m \<le> NSTACK \<and>
     (\<forall>k < m. bracket_ok n k (int_to_size (stack ! (2 * k))) (int_to_size (stack ! (2 * k + 1))))"

definition stack_weight :: "nat \<Rightarrow> int list \<Rightarrow> nat" where
  "stack_weight m stack = (\<Sum>k < m. int_to_size (stack ! (2 * k + 1)) - int_to_size (stack ! (2 * k)) + 1)"

lemma bracket_part:
  assumes "bracket_ok n k left right" "left \<le> l" "l \<le> r" "r \<le> right"
  shows "bracket_ok n k l r"
proof -
  have "(r - l + 1) * 2 ^ k \<le> (right - left + 1) * 2 ^ k" using assms by (intro mult_le_mono1) auto
  then show ?thesis using assms unfolding bracket_ok_def by linarith
qed

lemma bracket_half:
  assumes "bracket_ok n k left right" "left \<le> l" "l \<le> r" "r \<le> right" "2 * (r - l + 1) \<le> right - left + 1"
  shows "bracket_ok n (Suc k) l r"
proof -
  have "(r - l + 1) * 2 ^ Suc k \<le> (right - left + 1) * 2 ^ k"
    using mult_le_mono1 [OF assms(5), of "2 ^ k"] by (simp add: algebra_simps)
  then show ?thesis using assms unfolding bracket_ok_def by auto
qed

lemma bracket_depth:
  assumes "bracket_ok n k left right" "right - left \<ge> 7" "n < 2 ^ 28"
  shows "k < 25"
proof (rule ccontr)
  assume "\<not> k < 25"
  then have "(2 :: nat) ^ 25 \<le> 2 ^ k" by (intro power_increasing) auto
  then have "8 * 2 ^ 25 \<le> (right - left + 1) * 2 ^ k" using assms(2) by (intro mult_le_mono) auto
  then show False using assms(1,3) by (simp add: bracket_ok_def)
qed

lemma stack_push:
  assumes "stack_ok n m stack" "m < 25" "bracket_ok n m l r" "n < 2 ^ 28"
  shows "stack_ok n (Suc m) (stack[2 * m + 1 := size_to_int r, 2 * m := size_to_int l])"
    and "stack_weight (Suc m) (stack[2 * m + 1 := size_to_int r, 2 * m := size_to_int l]) = stack_weight m stack + (r - l + 1)"
proof -
  have st: "int_to_size (size_to_int l) = l" "int_to_size (size_to_int r) = r"
    using assms(3,4) by (auto simp: bracket_ok_def intro!: stored_size)
  have len: "length stack = 50" using assms(1) by (simp add: stack_ok_def NSTACK_def)
  have old: "stack[2 * m + 1 := x, 2 * m := y] ! (2 * k) = stack ! (2 * k)"
      "stack[2 * m + 1 := x, 2 * m := y] ! (2 * k + 1) = stack ! (2 * k + 1)" if "k < m" for x y k
    using that len by (simp_all add: nth_list_update)
  show "stack_ok n (Suc m) (stack[2 * m + 1 := size_to_int r, 2 * m := size_to_int l])"
    using assms st old len by (auto simp: stack_ok_def NSTACK_def less_Suc_eq)
  show "stack_weight (Suc m) (stack[2 * m + 1 := size_to_int r, 2 * m := size_to_int l]) = stack_weight m stack + (r - l + 1)"
    using assms(2) st old len by (simp add: stack_weight_def)
qed

lemma stack_pop:
  assumes "stack_ok n (Suc m) stack"
  shows "stack_ok n m stack" "bracket_ok n m (int_to_size (stack ! (2 * m))) (int_to_size (stack ! (2 * m + 1)))"
  using assms by (simp_all add: stack_ok_def)

lemma iisort_keeps:
  assumes "indices arr indx" "left \<le> right" "right \<le> length indx"
  shows "\<exists>indx'. iisort arr indx left right = Inr indx' \<and> mset indx' = mset indx"
proof -
  have split: "indx = take left indx @ drop left (take right indx) @ drop right indx"
    using assms(2,3) by (metis append_assoc append_take_drop_id min.absorb1 take_take)
  have "\<forall>i \<in> set (drop left (take right indx)). i < length arr"
    using assms(1) by (auto simp: indices_def dest!: in_set_dropD in_set_takeD)
  then obtain S' where "iisort arr indx left right = Inr (take left indx @ S' @ drop right indx)"
      "mset S' = mset (drop left (take right indx))"
    using iisort_spec [of "take left indx" left right "drop left (take right indx)" arr "drop right indx"] assms(2,3) split
    by auto
  then show ?thesis using split by (metis mset_append)
qed

section \<open>The whole sort\<close>

lemma qisort_loop_returns:
  assumes "indices arr indx" "length indx = n" "n < 2 ^ 28" "bracket_ok n m left right" "stack_ok n m stack"
  shows "\<exists>indx'. qisort_loop arr left right (2 * m) stack indx = Some (Inr indx') \<and> mset indx' = mset indx"
  using assms
proof (induction "right - left + 1 + stack_weight m stack" arbitrary: m left right stack indx rule: less_induct)
  case less
  note prems = less.prems
  have b: "left \<le> right" "right < n" "right < 2 ^ 64" using prems(3,4) by (auto simp: bracket_ok_def)
  show ?case
  proof (cases "right - left < 7")
    case small: True
    obtain indx' where ii: "iisort arr indx left right = Inr indx'" "mset indx' = mset indx"
      using iisort_keeps [OF prems(1), of left right] b prems(2) by auto
    show ?thesis
    proof (cases m)
      case 0
      then show ?thesis using ii b small by (simp add: qisort_loop.simps size_sub_le QS_M_def)
    next
      case (Suc k)
      have "\<exists>indx''. qisort_loop arr (int_to_size (stack ! (2 * k))) (int_to_size (stack ! (2 * k + 1))) (2 * k) stack indx' =
          Some (Inr indx'') \<and> mset indx'' = mset indx'"
      proof (rule less.hyps)
        show "indices arr indx'" using prems(1) indices_perm [OF ii(2)] by simp
        show "length indx' = n" using prems(2) ii(2) by (metis size_mset)
        show "bracket_ok n k (int_to_size (stack ! (2 * k))) (int_to_size (stack ! (2 * k + 1)))" "stack_ok n k stack"
          using stack_pop prems(5) Suc by auto
      qed (use prems(3) Suc in \<open>simp_all add: stack_weight_def\<close>)
      then show ?thesis
        using ii b small Suc by (auto simp: qisort_loop.simps [of arr left] size_sub_le QS_M_def)
    qed
  next
    case large: False
    obtain i j indx' where pt: "qisort_partition arr indx left right = Inr (i, j, indx')" "mset indx' = mset indx"
        "j < i" "left + 1 < i" "i \<le> right" "left + 1 \<le> j" "j < right"
    proof -
      have "left + 1 < right" "right < length indx" using large b prems(2) by auto
      then show ?thesis using qisort_partition_ok [OF prems(1)] that by blast
    qed
    have m: "m < 25" using bracket_depth [OF prems(4) _ prems(3)] large by simp
    have sub: "size_sub right left = right - left" "size_sub right i = right - i" "size_sub j left = j - left" "size_sub j 1 = j - 1"
      using b pt by (auto intro!: size_sub_le)
    have next_ok: "indices arr indx'" "length indx' = n"
      using prems(1,2) indices_perm [OF pt(2)] pt(2) by (simp, metis size_mset)
    have step: "qisort_loop arr left right (2 * m) stack indx =
        (if right - i + 1 \<ge> j - left
         then qisort_loop arr left (j - 1) (2 * Suc m) (stack[2 * m + 1 := size_to_int right, 2 * m := size_to_int i]) indx'
         else qisort_loop arr i right (2 * Suc m) (stack[2 * m + 1 := size_to_int (j - 1), 2 * m := size_to_int left]) indx')"
      by (subst qisort_loop.simps) (use large m in \<open>simp add: sub [simplified] pt(1) QS_M_def NSTACK_def\<close>)
    show ?thesis
    proof (cases "right - i + 1 \<ge> j - left")
      case True
      let ?st = "stack[2 * m + 1 := size_to_int right, 2 * m := size_to_int i]"
      have br: "bracket_ok n m i right" "bracket_ok n (Suc m) left (j - 1)"
        using prems(4) pt True by (auto intro: bracket_part bracket_half)
      have "\<exists>indx''. qisort_loop arr left (j - 1) (2 * Suc m) ?st indx' = Some (Inr indx'') \<and> mset indx'' = mset indx'"
        using stack_push [OF prems(5) m br(1) prems(3)] pt
        by (intro less.hyps next_ok prems(3) br) auto
      then show ?thesis using True pt(2) by (simp only: step if_True)
    next
      case False
      let ?st = "stack[2 * m + 1 := size_to_int (j - 1), 2 * m := size_to_int left]"
      have br: "bracket_ok n m left (j - 1)" "bracket_ok n (Suc m) i right"
        using prems(4) pt False by (auto intro: bracket_part bracket_half)
      have "\<exists>indx''. qisort_loop arr i right (2 * Suc m) ?st indx' = Some (Inr indx'') \<and> mset indx'' = mset indx'"
        using stack_push [OF prems(5) m br(1) prems(3)] pt
        by (intro less.hyps next_ok prems(3) br) auto
      then show ?thesis using False pt(2) by (simp only: step if_False)
    qed
  qed
qed

lemma qisort_start:
  "0 < n \<Longrightarrow> n < 2 ^ 28 \<Longrightarrow> length indx = n \<Longrightarrow>
     qisort arr n indx =
       (case qisort_loop arr 0 (n - 1) 0 (replicate NSTACK 0) [0..<n] of None \<Rightarrow> Inl Diverged | Some r \<Rightarrow> r)"
  by (simp add: qisort_def size_sub_le)

lemma qisort_permutes:
  assumes "0 < n" "n < 2 ^ 28" "length arr = n" "length indx = n"
  shows "\<exists>indx'. qisort arr n indx = Inr indx' \<and> mset indx' = mset [0..<n]"
proof -
  have "bracket_ok n 0 0 (n - 1)" "stack_ok n 0 (replicate NSTACK 0)" "indices arr [0..<n]"
    using assms(1,3) by (auto simp: bracket_ok_def stack_ok_def indices_def)
  then have "\<exists>indx'. qisort_loop arr 0 (n - 1) (2 * 0) (replicate NSTACK 0) [0..<n] = Some (Inr indx') \<and> mset indx' = mset [0..<n]"
    using assms(2) by (intro qisort_loop_returns) auto
  then show ?thesis using qisort_start [OF assms(1,2,4)] by auto
qed

lemma qisort_leaves_last:
  assumes "0 < n" "n \<le> 7" "length arr = n" "length indx = n"
  shows "\<exists>S. qisort arr n indx = Inr (S @ [n - 1]) \<and> mset S = mset [0..<n - 1] \<and> index_sorted arr S"
proof -
  have "[] @ [0..<n - 1] @ [n - 1] = [0..<n]" using assms(1) by (cases n) auto
  moreover obtain S where "iisort arr ([] @ [0..<n - 1] @ [n - 1]) 0 (n - 1) = Inr ([] @ S @ [n - 1])"
      "mset S = mset [0..<n - 1]" "index_sorted arr S"
  proof -
    have "\<forall>i \<in> set [0..<n - 1]. i < length arr" using assms(3) by auto
    then show ?thesis using iisort_spec [of "[]" 0 "n - 1" "[0..<n - 1]" arr "[n - 1]"] that by auto
  qed
  ultimately show ?thesis
    using assms qisort_start [of n indx arr] by (auto simp: qisort_loop.simps size_sub_le QS_M_def)
qed

text \<open>
  C38. The quicksort returns and does not sort: for a non-empty array of fewer than \<open>2 ^ 28\<close> strings it neither leaves its arrays,
  nor overruns its stack, nor runs forever, and it yields every index once. But up to seven strings, the last string stays
  the last one wherever it belongs, and only the strings before it are put in order.
\<close>

theorem qisort_outcome:
  assumes "0 < n" "n < 2 ^ 28" "length arr = n" "length indx = n"
  shows "\<exists>indx'. qisort arr n indx = Inr indx' \<and> mset indx' = mset [0..<n] \<and>
     (n \<le> 7 \<longrightarrow> last indx' = n - 1 \<and> index_sorted arr (butlast indx'))"
  using qisort_permutes [OF assms] qisort_leaves_last [OF assms(1) _ assms(3,4)] by fastforce

theorem qisort_outcome_witness:
  "strcmp (lit ''b'') (lit ''a'') > 0 \<and> (\<exists>indx'. qisort [lit ''b'', lit ''a''] 2 [0, 0] = Inr indx' \<and> last indx' = 1) \<and>
   (\<exists>indx'. qisort [lit ''now'', lit ''is'', lit ''the'', lit ''time'', lit ''for'', lit ''all'', lit ''good'', lit ''men''] 8
     (replicate 8 0) = Inr indx' \<and> mset indx' = mset [0..<8])"
  using qisort_outcome [of 2 "[lit ''b'', lit ''a'']" "[0, 0]"]
    qisort_outcome [of 8 "[lit ''now'', lit ''is'', lit ''the'', lit ''time'', lit ''for'', lit ''all'', lit ''good'', lit ''men'']" "replicate 8 0"]
  by (auto simp: lit_def)

end
