(* ===== verification/Lj_Lib.thy ===== *)
theory Lj_Lib
  imports Joza_Validate
begin

text \<open>
  The helpers of the client library, \<^verbatim>\<open>libjoza/joza_lib.c\<close>, that a worker uses to name the codes it receives and to
  check and negotiate facilities before it sends them. Definitions have the C names with the prefix \<open>lj_\<close>, because the
  broker has functions of the same names. An enumeration is an unsigned 32-bit number, as the range checks of the
  library expect. A table of names has fixed dimensions in C: rows without an initializer are empty strings, and two
  literals without a comma between them are one row.

  The theory compares the helpers with the functions of the broker: where both are defined they throttle and convert
  throughputs alike, but they negotiate around different defaults.
\<close>

section \<open>Enumerations and tables\<close>

definition lj_WINDOW_MIN :: u16 where "lj_WINDOW_MIN = 1"
definition lj_WINDOW_MAX :: u16 where "lj_WINDOW_MAX = 32767"

definition lj_c_last :: u32 where "lj_c_last = 14"
definition lj_d_last :: u32 where "lj_d_last = 65"

definition lj_direction_bidirectional :: u32 where "lj_direction_bidirectional = 0"
definition lj_direction_input_barred :: u32 where "lj_direction_input_barred = 1"
definition lj_direction_output_barred :: u32 where "lj_direction_output_barred = 2"
definition lj_direction_io_barred :: u32 where "lj_direction_io_barred = 3"
definition lj_direction_last :: u32 where "lj_direction_last = lj_direction_io_barred"

definition lj_p_16_bytes :: u32 where "lj_p_16_bytes = 4"
definition lj_p_4_Kbytes :: u32 where "lj_p_4_Kbytes = 12"
definition lj_p_first :: u32 where "lj_p_first = lj_p_16_bytes"
definition lj_p_last :: u32 where "lj_p_last = lj_p_4_Kbytes"

definition lj_t_75bps :: u32 where "lj_t_75bps = 3"
definition lj_t_64kbps :: u32 where "lj_t_64kbps = 13"
definition lj_t_2048kbps :: u32 where "lj_t_2048kbps = 44"
definition lj_t_first :: u32 where "lj_t_first = lj_t_75bps"
definition lj_t_default :: u32 where "lj_t_default = lj_t_64kbps"
definition lj_t_last :: u32 where "lj_t_last = lj_t_2048kbps"

definition lj_cause_names :: "string list" where
  "lj_cause_names =
     [''unspecified'', ''worker originated'', ''number busy'', ''out of order'', ''remote procedure error'',
     ''reverse charging acceptance not subscribed'', ''incompatible destination'',
     ''fast select acceptance not subscribed'', ''ship absent'', ''invalid facility request'', ''access barred'',
     ''local procedure error'', ''network congestion'', ''not obtainable'', ''ROA out of order'', ''invalid cause'']"

definition lj_diagnostic_names :: "string list" where
  "lj_diagnostic_names =
     [''unspecified'', ''invalid P(S)'', ''invalid P(R)'', ''packet type invalid'',
     ''packet type invalid for state s1'', ''packet type invalid for state s2'',
     ''packet type invalid for state s3'', ''packet type invalid for state s4'',
     ''packet type invalid for state s5'', ''packet type invalid for state s6'',
     ''packet type invalid for state s7'', ''packet type invalid for state s8'',
     ''packet type invalid for state s9'', ''packet not allowed'', ''unidentifiable packet'',
     ''call on one-way logical channel'', ''invalid packet type on a permanent virtual circuit'',
     ''packet on unassigned logical channel'', ''reject not subscribed topacket too short'', ''packet too long'',
     ''invalid general format identifier'', ''restart packet with non-zero logical channel'',
     ''packet type not compatible with facility'', ''unauthorized interrupt confirmation'',
     ''unauthorized interrupt'', ''unauthorized rejectTOA/NPI address subscription facility not subscribed to'',
     ''time expired'', ''time expired for incoming call'', ''time expired for clear indication'',
     ''time expired for reset indication'', ''time expired for restart indication'',
     ''time expired for call deflection'', ''call set-up or clearing problem'', ''facility code not allowed'',
     ''facility parameter not allowed'', ''invalid called address'', ''invalid calling address'',
     ''incoming call barred'', ''no logical channel available'', ''call collision'',
     ''duplicate facility request'', ''non-zero address length'', ''non-zero facility length'',
     ''facility no provided when expected'', ''maximum number of call redirections exceeded'',
     ''miscellaneous problem'', ''improper cause code from worker'', ''not aligned octet'',
     ''inconsistent Q-bit setting'', ''NUI problem'', ''ICRD problem'', ''not assigned problem'',
     ''international problem'', ''remote network problem'', ''international protocol problem'',
     ''international link out of order'', ''international link busy'', ''transit network facility problem'',
     ''remote network facility problem'', ''international routing problem'', ''temporary routing problem'',
     ''unknown called DNIC'', ''maintenance action'', ''invalid diagnostic''] @ replicate 3 ''''"

definition lj_direction_name_arr :: "string list" where
  "lj_direction_name_arr =
     [''bidirectional'', ''incoming calls barred'', ''outgoing calls barred'', ''calls barred'',
     ''invalid direction'']"

definition lj_throughput_bps_arr :: "u32 list" where
  "lj_throughput_bps_arr =
     [0, 0, 0, 75, 150, 300, 600, 1200, 2400, 4800, 9600, 19200, 48000, 64000, 128000, 192000, 256000, 320000,
     384000, 448000, 512000, 578000, 640000, 704000, 768000, 832000, 896000, 960000, 1024000, 1088000, 1152000,
     1216000, 1280000, 1344000, 1408000, 1472000, 1536000, 1600000, 1664000, 1728000, 1792000, 1856000, 1920000,
     1984000, 2048000]"

definition lj_throughput_names :: "string list" where
  "lj_throughput_names =
     [''unspecified'', ''reserved'', ''reserved'', ''75 bps'', ''150 bps'', ''300 bps'', ''600 bps'', ''1.2 kbps'',
     ''2.4 kbps'', ''4.8 kbps'', ''9.6 kbps'', ''19.2 kbps'', ''48 kbps'', ''64 kbps'', ''128 kbps'',
     ''192 kbps'', ''256 kbps'', ''320 kbps'', ''384 kbps'', ''448 kbps'', ''512 kbps'', ''640 kbps'',
     ''704 kbps'', ''768 kbps'', ''832 kbps'', ''896 kbps'', ''960 kbps'', ''1.024 Mbps'', ''1.088 Mbps'',
     ''1.152 Mbps'', ''1.216 Mbps'', ''1.28 Mbps'', ''1.344 Mpbs'', ''1.408 Mbps'', ''1.472 Mbps'',
     ''1.536 Mbps'', ''1.6 Mbps'', ''1.664 Mbps'', ''1.728 Mbps'', ''1.856 Mbps'', ''1.928 Mbps'', ''1.984 Mbps'',
     ''2.048 Mbps'', ''invalid throughput''] @ replicate 2 ''''"

lemmas lj_limits = lj_WINDOW_MIN_def lj_WINDOW_MAX_def
lemmas lj_direction_enum = lj_direction_bidirectional_def lj_direction_input_barred_def lj_direction_output_barred_def
  lj_direction_io_barred_def lj_direction_last_def
lemmas lj_packet_enum = lj_p_16_bytes_def lj_p_4_Kbytes_def lj_p_first_def lj_p_last_def
lemmas lj_throughput_enum = lj_t_75bps_def lj_t_64kbps_def lj_t_2048kbps_def lj_t_first_def lj_t_default_def lj_t_last_def

section \<open>Names\<close>

definition lj_cause_name :: "u32 \<Rightarrow> string" where
  "lj_cause_name c =
     (if c > lj_c_last then lj_cause_names ! (unat lj_c_last + 1) else lj_cause_names ! unat c)"

definition lj_diagnostic_name :: "u32 \<Rightarrow> string" where
  "lj_diagnostic_name d =
     (if d > lj_d_last then lj_diagnostic_names ! (unat lj_d_last + 1) else lj_diagnostic_names ! unat d)"

definition lj_direction_name :: "u32 \<Rightarrow> string" where
  "lj_direction_name d =
     (if d > lj_direction_last then lj_direction_name_arr ! (unat lj_direction_last + 1)
      else lj_direction_name_arr ! unat d)"

definition lj_throughput_name :: "u32 \<Rightarrow> string" where
  "lj_throughput_name t =
     (if t > lj_t_last then lj_throughput_names ! (unat lj_t_last + 1) else lj_throughput_names ! unat t)"

section \<open>Facilities\<close>

definition lj_direction_validate :: "u32 \<Rightarrow> bool" where
  "lj_direction_validate d \<longleftrightarrow> d \<le> lj_direction_last"

text \<open>
  \<^verbatim>\<open>valid\<close> is a pointer to the flag that is set; \<open>None\<close> is the null pointer, which only the negotiation of
  throughputs expects. The result is the value with the flag after the call.
\<close>

definition lj_direction_negotiate :: "u32 \<Rightarrow> u32 \<Rightarrow> bool option \<Rightarrow> (u32 \<times> bool option) res" where
  "lj_direction_negotiate r c valid =
     (case valid of
        None \<Rightarrow> Inl Undefined
      | Some _ \<Rightarrow> Inr (
          if c = lj_direction_io_barred \<and> r \<noteq> lj_direction_io_barred then (c, Some False)
          else if c = lj_direction_input_barred \<and> (r = lj_direction_bidirectional \<or> r = lj_direction_output_barred)
            then (c, Some False)
          else if c = lj_direction_output_barred \<and> (r = lj_direction_bidirectional \<or> r = lj_direction_input_barred)
            then (c, Some False)
          else (r, Some True)))"

definition lj_packet_validate :: "u32 \<Rightarrow> bool" where
  "lj_packet_validate p = (if p < lj_p_first \<or> p > lj_p_last then False else True)"

definition lj_throughput_validate :: "u32 \<Rightarrow> bool" where
  "lj_throughput_validate p = (if p < lj_t_first \<or> p > lj_t_last then False else True)"

definition lj_throughput_throttle :: "u32 \<Rightarrow> u32 \<Rightarrow> u32" where
  "lj_throughput_throttle request limit =
     (let R = request; L = limit;
          R = (if R < lj_t_first then lj_t_first else R);
          R = (if R > lj_t_last then lj_t_last else R);
          L = (if L < lj_t_first then lj_t_first else L);
          L = (if L > lj_t_last then lj_t_last else L)
      in if R > L then L else R)"

definition lj_throughput_negotiate :: "u32 \<Rightarrow> u32 \<Rightarrow> bool option \<Rightarrow> u32 \<times> bool option" where
  "lj_throughput_negotiate r c valid =
     (let R = r; C = c;
          R = (if R < lj_t_first then lj_t_first else R);
          R = (if R > lj_t_last then lj_t_last else R);
          C = (if C < lj_t_first then lj_t_first else C);
          C = (if C > lj_t_last then lj_t_last else C)
      in if C \<ge> lj_t_default \<and> (R > C \<or> R < lj_t_default) then (C, map_option (\<lambda>_. False) valid)
         else if C \<le> lj_t_default \<and> (R < C \<or> R > lj_t_default) then (C, map_option (\<lambda>_. False) valid)
         else (R, map_option (\<lambda>_. True) valid))"

definition lj_throughput_bps :: "u32 \<Rightarrow> u32" where
  "lj_throughput_bps p =
     (let R = p;
          R = (if R < lj_t_first then lj_t_first else R);
          R = (if R > lj_t_last then lj_t_last else R)
      in lj_throughput_bps_arr ! unat R)"

definition lj_window_validate :: "u16 \<Rightarrow> bool" where
  "lj_window_validate p = (if p < lj_WINDOW_MIN \<or> p > lj_WINDOW_MAX then False else True)"

definition lj_window_throttle :: "u16 \<Rightarrow> u16 \<Rightarrow> u16" where
  "lj_window_throttle request limit =
     (let R = request; L = limit;
          R = (if R < lj_WINDOW_MIN then lj_WINDOW_MIN else R);
          R = (if R > lj_WINDOW_MAX then lj_WINDOW_MAX else R);
          L = (if L < lj_WINDOW_MIN then lj_WINDOW_MIN else L);
          L = (if L > lj_WINDOW_MAX then lj_WINDOW_MAX else L)
      in if R > L then L else R)"

text \<open>The loop over the characters clears \<^verbatim>\<open>safe\<close> and goes on.\<close>

fun lj_address_loop :: "cstr \<Rightarrow> bool \<Rightarrow> bool" where
  "lj_address_loop [] safe = safe"
| "lj_address_loop (c # cs) safe = lj_address_loop cs (if c \<ge> 128 \<or> c \<le> 31 then False else safe)"

definition lj_address_validate :: "cstr option \<Rightarrow> bool res" where
  "lj_address_validate str =
     (case str of
        None \<Rightarrow> Inl Undefined
      | Some s \<Rightarrow>
          let len = length s in
          Inr (if len = 0 \<or> len > 16 then False
               else let safe = lj_address_loop s True in
                    if s ! 0 = 32 \<or> s ! (len - 1) = 32 then False else safe))"

section \<open>Facilities of the library and of the broker\<close>

lemma lj_throughput_validate_iff: "lj_throughput_validate t \<longleftrightarrow> tput_rngchk (unat t) = 0"
  by (auto simp: lj_throughput_validate_def lj_throughput_enum tput_rngchk_0 word_less_nat_alt)

lemma lj_packet_validate_iff: "lj_packet_validate p \<longleftrightarrow> packet_rngchk (unat p) = 0"
  by (auto simp: lj_packet_validate_def lj_packet_enum packet_rngchk_0 word_less_nat_alt)

text \<open>The value that the library uses in place of a throughput out of range.\<close>

definition lj_clamp :: "u32 \<Rightarrow> u32" where
  "lj_clamp t = min (max t lj_t_first) lj_t_last"

lemma lj_clamp_id: "lj_throughput_validate t \<Longrightarrow> lj_clamp t = t"
  by (auto simp: lj_clamp_def lj_throughput_validate_def min_def max_def not_less split: if_splits)

lemma lj_clamped:
  "(let R = (if t < lj_t_first then lj_t_first else t) in if R > lj_t_last then lj_t_last else R) = lj_clamp t"
  by (auto simp: lj_clamp_def min_def max_def not_le not_less Let_def)

lemma lj_throttle_eq: "lj_throughput_throttle r l = min (lj_clamp r) (lj_clamp l)"
  by (auto simp: lj_throughput_throttle_def lj_clamped [symmetric] Let_def min_def not_le)

lemma lj_bps_eq: "lj_throughput_bps t = lj_throughput_bps_arr ! unat (lj_clamp t)"
  by (simp add: lj_throughput_bps_def lj_clamped [symmetric] Let_def)

lemma lj_negotiate_eq:
  "lj_throughput_negotiate r c valid =
     (if min lj_t_default (lj_clamp c) \<le> lj_clamp r \<and> lj_clamp r \<le> max lj_t_default (lj_clamp c)
      then (lj_clamp r, map_option (\<lambda>_. True) valid) else (lj_clamp c, map_option (\<lambda>_. False) valid))"
proof -
  have "lj_throughput_negotiate r c valid =
     (let R = lj_clamp r; C = lj_clamp c in
      if C \<ge> lj_t_default \<and> (R > C \<or> R < lj_t_default) then (C, map_option (\<lambda>_. False) valid)
      else if C \<le> lj_t_default \<and> (R < C \<or> R > lj_t_default) then (C, map_option (\<lambda>_. False) valid)
      else (R, map_option (\<lambda>_. True) valid))"
    unfolding lj_throughput_negotiate_def lj_clamped [symmetric] Let_def by (rule refl)
  then show ?thesis by (auto simp: Let_def min_def max_def not_le not_less)
qed

lemma lj_rates: "lj_throughput_bps_arr = map of_nat tput_rate"
  by (simp add: lj_throughput_bps_arr_def tput_rate_def)

lemma tput_rate_bound: "x \<in> set tput_rate \<Longrightarrow> x < 2 ^ 32"
  by (auto simp: tput_rate_def)

text \<open>
  The library and the broker throttle and convert throughputs in range to the same values.
\<close>

theorem lj_throughput_agrees:
  assumes "tput_rngchk (unat r) = 0" "tput_rngchk (unat l) = 0"
  shows "tput_throttle (unat r) (unat l) = Inr (unat (lj_throughput_throttle r l)) \<and>
     tput_bps (unat r) = Inr (unat (lj_throughput_bps r))"
proof -
  have c: "lj_clamp r = r" "lj_clamp l = l" using assms by (simp_all add: lj_clamp_id lj_throughput_validate_iff)
  have len: "unat r < length tput_rate" using assms(1) by (simp add: tput_rngchk_0 tput_rate_def)
  have "tput_throttle (unat r) (unat l) = Inr (unat (min r l))"
    using assms by (auto simp: tput_throttle_def min_def word_le_nat_alt)
  moreover have "unat (of_nat (tput_rate ! unat r) :: u32) = tput_rate ! unat r"
    using tput_rate_bound [OF nth_mem [OF len]] by (simp add: unat_of_nat take_bit_eq_mod)
  ultimately show ?thesis
    using assms len by (simp add: tput_bps_def lj_throttle_eq lj_bps_eq lj_rates c)
qed

theorem lj_throughput_agrees_witness:
  "tput_throttle 20 13 = Inr (unat (lj_throughput_throttle 20 13)) \<and> tput_bps 20 = Inr (unat (lj_throughput_bps 20))"
  using lj_throughput_agrees [of 20 13] by (simp add: tput_rngchk_0)

lemma between_pivots:
  "((min 13 c \<le> r \<and> r \<le> max 13 c) \<noteq> (min 10 c \<le> r \<and> r \<le> max 10 c)) \<longleftrightarrow>
     10 \<le> r \<and> r \<le> 13 \<and> r \<noteq> c \<and> \<not> (r = 10 \<and> c < 10) \<and> \<not> (r = 13 \<and> 13 < c)" for r c :: nat
  unfolding min_def max_def by presburger

text \<open>
  C39. The library and the broker negotiate throughputs differently: a worker that asks the library accepts values between
  64 kbps and the current one, the broker values between 9.6 kbps and the current one. They disagree for exactly the
  requests from 9.6 to 64 kbps that differ from the current value and are not the end of both ranges.
\<close>

theorem lj_throughput_negotiate_disagrees:
  assumes "tput_rngchk (unat r) = 0" "tput_rngchk (unat c) = 0"
  shows "(lj_throughput_negotiate r c (Some b) = (r, Some True)) \<noteq> (tput_negotiate (unat r) (unat c) = Inr True) \<longleftrightarrow>
     10 \<le> r \<and> r \<le> 13 \<and> r \<noteq> c \<and> \<not> (r = 10 \<and> c < 10) \<and> \<not> (r = 13 \<and> 13 < c)"
proof -
  have k: "lj_clamp r = r" "lj_clamp c = c" using assms by (simp_all add: lj_clamp_id lj_throughput_validate_iff)
  have "lj_throughput_negotiate r c (Some b) = (r, Some True) \<longleftrightarrow> min 13 (unat c) \<le> unat r \<and> unat r \<le> max 13 (unat c)"
    by (auto simp: lj_negotiate_eq k lj_throughput_enum word_le_nat_alt min_def max_def)
  moreover have "tput_negotiate (unat r) (unat c) = Inr True \<longleftrightarrow> min 10 (unat c) \<le> unat r \<and> unat r \<le> max 10 (unat c)"
    using assms by (simp add: tput_facility.accepted_iff tput_enum)
  ultimately show ?thesis
    using between_pivots [of "unat c" "unat r"] by (simp add: word_le_nat_alt word_less_nat_alt word_unat_eq_iff)
qed

theorem lj_throughput_negotiate_disagrees_witness:
  "lj_throughput_negotiate 10 20 (Some False) \<noteq> (10, Some True) \<and> tput_negotiate 10 20 = Inr True"
  using lj_throughput_negotiate_disagrees [of 10 20 False] by (simp add: tput_rngchk_0 tput_negotiate_def tput_enum)

text \<open>
  Directions: an answer is accepted exactly when it bars every kind of call that the current value bars, and otherwise the
  current value stays. The two bits of a direction bar incoming and outgoing calls.
\<close>

theorem lj_direction_negotiate_correct:
  assumes "lj_direction_validate r" "lj_direction_validate c"
  shows "lj_direction_negotiate r c (Some b) = Inr (if r AND c = c then (r, Some True) else (c, Some False))"
proof -
  have "x = 0 \<or> x = 1 \<or> x = 2 \<or> x = 3" if "x \<le> 3" for x :: u32
    using that by (simp add: word_le_nat_alt word_unat_eq_iff) linarith
  then have "r = 0 \<or> r = 1 \<or> r = 2 \<or> r = 3" "c = 0 \<or> c = 1 \<or> c = 2 \<or> c = 3"
    using assms by (simp_all add: lj_direction_validate_def lj_direction_enum)
  then show ?thesis
    by (elim disjE) (simp_all add: lj_direction_negotiate_def lj_direction_enum)
qed

theorem lj_direction_negotiate_correct_witness:
  "lj_direction_negotiate 2 1 (Some True) = Inr (1, Some False)"
  using lj_direction_negotiate_correct [of 2 1 True] by (simp add: lj_direction_validate_def lj_direction_enum)

text \<open>
  Windows: whatever is asked for and whatever the limit, the result is a window the library accepts, and neither is exceeded
  when it is one itself.
\<close>

theorem lj_window_throttle_bounds:
  "lj_window_validate (lj_window_throttle r l) \<and> (lj_window_validate r \<longrightarrow> lj_window_throttle r l \<le> r) \<and>
   (lj_window_validate l \<longrightarrow> lj_window_throttle r l \<le> l) \<and>
   (lj_window_validate r \<and> lj_window_validate l \<longrightarrow> lj_window_throttle r l = min r l)"
  unfolding lj_window_throttle_def lj_window_validate_def lj_limits Let_def word_le_nat_alt word_less_nat_alt min_def
  by (auto split: if_splits)

theorem lj_window_throttle_bounds_witness:
  "lj_window_validate 7 \<and> lj_window_throttle 40000 7 = 7 \<and> lj_window_throttle 9 7 = min 9 7"
  using lj_window_throttle_bounds [of 9 7] by (simp add: lj_window_validate_def lj_window_throttle_def lj_limits)

section \<open>Names of workers\<close>

lemma lj_address_loop_eq: "lj_address_loop s safe \<longleftrightarrow> safe \<and> (\<forall>c \<in> set s. 32 \<le> c \<and> c < 128)"
proof (induction s arbitrary: safe)
  case (Cons c s)
  have "c \<ge> 128 \<or> c \<le> 31 \<longleftrightarrow> \<not> (32 \<le> c \<and> c < 128)" by (auto simp: word_le_nat_alt word_less_nat_alt)
  then show ?case using Cons.IH by auto
qed simp

lemma lj_address_validate_eq:
  "lj_address_validate (Some s) =
     Inr (s \<noteq> [] \<and> length s \<le> 16 \<and> (\<forall>c \<in> set s. 32 \<le> c \<and> c < 128) \<and> hd s \<noteq> 32 \<and> last s \<noteq> 32)"
  by (cases "s = []") (auto simp: lj_address_validate_def lj_address_loop_eq Let_def hd_conv_nth last_conv_nth)

lemma val_mid_printable: "val_mid c \<Longrightarrow> 32 \<le> c \<and> c < 128"
  by (auto simp: val_mid_def isalnum_def p_mid_def lit_def word_le_nat_alt word_less_nat_alt)

text \<open>
  A name that the broker accepts is accepted by the library, unless it has 16 characters and ends in a blank.
\<close>

theorem lj_address_covers_broker:
  assumes "valid_name (Some s)"
  shows "lj_address_validate (Some s) = Inr (\<not> (length s = NAME_LEN \<and> last s = 32))"
proof -
  obtain c t where s: "s = c # t" "val_init c" "\<forall>d \<in> set t. val_mid d" "length s \<le> 16" "length s < 16 \<longrightarrow> last s \<noteq> 32"
    using assms by (cases s) (auto simp: valid_name_def NAME_LEN_def)
  have "\<forall>d \<in> set s. 32 \<le> d \<and> d < 128" "hd s \<noteq> 32" "s \<noteq> []"
    using s val_init_mid [OF s(2)] by (auto simp: val_mid_printable)
  then show ?thesis using s(4,5) by (auto simp: lj_address_validate_eq NAME_LEN_def)
qed

theorem lj_address_covers_broker_witness:
  "lj_address_validate (Some (lit ''ALICE'')) = Inr (\<not> (length (lit ''ALICE'') = NAME_LEN \<and> last (lit ''ALICE'') = 32))"
  by (rule lj_address_covers_broker)
    (simp add: valid_name_def lit_def NAME_LEN_def val_init_def val_mid_def isalnum_def)

text \<open>
  The tables of names are out of step with the enumerations: from the first missing row on, a code has the name
  of another one, and the last codes, like every code out of range, have no name at all.
\<close>

theorem lj_names_shifted:
  "lj_throughput_name 21 = ''640 kbps'' \<and> lj_throughput_bps 21 = 578000 \<and> lj_throughput_name 43 = ''invalid throughput'' \<and>
   (t > 43 \<longrightarrow> lj_throughput_name t = '''') \<and>
   lj_diagnostic_name 19 = ''packet too long'' \<and> lj_diagnostic_name 63 = ''invalid diagnostic'' \<and>
   (d > 63 \<longrightarrow> lj_diagnostic_name d = '''')"
proof -
  have 1: "lj_throughput_name t = ''''" if "t > 43"
  proof (cases "t > lj_t_last")
    case False
    then have "t = 44" using that by (simp add: lj_throughput_enum word_le_nat_alt word_less_nat_alt word_unat_eq_iff)
    then show ?thesis by (simp add: lj_throughput_name_def lj_throughput_enum lj_throughput_names_def)
  qed (simp add: lj_throughput_name_def lj_throughput_enum lj_throughput_names_def)
  have 2: "lj_diagnostic_name d = ''''" if "d > 63"
  proof (cases "d > lj_d_last")
    case False
    then have "d = 64 \<or> d = 65" using that by (simp add: lj_d_last_def word_le_nat_alt word_less_nat_alt word_unat_eq_iff) linarith
    then show ?thesis by (auto simp: lj_diagnostic_name_def lj_d_last_def lj_diagnostic_names_def)
  qed (simp add: lj_diagnostic_name_def lj_d_last_def lj_diagnostic_names_def)
  show ?thesis
    using 1 2 by (simp add: lj_throughput_name_def lj_throughput_enum lj_throughput_names_def lj_diagnostic_name_def lj_d_last_def
        lj_diagnostic_names_def lj_throughput_bps_def lj_throughput_bps_arr_def Let_def)
qed

theorem lj_names_shifted_witness: "lj_throughput_name 99 = '''' \<and> lj_diagnostic_name 65 = ''''"
  using lj_names_shifted [of 99 65] by simp

end
