(* ===== verification/Jz_Crc.thy ===== *)
theory Jz_Crc
  imports Joza_Codec
begin

text \<open>
  The checksum of \<^verbatim>\<open>application10/crc.c\<close>, which protects the body of every message of the
  application server. The code advances the remainder by a byte with a table of 256 entries;
  the reference here divides by the polynomial one bit at a time. The results are that the two
  agree, that the remainder is an invertible function of the first four bytes, and from it that
  damage confined to four consecutive bytes always changes the checksum.
\<close>

section \<open>The code\<close>

definition crc_table :: "u32 list" where
  "crc_table = [
     0x00000000, 0x04C11DB7, 0x09823B6E, 0x0D4326D9, 0x130476DC, 0x17C56B6B, 0x1A864DB2, 0x1E475005,
     0x2608EDB8, 0x22C9F00F, 0x2F8AD6D6, 0x2B4BCB61, 0x350C9B64, 0x31CD86D3, 0x3C8EA00A, 0x384FBDBD,
     0x4C11DB70, 0x48D0C6C7, 0x4593E01E, 0x4152FDA9, 0x5F15ADAC, 0x5BD4B01B, 0x569796C2, 0x52568B75,
     0x6A1936C8, 0x6ED82B7F, 0x639B0DA6, 0x675A1011, 0x791D4014, 0x7DDC5DA3, 0x709F7B7A, 0x745E66CD,
     0x9823B6E0, 0x9CE2AB57, 0x91A18D8E, 0x95609039, 0x8B27C03C, 0x8FE6DD8B, 0x82A5FB52, 0x8664E6E5,
     0xBE2B5B58, 0xBAEA46EF, 0xB7A96036, 0xB3687D81, 0xAD2F2D84, 0xA9EE3033, 0xA4AD16EA, 0xA06C0B5D,
     0xD4326D90, 0xD0F37027, 0xDDB056FE, 0xD9714B49, 0xC7361B4C, 0xC3F706FB, 0xCEB42022, 0xCA753D95,
     0xF23A8028, 0xF6FB9D9F, 0xFBB8BB46, 0xFF79A6F1, 0xE13EF6F4, 0xE5FFEB43, 0xE8BCCD9A, 0xEC7DD02D,
     0x34867077, 0x30476DC0, 0x3D044B19, 0x39C556AE, 0x278206AB, 0x23431B1C, 0x2E003DC5, 0x2AC12072,
     0x128E9DCF, 0x164F8078, 0x1B0CA6A1, 0x1FCDBB16, 0x018AEB13, 0x054BF6A4, 0x0808D07D, 0x0CC9CDCA,
     0x7897AB07, 0x7C56B6B0, 0x71159069, 0x75D48DDE, 0x6B93DDDB, 0x6F52C06C, 0x6211E6B5, 0x66D0FB02,
     0x5E9F46BF, 0x5A5E5B08, 0x571D7DD1, 0x53DC6066, 0x4D9B3063, 0x495A2DD4, 0x44190B0D, 0x40D816BA,
     0xACA5C697, 0xA864DB20, 0xA527FDF9, 0xA1E6E04E, 0xBFA1B04B, 0xBB60ADFC, 0xB6238B25, 0xB2E29692,
     0x8AAD2B2F, 0x8E6C3698, 0x832F1041, 0x87EE0DF6, 0x99A95DF3, 0x9D684044, 0x902B669D, 0x94EA7B2A,
     0xE0B41DE7, 0xE4750050, 0xE9362689, 0xEDF73B3E, 0xF3B06B3B, 0xF771768C, 0xFA325055, 0xFEF34DE2,
     0xC6BCF05F, 0xC27DEDE8, 0xCF3ECB31, 0xCBFFD686, 0xD5B88683, 0xD1799B34, 0xDC3ABDED, 0xD8FBA05A,
     0x690CE0EE, 0x6DCDFD59, 0x608EDB80, 0x644FC637, 0x7A089632, 0x7EC98B85, 0x738AAD5C, 0x774BB0EB,
     0x4F040D56, 0x4BC510E1, 0x46863638, 0x42472B8F, 0x5C007B8A, 0x58C1663D, 0x558240E4, 0x51435D53,
     0x251D3B9E, 0x21DC2629, 0x2C9F00F0, 0x285E1D47, 0x36194D42, 0x32D850F5, 0x3F9B762C, 0x3B5A6B9B,
     0x0315D626, 0x07D4CB91, 0x0A97ED48, 0x0E56F0FF, 0x1011A0FA, 0x14D0BD4D, 0x19939B94, 0x1D528623,
     0xF12F560E, 0xF5EE4BB9, 0xF8AD6D60, 0xFC6C70D7, 0xE22B20D2, 0xE6EA3D65, 0xEBA91BBC, 0xEF68060B,
     0xD727BBB6, 0xD3E6A601, 0xDEA580D8, 0xDA649D6F, 0xC423CD6A, 0xC0E2D0DD, 0xCDA1F604, 0xC960EBB3,
     0xBD3E8D7E, 0xB9FF90C9, 0xB4BCB610, 0xB07DABA7, 0xAE3AFBA2, 0xAAFBE615, 0xA7B8C0CC, 0xA379DD7B,
     0x9B3660C6, 0x9FF77D71, 0x92B45BA8, 0x9675461F, 0x8832161A, 0x8CF30BAD, 0x81B02D74, 0x857130C3,
     0x5D8A9099, 0x594B8D2E, 0x5408ABF7, 0x50C9B640, 0x4E8EE645, 0x4A4FFBF2, 0x470CDD2B, 0x43CDC09C,
     0x7B827D21, 0x7F436096, 0x7200464F, 0x76C15BF8, 0x68860BFD, 0x6C47164A, 0x61043093, 0x65C52D24,
     0x119B4BE9, 0x155A565E, 0x18197087, 0x1CD86D30, 0x029F3D35, 0x065E2082, 0x0B1D065B, 0x0FDC1BEC,
     0x3793A651, 0x3352BBE6, 0x3E119D3F, 0x3AD08088, 0x2497D08D, 0x2056CD3A, 0x2D15EBE3, 0x29D4F654,
     0xC5A92679, 0xC1683BCE, 0xCC2B1D17, 0xC8EA00A0, 0xD6AD50A5, 0xD26C4D12, 0xDF2F6BCB, 0xDBEE767C,
     0xE3A1CBC1, 0xE760D676, 0xEA23F0AF, 0xEEE2ED18, 0xF0A5BD1D, 0xF464A0AA, 0xF9278673, 0xFDE69BC4,
     0x89B8FD09, 0x8D79E0BE, 0x803AC667, 0x84FBDBD0, 0x9ABC8BD5, 0x9E7D9662, 0x933EB0BB, 0x97FFAD0C,
     0xAFB010B1, 0xAB710D06, 0xA6322BDF, 0xA2F33668, 0xBCB4666D, 0xB8757BDA, 0xB5365D03, 0xB1F740B4]"

text \<open>The loop of \<^verbatim>\<open>digital_update_crc32\<close>.\<close>

fun digital_update_crc32 :: "u32 \<Rightarrow> bytes \<Rightarrow> u32" where
  "digital_update_crc32 crc [] = crc"
| "digital_update_crc32 crc (d # data) =
     digital_update_crc32
       (crc_table ! unat (ucast d XOR (drop_bit 24 crc AND 0xff)) XOR push_bit 8 crc) data"

definition digital_crc32 :: "bytes \<Rightarrow> u32" where
  "digital_crc32 buf = digital_update_crc32 0xffffffff buf XOR 0xffffffff"

section \<open>The reference: division by the polynomial\<close>

definition crc_poly :: u32 where
  "crc_poly = 0x04C11DB7"

text \<open>One bit of zeros is appended; the bit shifted out says whether to subtract the divisor.\<close>

definition crc_bit :: "u32 \<Rightarrow> u32" where
  "crc_bit r = (if bit r 31 then push_bit 1 r XOR crc_poly else push_bit 1 r)"

definition crc_byte :: "u32 \<Rightarrow> u32" where
  "crc_byte r = (crc_bit ^^ 8) r"

definition crc_division :: "u32 \<Rightarrow> bytes \<Rightarrow> u32" where
  "crc_division r bs = foldl (\<lambda>r b. crc_byte (r XOR push_bit 24 (ucast b))) r bs"

section \<open>Division is linear and invertible\<close>

lemma crc_bit_xor: "crc_bit (a XOR b) = crc_bit a XOR crc_bit b"
  by (auto simp: crc_bit_def bit_xor_iff push_bit_xor xor.assoc xor.left_commute xor.commute)

lemma crc_bits_xor: "(crc_bit ^^ n) (a XOR b) = (crc_bit ^^ n) a XOR (crc_bit ^^ n) b"
  by (induction n) (simp_all add: crc_bit_xor)

lemma crc_byte_xor: "crc_byte (a XOR b) = crc_byte a XOR crc_byte b"
  by (simp add: crc_byte_def crc_bits_xor)

lemma crc_byte_zero [simp]: "crc_byte 0 = 0"
  using crc_byte_xor [of 0 0] by simp

lemma crc_bit_crc_byte: "crc_byte (crc_bit r) = crc_bit (crc_byte r)"
  by (simp add: crc_byte_def funpow_swap1)

text \<open>As long as only zeros are shifted out, division is a shift.\<close>

lemma crc_bits_shift:
  assumes "k \<le> 32" "\<And>n. 32 - k \<le> n \<Longrightarrow> \<not> bit r n"
  shows "(crc_bit ^^ k) r = push_bit k r"
  using assms
proof (induction k)
  case 0
  then show ?case by simp
next
  case (Suc k)
  have "(crc_bit ^^ k) r = push_bit k r"
    using Suc.prems by (intro Suc.IH) auto
  moreover have "\<not> bit (push_bit k r) 31"
    using Suc.prems by (auto simp: bit_simps)
  ultimately have "(crc_bit ^^ Suc k) r = push_bit 1 (push_bit k r)"
    by (simp add: crc_bit_def [of "push_bit k r"])
  then show ?case by (simp only: push_bit_push_bit) simp
qed

lemma crc_byte_low: "crc_byte (take_bit 24 r) = push_bit 8 r"
proof -
  have "(crc_bit ^^ 8) (take_bit 24 r) = push_bit 8 (take_bit 24 r)"
    by (rule crc_bits_shift) (auto simp: bit_simps)
  also have "\<dots> = push_bit 8 r"
    by (rule bit_eqI) (auto simp: bit_simps)
  finally show ?thesis by (simp add: crc_byte_def)
qed

lemma crc_byte_split: "crc_byte r = crc_byte (push_bit 24 (drop_bit 24 r)) XOR push_bit 8 r"
proof -
  have "r = push_bit 24 (drop_bit 24 r) XOR take_bit 24 r"
    by (rule bit_eqI) (auto simp: bit_simps)
  then show ?thesis by (metis crc_byte_xor crc_byte_low)
qed

lemma crc_bit_inj: "crc_bit a = crc_bit b \<Longrightarrow> a = b"
proof -
  have zero: "x = 0" if "crc_bit x = 0" for x
  proof (cases "bit x 31")
    case True
    then have "push_bit 1 x XOR crc_poly = 0" using that by (simp add: crc_bit_def)
    then have "\<not> bit (push_bit 1 x XOR crc_poly) 0" by (simp only: bit_0_eq) simp
    moreover have "\<not> bit (push_bit 1 x) 0" by (simp only: bit_push_bit_iff) simp
    ultimately show ?thesis by (simp add: bit_xor_iff crc_poly_def)
  next
    case False
    then have *: "push_bit 1 x = 0" using that by (simp add: crc_bit_def)
    show ?thesis
    proof (rule bit_eqI)
      fix n assume "possible_bit TYPE(u32) n"
      then have n: "n < 32" by simp
      have "\<not> bit (push_bit 1 x) (Suc n)" by (simp only: * bit_0_eq) simp
      then show "bit x n = bit 0 n"
        using False n by (cases "n = 31") (auto simp only: bit_push_bit_iff possible_bit_word, auto)
    qed
  qed
  assume "crc_bit a = crc_bit b"
  then have "crc_bit (a XOR b) = 0" by (simp add: crc_bit_xor)
  then have "a XOR b = 0" by (rule zero)
  moreover have "a = (a XOR b) XOR b" by (simp add: xor.assoc)
  ultimately show "a = b" by simp
qed

lemma crc_bits_inj: "(crc_bit ^^ n) a = (crc_bit ^^ n) b \<Longrightarrow> a = b"
  by (induction n) (auto dest: crc_bit_inj)

lemma crc_byte_inj: "crc_byte a = crc_byte b \<Longrightarrow> a = b"
  unfolding crc_byte_def by (rule crc_bits_inj)

section \<open>The table holds the remainders of the single bytes\<close>

text \<open>Entry \<open>2 i\<close> is entry \<open>i\<close> divided one bit further, entry \<open>2 i + 1\<close> differs from it by entry 1.\<close>

lemma crc_table_doubling:
  "concat (map (\<lambda>x. [crc_bit x, crc_bit x XOR crc_poly]) (take 128 crc_table)) = crc_table"
  by (simp add: crc_table_def crc_bit_def crc_poly_def)

lemma length_crc_table: "length crc_table = 256"
  by (simp add: crc_table_def)

lemma nth_concat_pairs:
  "i < length xs \<Longrightarrow> concat (map (\<lambda>x. [f x, g x]) xs) ! (2 * i) = f (xs ! i) \<and>
     concat (map (\<lambda>x. [f x, g x]) xs) ! Suc (2 * i) = g (xs ! i)"
  by (induction xs arbitrary: i) (auto simp: nth_Cons' less_Suc_eq_0_disj)

lemma crc_table_nth_double:
  assumes "i < 128"
  shows "crc_table ! (2 * i) = crc_bit (crc_table ! i)"
    and "crc_table ! Suc (2 * i) = crc_bit (crc_table ! i) XOR crc_poly"
proof -
  have "i < length (take 128 crc_table)" using assms by (simp add: length_crc_table)
  from nth_concat_pairs [OF this, of crc_bit "\<lambda>x. crc_bit x XOR crc_poly"]
  show "crc_table ! (2 * i) = crc_bit (crc_table ! i)"
    and "crc_table ! Suc (2 * i) = crc_bit (crc_table ! i) XOR crc_poly"
    using assms by (simp_all add: crc_table_doubling)
qed

lemma crc_byte_top_one: "crc_byte (push_bit 24 1) = crc_poly"
proof -
  have "(crc_bit ^^ 7) (push_bit 24 1) = push_bit 7 (push_bit 24 1)"
    by (rule crc_bits_shift) (simp, auto simp only: bit_push_bit_iff bit_1_iff)
  then have "(crc_bit ^^ Suc 7) (push_bit 24 1) = crc_bit (push_bit 31 1)"
    by (simp only: funpow.simps o_apply push_bit_push_bit) simp
  moreover have "Suc 7 = 8" by simp
  ultimately show ?thesis by (simp only: crc_byte_def) (simp add: crc_bit_def crc_poly_def)
qed

lemma top_byte_double:
  assumes "i < 128"
  shows "push_bit 24 (of_nat (2 * i)) = crc_bit (push_bit 24 (of_nat i))"
    and "push_bit 24 (of_nat (Suc (2 * i))) = (push_bit 24 (of_nat (2 * i)) XOR push_bit 24 1 :: u32)"
proof -
  have "\<not> bit (push_bit 24 (of_nat i) :: u32) 31"
    using assms by (simp add: bit_push_bit_iff bit_of_nat_iff bit_iff_odd [of i])
  then show "push_bit 24 (of_nat (2 * i)) = crc_bit (push_bit 24 (of_nat i))"
    by (simp add: crc_bit_def push_bit_eq_mult)
  have "(of_nat (Suc (2 * i)) :: u32) = of_nat (2 * i) XOR 1"
    by (simp add: xor_one_eq)
  then show "push_bit 24 (of_nat (Suc (2 * i))) = (push_bit 24 (of_nat (2 * i)) XOR push_bit 24 1 :: u32)"
    by (simp add: push_bit_xor)
qed

lemma crc_table_nth: "i < 256 \<Longrightarrow> crc_table ! i = crc_byte (push_bit 24 (of_nat i))"
proof (induction i rule: less_induct)
  case (less i)
  show ?case
  proof (cases "i = 0")
    case True
    then show ?thesis by (simp add: crc_table_def)
  next
    case False
    define j where "j = i div 2"
    then have j: "j < i" "j < 128" "i = 2 * j \<or> i = Suc (2 * j)" using False less.prems by auto
    have even: "crc_table ! (2 * j) = crc_byte (push_bit 24 (of_nat (2 * j)))"
      unfolding crc_table_nth_double(1) [OF j(2)] top_byte_double(1) [OF j(2)] crc_bit_crc_byte
      using less.IH [OF j(1)] j(2) by simp
    moreover have "crc_table ! Suc (2 * j) = crc_byte (push_bit 24 (of_nat (Suc (2 * j))))"
      unfolding crc_table_nth_double(2) [OF j(2)] top_byte_double(2) [OF j(2)] crc_byte_xor
        crc_byte_top_one
      using even by (simp add: crc_table_nth_double(1) [OF j(2)])
    ultimately show ?thesis using j(3) by auto
  qed
qed

section \<open>The table-driven loop divides\<close>

lemma crc_table_step:
  "crc_table ! unat (ucast d XOR (drop_bit 24 crc AND 0xff)) XOR push_bit 8 crc =
     crc_byte (crc XOR push_bit 24 (ucast (d :: byte)))"
proof -
  define i :: u32 where "i = ucast d XOR drop_bit 24 crc"
  have mask: "drop_bit 24 crc AND 0xff = drop_bit 24 crc"
    unfolding and_255 by (rule bit_eqI) (auto simp: bit_simps dest: bit_imp_le_length)
  have "take_bit 8 i = i"
    unfolding i_def by (rule bit_eqI) (auto simp: bit_simps dest: bit_imp_le_length)
  then have "unat i = take_bit 8 (unat i)" by (metis unsigned_take_bit_eq)
  then have i: "unat i < 256" using take_bit_nat_less_exp [of 8 "unat i"] by simp
  have "crc XOR push_bit 24 (ucast d) = push_bit 24 i XOR take_bit 24 crc"
    unfolding i_def by (rule bit_eqI) (auto simp: bit_simps)
  then have "crc_byte (crc XOR push_bit 24 (ucast d)) = crc_byte (push_bit 24 i) XOR push_bit 8 crc"
    by (simp only: crc_byte_xor crc_byte_low)
  then show ?thesis
    unfolding mask i_def [symmetric] crc_table_nth [OF i] by simp
qed

lemma crc_division_simps [simp]:
  "crc_division r [] = r"
  "crc_division r (b # bs) = crc_division (crc_byte (r XOR push_bit 24 (ucast b))) bs"
  "crc_division r (bs @ cs) = crc_division (crc_division r bs) cs"
  by (simp_all add: crc_division_def)

lemma update_eq_division: "digital_update_crc32 crc data = crc_division crc data"
  by (induction crc data rule: digital_update_crc32.induct) (simp_all only: digital_update_crc32.simps
      crc_division_simps crc_table_step)

lemma xor_word_cancel: "(a :: u32) XOR c = b XOR c \<longleftrightarrow> a = b"
proof
  assume "a XOR c = b XOR c"
  then have "(a XOR c) XOR c = (b XOR c) XOR c" by simp
  then show "a = b" by (simp add: xor.assoc)
qed simp

lemma crc_division_inj: "crc_division r bs = crc_division s bs \<Longrightarrow> r = s"
proof (induction bs arbitrary: r s)
  case (Cons b bs)
  then have "crc_byte (r XOR push_bit 24 (ucast b)) = crc_byte (s XOR push_bit 24 (ucast b))" by simp
  then have "r XOR push_bit 24 (ucast b) = s XOR push_bit 24 (ucast b)" by (rule crc_byte_inj)
  then show ?case by (simp only: xor_word_cancel)
qed simp

section \<open>Four bytes\<close>

text \<open>The word that holds up to four bytes from the top.\<close>

fun top_word :: "bytes \<Rightarrow> u32" where
  "top_word [] = 0"
| "top_word (b # bs) = push_bit 24 (ucast b) XOR drop_bit 8 (top_word bs)"

lemma top_word_low: "n < 32 - 8 * length bs \<Longrightarrow> \<not> bit (top_word bs) n"
  by (induction bs arbitrary: n) (auto simp: bit_simps)

lemma crc_byte_drop_top_word:
  assumes "length bs \<le> 3"
  shows "crc_byte (drop_bit 8 (top_word bs)) = top_word bs"
proof -
  have "drop_bit 8 (top_word bs) = take_bit 24 (drop_bit 8 (top_word bs))"
    by (rule bit_eqI) (auto simp: bit_simps dest: bit_imp_le_length)
  then have "crc_byte (drop_bit 8 (top_word bs)) = push_bit 8 (drop_bit 8 (top_word bs))"
    by (metis crc_byte_low)
  also have "\<dots> = top_word bs"
  proof (rule bit_eqI)
    fix n assume "possible_bit TYPE(u32) n"
    then show "bit (push_bit 8 (drop_bit 8 (top_word bs))) n = bit (top_word bs) n"
      using assms top_word_low [of n bs] by (cases "n < 8") (auto simp: bit_simps)
  qed
  finally show ?thesis .
qed

lemma crc_division_word:
  "length bs \<le> 4 \<Longrightarrow> crc_division r bs = (crc_byte ^^ length bs) (r XOR top_word bs)"
proof (induction bs arbitrary: r)
  case (Cons b bs)
  then have "crc_division r (b # bs) =
      (crc_byte ^^ length bs) (crc_byte (r XOR push_bit 24 (ucast b)) XOR top_word bs)"
    by simp
  also have "crc_byte (r XOR push_bit 24 (ucast b)) XOR top_word bs = crc_byte (r XOR top_word (b # bs))"
    using Cons.prems by (simp add: crc_byte_xor crc_byte_drop_top_word xor.assoc)
  finally show ?case by (simp add: funpow_swap1)
qed simp

lemma top_word_inj:
  "length bs = length cs \<Longrightarrow> length bs \<le> 4 \<Longrightarrow> top_word bs = top_word cs \<Longrightarrow> bs = cs"
proof (induction bs cs rule: list_induct2)
  case (Cons b bs c cs)
  have top: "bit b n = bit c n" if "n < 8" for n
  proof -
    have "\<not> bit (top_word xs) (32 + n)" for xs using bit_imp_le_length [of "top_word xs" "32 + n"] by auto
    then show ?thesis
      using arg_cong [OF Cons.prems(2), of "\<lambda>w. bit w (24 + n)"] that by (simp add: bit_simps)
  qed
  have "bit (top_word bs) n = bit (top_word cs) n" if "n < 32" for n
  proof (cases "n < 8")
    case True
    then show ?thesis using Cons.prems(1) Cons.hyps top_word_low by simp
  next
    case False
    then show ?thesis
      using arg_cong [OF Cons.prems(2), of "\<lambda>w. bit w (n - 8)"] that by (auto simp: bit_simps)
  qed
  then have "top_word bs = top_word cs" by (intro bit_eqI) simp
  then show ?case using Cons top by (auto intro!: bit_eqI)
qed simp

lemma crc_bytes_inj: "(crc_byte ^^ n) a = (crc_byte ^^ n) b \<Longrightarrow> a = b"
  by (induction n) (auto dest: crc_byte_inj)

lemma crc_division_inj_bytes:
  assumes "length bs = length cs" "length bs \<le> 4" "crc_division r bs = crc_division r cs"
  shows "bs = cs"
proof -
  have "length cs \<le> 4" using assms by simp
  then have "(crc_byte ^^ length bs) (r XOR top_word bs) = (crc_byte ^^ length bs) (r XOR top_word cs)"
    using assms(3) unfolding crc_division_word [OF assms(2)] by (simp only: crc_division_word assms(1))
  then have "r XOR top_word bs = r XOR top_word cs" by (rule crc_bytes_inj)
  then have "top_word bs = top_word cs" by (simp only: xor.commute [of r] xor_word_cancel)
  then show ?thesis by (rule top_word_inj [OF assms(1,2)])
qed

lemma crc_changes:
  assumes "length u = length v" "length u \<le> 4" "u \<noteq> v"
  shows "digital_crc32 (p @ u @ t) \<noteq> digital_crc32 (p @ v @ t)"
proof
  assume "digital_crc32 (p @ u @ t) = digital_crc32 (p @ v @ t)"
  then have "crc_division (crc_division (crc_division 0xffffffff p) u) t =
      crc_division (crc_division (crc_division 0xffffffff p) v) t"
    by (simp add: digital_crc32_def update_eq_division xor_word_cancel)
  then have "crc_division (crc_division 0xffffffff p) u = crc_division (crc_division 0xffffffff p) v"
    by (rule crc_division_inj)
  then show False using crc_division_inj_bytes [OF assms(1,2)] assms(3) by simp
qed

section \<open>Properties\<close>

text \<open>
  C13. The table-driven checksum is the remainder of the division by the polynomial: for every
  buffer and every initial remainder the loop over the table of 256 constants computes what a
  division one bit at a time computes.
\<close>

theorem digital_update_crc32_divides:
  "digital_update_crc32 crc data = foldl (\<lambda>r b. (crc_bit ^^ 8) (r XOR push_bit 24 (ucast b))) crc data"
  by (simp only: update_eq_division crc_division_def crc_byte_def)

text \<open>
  Damage confined to four consecutive bytes of a buffer, wherever they are, changes its
  checksum.
\<close>

theorem digital_crc32_detects_bursts:
  assumes "length u = length v" "length u \<le> 4" "u \<noteq> v"
  shows "digital_crc32 (p @ u @ t) \<noteq> digital_crc32 (p @ v @ t)"
  using assms by (rule crc_changes)

theorem digital_crc32_detects_bursts_witness:
  "digital_crc32 ([1] @ [2, 3, 4, 5] @ [6]) \<noteq> digital_crc32 ([1] @ [2, 0, 0, 0] @ [6])"
  by (rule digital_crc32_detects_bursts) simp_all

end
