(* ===== verification/Jz_Enums.thy ===== *)
theory Jz_Enums
  imports Joza_Codec
begin

text \<open>
  The enumerations of the application server: the diagnostics of \<^verbatim>\<open>application10/diag.h\<close>, the
  clearing, resetting and restarting causes of \<^verbatim>\<open>application10/cause.h\<close>, the message identifiers
  of \<^verbatim>\<open>application10/msg.h\<close> and the directions of \<^verbatim>\<open>application10/iodir.h\<close>. The names of the
  constants carry the prefix \<open>jz_\<close> where the broker has constants of the same name.

  Diagnostics, causes, message identifiers and directions are stored in bytes that come from the
  network and are not checked when they arrive, so they are bytes with named values.
\<close>

section \<open>Diagnostics\<close>

definition jz_d_ok :: byte where "jz_d_ok = 0"
definition jz_d_packet_too_short :: byte where "jz_d_packet_too_short = 1"
definition jz_d_packet_on_unassigned_logical_channel :: byte where "jz_d_packet_on_unassigned_logical_channel = 2"
definition jz_d_unspecified :: byte where "jz_d_unspecified = 3"
definition jz_d_client_originated :: byte where "jz_d_client_originated = 4"
definition jz_d_no_logical_channel_available :: byte where "jz_d_no_logical_channel_available = 5"
definition jz_d_number_busy :: byte where "jz_d_number_busy = 6"
definition jz_d_call_collision :: byte where "jz_d_call_collision = 7"
definition jz_d_system_error :: byte where "jz_d_system_error = 8"
definition jz_d_eagain :: byte where "jz_d_eagain = 9"
definition jz_d_enotsup :: byte where "jz_d_enotsup = 10"
definition jz_d_efsm :: byte where "jz_d_efsm = 11"
definition jz_d_eterm :: byte where "jz_d_eterm = 12"
definition jz_d_enotsock :: byte where "jz_d_enotsock = 13"
definition jz_d_eintr :: byte where "jz_d_eintr = 14"
definition jz_d_efault :: byte where "jz_d_efault = 15"
definition jz_d_unidentifiable_packet :: byte where "jz_d_unidentifiable_packet = 16"
definition jz_d_invalid_signature :: byte where "jz_d_invalid_signature = 17"
definition jz_d_invalid_envelope :: byte where "jz_d_invalid_envelope = 18"
definition jz_d_unknown_version :: byte where "jz_d_unknown_version = 19"
definition jz_d_unknown_message_type :: byte where "jz_d_unknown_message_type = 20"
definition jz_d_packet_too_long :: byte where "jz_d_packet_too_long = 21"
definition jz_d_invalid_lcn :: byte where "jz_d_invalid_lcn = 22"
definition jz_d_invalid_q :: byte where "jz_d_invalid_q = 23"
definition jz_d_invalid_pr :: byte where "jz_d_invalid_pr = 24"
definition jz_d_invalid_ps :: byte where "jz_d_invalid_ps = 25"
definition jz_d_invalid_calling_address :: byte where "jz_d_invalid_calling_address = 26"
definition jz_d_invalid_called_address :: byte where "jz_d_invalid_called_address = 27"
definition jz_d_invalid_hostname :: byte where "jz_d_invalid_hostname = 28"
definition jz_d_invalid_packet_facility :: byte where "jz_d_invalid_packet_facility = 29"
definition jz_d_invalid_throughput_facility :: byte where "jz_d_invalid_throughput_facility = 30"
definition jz_d_invalid_window_facility :: byte where "jz_d_invalid_window_facility = 31"
definition jz_d_invalid_directionality_facility :: byte where "jz_d_invalid_directionality_facility = 32"
definition jz_d_invalid_cause :: byte where "jz_d_invalid_cause = 33"
definition jz_d_invalid_diagnostic :: byte where "jz_d_invalid_diagnostic = 34"
definition jz_d_data_too_short :: byte where "jz_d_data_too_short = 35"
definition jz_d_data_too_long :: byte where "jz_d_data_too_long = 36"
definition jz_d_invalid_packet_facility_negotiation :: byte where "jz_d_invalid_packet_facility_negotiation = 37"
definition jz_d_invalid_window_facility_negotiation :: byte where "jz_d_invalid_window_facility_negotiation = 38"
definition jz_d_invalid_throughput_facility_negotiation :: byte where "jz_d_invalid_throughput_facility_negotiation = 39"
definition jz_d_invalid_directionality_facility_negotiation :: byte where "jz_d_invalid_directionality_facility_negotiation = 40"
definition jz_d_callee_forwarding_not_allowed :: byte where "jz_d_callee_forwarding_not_allowed = 41"
definition jz_d_caller_forwarding_not_allowed :: byte where "jz_d_caller_forwarding_not_allowed = 42"
definition jz_d_output_barred :: byte where "jz_d_output_barred = 43"
definition jz_d_input_barred :: byte where "jz_d_input_barred = 44"
definition jz_d_incoming_calls_barred :: byte where "jz_d_incoming_calls_barred = 45"
definition jz_d_outgoing_calls_barred :: byte where "jz_d_outgoing_calls_barred = 46"
definition jz_d_reserved_address :: byte where "jz_d_reserved_address = 47"
definition jz_d_address_in_use :: byte where "jz_d_address_in_use = 48"
definition jz_d_unknown_client_address :: byte where "jz_d_unknown_client_address = 49"
definition jz_d_unknown_reserved_address :: byte where "jz_d_unknown_reserved_address = 50"
definition jz_d_no_connections_available :: byte where "jz_d_no_connections_available = 51"
definition jz_d_no_channels_available :: byte where "jz_d_no_channels_available = 52"
definition jz_d_invalid_message_for_state_unitialized :: byte where "jz_d_invalid_message_for_state_unitialized = 53"
definition jz_d_invalid_message_for_state_client_restart_request :: byte where "jz_d_invalid_message_for_state_client_restart_request = 54"
definition jz_d_invalid_message_for_state_server_restart_request :: byte where "jz_d_invalid_message_for_state_server_restart_request = 55"
definition jz_d_invalid_message_for_state_initialized :: byte where "jz_d_invalid_message_for_state_initialized = 56"
definition jz_d_invalid_message_for_state_ready :: byte where "jz_d_invalid_message_for_state_ready = 57"
definition jz_d_invalid_message_for_state_x_call_request :: byte where "jz_d_invalid_message_for_state_x_call_request = 58"
definition jz_d_invalid_message_for_state_client_waiting :: byte where "jz_d_invalid_message_for_state_client_waiting = 59"
definition jz_d_invalid_message_for_state_server_waiting :: byte where "jz_d_invalid_message_for_state_server_waiting = 60"
definition jz_d_invalid_message_for_state_flow_control_ready :: byte where "jz_d_invalid_message_for_state_flow_control_ready = 61"
definition jz_d_invalid_message_for_state_y_call_request :: byte where "jz_d_invalid_message_for_state_y_call_request = 62"
definition jz_d_invalid_message_for_state_data_transfer :: byte where "jz_d_invalid_message_for_state_data_transfer = 63"
definition jz_d_invalid_message_for_state_call_collision :: byte where "jz_d_invalid_message_for_state_call_collision = 64"
definition jz_d_invalid_message_for_state_client_clear_request :: byte where "jz_d_invalid_message_for_state_client_clear_request = 65"
definition jz_d_invalid_message_for_state_server_clear_request :: byte where "jz_d_invalid_message_for_state_server_clear_request = 66"
definition jz_d_invalid_message_for_state_client_reset_request :: byte where "jz_d_invalid_message_for_state_client_reset_request = 67"
definition jz_d_invalid_message_for_state_server_reset_request :: byte where "jz_d_invalid_message_for_state_server_reset_request = 68"
definition jz_d_ps_out_of_order :: byte where "jz_d_ps_out_of_order = 69"
definition jz_d_ps_not_in_window :: byte where "jz_d_ps_not_in_window = 70"
definition jz_d_pr_invalid_window_update :: byte where "jz_d_pr_invalid_window_update = 71"
definition jz_d_data_too_long_for_packet_facility :: byte where "jz_d_data_too_long_for_packet_facility = 72"
definition jz_d_improper_cause_code_from_client :: byte where "jz_d_improper_cause_code_from_client = 73"
definition jz_d_time_expired_incoming_call :: byte where "jz_d_time_expired_incoming_call = 74"
definition jz_d_time_expired_reset_request :: byte where "jz_d_time_expired_reset_request = 75"
definition jz_d_time_expired_clear_request :: byte where "jz_d_time_expired_clear_request = 76"
definition jz_d_time_expired_restart_request :: byte where "jz_d_time_expired_restart_request = 77"
definition jz_d_data_rate_exceeded :: byte where "jz_d_data_rate_exceeded = 78"
definition jz_d_message_rate_exceeded :: byte where "jz_d_message_rate_exceeded = 79"
definition jz_d_last :: byte where "jz_d_last = jz_d_message_rate_exceeded"

lemmas jz_diags = jz_d_ok_def
  jz_d_packet_too_short_def
  jz_d_packet_on_unassigned_logical_channel_def
  jz_d_unspecified_def
  jz_d_client_originated_def
  jz_d_no_logical_channel_available_def
  jz_d_number_busy_def
  jz_d_call_collision_def
  jz_d_system_error_def
  jz_d_eagain_def
  jz_d_enotsup_def
  jz_d_efsm_def
  jz_d_eterm_def
  jz_d_enotsock_def
  jz_d_eintr_def
  jz_d_efault_def
  jz_d_unidentifiable_packet_def
  jz_d_invalid_signature_def
  jz_d_invalid_envelope_def
  jz_d_unknown_version_def
  jz_d_unknown_message_type_def
  jz_d_packet_too_long_def
  jz_d_invalid_lcn_def
  jz_d_invalid_q_def
  jz_d_invalid_pr_def
  jz_d_invalid_ps_def
  jz_d_invalid_calling_address_def
  jz_d_invalid_called_address_def
  jz_d_invalid_hostname_def
  jz_d_invalid_packet_facility_def
  jz_d_invalid_throughput_facility_def
  jz_d_invalid_window_facility_def
  jz_d_invalid_directionality_facility_def
  jz_d_invalid_cause_def
  jz_d_invalid_diagnostic_def
  jz_d_data_too_short_def
  jz_d_data_too_long_def
  jz_d_invalid_packet_facility_negotiation_def
  jz_d_invalid_window_facility_negotiation_def
  jz_d_invalid_throughput_facility_negotiation_def
  jz_d_invalid_directionality_facility_negotiation_def
  jz_d_callee_forwarding_not_allowed_def
  jz_d_caller_forwarding_not_allowed_def
  jz_d_output_barred_def
  jz_d_input_barred_def
  jz_d_incoming_calls_barred_def
  jz_d_outgoing_calls_barred_def
  jz_d_reserved_address_def
  jz_d_address_in_use_def
  jz_d_unknown_client_address_def
  jz_d_unknown_reserved_address_def
  jz_d_no_connections_available_def
  jz_d_no_channels_available_def
  jz_d_invalid_message_for_state_unitialized_def
  jz_d_invalid_message_for_state_client_restart_request_def
  jz_d_invalid_message_for_state_server_restart_request_def
  jz_d_invalid_message_for_state_initialized_def
  jz_d_invalid_message_for_state_ready_def
  jz_d_invalid_message_for_state_x_call_request_def
  jz_d_invalid_message_for_state_client_waiting_def
  jz_d_invalid_message_for_state_server_waiting_def
  jz_d_invalid_message_for_state_flow_control_ready_def
  jz_d_invalid_message_for_state_y_call_request_def
  jz_d_invalid_message_for_state_data_transfer_def
  jz_d_invalid_message_for_state_call_collision_def
  jz_d_invalid_message_for_state_client_clear_request_def
  jz_d_invalid_message_for_state_server_clear_request_def
  jz_d_invalid_message_for_state_client_reset_request_def
  jz_d_invalid_message_for_state_server_reset_request_def
  jz_d_ps_out_of_order_def
  jz_d_ps_not_in_window_def
  jz_d_pr_invalid_window_update_def
  jz_d_data_too_long_for_packet_facility_def
  jz_d_improper_cause_code_from_client_def
  jz_d_time_expired_incoming_call_def
  jz_d_time_expired_reset_request_def
  jz_d_time_expired_clear_request_def
  jz_d_time_expired_restart_request_def
  jz_d_data_rate_exceeded_def
  jz_d_message_rate_exceeded_def
  jz_d_last_def

text \<open>Rows without an initialiser are empty strings.\<close>

definition jz_diag_names :: "string list" where
  "jz_diag_names = [
     ''D_OK'', '''', '''', ''D_UNSPECIFIED'', ''D_CLIENT_ORIGINATED'',
     ''D_NO_LOGICAL_CHANNEL_AVAILABLE'', ''D_NUMBER_BUSY'', ''D_CALL_COLLISION'',
     ''D_SYSTEM_ERROR'', ''D_EAGAIN'', ''D_ENOTSUP'', ''D_EFSM'', ''D_ETERM'', ''D_ENOTSOCK'',
     ''D_EINTR'', ''D_EFAULT'', ''D_UNIDENTIFABLE_PACKET'', ''D_INVALID_SIGNATURE'',
     ''D_INVALID_ENVELOPE'', ''D_UNKNOWN_VERSION'', ''D_UNKNOWN_MESSAGE_TYPE'', '''',
     ''D_INVALID_LCN'', ''D_INVALID_Q'', ''D_INVALID_PR'', ''D_INVALID_PS'',
     ''D_INVALID_CALLING_ADDRESS'', ''D_INVALID_CALLED_ADDRESS'', ''D_INVALID_HOSTNAME'',
     ''D_INVALID_PACKET_FACILITY'', ''D_INVALID_THROUGHPUT_FACILITY'',
     ''D_INVALID_WINDOW_FACILITY'', ''D_INVALID_DIRECTIONALITY_FACILITY'', ''D_INVALID_CAUSE'',
     ''D_INVALID_DIAGNOSTIC'', ''D_DATA_TOO_SHORT'', ''D_DATA_TOO_LONG'',
     ''D_INVALID_PACKET_FACILITY_NEGOTIATION'', ''D_INVALID_WINDOW_FACILITY_NEGOTIATION'',
     ''D_INVALID_THROUGHPUT_FACILITY_NEGOTIATION'',
     ''D_INVALID_DIRECTIONALITY_FACILITY_NEGOTIATION'', ''D_CALLEE_FORWARDING_NOT_ALLOWED'',
     ''D_CALLER_FORWARDING_NOT_ALLOWED'', ''D_OUTPUT_BARRED'', ''D_INPUT_BARRED'',
     ''D_INCOMING_CALLS_BARRED'', ''D_OUTGOING_CALLS_BARRED'', ''D_RESERVED_ADDRESS'',
     ''D_ADDRESS_IN_USE'', ''D_UNKNOWN_CLIENT_ADDRESS'', ''D_UNKNOWN_RESERVED_ADDRESS'',
     ''D_NO_CONNECTIONS_AVAILABLE'', ''D_NO_CHANNELS_AVAILABLE'',
     ''D_INVALID_MESSAGE_FOR_STATE_UNITIALIZED'',
     ''D_INVALID_MESSAGE_FOR_STATE_CLIENT_RESTART_REQUEST'',
     ''D_INVALID_MESSAGE_FOR_STATE_SERVER_RESTART_REQUEST'',
     ''D_INVALID_MESSAGE_FOR_STATE_INITIALIZED'', ''D_INVALID_MESSAGE_FOR_STATE_READY'',
     ''D_INVALID_MESSAGE_FOR_STATE_X_CALL_REQUEST'', '''', '''', '''',
     ''D_INVALID_MESSAGE_FOR_STATE_Y_CALL_REQUEST'',
     ''D_INVALID_MESSAGE_FOR_STATE_DATA_TRANSFER'',
     ''D_INVAlID_MESSAGE_FOR_STATE_CALL_COLLISION'', '''', '''', '''', '''',
     ''D_PS_OUT_OF_ORDER'', ''D_PS_NOT_IN_WINDOW'', ''D_PR_INVALID_WINDOW_UPDATE'',
     ''D_DATA_TOO_LONG_FOR_PACKET_FACILITY'', ''D_IMPROPER_CAUSE_CODE_FROM_CLIENT'', '''', '''',
     '''', '''', ''D_DATA_RATE_EXCEEDED'', ''D_MESSAGE_RATE_EXCEEDED'']"

text \<open>\<^verbatim>\<open>diag_name\<close> indexes the table without a check.\<close>

definition jz_diag_name :: "byte \<Rightarrow> string res" where
  "jz_diag_name d =
     (if unat d < length jz_diag_names then Inr (jz_diag_names ! unat d) else Inl Undefined)"

definition jz_diag_validate :: "byte \<Rightarrow> bool" where
  "jz_diag_validate d = (if d > jz_d_last then False else True)"

section \<open>Causes\<close>

definition c_clear__client_originated :: byte where "c_clear__client_originated = 0"
definition c_clear__number_busy :: byte where "c_clear__number_busy = 1"
definition c_clear__out_of_order :: byte where "c_clear__out_of_order = 9"
definition c_clear__remote_procedure_error :: byte where "c_clear__remote_procedure_error = 17"
definition c_clear__reverse_charging_not_accepted :: byte where "c_clear__reverse_charging_not_accepted = 25"
definition c_clear__incompatible_destination :: byte where "c_clear__incompatible_destination = 33"
definition c_clear__fast_select_not_accepted :: byte where "c_clear__fast_select_not_accepted = 41"
definition c_clear__ship_absent :: byte where "c_clear__ship_absent = 57"
definition c_clear__invalid_facility_request :: byte where "c_clear__invalid_facility_request = 3"
definition c_clear__access_barred :: byte where "c_clear__access_barred = 11"
definition c_clear__local_procedure_error :: byte where "c_clear__local_procedure_error = 19"
definition c_clear__network_congestion :: byte where "c_clear__network_congestion = 5"
definition c_clear__not_obtainable :: byte where "c_clear__not_obtainable = 13"
definition c_clear__roa_out_of_order :: byte where "c_clear__roa_out_of_order = 21"
definition c_reset__client_originated :: byte where "c_reset__client_originated = 0"
definition c_reset__out_of_order :: byte where "c_reset__out_of_order = 1"
definition c_reset__remote_procedure_error :: byte where "c_reset__remote_procedure_error = 3"
definition c_reset__local_procedure_error :: byte where "c_reset__local_procedure_error = 5"
definition c_reset__network_congestion :: byte where "c_reset__network_congestion = 7"
definition c_reset__remote_client_operational :: byte where "c_reset__remote_client_operational = 9"
definition c_reset__network_operational :: byte where "c_reset__network_operational = 15"
definition c_reset__incompatible_destination :: byte where "c_reset__incompatible_destination = 17"
definition c_reset__network_out_of_order :: byte where "c_reset__network_out_of_order = 29"
definition c_restart__client_originated :: byte where "c_restart__client_originated = 0"
definition c_restart__local_procedure_error :: byte where "c_restart__local_procedure_error = 1"
definition c_restart__network_congestion :: byte where "c_restart__network_congestion = 3"
definition c_restart__network_operational :: byte where "c_restart__network_operational = 7"

lemmas cause_defs = c_clear__client_originated_def
  c_clear__number_busy_def
  c_clear__out_of_order_def
  c_clear__remote_procedure_error_def
  c_clear__reverse_charging_not_accepted_def
  c_clear__incompatible_destination_def
  c_clear__fast_select_not_accepted_def
  c_clear__ship_absent_def
  c_clear__invalid_facility_request_def
  c_clear__access_barred_def
  c_clear__local_procedure_error_def
  c_clear__network_congestion_def
  c_clear__not_obtainable_def
  c_clear__roa_out_of_order_def
  c_reset__client_originated_def
  c_reset__out_of_order_def
  c_reset__remote_procedure_error_def
  c_reset__local_procedure_error_def
  c_reset__network_congestion_def
  c_reset__remote_client_operational_def
  c_reset__network_operational_def
  c_reset__incompatible_destination_def
  c_reset__network_out_of_order_def
  c_restart__client_originated_def
  c_restart__local_procedure_error_def
  c_restart__network_congestion_def
  c_restart__network_operational_def

definition CAUSE_IS_CLIENT_ORIGINATED :: "byte \<Rightarrow> bool" where
  "CAUSE_IS_CLIENT_ORIGINATED x \<longleftrightarrow> x = 0 \<or> (x \<ge> 128 \<and> x \<le> 255)"

definition clear_cause_name :: "byte \<Rightarrow> string" where
  "clear_cause_name c =
     (if c = c_clear__client_originated then ''CLIENT ORIGINATED''
      else if c = c_clear__number_busy then ''NUMBER BUSY''
      else if c = c_clear__out_of_order then ''OUT OF ORDER''
      else if c = c_clear__remote_procedure_error then ''REMOTE PROCEDURE ERROR''
      else if c = c_clear__reverse_charging_not_accepted then ''REVERSE CHARING NOT ACCEPTED''
      else if c = c_clear__incompatible_destination then ''INCOMPATIBLE DESTINATION''
      else if c = c_clear__fast_select_not_accepted then ''FAST SELECT NOT ACCEPTED''
      else if c = c_clear__ship_absent then ''SHIP ABSENT''
      else if c = c_clear__invalid_facility_request then ''INVALID FACILITY REQUEST''
      else if c = c_clear__access_barred then ''ACCESS BARRED''
      else if c = c_clear__local_procedure_error then ''LOCAL PROCEDURE ERROR''
      else if c = c_clear__network_congestion then ''NETWORK CONGESTION''
      else if c = c_clear__not_obtainable then ''NOT OBTAINABLE''
      else if c = c_clear__roa_out_of_order then ''ROA OUT OF ORDER''
      else if c AND 0x80 \<noteq> 0 then ''CLIENT ORIGINATED''
      else ''UNKNOWN CAUSE'')"

definition clear_cause_validate :: "byte \<Rightarrow> bool" where
  "clear_cause_validate c =
     (if c \<in> {c_clear__client_originated,
        c_clear__number_busy,
        c_clear__out_of_order,
        c_clear__remote_procedure_error,
        c_clear__reverse_charging_not_accepted,
        c_clear__incompatible_destination,
        c_clear__fast_select_not_accepted,
        c_clear__ship_absent,
        c_clear__invalid_facility_request,
        c_clear__access_barred,
        c_clear__local_procedure_error,
        c_clear__network_congestion,
        c_clear__not_obtainable,
        c_clear__roa_out_of_order} then True
      else if c AND 0x80 \<noteq> 0 then True else False)"

definition reset_cause_name :: "byte \<Rightarrow> string" where
  "reset_cause_name c =
     (if c = c_reset__client_originated then ''CLIENT ORIGINATED''
      else if c = c_reset__out_of_order then ''OUT OF ORDER''
      else if c = c_reset__remote_procedure_error then ''REMOTE PROCEDURE ERROR''
      else if c = c_reset__local_procedure_error then ''LOCAL PROCEDURE ERROR''
      else if c = c_reset__network_congestion then ''NETWORK CONGESTION''
      else if c = c_reset__remote_client_operational then ''REMOTE CLIENT OPERATIONAL''
      else if c = c_reset__network_operational then ''NETWORK OPERATIONAL''
      else if c = c_reset__incompatible_destination then ''INCOMPATIBLE DESTINATION''
      else if c = c_reset__network_out_of_order then ''NETWORK OUT OF ORDER''
      else if c AND 0x80 \<noteq> 0 then ''CLIENT ORIGINATED''
      else ''UNKNOWN CAUSE'')"

definition reset_cause_validate :: "byte \<Rightarrow> bool" where
  "reset_cause_validate c =
     (if c \<in> {c_reset__client_originated,
        c_reset__out_of_order,
        c_reset__remote_procedure_error,
        c_reset__local_procedure_error,
        c_reset__network_congestion,
        c_reset__remote_client_operational,
        c_reset__network_operational,
        c_reset__incompatible_destination,
        c_reset__network_out_of_order} then True
      else if c AND 0x80 \<noteq> 0 then True else False)"

definition restart_cause_name :: "byte \<Rightarrow> string" where
  "restart_cause_name c =
     (if c = c_restart__client_originated then ''CLIENT ORIGINATED''
      else if c = c_restart__local_procedure_error then ''LOCAL PROCEDURE ERROR''
      else if c = c_restart__network_congestion then ''NETWORK CONGESTION''
      else if c = c_restart__network_operational then ''NETWORK OPERATIONAL''
      else if c AND 0x80 \<noteq> 0 then ''CLIENT ORIGINATED''
      else ''UNKNOWN CAUSE'')"

definition restart_cause_validate :: "byte \<Rightarrow> bool" where
  "restart_cause_validate c =
     (if c \<in> {c_restart__client_originated,
        c_restart__local_procedure_error,
        c_restart__network_congestion,
        c_restart__network_operational} then True
      else if c AND 0x80 \<noteq> 0 then True else False)"

section \<open>Message identifiers\<close>

definition JZ_MSG_VERSION :: byte where "JZ_MSG_VERSION = 1"
definition JZ_MSG_COUNT :: byte where "JZ_MSG_COUNT = 20"
definition JZ_MSG_DATA :: byte where "JZ_MSG_DATA = 0"
definition JZ_MSG_RR :: byte where "JZ_MSG_RR = 1"
definition JZ_MSG_RNR :: byte where "JZ_MSG_RNR = 2"
definition JZ_MSG_CALL_REQUEST :: byte where "JZ_MSG_CALL_REQUEST = 3"
definition JZ_MSG_CALL_ACCEPTED :: byte where "JZ_MSG_CALL_ACCEPTED = 4"
definition JZ_MSG_CLEAR_REQUEST :: byte where "JZ_MSG_CLEAR_REQUEST = 5"
definition JZ_MSG_CLEAR_CONFIRMATION :: byte where "JZ_MSG_CLEAR_CONFIRMATION = 6"
definition JZ_MSG_RESET_REQUEST :: byte where "JZ_MSG_RESET_REQUEST = 7"
definition JZ_MSG_RESET_CONFIRMATION :: byte where "JZ_MSG_RESET_CONFIRMATION = 8"
definition JZ_MSG_CONNECT :: byte where "JZ_MSG_CONNECT = 9"
definition JZ_MSG_CONNECT_INDICATION :: byte where "JZ_MSG_CONNECT_INDICATION = 10"
definition JZ_MSG_DISCONNECT :: byte where "JZ_MSG_DISCONNECT = 11"
definition JZ_MSG_DISCONNECT_INDICATION :: byte where "JZ_MSG_DISCONNECT_INDICATION = 12"
definition JZ_MSG_DIAGNOSTIC :: byte where "JZ_MSG_DIAGNOSTIC = 13"
definition JZ_MSG_DIRECTORY_REQUEST :: byte where "JZ_MSG_DIRECTORY_REQUEST = 14"
definition JZ_MSG_DIRECTORY :: byte where "JZ_MSG_DIRECTORY = 15"
definition JZ_MSG_ENQ :: byte where "JZ_MSG_ENQ = 16"
definition JZ_MSG_ACK :: byte where "JZ_MSG_ACK = 17"
definition JZ_MSG_RESTART_REQUEST :: byte where "JZ_MSG_RESTART_REQUEST = 18"
definition JZ_MSG_RESTART_CONFIRMATION :: byte where "JZ_MSG_RESTART_CONFIRMATION = 19"

lemmas jz_ids = JZ_MSG_DATA_def
  JZ_MSG_RR_def
  JZ_MSG_RNR_def
  JZ_MSG_CALL_REQUEST_def
  JZ_MSG_CALL_ACCEPTED_def
  JZ_MSG_CLEAR_REQUEST_def
  JZ_MSG_CLEAR_CONFIRMATION_def
  JZ_MSG_RESET_REQUEST_def
  JZ_MSG_RESET_CONFIRMATION_def
  JZ_MSG_CONNECT_def
  JZ_MSG_CONNECT_INDICATION_def
  JZ_MSG_DISCONNECT_def
  JZ_MSG_DISCONNECT_INDICATION_def
  JZ_MSG_DIAGNOSTIC_def
  JZ_MSG_DIRECTORY_REQUEST_def
  JZ_MSG_DIRECTORY_def
  JZ_MSG_ENQ_def
  JZ_MSG_ACK_def
  JZ_MSG_RESTART_REQUEST_def
  JZ_MSG_RESTART_CONFIRMATION_def

section \<open>Directions\<close>

definition jz_io_bidirectional :: byte where "jz_io_bidirectional = 0"
definition jz_io_incoming_calls_barred :: byte where "jz_io_incoming_calls_barred = 1"
definition jz_io_outgoing_calls_barred :: byte where "jz_io_outgoing_calls_barred = 2"
definition jz_io_calls_barred :: byte where "jz_io_calls_barred = 3"

lemmas jz_iodirs = jz_io_bidirectional_def jz_io_incoming_calls_barred_def
  jz_io_outgoing_calls_barred_def jz_io_calls_barred_def

definition jz_iodir_validate :: "byte \<Rightarrow> bool" where
  "jz_iodir_validate x =
     (if x = jz_io_bidirectional \<or> x = jz_io_incoming_calls_barred \<or>
         x = jz_io_outgoing_calls_barred \<or> x = jz_io_calls_barred then True else False)"

definition jz_iodir_short_names :: "string list" where
  "jz_iodir_short_names = [''IO'', ''XO'', ''IX'', ''XX'']"

definition jz_iodir_short_name :: "byte \<Rightarrow> string res" where
  "jz_iodir_short_name x =
     bind_res (c_assert (jz_iodir_validate x)) (\<lambda>_. Inr (jz_iodir_short_names ! unat x))"

section \<open>Basic facts\<close>

text \<open>Exactly the diagnostics of the enumeration have a row in the table of names.\<close>

lemma jz_diag_name_defined: "(\<exists>s. jz_diag_name d = Inr s) \<longleftrightarrow> jz_diag_validate d"
  by (simp add: jz_diag_name_def jz_diag_names_def jz_diag_validate_def jz_d_last_def
      jz_d_message_rate_exceeded_def word_le_nat_alt not_less less_Suc_eq_le)

lemma jz_iodir_validate_iff: "jz_iodir_validate x \<longleftrightarrow> unat x < 4"
proof -
  have "x = 0 \<or> x = 1 \<or> x = 2 \<or> x = 3 \<longleftrightarrow> unat x < 4"
    by (auto simp: word_unat_eq_iff)
  then show ?thesis by (simp add: jz_iodir_validate_def jz_iodirs)
qed

end
