(* ===== verification/Jz_Msg.thy ===== *)
theory Jz_Msg
  imports Jz_Crc Jz_Enums Joza_Facilities
begin

text \<open>
  The messages of the application server, \<^verbatim>\<open>application10/msg.h\<close> and \<^verbatim>\<open>application10/msg.c\<close>: the
  structure \<^verbatim>\<open>JzMsg\<close>, the functions that look into a receive buffer, the parser
  \<^verbatim>\<open>jz_msg_new_from_data\<close>, the serializer \<^verbatim>\<open>jz_msg_to_byte_array\<close>, and the constructors.

  A buffer is the list of its \<^verbatim>\<open>len\<close> bytes; the pointers \<^verbatim>\<open>needle\<close> and \<^verbatim>\<open>ceiling\<close> are offsets into
  it, and a read outside the list is undefined behaviour. A message on the wire is a signature,
  the length of the body, the body, zeros up to a multiple of four and the checksum of the body.
  The parser's macros jump to its labels \<^verbatim>\<open>premature\<close> and \<^verbatim>\<open>malformed\<close>; here each macro takes the
  rest of the function as its continuation. The macros that write are those of
  \<^verbatim>\<open>src/joza_msg.c\<close> and are taken from \<open>Joza_Codec\<close>.
\<close>

section \<open>The structure\<close>

record jz_msg =
  jm_signature :: u32
  jm_version :: byte
  jm_id :: byte
  jm_needle :: nat
  jm_ceiling :: nat
  jm_packed_size :: nat
  jm_valid :: bool
  jm_invalidity :: byte
  jm_hostname :: "cstr option"
  jm_iodir :: byte
  jm_directory :: "cstr option"
  jm_lcn :: u16
  jm_calling_address :: "cstr option"
  jm_called_address :: "cstr option"
  jm_packet :: packet_t
  jm_window :: u16
  jm_throughput :: tput_t
  jm_cause :: byte
  jm_diagnostic :: byte
  jm_diagnostic_version :: byte
  jm_diagnostic_id :: byte
  jm_diagnostic_lcn :: u16
  jm_q :: byte
  jm_pr :: u16
  jm_ps :: u16
  jm_data :: "bytes option"
  jm_crc :: u32

text \<open>\<^verbatim>\<open>g_new0\<close>\<close>

definition jz_msg_new0 :: jz_msg where
  "jz_msg_new0 = \<lparr>jm_signature = 0, jm_version = 0, jm_id = 0, jm_needle = 0, jm_ceiling = 0,
     jm_packed_size = 0, jm_valid = False, jm_invalidity = 0, jm_hostname = None, jm_iodir = 0,
     jm_directory = None, jm_lcn = 0, jm_calling_address = None, jm_called_address = None,
     jm_packet = 0, jm_window = 0, jm_throughput = 0, jm_cause = 0, jm_diagnostic = 0,
     jm_diagnostic_version = 0, jm_diagnostic_id = 0, jm_diagnostic_lcn = 0, jm_q = 0,
     jm_pr = 0, jm_ps = 0, jm_data = None, jm_crc = 0\<rparr>"

definition JZ_MSG_SIGNATURE :: u32 where "JZ_MSG_SIGNATURE = 0x4356537e"
definition JZ_MSG_ENVELOPE_SIGNATURE_SIZE :: nat where "JZ_MSG_ENVELOPE_SIGNATURE_SIZE = 4"
definition JZ_MSG_ENVELOPE_HEADER_SIZE :: nat where
  "JZ_MSG_ENVELOPE_HEADER_SIZE = JZ_MSG_ENVELOPE_SIGNATURE_SIZE + 4"
definition JZ_MSG_ENVELOPE_FOOTER_SIZE :: nat where "JZ_MSG_ENVELOPE_FOOTER_SIZE = 4"
definition JZ_MSG_ENVELOPE_SIZE :: nat where
  "JZ_MSG_ENVELOPE_SIZE = JZ_MSG_ENVELOPE_HEADER_SIZE + JZ_MSG_ENVELOPE_FOOTER_SIZE"
definition JZ_MSG_PAYLOAD_HEADER_SIZE :: nat where "JZ_MSG_PAYLOAD_HEADER_SIZE = 4"
definition JZ_MSG_MAX_DATA_SIZE :: nat where "JZ_MSG_MAX_DATA_SIZE = 1024"
definition JZ_MSG_MAX_PAYLOAD_LENGTH :: nat where
  "JZ_MSG_MAX_PAYLOAD_LENGTH = JZ_MSG_MAX_DATA_SIZE + 8"
definition JZ_MSG_MAX_LCN :: u16 where "JZ_MSG_MAX_LCN = 1024"
definition RAW_MAX :: nat where "RAW_MAX = 8192"

lemmas jz_sizes = JZ_MSG_ENVELOPE_SIGNATURE_SIZE_def JZ_MSG_ENVELOPE_HEADER_SIZE_def
  JZ_MSG_ENVELOPE_FOOTER_SIZE_def JZ_MSG_ENVELOPE_SIZE_def JZ_MSG_PAYLOAD_HEADER_SIZE_def
  JZ_MSG_MAX_DATA_SIZE_def JZ_MSG_MAX_PAYLOAD_LENGTH_def

text \<open>The macro is used at two widths: \<^verbatim>\<open>size_t\<close> and \<^verbatim>\<open>guint32\<close>.\<close>

definition JZ_MSG_PADDING_LENGTH :: "nat \<Rightarrow> nat" where
  "JZ_MSG_PADDING_LENGTH body_size = (if body_size mod 4 \<noteq> 0 then 4 - body_size mod 4 else 0)"

definition JZ_MSG_PADDING_LENGTH_32 :: "u32 \<Rightarrow> u32" where
  "JZ_MSG_PADDING_LENGTH_32 body_size = (if body_size mod 4 \<noteq> 0 then 4 - body_size mod 4 else 0)"

section \<open>Looking into a buffer\<close>

text \<open>Four bytes from offset \<open>i\<close>, most significant first.\<close>

definition read_u32 :: "bytes \<Rightarrow> nat \<Rightarrow> u32 res" where
  "read_u32 buf i =
     bind_res (mem_read buf i) (\<lambda>a.
     bind_res (mem_read buf (i + 1)) (\<lambda>b.
     bind_res (mem_read buf (i + 2)) (\<lambda>c.
     bind_res (mem_read buf (i + 3)) (\<lambda>d.
     Inr (push_bit 24 (ucast a) + push_bit 16 (ucast b) + push_bit 8 (ucast c) + ucast d)))))"

definition jz_buffer_begins_with_signature :: "bytes \<Rightarrow> bool res" where
  "jz_buffer_begins_with_signature buf =
     (if length buf < JZ_MSG_ENVELOPE_SIGNATURE_SIZE then Inr False
      else bind_res (read_u32 buf 0) (\<lambda>signature. Inr (signature = JZ_MSG_SIGNATURE)))"

definition jz_buffer_msg_body_length :: "bytes \<Rightarrow> u32 res" where
  "jz_buffer_msg_body_length buf =
     bind_res (c_assert (length buf \<ge> JZ_MSG_ENVELOPE_HEADER_SIZE)) (\<lambda>_. read_u32 buf 4)"

text \<open>The sum is computed with 32 bits.\<close>

definition jz_buffer_contains_a_message :: "bytes \<Rightarrow> bool res" where
  "jz_buffer_contains_a_message buf =
     (if length buf < JZ_MSG_ENVELOPE_SIZE then Inr False
      else bind_res (jz_buffer_begins_with_signature buf) (\<lambda>begins.
        if \<not> begins then Inr False
        else bind_res (jz_buffer_msg_body_length buf) (\<lambda>body_length.
          if length buf < unat (of_nat JZ_MSG_ENVELOPE_SIZE + body_length +
               JZ_MSG_PADDING_LENGTH_32 body_length) then Inr False
          else Inr True)))"

definition jz_buffer_msg_binary_size :: "bytes \<Rightarrow> nat res" where
  "jz_buffer_msg_binary_size buf =
     bind_res (c_assert (length buf \<ge> JZ_MSG_ENVELOPE_SIZE)) (\<lambda>_.
     bind_res (jz_buffer_begins_with_signature buf) (\<lambda>begins.
     bind_res (c_assert begins) (\<lambda>_.
     bind_res (jz_buffer_msg_body_length buf) (\<lambda>body_length.
     bind_res (c_assert (unat body_length \<le> JZ_MSG_MAX_PAYLOAD_LENGTH)) (\<lambda>_.
     Inr (unat (of_nat JZ_MSG_ENVELOPE_SIZE + body_length +
       JZ_MSG_PADDING_LENGTH_32 body_length)))))))"

text \<open>The bytes of a block that \<^verbatim>\<open>memcpy\<close> or the checksum reads.\<close>

definition mem_block :: "bytes \<Rightarrow> nat \<Rightarrow> nat \<Rightarrow> bytes res" where
  "mem_block buf i n = (if i + n \<le> length buf then Inr (take n (drop i buf)) else Inl Undefined)"

definition jz_buffer_msg_envelope_is_valid :: "bytes \<Rightarrow> bool res" where
  "jz_buffer_msg_envelope_is_valid buf =
     (if length buf < JZ_MSG_ENVELOPE_SIZE then Inr False
      else bind_res (jz_buffer_begins_with_signature buf) (\<lambda>begins.
        if \<not> begins then Inr False
        else bind_res (jz_buffer_msg_body_length buf) (\<lambda>body_length.
          if unat body_length > JZ_MSG_MAX_PAYLOAD_LENGTH then Inr False
          else let padding = JZ_MSG_PADDING_LENGTH_32 body_length in
            bind_res (mem_block buf JZ_MSG_ENVELOPE_HEADER_SIZE (unat body_length)) (\<lambda>body.
            bind_res (read_u32 buf (unat (of_nat JZ_MSG_ENVELOPE_HEADER_SIZE + body_length + padding)))
              (\<lambda>crc. if crc \<noteq> digital_crc32 body then Inr False else Inr True)))))"

definition jz_buffer_msg_lcn :: "bytes \<Rightarrow> u16 res" where
  "jz_buffer_msg_lcn buf =
     bind_res (c_assert (length buf \<ge> JZ_MSG_ENVELOPE_HEADER_SIZE + JZ_MSG_PAYLOAD_HEADER_SIZE)) (\<lambda>_.
     bind_res (mem_read buf (JZ_MSG_ENVELOPE_HEADER_SIZE + 2)) (\<lambda>a.
     bind_res (mem_read buf (JZ_MSG_ENVELOPE_HEADER_SIZE + 3)) (\<lambda>b.
     Inr (push_bit 8 (ucast a) + ucast b))))"

section \<open>The parser\<close>

text \<open>The labels at its end.\<close>

definition jz_malformed :: "jz_msg \<Rightarrow> jz_msg res" where
  "jz_malformed self = Inr (self\<lparr>jm_valid := False, jm_packed_size := jm_needle self\<rparr>)"

definition jz_premature :: "jz_msg \<Rightarrow> jz_msg res" where
  "jz_premature self =
     Inr (self\<lparr>jm_invalidity := jz_d_packet_too_short, jm_packed_size := jm_needle self\<rparr>)"

definition advance :: "nat \<Rightarrow> jz_msg \<Rightarrow> jz_msg" where
  "advance n self = self\<lparr>jm_needle := jm_needle self + n\<rparr>"

text \<open>The macros; \<open>k\<close> is the rest of the function, applied to the value and the message.\<close>

definition JZ_GET_NUMBER1 :: "bytes \<Rightarrow> (byte \<Rightarrow> jz_msg \<Rightarrow> jz_msg res) \<Rightarrow> jz_msg \<Rightarrow> jz_msg res" where
  "JZ_GET_NUMBER1 buf k self =
     (if jm_needle self + 1 > jm_ceiling self then jz_premature self
      else bind_res (mem_read buf (jm_needle self)) (\<lambda>a. k a (advance 1 self)))"

definition JZ_GET_NUMBER2 :: "bytes \<Rightarrow> (u16 \<Rightarrow> jz_msg \<Rightarrow> jz_msg res) \<Rightarrow> jz_msg \<Rightarrow> jz_msg res" where
  "JZ_GET_NUMBER2 buf k self =
     (if jm_needle self + 2 > jm_ceiling self then jz_premature self
      else bind_res (mem_read buf (jm_needle self)) (\<lambda>a.
        bind_res (mem_read buf (jm_needle self + 1)) (\<lambda>b.
        k (push_bit 8 (ucast a) + ucast b) (advance 2 self))))"

definition JZ_GET_NUMBER4 :: "bytes \<Rightarrow> (u32 \<Rightarrow> jz_msg \<Rightarrow> jz_msg res) \<Rightarrow> jz_msg \<Rightarrow> jz_msg res" where
  "JZ_GET_NUMBER4 buf k self =
     (if jm_needle self + 4 > jm_ceiling self then jz_premature self
      else bind_res (read_u32 buf (jm_needle self)) (\<lambda>a. k a (advance 4 self)))"

definition JZ_GET_STRING :: "bytes \<Rightarrow> (cstr \<Rightarrow> jz_msg \<Rightarrow> jz_msg res) \<Rightarrow> jz_msg \<Rightarrow> jz_msg res" where
  "JZ_GET_STRING buf k =
     JZ_GET_NUMBER1 buf (\<lambda>string_size self.
       if jm_needle self + unat string_size > jm_ceiling self then jz_premature self
       else bind_res (mem_block buf (jm_needle self) (unat string_size)) (\<lambda>s.
         k (cstr_of s) (advance (unat string_size) self)))"

definition JZ_GET_RAW :: "bytes \<Rightarrow> (jz_msg \<Rightarrow> jz_msg res) \<Rightarrow> jz_msg \<Rightarrow> jz_msg res" where
  "JZ_GET_RAW buf k =
     JZ_GET_NUMBER2 buf (\<lambda>string_size self.
       if jm_needle self + unat string_size > jm_ceiling self then jz_premature self
       else if unat string_size > RAW_MAX then jz_malformed self
       else bind_res (mem_block buf (jm_needle self) (unat string_size)) (\<lambda>s.
         k (advance (unat string_size) (self\<lparr>jm_data := map_option (\<lambda>d. d @ s) (jm_data self)\<rparr>))))"

text \<open>The cases of the switch.\<close>

definition jz_get_data :: "bytes \<Rightarrow> (jz_msg \<Rightarrow> jz_msg res) \<Rightarrow> jz_msg \<Rightarrow> jz_msg res" where
  "jz_get_data buf k =
     JZ_GET_NUMBER1 buf (\<lambda>q self.
     JZ_GET_NUMBER2 buf (\<lambda>pr self.
     JZ_GET_NUMBER2 buf (\<lambda>ps self.
     JZ_GET_RAW buf k (self\<lparr>jm_ps := ps, jm_data := Some []\<rparr>))
     (self\<lparr>jm_pr := pr\<rparr>))
     (self\<lparr>jm_q := q\<rparr>))"

definition jz_get_pr :: "bytes \<Rightarrow> (jz_msg \<Rightarrow> jz_msg res) \<Rightarrow> jz_msg \<Rightarrow> jz_msg res" where
  "jz_get_pr buf k = JZ_GET_NUMBER2 buf (\<lambda>pr self. k (self\<lparr>jm_pr := pr\<rparr>))"

definition jz_get_call :: "bytes \<Rightarrow> (jz_msg \<Rightarrow> jz_msg res) \<Rightarrow> jz_msg \<Rightarrow> jz_msg res" where
  "jz_get_call buf k =
     JZ_GET_STRING buf (\<lambda>calling_address self.
     JZ_GET_STRING buf (\<lambda>called_address self.
     JZ_GET_NUMBER1 buf (\<lambda>packet self.
     JZ_GET_NUMBER2 buf (\<lambda>window self.
     JZ_GET_NUMBER1 buf (\<lambda>throughput self.
     JZ_GET_RAW buf k (self\<lparr>jm_throughput := unat throughput, jm_data := Some []\<rparr>))
     (self\<lparr>jm_window := window\<rparr>))
     (self\<lparr>jm_packet := unat packet\<rparr>))
     (self\<lparr>jm_called_address := Some called_address\<rparr>))
     (self\<lparr>jm_calling_address := Some calling_address\<rparr>))"

definition jz_get_cause :: "bytes \<Rightarrow> (jz_msg \<Rightarrow> jz_msg res) \<Rightarrow> jz_msg \<Rightarrow> jz_msg res" where
  "jz_get_cause buf k =
     JZ_GET_NUMBER1 buf (\<lambda>cause self.
     JZ_GET_NUMBER1 buf (\<lambda>diagnostic self. k (self\<lparr>jm_diagnostic := diagnostic\<rparr>))
     (self\<lparr>jm_cause := cause\<rparr>))"

definition jz_get_connect :: "bytes \<Rightarrow> (jz_msg \<Rightarrow> jz_msg res) \<Rightarrow> jz_msg \<Rightarrow> jz_msg res" where
  "jz_get_connect buf k =
     JZ_GET_STRING buf (\<lambda>calling_address self.
     JZ_GET_NUMBER1 buf (\<lambda>iodir self. k (self\<lparr>jm_iodir := iodir\<rparr>))
     (self\<lparr>jm_calling_address := Some calling_address\<rparr>))"

definition jz_get_diagnostic :: "bytes \<Rightarrow> (jz_msg \<Rightarrow> jz_msg res) \<Rightarrow> jz_msg \<Rightarrow> jz_msg res" where
  "jz_get_diagnostic buf k =
     JZ_GET_NUMBER1 buf (\<lambda>diagnostic self.
     JZ_GET_NUMBER1 buf (\<lambda>diagnostic_version self.
     JZ_GET_NUMBER1 buf (\<lambda>diagnostic_id self.
     JZ_GET_NUMBER2 buf (\<lambda>diagnostic_lcn self. k (self\<lparr>jm_diagnostic_lcn := diagnostic_lcn\<rparr>))
     (self\<lparr>jm_diagnostic_id := diagnostic_id\<rparr>))
     (self\<lparr>jm_diagnostic_version := diagnostic_version\<rparr>))
     (self\<lparr>jm_diagnostic := diagnostic\<rparr>))"

text \<open>The switch over the message type; the identifiers without fields only break.\<close>

definition jz_get_payload :: "bytes \<Rightarrow> (jz_msg \<Rightarrow> jz_msg res) \<Rightarrow> jz_msg \<Rightarrow> jz_msg res" where
  "jz_get_payload buf k self =
     (if jm_id self = JZ_MSG_DATA then jz_get_data buf k self
      else if jm_id self = JZ_MSG_RR then jz_get_pr buf k self
      else if jm_id self = JZ_MSG_RNR then jz_get_pr buf k self
      else if jm_id self = JZ_MSG_CALL_REQUEST then jz_get_call buf k self
      else if jm_id self = JZ_MSG_CALL_ACCEPTED then jz_get_call buf k self
      else if jm_id self = JZ_MSG_CLEAR_REQUEST then jz_get_cause buf k self
      else if jm_id self = JZ_MSG_CLEAR_CONFIRMATION then k self
      else if jm_id self = JZ_MSG_RESET_REQUEST then jz_get_cause buf k self
      else if jm_id self = JZ_MSG_RESET_CONFIRMATION then k self
      else if jm_id self = JZ_MSG_CONNECT then jz_get_connect buf k self
      else if jm_id self = JZ_MSG_CONNECT_INDICATION then k self
      else if jm_id self = JZ_MSG_DISCONNECT then k self
      else if jm_id self = JZ_MSG_DISCONNECT_INDICATION then k self
      else if jm_id self = JZ_MSG_DIAGNOSTIC then jz_get_diagnostic buf k self
      else if jm_id self = JZ_MSG_DIRECTORY_REQUEST then k self
      else if jm_id self = JZ_MSG_DIRECTORY then k self
      else if jm_id self = JZ_MSG_ENQ then k self
      else if jm_id self = JZ_MSG_ACK then k self
      else if jm_id self = JZ_MSG_RESTART_REQUEST then jz_get_cause buf k self
      else if jm_id self = JZ_MSG_RESTART_CONFIRMATION then k self
      else jz_malformed (self\<lparr>jm_invalidity := jz_d_unknown_message_type\<rparr>))"

text \<open>The loop over the padding.\<close>

primrec jz_get_padding :: "bytes \<Rightarrow> nat \<Rightarrow> (jz_msg \<Rightarrow> jz_msg res) \<Rightarrow> jz_msg \<Rightarrow> jz_msg res" where
  "jz_get_padding buf 0 k = k"
| "jz_get_padding buf (Suc n) k = JZ_GET_NUMBER1 buf (\<lambda>padding. jz_get_padding buf n k)"

text \<open>The end of the parser: padding, checksum, and the comparison with the envelope.\<close>

definition jz_get_footer :: "bytes \<Rightarrow> nat \<Rightarrow> jz_msg \<Rightarrow> jz_msg res" where
  "jz_get_footer buf frame_length =
     jz_get_padding buf (JZ_MSG_PADDING_LENGTH frame_length)
       (JZ_GET_NUMBER4 buf (\<lambda>crc self.
         let self = self\<lparr>jm_crc := crc, jm_packed_size := jm_needle self\<rparr> in
         if jm_packed_size self < JZ_MSG_ENVELOPE_SIZE + frame_length + JZ_MSG_PADDING_LENGTH frame_length
         then Inr (self\<lparr>jm_valid := False, jm_invalidity := jz_d_packet_too_long\<rparr>)
         else Inr (self\<lparr>jm_valid := True\<rparr>)))"

text \<open>The fields that every message has.\<close>

definition jz_get_header :: "bytes \<Rightarrow> (jz_msg \<Rightarrow> jz_msg res) \<Rightarrow> jz_msg \<Rightarrow> jz_msg res" where
  "jz_get_header buf k =
     JZ_GET_NUMBER1 buf (\<lambda>version self.
     JZ_GET_NUMBER1 buf (\<lambda>i self.
     JZ_GET_NUMBER2 buf (\<lambda>lcn self.
       let self = self\<lparr>jm_lcn := lcn\<rparr> in
       if jm_version self \<noteq> 1 then jz_malformed (self\<lparr>jm_invalidity := jz_d_unknown_version\<rparr>)
       else k self)
     (self\<lparr>jm_id := i\<rparr>))
     (self\<lparr>jm_version := version\<rparr>))"

definition jz_msg_new_from_data :: "bytes \<Rightarrow> jz_msg res" where
  "jz_msg_new_from_data buf =
     bind_res (c_assert (length buf > JZ_MSG_ENVELOPE_SIZE)) (\<lambda>_.
     JZ_GET_NUMBER4 buf (\<lambda>signature self.
       bind_res (c_assert (signature = JZ_MSG_SIGNATURE)) (\<lambda>_.
       JZ_GET_NUMBER4 buf (\<lambda>frame_length self.
         jz_get_header buf (jz_get_payload buf (jz_get_footer buf (unat frame_length)))
           (self\<lparr>jm_ceiling := JZ_MSG_ENVELOPE_SIZE + unat frame_length +
              JZ_MSG_PADDING_LENGTH (unat frame_length)\<rparr>))
       (self\<lparr>jm_signature := signature\<rparr>)))
     (jz_msg_new0\<lparr>jm_data := Some [], jm_needle := 0, jm_ceiling := length buf\<rparr>))"

definition jz_msg_binary_size :: "jz_msg \<Rightarrow> nat" where
  "jz_msg_binary_size M = jm_packed_size M"

section \<open>The serializer\<close>

definition jz_strlen :: "cstr option \<Rightarrow> nat" where
  "jz_strlen s = (case s of None \<Rightarrow> 0 | Some t \<Rightarrow> length t)"

text \<open>\<^verbatim>\<open>RAW_SIZE\<close> and \<^verbatim>\<open>PUT_RAW\<close> dereference the array.\<close>

definition RAW_SIZE :: "bytes option \<Rightarrow> nat res" where
  "RAW_SIZE host = (case host of None \<Rightarrow> Inl Undefined | Some d \<Rightarrow> Inr (2 + length d))"

definition PUT_RAW :: "bytes option \<Rightarrow> bytes res" where
  "PUT_RAW host =
     (case host of None \<Rightarrow> Inl Undefined | Some d \<Rightarrow> Inr (PUT_NUMBER2 (of_nat (length d)) @ d))"

text \<open>The first switch: the size of the body. \<^verbatim>\<open>g_error\<close> aborts.\<close>

definition jz_frame_size :: "jz_msg \<Rightarrow> nat res" where
  "jz_frame_size self =
     (let i = jm_id self; h = JZ_MSG_PAYLOAD_HEADER_SIZE in
      if i = JZ_MSG_DATA then
        bind_res (RAW_SIZE (jm_data self)) (\<lambda>n. Inr (h + 1 + 2 + 2 + n))
      else if i = JZ_MSG_RR then Inr (h + 2)
      else if i = JZ_MSG_RNR then Inr (h + 2)
      else if i = JZ_MSG_CALL_REQUEST \<or> i = JZ_MSG_CALL_ACCEPTED then
        bind_res (RAW_SIZE (jm_data self)) (\<lambda>n.
          Inr (h + 1 + jz_strlen (jm_calling_address self) + 1 + jz_strlen (jm_called_address self) +
            1 + 2 + 1 + n))
      else if i = JZ_MSG_CLEAR_REQUEST then Inr (h + 1 + 1)
      else if i = JZ_MSG_CLEAR_CONFIRMATION then Inr h
      else if i = JZ_MSG_RESET_REQUEST then Inr (h + 1 + 1)
      else if i = JZ_MSG_RESET_CONFIRMATION then Inr h
      else if i = JZ_MSG_CONNECT then Inr (h + 1 + jz_strlen (jm_calling_address self) + 1)
      else if i = JZ_MSG_CONNECT_INDICATION then Inr h
      else if i = JZ_MSG_DISCONNECT then Inr h
      else if i = JZ_MSG_DISCONNECT_INDICATION then Inr h
      else if i = JZ_MSG_DIAGNOSTIC then Inr (h + 1 + 1 + 1 + 2)
      else if i = JZ_MSG_DIRECTORY_REQUEST then Inr h
      else if i = JZ_MSG_ENQ then Inr h
      else if i = JZ_MSG_ACK then Inr h
      else if i = JZ_MSG_RESTART_REQUEST then Inr (h + 1 + 1)
      else if i = JZ_MSG_RESTART_CONFIRMATION then Inr h
      else Inl Aborted)"

text \<open>The second switch: the fields of the message type.\<close>

definition jz_put_payload :: "jz_msg \<Rightarrow> bytes res" where
  "jz_put_payload self =
     (let i = jm_id self in
      if i = JZ_MSG_DATA then
        bind_res (PUT_RAW (jm_data self)) (\<lambda>raw.
          Inr (PUT_NUMBER1 (jm_q self) @ PUT_NUMBER2 (jm_pr self) @ PUT_NUMBER2 (jm_ps self) @ raw))
      else if i = JZ_MSG_RR \<or> i = JZ_MSG_RNR then Inr (PUT_NUMBER2 (jm_pr self))
      else if i = JZ_MSG_CALL_REQUEST \<or> i = JZ_MSG_CALL_ACCEPTED then
        bind_res (PUT_RAW (jm_data self)) (\<lambda>raw.
          Inr (put_string_or_empty (jm_calling_address self) @
            put_string_or_empty (jm_called_address self) @ PUT_NUMBER1 (of_nat (jm_packet self)) @
            PUT_NUMBER2 (jm_window self) @ PUT_NUMBER1 (of_nat (jm_throughput self)) @ raw))
      else if i = JZ_MSG_CLEAR_REQUEST \<or> i = JZ_MSG_RESET_REQUEST \<or> i = JZ_MSG_RESTART_REQUEST then
        Inr (PUT_NUMBER1 (jm_cause self) @ PUT_NUMBER1 (jm_diagnostic self))
      else if i = JZ_MSG_CONNECT then
        Inr (put_string_or_empty (jm_calling_address self) @ PUT_NUMBER1 (jm_iodir self))
      else if i = JZ_MSG_DIAGNOSTIC then
        Inr (PUT_NUMBER1 (jm_diagnostic self) @ PUT_NUMBER1 (jm_diagnostic_version self) @
          PUT_NUMBER1 (jm_diagnostic_id self) @ PUT_NUMBER2 (jm_diagnostic_lcn self))
      else Inr [])"

text \<open>
  The array has room for exactly the envelope, the body and the padding. Writing more is undefined,
  and so is handing out bytes that were never written.
\<close>

definition jz_msg_to_byte_array :: "jz_msg \<Rightarrow> (bytes \<times> jz_msg) res" where
  "jz_msg_to_byte_array self =
     bind_res (jz_frame_size self) (\<lambda>frame_size.
     bind_res (jz_put_payload self) (\<lambda>payload.
       let padding = JZ_MSG_PADDING_LENGTH frame_size;
           len = JZ_MSG_ENVELOPE_SIZE + frame_size + padding;
           buf = PUT_NUMBER4 (jm_signature self) @ PUT_NUMBER4 (of_nat frame_size) @
             PUT_NUMBER1 (jm_version self) @ PUT_NUMBER1 (jm_id self) @ PUT_NUMBER2 (jm_lcn self) @
             payload @ replicate padding 0
       in bind_res (mem_block buf JZ_MSG_ENVELOPE_HEADER_SIZE frame_size) (\<lambda>body.
          let crc = digital_crc32 body; out = buf @ PUT_NUMBER4 crc in
          if length out \<noteq> len then Inl Undefined
          else Inr (out, self\<lparr>jm_needle := len, jm_crc := crc\<rparr>))))"

section \<open>Validation and constructors\<close>

text \<open>The checks of the fields are disabled by the preprocessor.\<close>

definition jz_msg_validate :: "jz_msg \<Rightarrow> byte" where
  "jz_msg_validate self =
     (if jm_signature self \<noteq> JZ_MSG_SIGNATURE then jz_d_invalid_signature
      else if jm_version self \<noteq> 1 then jz_d_unknown_version
      else if jm_id self \<ge> JZ_MSG_COUNT then jz_d_unknown_message_type
      else jz_d_ok)"

definition MSG_HEADER :: "jz_msg \<Rightarrow> jz_msg" where
  "MSG_HEADER msg = msg\<lparr>jm_signature := JZ_MSG_SIGNATURE, jm_version := 1, jm_valid := True\<rparr>"

text \<open>The macro reads the message it has just freed for its error text.\<close>

definition MSG_ERROR_CHECK :: "jz_msg \<Rightarrow> jz_msg res" where
  "MSG_ERROR_CHECK msg = (if jz_msg_validate msg \<noteq> jz_d_ok then Inl Undefined else Inr msg)"

definition jz_msg_new_connect :: "cstr option \<Rightarrow> byte \<Rightarrow> jz_msg res" where
  "jz_msg_new_connect calling_address iodir =
     MSG_ERROR_CHECK ((MSG_HEADER jz_msg_new0)\<lparr>jm_id := JZ_MSG_CONNECT,
       jm_calling_address := calling_address, jm_iodir := iodir\<rparr>)"

definition jz_msg_new_connect_indication :: "jz_msg res" where
  "jz_msg_new_connect_indication =
     MSG_ERROR_CHECK ((MSG_HEADER jz_msg_new0)\<lparr>jm_id := JZ_MSG_CONNECT_INDICATION\<rparr>)"

definition jz_msg_new_disconnect :: "jz_msg res" where
  "jz_msg_new_disconnect = MSG_ERROR_CHECK ((MSG_HEADER jz_msg_new0)\<lparr>jm_id := JZ_MSG_DISCONNECT\<rparr>)"

definition jz_msg_new_disconnect_indication :: "jz_msg res" where
  "jz_msg_new_disconnect_indication =
     MSG_ERROR_CHECK ((MSG_HEADER jz_msg_new0)\<lparr>jm_id := JZ_MSG_DISCONNECT_INDICATION\<rparr>)"

definition jz_msg_new_call_request ::
  "u16 \<Rightarrow> cstr option \<Rightarrow> cstr option \<Rightarrow> packet_t \<Rightarrow> u16 \<Rightarrow> tput_t \<Rightarrow> bytes \<Rightarrow> jz_msg res" where
  "jz_msg_new_call_request lcn calling_address called_address packet window throughput data =
     MSG_ERROR_CHECK ((MSG_HEADER jz_msg_new0)\<lparr>jm_id := JZ_MSG_CALL_REQUEST, jm_lcn := lcn,
       jm_calling_address := calling_address, jm_called_address := called_address,
       jm_packet := packet, jm_window := window, jm_throughput := throughput, jm_data := Some data\<rparr>)"

definition jz_msg_new_call_accepted ::
  "u16 \<Rightarrow> cstr option \<Rightarrow> cstr option \<Rightarrow> packet_t \<Rightarrow> u16 \<Rightarrow> tput_t \<Rightarrow> bytes \<Rightarrow> jz_msg res" where
  "jz_msg_new_call_accepted lcn calling_address called_address packet window throughput data =
     MSG_ERROR_CHECK ((MSG_HEADER jz_msg_new0)\<lparr>jm_id := JZ_MSG_CALL_ACCEPTED, jm_lcn := lcn,
       jm_calling_address := calling_address, jm_called_address := called_address,
       jm_packet := packet, jm_window := window, jm_throughput := throughput, jm_data := Some data\<rparr>)"

definition jz_msg_new_clear_request :: "u16 \<Rightarrow> byte \<Rightarrow> byte \<Rightarrow> jz_msg res" where
  "jz_msg_new_clear_request lcn cause diagnostic =
     MSG_ERROR_CHECK ((MSG_HEADER jz_msg_new0)\<lparr>jm_id := JZ_MSG_CLEAR_REQUEST, jm_lcn := lcn,
       jm_cause := cause, jm_diagnostic := diagnostic\<rparr>)"

definition jz_msg_new_clear_confirmation :: "u16 \<Rightarrow> jz_msg res" where
  "jz_msg_new_clear_confirmation lcn =
     MSG_ERROR_CHECK ((MSG_HEADER jz_msg_new0)\<lparr>jm_id := JZ_MSG_CLEAR_CONFIRMATION, jm_lcn := lcn\<rparr>)"

definition jz_msg_new_data :: "u16 \<Rightarrow> byte \<Rightarrow> u16 \<Rightarrow> u16 \<Rightarrow> bytes \<Rightarrow> jz_msg res" where
  "jz_msg_new_data lcn q pr ps data =
     MSG_ERROR_CHECK ((MSG_HEADER jz_msg_new0)\<lparr>jm_id := JZ_MSG_DATA, jm_lcn := lcn, jm_q := q,
       jm_pr := pr, jm_ps := ps, jm_data := Some data\<rparr>)"

definition jz_msg_new_rr :: "u16 \<Rightarrow> u16 \<Rightarrow> jz_msg res" where
  "jz_msg_new_rr lcn pr =
     Inr ((MSG_HEADER jz_msg_new0)\<lparr>jm_id := JZ_MSG_RR, jm_lcn := lcn, jm_pr := pr\<rparr>)"

definition jz_msg_new_rnr :: "u16 \<Rightarrow> u16 \<Rightarrow> jz_msg res" where
  "jz_msg_new_rnr lcn pr =
     Inr ((MSG_HEADER jz_msg_new0)\<lparr>jm_id := JZ_MSG_RNR, jm_lcn := lcn, jm_pr := pr\<rparr>)"

definition jz_msg_new_reset_request :: "u16 \<Rightarrow> byte \<Rightarrow> byte \<Rightarrow> jz_msg res" where
  "jz_msg_new_reset_request lcn cause diagnostic =
     MSG_ERROR_CHECK ((MSG_HEADER jz_msg_new0)\<lparr>jm_id := JZ_MSG_RESET_REQUEST, jm_lcn := lcn,
       jm_cause := cause, jm_diagnostic := diagnostic\<rparr>)"

definition jz_msg_new_reset_confirmation :: "u16 \<Rightarrow> jz_msg res" where
  "jz_msg_new_reset_confirmation lcn =
     MSG_ERROR_CHECK ((MSG_HEADER jz_msg_new0)\<lparr>jm_id := JZ_MSG_RESET_CONFIRMATION, jm_lcn := lcn\<rparr>)"

definition jz_msg_new_diagnostic :: "byte \<Rightarrow> byte \<Rightarrow> byte \<Rightarrow> u16 \<Rightarrow> jz_msg res" where
  "jz_msg_new_diagnostic diagnostic version i lcn =
     MSG_ERROR_CHECK ((MSG_HEADER jz_msg_new0)\<lparr>jm_id := JZ_MSG_DIAGNOSTIC,
       jm_diagnostic := diagnostic, jm_diagnostic_version := version, jm_diagnostic_id := i,
       jm_diagnostic_lcn := lcn\<rparr>)"

definition jz_msg_new_restart_request :: "byte \<Rightarrow> byte \<Rightarrow> jz_msg res" where
  "jz_msg_new_restart_request cause diagnostic =
     MSG_ERROR_CHECK ((MSG_HEADER jz_msg_new0)\<lparr>jm_id := JZ_MSG_RESTART_REQUEST,
       jm_cause := cause, jm_diagnostic := diagnostic\<rparr>)"

definition jz_msg_new_restart_confirmation :: "jz_msg res" where
  "jz_msg_new_restart_confirmation =
     MSG_ERROR_CHECK ((MSG_HEADER jz_msg_new0)\<lparr>jm_id := JZ_MSG_RESTART_CONFIRMATION\<rparr>)"

definition jz_msg_is_for_channel :: "jz_msg \<Rightarrow> bool" where
  "jz_msg_is_for_channel M =
     (if (jm_lcn M \<ge> 1 \<and> jm_lcn M \<le> JZ_MSG_MAX_LCN) \<and>
         (jm_id M = JZ_MSG_CALL_REQUEST \<or> jm_id M = JZ_MSG_DATA \<or> jm_id M = JZ_MSG_RR \<or>
          jm_id M = JZ_MSG_RNR \<or> jm_id M = JZ_MSG_CALL_ACCEPTED \<or> jm_id M = JZ_MSG_CLEAR_REQUEST \<or>
          jm_id M = JZ_MSG_CLEAR_CONFIRMATION \<or> jm_id M = JZ_MSG_RESET_REQUEST \<or>
          jm_id M = JZ_MSG_RESET_CONFIRMATION) then True else False)"

section \<open>One message out of a buffer\<close>

text \<open>
  The results \<^verbatim>\<open>siz\<close>, \<^verbatim>\<open>msg\<close>, \<^verbatim>\<open>is_error\<close> and \<^verbatim>\<open>is_fatal\<close>. When the payload does not fit its
  envelope the message is freed and then read for the diagnostic about it.
\<close>

definition jz_buffer_parse_into_message :: "bytes \<Rightarrow> (nat \<times> jz_msg option \<times> bool \<times> bool) res" where
  "jz_buffer_parse_into_message buf =
     bind_res (c_assert (length buf > 0)) (\<lambda>_.
     if length buf < JZ_MSG_ENVELOPE_SIZE then Inr (0, None, False, False)
     else bind_res (jz_buffer_begins_with_signature buf) (\<lambda>begins.
     if \<not> begins then Inr (0, None, False, True)
     else bind_res (jz_buffer_contains_a_message buf) (\<lambda>complete.
     if \<not> complete then Inr (0, None, False, False)
     else bind_res (jz_buffer_msg_envelope_is_valid buf) (\<lambda>envelope.
     if \<not> envelope then
       bind_res (jz_msg_new_diagnostic jz_d_invalid_envelope 0 0 0) (\<lambda>msg.
       bind_res (jz_buffer_msg_binary_size buf) (\<lambda>siz. Inr (siz, Some msg, True, False)))
     else bind_res (jz_buffer_msg_body_length buf) (\<lambda>body_length.
     if unat body_length < JZ_MSG_PAYLOAD_HEADER_SIZE then
       bind_res (jz_msg_new_diagnostic jz_d_packet_too_short 0 0 0) (\<lambda>msg.
       bind_res (jz_buffer_msg_binary_size buf) (\<lambda>siz. Inr (siz, Some msg, True, False)))
     else bind_res (jz_buffer_msg_lcn buf) (\<lambda>lcn.
     if lcn > JZ_MSG_MAX_LCN then
       bind_res (jz_msg_new_diagnostic jz_d_packet_on_unassigned_logical_channel 0 0 0) (\<lambda>msg.
       bind_res (jz_buffer_msg_binary_size buf) (\<lambda>siz. Inr (siz, Some msg, True, False)))
     else bind_res (jz_msg_new_from_data buf) (\<lambda>msg.
       let siz = jz_msg_binary_size msg in
       if \<not> jm_valid msg then Inl Undefined
       else Inr (siz, Some msg, False, False))))))))"

end
