(* ===== verification/Jz_Text.thy ===== *)
theory Jz_Text
  imports Jz_Msg
begin

text \<open>
  Texts of the application server: the names of messages, queues and directions, the six-bit characters of
  \<^verbatim>\<open>application10/msg.c\<close>, and its checks of addresses and host names. What the checks use of the Unicode functions of
  GLib is a parameter: \<open>decode\<close> gives the code points of a valid UTF-8 string, \<open>isgraph\<close> and \<open>isprint\<close>
  classify them. A table row that has no initializer is an empty string.
\<close>

section \<open>Names\<close>

definition id_names :: "string list" where
  "id_names =
     [''DATA'', ''RR'', ''RNR'', ''CALL_REQUEST'', ''CALL_ACCEPTED'', ''CLEAR_REQUEST'', ''CLEAR_CONFIRMATION'',
      ''RESET_REQUEST'', ''RESET_CONFIRMATION'', ''CONNECT'', ''CONNECT_INDICATION'', ''DISCONNECT'',
      ''DISCONNECT_INDICATION'', ''DIAGNOSTIC'', ''DIRECTORY_REQUEST'', ''DIRECTORY'', ''ENQ'', ''ACK'',
      ''RESTART_REQUEST'', ''RESTART_CONFIRMATION'']"

definition id_name :: "byte \<Rightarrow> string" where
  "id_name i = (if i < JZ_MSG_COUNT then id_names ! unat i else ''UNKNOWN'')"

definition q_alpha :: u32 where "q_alpha = 0"
definition q_zulu :: u32 where "q_zulu = 25"

definition q_names :: "string list" where
  "q_names =
     [''ALPHA'', ''BRAVO'', ''CHARLIE'', ''DELTA'', ''ECHO'', ''FOXTROT'', ''GOLF'', ''HOTEL'', ''INDIA'', ''JULIET'', ''KILO'',
      ''LIMA'', ''MIKE'', ''NOVEMBER'', ''OSCAR'', ''PAPA'', ''QUEBEC'', ''ROMEO'', ''SIERRA'', ''TANGO'', ''UNIFORM'',
      ''VICTOR'', ''XRAY'', ''YANKEE'', ''ZULU''] @ replicate 1 ''''"

definition Q_name :: "u32 \<Rightarrow> string res" where
  "Q_name q = bind_res (if q \<le> q_zulu then Inr () else Inl Assert_failed) (\<lambda>_. Inr (q_names ! unat q))"

definition q_validate :: "u32 \<Rightarrow> bool" where
  "q_validate q = (if q < q_alpha \<or> q > q_zulu then False else True)"

definition jz_iodir_names :: "string list" where
  "jz_iodir_names = [''bidirectional'', ''incoming calls barred'', ''outgoing calls barred'', ''calls barred'']"

definition jz_iodir_name :: "byte \<Rightarrow> string res" where
  "jz_iodir_name x = bind_res (c_assert (jz_iodir_validate x)) (\<lambda>_. Inr (jz_iodir_names ! unat x))"

definition jz_iodir_incoming_calls_allowed :: "byte \<Rightarrow> bool" where
  "jz_iodir_incoming_calls_allowed I \<longleftrightarrow> I = jz_io_bidirectional \<or> I = jz_io_outgoing_calls_barred"

definition jz_iodir_outgoing_calls_allowed :: "byte \<Rightarrow> bool" where
  "jz_iodir_outgoing_calls_allowed I \<longleftrightarrow> I = jz_io_bidirectional \<or> I = jz_io_incoming_calls_barred"

text \<open>\<^verbatim>\<open>errno\<close> is an argument.\<close>

fun jz_errno2diag :: "errno_t \<Rightarrow> byte" where
  "jz_errno2diag EAGAIN = jz_d_eagain"
| "jz_errno2diag ENOTSUP = jz_d_enotsup"
| "jz_errno2diag EFSM = jz_d_efsm"
| "jz_errno2diag ETERM = jz_d_eterm"
| "jz_errno2diag ENOTSOCK = jz_d_enotsock"
| "jz_errno2diag EINTR = jz_d_eintr"
| "jz_errno2diag EFAULT = jz_d_efault"
| "jz_errno2diag E_other = jz_d_system_error"

section \<open>Six-bit characters\<close>

definition sixty_four_string :: cstr where
  "sixty_four_string = lit ''0123456789ABCDEFGHIJKLMNOPQRSTUVWXYZabcdefghijklmnopqrstuvwxyz{}''"

definition inverse_sixty_four :: bytes where
  "inverse_sixty_four =
     [0xff, 0xff, 0xff, 0xff, 0xff, 0xff, 0xff, 0xff,
      0xff, 0xff, 0xff, 0xff, 0xff, 0xff, 0xff, 0xff,
      0xff, 0xff, 0xff, 0xff, 0xff, 0xff, 0xff, 0xff,
      0xff, 0xff, 0xff, 0xff, 0xff, 0xff, 0xff, 0xff,
      0xff, 0xff, 0xff, 0xff, 0xff, 0xff, 0xff, 0xff,
      0xff, 0xff, 0xff, 0xff, 0xff, 0xff, 0xff, 0xff,
      0x00, 0x01, 0x02, 0x03, 0x04, 0x05, 0x06, 0x07,
      0x08, 0x09, 0xff, 0xff, 0xff, 0xff, 0xff, 0xff,
      0xff, 0x0a, 0x0b, 0x0c, 0x0d, 0x0e, 0x0f, 0x10,
      0x11, 0x12, 0x13, 0x14, 0x15, 0x16, 0x17, 0x18,
      0x19, 0x1a, 0x1b, 0x1c, 0x1d, 0x1e, 0x1f, 0x20,
      0x21, 0x22, 0x23, 0xff, 0xff, 0xff, 0xff, 0xff,
      0xff, 0x24, 0x25, 0x26, 0x27, 0x28, 0x29, 0x2a,
      0x2b, 0x2c, 0x2d, 0x2e, 0x2f, 0x30, 0x31, 0x32,
      0x33, 0x34, 0x35, 0x36, 0x37, 0x38, 0x39, 0x3a,
      0x3b, 0x3c, 0x3d, 0x3e, 0xff, 0x3f, 0xff, 0xff]"

definition graphical_char_to_six_bit_integer :: "byte \<Rightarrow> byte" where
  "graphical_char_to_six_bit_integer C =
     (if sint C < 0 \<or> sint C > 127 then 0xff else inverse_sixty_four ! unat C)"

definition six_bit_integer_to_graphical_char :: "byte \<Rightarrow> byte" where
  "six_bit_integer_to_graphical_char x = (if x \<ge> 64 then 63 else sixty_four_string ! unat x)"

section \<open>Checks of addresses\<close>

definition JZ_MSG_MAX_ADDRESS_LENGTH :: nat where "JZ_MSG_MAX_ADDRESS_LENGTH = 16"
definition JZ_MSG_MAX_HOSTNAME_LENGTH :: nat where "JZ_MSG_MAX_HOSTNAME_LENGTH = 80"

fun jz_address_loop :: "(nat \<Rightarrow> bool) \<Rightarrow> (nat \<Rightarrow> bool) \<Rightarrow> nat \<Rightarrow> nat \<Rightarrow> nat list \<Rightarrow> bool" where
  "jz_address_loop isgraph isprint len i [] = True"
| "jz_address_loop isgraph isprint len i (p # ps) =
     (if (i = 0 \<or> i = len - 1) \<and> \<not> isgraph p then False
      else if \<not> isprint p then False
      else jz_address_loop isgraph isprint len (Suc i) ps)"

definition jz_address_validate ::
  "(cstr \<Rightarrow> nat list option) \<Rightarrow> (nat \<Rightarrow> bool) \<Rightarrow> (nat \<Rightarrow> bool) \<Rightarrow> cstr option \<Rightarrow> bool" where
  "jz_address_validate decode isgraph isprint str =
     (case str of
        None \<Rightarrow> False
      | Some s \<Rightarrow>
          (case decode s of
             None \<Rightarrow> False
           | Some points \<Rightarrow>
               let len = length points in
               if len = 0 \<or> len > JZ_MSG_MAX_ADDRESS_LENGTH then False
               else jz_address_loop isgraph isprint len 0 points))"

fun jz_hostname_loop :: "(nat \<Rightarrow> bool) \<Rightarrow> nat list \<Rightarrow> bool" where
  "jz_hostname_loop isprint [] = True"
| "jz_hostname_loop isprint (p # ps) = (if \<not> isprint p then False else jz_hostname_loop isprint ps)"

definition jz_hostname_validate :: "(cstr \<Rightarrow> nat list option) \<Rightarrow> (nat \<Rightarrow> bool) \<Rightarrow> cstr option \<Rightarrow> bool" where
  "jz_hostname_validate decode isprint str =
     (case str of
        None \<Rightarrow> False
      | Some s \<Rightarrow>
          (case decode s of
             None \<Rightarrow> False
           | Some points \<Rightarrow>
               let len = length points in
               if len > JZ_MSG_MAX_HOSTNAME_LENGTH then False else jz_hostname_loop isprint points))"

section \<open>Properties\<close>

lemma sint_nonneg_byte: "sint (c :: byte) \<ge> 0 \<longleftrightarrow> unat c < 128"
proof -
  have odd: "odd (x div 128) \<longleftrightarrow> 128 \<le> x" if "0 \<le> x" "x < 256" for x :: int
  proof (cases "x < 128")
    case False
    then have "x div 128 = 1" using that(2) by linarith
    then show ?thesis using False by simp
  qed (use that in simp)
  have "uint c < 256" using uint_lt2p [of c] by simp
  then have "bit (uint c) 7 \<longleftrightarrow> uint c \<ge> 128" using odd [of "uint c"] by (simp add: bit_iff_odd)
  moreover have "sint c \<ge> 0 \<longleftrightarrow> \<not> bit (uint c) 7" by (simp add: sint_uint signed_take_bit_nonnegative_iff)
  moreover have "uint c = int (unat c)" by simp
  ultimately show ?thesis by linarith
qed

lemma graphical_char_eq:
  "graphical_char_to_six_bit_integer C = (if unat C < 128 then inverse_sixty_four ! unat C else 0xff)"
  using sint_less [of C] sint_nonneg_byte [of C] by (auto simp: graphical_char_to_six_bit_integer_def not_le)

lemma sixty_four_string_facts:
  "length sixty_four_string = 64" "\<forall>c \<in> set sixty_four_string. unat c < 128"
  by (simp_all add: sixty_four_string_def lit_def)

lemma inverse_of_string: "map (\<lambda>c. inverse_sixty_four ! unat c) sixty_four_string = map of_nat [0..<64]"
  by (simp add: inverse_sixty_four_def sixty_four_string_def lit_def upt_rec)

lemma inverse_domain:
  "map fst (filter (\<lambda>(i, x). x \<noteq> 0xff) (enumerate 0 inverse_sixty_four)) = map unat sixty_four_string"
  by (simp add: inverse_sixty_four_def sixty_four_string_def lit_def)

lemma length_inverse: "length inverse_sixty_four = 128"
  by (simp add: inverse_sixty_four_def)

lemma graphical_char_at:
  assumes "i < 64"
  shows "graphical_char_to_six_bit_integer (sixty_four_string ! i) = of_nat i"
proof -
  have "unat (sixty_four_string ! i) < 128" using assms sixty_four_string_facts by simp
  moreover have "inverse_sixty_four ! unat (sixty_four_string ! i) = of_nat i"
    using arg_cong [OF inverse_of_string, of "\<lambda>xs. xs ! i"] assms sixty_four_string_facts(1) by simp
  ultimately show ?thesis by (simp add: graphical_char_eq)
qed

lemma graphical_char_valid:
  assumes "graphical_char_to_six_bit_integer C \<noteq> 0xff"
  shows "\<exists>i < 64. C = sixty_four_string ! i"
proof -
  have "(unat C, inverse_sixty_four ! unat C) \<in> set (filter (\<lambda>(i, x). x \<noteq> 0xff) (enumerate 0 inverse_sixty_four))"
    using assms by (auto simp: graphical_char_eq in_set_enumerate_eq length_inverse split: if_splits)
  then have "unat C \<in> set (map fst (filter (\<lambda>(i, x). x \<noteq> 0xff) (enumerate 0 inverse_sixty_four)))" by force
  then have "C \<in> set sixty_four_string" unfolding inverse_domain by (auto simp flip: word_unat_eq_iff)
  then show ?thesis using sixty_four_string_facts(1) by (metis in_set_conv_nth)
qed

text \<open>
  Six-bit numbers and their characters correspond one to one: each number below 64 is read back from its
  character, and each character that is read as a number is the character of that number.
\<close>

theorem six_bit_roundtrip:
  "(x < 64 \<longrightarrow> graphical_char_to_six_bit_integer (six_bit_integer_to_graphical_char x) = x) \<and>
   (graphical_char_to_six_bit_integer C \<noteq> 0xff \<longrightarrow>
      six_bit_integer_to_graphical_char (graphical_char_to_six_bit_integer C) = C)"
proof (intro conjI impI)
  assume "x < 64"
  then have "unat x < 64" "\<not> 64 \<le> x" by (simp_all add: word_less_nat_alt not_le)
  then show "graphical_char_to_six_bit_integer (six_bit_integer_to_graphical_char x) = x"
    by (simp add: six_bit_integer_to_graphical_char_def graphical_char_at)
next
  assume "graphical_char_to_six_bit_integer C \<noteq> 0xff"
  then obtain i where i: "i < 64" "C = sixty_four_string ! i" using graphical_char_valid by blast
  have "unat (of_nat i :: byte) = i" using i(1) by (simp add: unat_of_nat_byte)
  moreover from this have "\<not> 64 \<le> (of_nat i :: byte)" using i(1) by (simp add: word_le_nat_alt)
  ultimately show "six_bit_integer_to_graphical_char (graphical_char_to_six_bit_integer C) = C"
    using i by (simp add: six_bit_integer_to_graphical_char_def graphical_char_at)
qed

theorem six_bit_roundtrip_witness:
  "graphical_char_to_six_bit_integer (six_bit_integer_to_graphical_char 62) = 62 \<and>
   six_bit_integer_to_graphical_char (graphical_char_to_six_bit_integer 125) = 125"
  using six_bit_roundtrip [of 62 125] by (simp add: graphical_char_eq inverse_sixty_four_def)

lemma jz_hostname_loop_eq: "jz_hostname_loop isprint ps \<longleftrightarrow> (\<forall>p \<in> set ps. isprint p)"
  by (induction ps) auto

lemma jz_address_loop_eq:
  assumes "\<forall>c. isgraph c \<longrightarrow> isprint c" "i > 0" "len = i + length ps" "ps \<noteq> []"
  shows "jz_address_loop isgraph isprint len i ps \<longleftrightarrow> (\<forall>p \<in> set ps. isprint p) \<and> isgraph (last ps)"
  using assms(2-) assms(1) by (induction ps arbitrary: i) auto

text \<open>
  What an address may be, given that every visible character is printable: 1 to 16 printable code points, the first
  and the last of them visible. A host name may be empty, is as long as 80 code points and may contain blanks.
\<close>

theorem jz_address_validate_correct:
  assumes "\<forall>c. isgraph c \<longrightarrow> isprint c" "decode s = Some ps"
  shows "(jz_address_validate decode isgraph isprint (Some s) \<longleftrightarrow>
      ps \<noteq> [] \<and> length ps \<le> 16 \<and> (\<forall>p \<in> set ps. isprint p) \<and> isgraph (hd ps) \<and> isgraph (last ps)) \<and>
    (jz_hostname_validate decode isprint (Some s) \<longleftrightarrow> length ps \<le> 80 \<and> (\<forall>p \<in> set ps. isprint p))"
proof (intro conjI)
  show "jz_hostname_validate decode isprint (Some s) \<longleftrightarrow> length ps \<le> 80 \<and> (\<forall>p \<in> set ps. isprint p)"
    using assms(2) by (simp add: jz_hostname_validate_def jz_hostname_loop_eq JZ_MSG_MAX_HOSTNAME_LENGTH_def Let_def)
  show "jz_address_validate decode isgraph isprint (Some s) \<longleftrightarrow>
      ps \<noteq> [] \<and> length ps \<le> 16 \<and> (\<forall>p \<in> set ps. isprint p) \<and> isgraph (hd ps) \<and> isgraph (last ps)"
  proof (cases ps)
    case Nil
    then show ?thesis using assms(2) by (simp add: jz_address_validate_def)
  next
    case (Cons p qs)
    have "jz_address_loop isgraph isprint (length ps) 0 ps \<longleftrightarrow>
        (\<forall>p \<in> set ps. isprint p) \<and> isgraph (hd ps) \<and> isgraph (last ps)"
      using Cons assms(1) jz_address_loop_eq [OF assms(1), of 1 "length ps" qs] by (cases "qs = []") auto
    then show ?thesis
      using assms(2) Cons by (auto simp: jz_address_validate_def JZ_MSG_MAX_ADDRESS_LENGTH_def Let_def)
  qed
qed

definition ascii_points :: "cstr \<Rightarrow> nat list option" where
  "ascii_points s = (if \<forall>c \<in> set s. c < 128 then Some (map unat s) else None)"

theorem jz_address_validate_correct_witness:
  "ascii_points (lit ''ALICE B'') = Some [65, 76, 73, 67, 69, 32, 66] \<and>
   jz_address_validate ascii_points (\<lambda>c. 33 \<le> c \<and> c < 127) (\<lambda>c. 32 \<le> c \<and> c < 127) (Some (lit ''ALICE B''))"
proof -
  have d: "ascii_points (lit ''ALICE B'') = Some [65, 76, 73, 67, 69, 32, 66]" by (simp add: ascii_points_def lit_def)
  then show ?thesis
    using jz_address_validate_correct [of "\<lambda>c. 33 \<le> c \<and> c < 127" "\<lambda>c. 32 \<le> c \<and> c < 127" ascii_points, OF _ d] by simp
qed

text \<open>
  The table of queue names has no row for WHISKEY: the three last names are one place too early and the last queue has none.
\<close>

theorem q_names_shifted:
  "q_validate q \<longrightarrow> (Q_name q = Inr ''XRAY'' \<longleftrightarrow> q = 22) \<and> (Q_name q = Inr '''' \<longleftrightarrow> q = q_zulu)"
proof (intro impI)
  assume "q_validate q"
  then have "unat q < 26" by (auto simp: q_validate_def q_alpha_def q_zulu_def word_less_nat_alt split: if_splits)
  then have "unat q \<in> set [0..<26]" by simp
  then have "(q_names ! unat q = ''XRAY'' \<longleftrightarrow> unat q = 22) \<and> (q_names ! unat q = '''' \<longleftrightarrow> unat q = 25)"
    by (simp add: upt_rec q_names_def del: set_upt) (elim disjE; simp)
  moreover have "q \<le> q_zulu" using \<open>unat q < 26\<close> by (simp add: q_zulu_def word_le_nat_alt)
  ultimately show "(Q_name q = Inr ''XRAY'' \<longleftrightarrow> q = 22) \<and> (Q_name q = Inr '''' \<longleftrightarrow> q = q_zulu)"
    by (simp add: Q_name_def q_zulu_def word_unat_eq_iff)
qed

theorem q_names_shifted_witness: "Q_name 22 = Inr ''XRAY'' \<and> Q_name 25 = Inr ''''"
  using q_names_shifted [of 22] q_names_shifted [of 25] by (simp add: q_validate_def q_alpha_def q_zulu_def)

text \<open>Each message type has a name of its own, and only message types have one.\<close>

theorem id_name_unique:
  "id_name i = id_name j \<longleftrightarrow> i = j \<or> (i \<ge> JZ_MSG_COUNT \<and> j \<ge> JZ_MSG_COUNT)"
proof -
  have d: "distinct id_names" "length id_names = 20" "''UNKNOWN'' \<notin> set id_names" by (simp_all add: id_names_def)
  have r: "k < JZ_MSG_COUNT \<longleftrightarrow> unat k < 20" for k by (simp add: JZ_MSG_COUNT_def word_less_nat_alt)
  have "id_names ! unat k \<noteq> ''UNKNOWN''" if "unat k < 20" for k :: byte using that d by (metis nth_mem)
  then show ?thesis
    using d by (auto simp: id_name_def r nth_eq_iff_index_eq not_less [symmetric] word_unat_eq_iff)
qed

end
