(* ===== verification/Jz_Wire.thy ===== *)
theory Jz_Wire
  imports Jz_Msg
begin

text \<open>
  What the wire format of the application server guarantees: the serializer fills its array
  exactly, the parser returns what was serialized, never reads outside the buffer and accounts for
  every byte, damaged messages are skipped, and the two ways in which a client can bring down the
  parser: a body length that makes a 32-bit sum wrap around, and a payload that does not fit its
  envelope.
\<close>

section \<open>Padding\<close>

lemma padding_less: "JZ_MSG_PADDING_LENGTH n < 4"
  by (simp add: JZ_MSG_PADDING_LENGTH_def)

lemma padding_aligned: "4 dvd n + JZ_MSG_PADDING_LENGTH n"
  by (simp add: JZ_MSG_PADDING_LENGTH_def) presburger

lemma padding_32: "unat (JZ_MSG_PADDING_LENGTH_32 n) = JZ_MSG_PADDING_LENGTH (unat n)"
proof -
  have m: "unat (n mod 4) = unat n mod 4" by (simp add: unat_mod)
  have "unat (4 - n mod 4) = 4 - unat n mod 4"
    by (subst unat_sub) (simp_all add: m word_le_nat_alt less_imp_le)
  moreover have "n mod 4 = 0 \<longleftrightarrow> unat n mod 4 = 0" by (simp add: word_unat_eq_iff m)
  ultimately show ?thesis by (simp add: JZ_MSG_PADDING_LENGTH_32_def JZ_MSG_PADDING_LENGTH_def)
qed

lemma unat_add_u32: "unat a + unat b < 2 ^ 32 \<Longrightarrow> unat (a + b :: u32) = unat a + unat b"
  by (simp add: unat_word_ariths)

lemma binary_size_32:
  assumes "unat n \<le> JZ_MSG_MAX_PAYLOAD_LENGTH" "k \<le> 12"
  shows "unat (of_nat k + n + JZ_MSG_PADDING_LENGTH_32 n) = k + unat n + JZ_MSG_PADDING_LENGTH (unat n)"
proof -
  have p: "unat (JZ_MSG_PADDING_LENGTH_32 n) < 4" by (simp add: padding_32 padding_less)
  have k: "unat (of_nat k :: u32) = k" using assms(2) by (simp add: unat_of_nat take_bit_eq_mod)
  have "unat (of_nat k + n) = k + unat n"
    using assms by (simp add: unat_add_u32 k jz_sizes)
  then show ?thesis
    using assms p by (simp add: unat_add_u32 padding_32 jz_sizes)
qed

section \<open>Reading from a buffer\<close>

lemma mem_read_nth: "i < length buf \<Longrightarrow> mem_read buf i = Inr (buf ! i)"
  by (simp add: mem_read_def)

lemma drop_eq_Cons: "drop i buf = a # r \<Longrightarrow> i < length buf \<and> buf ! i = a \<and> drop (Suc i) buf = r"
  by (metis Cons_nth_drop_Suc drop_all list.inject list.simps(3) not_less)

lemma read_u32_get:
  assumes "GET_NUMBER4 (drop i buf) = Some (w, r)"
  shows "read_u32 buf i = Inr w"
proof -
  obtain a b c d where *: "drop i buf = a # b # c # d # r"
      "w = push_bit 24 (ucast a) + push_bit 16 (ucast b) + push_bit 8 (ucast c) + ucast d"
    using assms by (cases "drop i buf" rule: GET_NUMBER4.cases) auto
  have 0: "i < length buf \<and> buf ! i = a \<and> drop (Suc i) buf = b # c # d # r"
    using *(1) by (rule drop_eq_Cons)
  then have 1: "Suc i < length buf \<and> buf ! Suc i = b \<and> drop (Suc (Suc i)) buf = c # d # r"
    by (intro drop_eq_Cons) simp
  then have 2: "Suc (Suc i) < length buf \<and> buf ! Suc (Suc i) = c \<and> drop (Suc (Suc (Suc i))) buf = d # r"
    by (intro drop_eq_Cons) simp
  then have 3: "Suc (Suc (Suc i)) < length buf \<and> buf ! Suc (Suc (Suc i)) = d \<and>
      drop (Suc (Suc (Suc (Suc i)))) buf = r"
    by (intro drop_eq_Cons) simp
  show ?thesis
    using 0 1 2 3 by (simp add: read_u32_def mem_read_nth *(2) numeral_eq_Suc)
qed

lemma read_u32_put: "drop i buf = PUT_NUMBER4 w @ r \<Longrightarrow> read_u32 buf i = Inr w"
  by (rule read_u32_get [of _ _ _ r]) (simp add: GET_PUT_NUMBER4)

lemma GET_NUMBER4_long: "4 \<le> length bs \<Longrightarrow> \<exists>w. GET_NUMBER4 bs = Some (w, drop 4 bs)"
  by (cases bs rule: GET_NUMBER4.cases) auto

lemma read_u32_defined: "i + 4 \<le> length buf \<Longrightarrow> \<exists>w. read_u32 buf i = Inr w"
  using GET_NUMBER4_long [of "drop i buf"] read_u32_get by fastforce

text \<open>The bytes between the needle and the ceiling.\<close>

definition ahead :: "bytes \<Rightarrow> nat \<Rightarrow> nat \<Rightarrow> bytes" where
  "ahead buf n c = take (c - n) (drop n buf)"

lemma ahead_add [simp]: "ahead buf (n + k) c = drop k (ahead buf n c)"
  by (simp add: ahead_def drop_take add.commute diff_diff_left)

lemma length_ahead: "c \<le> length buf \<Longrightarrow> length (ahead buf n c) = c - n"
  by (auto simp: ahead_def)

lemma ahead_Cons:
  assumes "c \<le> length buf" "ahead buf n c = a # r"
  shows "n < c \<and> mem_read buf n = Inr a \<and> ahead buf (Suc n) c = r"
proof -
  have "n < c" using length_ahead [OF assms(1), of n] assms(2) by (cases "n < c") auto
  moreover have "buf ! n = a"
    using arg_cong [OF assms(2), of hd] \<open>n < c\<close> assms(1) by (simp add: ahead_def hd_drop_conv_nth)
  moreover have "ahead buf (Suc n) c = r" using assms(2) ahead_add [of buf n 1 c] by simp
  ultimately show ?thesis using assms(1) by (simp add: mem_read_def)
qed

lemma ahead_Nil: "c \<le> length buf \<Longrightarrow> ahead buf n c = [] \<longleftrightarrow> c \<le> n"
  using length_ahead [of c buf n] by (metis diff_is_0_eq length_0_conv)

lemma ahead_block:
  "c \<le> length buf \<Longrightarrow> n + k \<le> c \<Longrightarrow> mem_block buf n k = Inr (take k (ahead buf n c))"
  by (simp add: mem_block_def ahead_def)

section \<open>The macros of the parser in terms of the bytes ahead\<close>

lemma advance_simps [simp]:
  "jm_needle (advance n m) = jm_needle m + n"
  "jm_ceiling (advance n m) = jm_ceiling m"
  by (simp_all add: advance_def)

lemma get_number1_eq:
  assumes "jm_ceiling self \<le> length buf"
  shows "JZ_GET_NUMBER1 buf k self =
    (case ahead buf (jm_needle self) (jm_ceiling self) of
       a # r \<Rightarrow> k a (advance 1 self) | _ \<Rightarrow> jz_premature self)"
  using assms ahead_Nil [OF assms, of "jm_needle self"] ahead_Cons [OF assms]
  by (auto simp: JZ_GET_NUMBER1_def split: list.split)

lemma get_number2_eq:
  assumes "jm_ceiling self \<le> length buf"
  shows "JZ_GET_NUMBER2 buf k self =
    (case ahead buf (jm_needle self) (jm_ceiling self) of
       a # b # r \<Rightarrow> k (push_bit 8 (ucast a) + ucast b) (advance 2 self) | _ \<Rightarrow> jz_premature self)"
proof (cases "jm_needle self + 2 \<le> jm_ceiling self")
  case True
  then obtain a b r where *: "ahead buf (jm_needle self) (jm_ceiling self) = a # b # r"
    using length_ahead [OF assms, of "jm_needle self"]
    by (cases "ahead buf (jm_needle self) (jm_ceiling self)" rule: GET_NUMBER2.cases) auto
  have "mem_read buf (jm_needle self) = Inr a" "mem_read buf (Suc (jm_needle self)) = Inr b"
    using ahead_Cons [OF assms *] ahead_Cons [OF assms, of "Suc (jm_needle self)" b r] by simp_all
  then show ?thesis using True * by (simp add: JZ_GET_NUMBER2_def)
next
  case False
  then have "length (ahead buf (jm_needle self) (jm_ceiling self)) < 2"
    using length_ahead [OF assms, of "jm_needle self"] by simp
  then show ?thesis
    using False by (auto simp: JZ_GET_NUMBER2_def split: list.split)
qed

lemma get_number4_eq:
  assumes "jm_ceiling self \<le> length buf"
  shows "JZ_GET_NUMBER4 buf k self =
    (case GET_NUMBER4 (ahead buf (jm_needle self) (jm_ceiling self)) of
       Some (w, r) \<Rightarrow> k w (advance 4 self) | None \<Rightarrow> jz_premature self)"
proof (cases "jm_needle self + 4 \<le> jm_ceiling self")
  case True
  then have "4 \<le> length (ahead buf (jm_needle self) (jm_ceiling self))"
    using length_ahead [OF assms, of "jm_needle self"] by simp
  then obtain w r where w: "GET_NUMBER4 (ahead buf (jm_needle self) (jm_ceiling self)) = Some (w, r)"
    using GET_NUMBER4_long by blast
  then have "GET_NUMBER4 (drop (jm_needle self) buf) =
      Some (w, r @ drop (jm_ceiling self - jm_needle self) (drop (jm_needle self) buf))"
    using number4.get_extends [OF w, of "drop (jm_ceiling self - jm_needle self) (drop (jm_needle self) buf)"]
    unfolding ahead_def by (simp only: append_take_drop_id)
  then show ?thesis using True w by (simp add: JZ_GET_NUMBER4_def read_u32_get)
next
  case False
  then have "length (ahead buf (jm_needle self) (jm_ceiling self)) < 4"
    using length_ahead [OF assms, of "jm_needle self"] by simp
  then have "GET_NUMBER4 (ahead buf (jm_needle self) (jm_ceiling self)) = None"
    by (cases "ahead buf (jm_needle self) (jm_ceiling self)" rule: GET_NUMBER4.cases) auto
  then show ?thesis using False by (simp add: JZ_GET_NUMBER4_def)
qed

lemma get_string_eq:
  assumes "jm_ceiling self \<le> length buf"
  shows "JZ_GET_STRING buf k self =
    (case ahead buf (jm_needle self) (jm_ceiling self) of
       [] \<Rightarrow> jz_premature self
     | n # r \<Rightarrow> if length r < unat n then jz_premature (advance 1 self)
                else k (cstr_of (take (unat n) r)) (advance (unat n) (advance 1 self)))"
proof (cases "ahead buf (jm_needle self) (jm_ceiling self)")
  case Nil
  then show ?thesis using assms by (simp add: JZ_GET_STRING_def get_number1_eq)
next
  case (Cons n r)
  have n: "jm_needle self < jm_ceiling self" "ahead buf (Suc (jm_needle self)) (jm_ceiling self) = r"
    using ahead_Cons [OF assms Cons] by simp_all
  then have "length r = jm_ceiling self - Suc (jm_needle self)"
    using length_ahead [OF assms] by blast
  then show ?thesis
    using assms Cons n
    by (auto simp: JZ_GET_STRING_def get_number1_eq ahead_block [OF assms] simp del: ahead_add)
qed

lemma get_raw_eq:
  assumes "jm_ceiling self \<le> length buf"
  shows "JZ_GET_RAW buf k self =
    (case ahead buf (jm_needle self) (jm_ceiling self) of
       a # b # r \<Rightarrow>
         let n = unat (push_bit 8 (ucast a) + ucast b :: u16) in
         if length r < n then jz_premature (advance 2 self)
         else if n > RAW_MAX then jz_malformed (advance 2 self)
         else k (advance n ((advance 2 self)
                \<lparr>jm_data := map_option (\<lambda>d. d @ take n r) (jm_data (advance 2 self))\<rparr>))
     | _ \<Rightarrow> jz_premature self)"
proof (cases "ahead buf (jm_needle self) (jm_ceiling self)" rule: GET_NUMBER2.cases)
  case (1 a b r)
  have 2: "ahead buf (jm_needle self + 2) (jm_ceiling self) = r"
    unfolding ahead_add 1 by simp
  have "length r = jm_ceiling self - (jm_needle self + 2)"
    using length_ahead [OF assms, of "jm_needle self + 2"] 2 by simp
  moreover have "jm_needle self + 2 \<le> jm_ceiling self"
    using length_ahead [OF assms, of "jm_needle self"] 1 by simp
  ultimately show ?thesis
    using assms 1 2
    by (auto simp: JZ_GET_RAW_def get_number2_eq ahead_block [OF assms] Let_def simp del: ahead_add)
qed (use assms in \<open>auto simp: JZ_GET_RAW_def get_number2_eq\<close>)

lemmas get_eqs = get_number1_eq get_number2_eq get_number4_eq get_string_eq get_raw_eq

section \<open>The serializer fills its array\<close>

text \<open>The types that can be serialized; for the others the serializer aborts.\<close>

definition jz_sendable :: "jz_msg \<Rightarrow> bool" where
  "jz_sendable m \<longleftrightarrow> jm_id m < JZ_MSG_COUNT \<and> jm_id m \<noteq> JZ_MSG_DIRECTORY \<and>
     (jm_id m \<in> {JZ_MSG_DATA, JZ_MSG_CALL_REQUEST, JZ_MSG_CALL_ACCEPTED} \<longrightarrow> jm_data m \<noteq> None)"

lemma jz_id_cases:
  assumes "jm_id m < JZ_MSG_COUNT"
  shows "jm_id m \<in> {JZ_MSG_DATA, JZ_MSG_RR, JZ_MSG_RNR, JZ_MSG_CALL_REQUEST, JZ_MSG_CALL_ACCEPTED,
     JZ_MSG_CLEAR_REQUEST, JZ_MSG_CLEAR_CONFIRMATION, JZ_MSG_RESET_REQUEST,
     JZ_MSG_RESET_CONFIRMATION, JZ_MSG_CONNECT, JZ_MSG_CONNECT_INDICATION, JZ_MSG_DISCONNECT,
     JZ_MSG_DISCONNECT_INDICATION, JZ_MSG_DIAGNOSTIC, JZ_MSG_DIRECTORY_REQUEST, JZ_MSG_DIRECTORY,
     JZ_MSG_ENQ, JZ_MSG_ACK, JZ_MSG_RESTART_REQUEST, JZ_MSG_RESTART_CONFIRMATION}"
proof -
  have "unat (jm_id m) < 20" using assms by (simp add: JZ_MSG_COUNT_def word_less_nat_alt)
  then have "unat (jm_id m) \<in> {0, 1, 2, 3, 4, 5, 6, 7, 8, 9, 10, 11, 12, 13, 14, 15, 16, 17, 18, 19}"
    by (simp, presburger)
  then show ?thesis by (auto simp: jz_ids word_unat_eq_iff)
qed

lemma length_put_string: "length (put_string_or_empty s) = 1 + jz_strlen s"
  by (simp add: put_string_or_empty_def jz_strlen_def PUT_STRING_def PUT_NUMBER1_def split: option.split)

lemma length_puts [simp]:
  "length (PUT_NUMBER1 a) = 1" "length (PUT_NUMBER2 b) = 2" "length (PUT_NUMBER4 c) = 4"
  by (simp_all add: PUT_NUMBER1_def PUT_NUMBER2_def PUT_NUMBER4_def)

text \<open>The two switches agree on the size of the body.\<close>

lemma frame_payload:
  assumes "jz_sendable m"
  shows "\<exists>payload. jz_put_payload m = Inr payload \<and>
    jz_frame_size m = Inr (JZ_MSG_PAYLOAD_HEADER_SIZE + length payload)"
proof -
  have i: "jm_id m < JZ_MSG_COUNT" using assms by (simp add: jz_sendable_def)
  have cases: "jm_id m \<in> {0, 1, 2, 3, 4, 5, 6, 7, 8, 9, 10, 11, 12, 13, 14, 16, 17, 18, 19}"
    using jz_id_cases [OF i] assms by (auto simp: jz_sendable_def jz_ids)
  show ?thesis
    using cases assms
    by (auto simp: jz_put_payload_def jz_frame_size_def jz_sendable_def jz_ids Let_def
        RAW_SIZE_def PUT_RAW_def length_put_string split: option.splits)
qed

text \<open>The result, written out.\<close>

definition jz_body :: "jz_msg \<Rightarrow> bytes \<Rightarrow> bytes" where
  "jz_body m payload = PUT_NUMBER1 (jm_version m) @ PUT_NUMBER1 (jm_id m) @ PUT_NUMBER2 (jm_lcn m) @ payload"

definition jz_envelope :: "u32 \<Rightarrow> bytes \<Rightarrow> bytes" where
  "jz_envelope signature body =
     PUT_NUMBER4 signature @ PUT_NUMBER4 (of_nat (length body)) @ body @
     replicate (JZ_MSG_PADDING_LENGTH (length body)) 0 @ PUT_NUMBER4 (digital_crc32 body)"

lemma length_jz_envelope:
  "length (jz_envelope s body) = JZ_MSG_ENVELOPE_SIZE + length body + JZ_MSG_PADDING_LENGTH (length body)"
  by (simp add: jz_envelope_def jz_sizes)

lemma length_jz_body: "length (jz_body m payload) = JZ_MSG_PAYLOAD_HEADER_SIZE + length payload"
  by (simp add: jz_body_def jz_sizes)

lemma mem_block_middle: "i = length p \<Longrightarrow> n = length b \<Longrightarrow> mem_block (p @ b @ z) i n = Inr b"
  by (simp add: mem_block_def)

lemma to_byte_array_eq:
  assumes "jz_sendable m"
  shows "\<exists>payload. jz_put_payload m = Inr payload \<and>
    jz_msg_to_byte_array m = Inr (jz_envelope (jm_signature m) (jz_body m payload),
      m\<lparr>jm_needle := length (jz_envelope (jm_signature m) (jz_body m payload)),
        jm_crc := digital_crc32 (jz_body m payload)\<rparr>)"
proof -
  from frame_payload [OF assms] obtain payload where p: "jz_put_payload m = Inr payload"
    "jz_frame_size m = Inr (JZ_MSG_PAYLOAD_HEADER_SIZE + length payload)" by blast
  have body: "mem_block (PUT_NUMBER4 s @ PUT_NUMBER4 f @ PUT_NUMBER1 v @ PUT_NUMBER1 i @ PUT_NUMBER2 l @
        payload @ z) JZ_MSG_ENVELOPE_HEADER_SIZE (JZ_MSG_PAYLOAD_HEADER_SIZE + length payload) =
      Inr (PUT_NUMBER1 v @ PUT_NUMBER1 i @ PUT_NUMBER2 l @ payload)" for s f v i l z
    using mem_block_middle [of JZ_MSG_ENVELOPE_HEADER_SIZE "PUT_NUMBER4 s @ PUT_NUMBER4 f"
        "JZ_MSG_PAYLOAD_HEADER_SIZE + length payload"
        "PUT_NUMBER1 v @ PUT_NUMBER1 i @ PUT_NUMBER2 l @ payload" z]
    by (simp add: jz_sizes)
  show ?thesis
    unfolding jz_msg_to_byte_array_def p bind_res_simps Let_def body
    by (rule exI [of _ payload])
      (simp add: p(1) jz_envelope_def length_jz_body jz_sizes, simp add: jz_body_def)
qed

section \<open>The parser stays inside its envelope\<close>

text \<open>What a message has when its payload was read to the end.\<close>

definition jz_parsed :: "jz_msg \<Rightarrow> bool" where
  "jz_parsed m \<longleftrightarrow> jz_msg_validate m = jz_d_ok \<and> jm_data m \<noteq> None \<and>
     (jm_id m \<in> {JZ_MSG_CONNECT, JZ_MSG_CALL_REQUEST, JZ_MSG_CALL_ACCEPTED} \<longrightarrow> jm_calling_address m \<noteq> None) \<and>
     (jm_id m \<in> {JZ_MSG_CALL_REQUEST, JZ_MSG_CALL_ACCEPTED} \<longrightarrow> jm_called_address m \<noteq> None)"

definition walks :: "nat \<Rightarrow> jz_msg \<Rightarrow> bool" where
  "walks c self \<longleftrightarrow> jm_ceiling self = c \<and> jm_needle self \<le> c \<and> \<not> jm_valid self \<and> jm_data self \<noteq> None"

definition lands :: "nat \<Rightarrow> jz_msg res \<Rightarrow> bool" where
  "lands c r \<longleftrightarrow> (\<exists>m. r = Inr m \<and> jm_packed_size m \<le> c \<and>
     (jm_valid m \<longrightarrow> jm_packed_size m = c \<and> jz_parsed m))"

lemma advance_fields [simp]:
  "jm_signature (advance n m) = jm_signature m" "jm_version (advance n m) = jm_version m"
  "jm_id (advance n m) = jm_id m" "jm_lcn (advance n m) = jm_lcn m"
  "jm_valid (advance n m) = jm_valid m" "jm_data (advance n m) = jm_data m"
  "jm_calling_address (advance n m) = jm_calling_address m"
  "jm_called_address (advance n m) = jm_called_address m"
  "jm_iodir (advance n m) = jm_iodir m" "jm_packet (advance n m) = jm_packet m"
  "jm_window (advance n m) = jm_window m" "jm_throughput (advance n m) = jm_throughput m"
  "jm_cause (advance n m) = jm_cause m" "jm_diagnostic (advance n m) = jm_diagnostic m"
  "jm_diagnostic_version (advance n m) = jm_diagnostic_version m"
  "jm_diagnostic_id (advance n m) = jm_diagnostic_id m"
  "jm_diagnostic_lcn (advance n m) = jm_diagnostic_lcn m"
  "jm_q (advance n m) = jm_q m" "jm_pr (advance n m) = jm_pr m" "jm_ps (advance n m) = jm_ps m"
  by (simp_all add: advance_def)

lemma lands_premature: "walks c self \<Longrightarrow> lands c (jz_premature self)"
  by (simp add: lands_def walks_def jz_premature_def)

lemma lands_malformed: "walks c self \<Longrightarrow> lands c (jz_malformed self)"
  by (simp add: lands_def walks_def jz_malformed_def)

lemma walks_advance: "walks c self \<Longrightarrow> jm_needle self + n \<le> c \<Longrightarrow> walks c (advance n self)"
  by (simp add: walks_def)

lemma lands_number1:
  assumes "walks c self" "c \<le> length buf"
    and "\<And>a. walks c (advance 1 self) \<Longrightarrow> lands c (k a (advance 1 self))"
  shows "lands c (JZ_GET_NUMBER1 buf k self)"
  using assms walks_advance [OF assms(1), of 1] lands_premature [OF assms(1)]
  by (auto simp: JZ_GET_NUMBER1_def mem_read_def walks_def)

lemma lands_number2:
  assumes "walks c self" "c \<le> length buf"
    and "\<And>a. walks c (advance 2 self) \<Longrightarrow> lands c (k a (advance 2 self))"
  shows "lands c (JZ_GET_NUMBER2 buf k self)"
  using assms walks_advance [OF assms(1), of 2] lands_premature [OF assms(1)]
  by (auto simp: JZ_GET_NUMBER2_def mem_read_def walks_def)

lemma lands_number4:
  assumes "walks c self" "c \<le> length buf"
    and "\<And>a. walks c (advance 4 self) \<Longrightarrow> lands c (k a (advance 4 self))"
  shows "lands c (JZ_GET_NUMBER4 buf k self)"
proof (cases "jm_needle self + 4 \<le> c")
  case True
  then obtain w where "read_u32 buf (jm_needle self) = Inr w"
    using read_u32_defined [of "jm_needle self" buf] assms(2) by auto
  then show ?thesis
    using True assms(1) assms(3) [OF walks_advance [OF assms(1) True]]
    by (simp add: JZ_GET_NUMBER4_def walks_def)
next
  case False
  then show ?thesis
    using assms(1) lands_premature [OF assms(1)] by (simp add: JZ_GET_NUMBER4_def walks_def)
qed

lemma lands_string:
  assumes "walks c self" "c \<le> length buf"
    and "\<And>s n. walks c (advance n (advance 1 self)) \<Longrightarrow> lands c (k s (advance n (advance 1 self)))"
  shows "lands c (JZ_GET_STRING buf k self)"
  unfolding JZ_GET_STRING_def
proof (rule lands_number1 [OF assms(1,2)])
  fix a assume w: "walks c (advance 1 self)"
  show "lands c (if jm_needle (advance 1 self) + unat a > jm_ceiling (advance 1 self)
       then jz_premature (advance 1 self)
       else bind_res (mem_block buf (jm_needle (advance 1 self)) (unat a)) (\<lambda>s.
         k (cstr_of s) (advance (unat a) (advance 1 self))))"
    using w lands_premature [OF w] assms(2) assms(3) [OF walks_advance [OF w, of "unat a"]]
    by (auto simp: mem_block_def walks_def)
qed

lemma lands_raw:
  assumes "walks c self" "c \<le> length buf"
    and "\<And>d n. walks c (advance n ((advance 2 self)\<lparr>jm_data := Some d\<rparr>)) \<Longrightarrow>
          lands c (k (advance n ((advance 2 self)\<lparr>jm_data := Some d\<rparr>)))"
  shows "lands c (JZ_GET_RAW buf k self)"
  unfolding JZ_GET_RAW_def
proof (rule lands_number2 [OF assms(1,2)])
  fix a assume w: "walks c (advance 2 self)"
  then obtain d where d: "jm_data (advance 2 self) = Some d" by (auto simp: walks_def)
  show "lands c (if jm_needle (advance 2 self) + unat a > jm_ceiling (advance 2 self)
       then jz_premature (advance 2 self)
       else if unat a > RAW_MAX then jz_malformed (advance 2 self)
       else bind_res (mem_block buf (jm_needle (advance 2 self)) (unat a)) (\<lambda>s.
         k (advance (unat a) ((advance 2 self)
            \<lparr>jm_data := map_option (\<lambda>d. d @ s) (jm_data (advance 2 self))\<rparr>))))"
    using w d lands_premature [OF w] lands_malformed [OF w] assms(2)
      assms(3) [of "unat a" "d @ take (unat a) (drop (jm_needle (advance 2 self)) buf)"]
    by (auto simp: mem_block_def walks_def)
qed

lemmas lands_gets = lands_number1 lands_number2 lands_number4 lands_string lands_raw

lemma lands_padding:
  assumes "c \<le> length buf" "\<And>n. walks c (advance n self) \<Longrightarrow> lands c (k (advance n self))" "walks c self"
  shows "lands c (jz_get_padding buf p k self)"
  using assms(2,3)
proof (induction p arbitrary: self)
  case 0
  have "advance 0 self = self" by (simp add: advance_def)
  then show ?case using 0 by (metis jz_get_padding.simps(1))
next
  case (Suc p)
  have adv: "advance n (advance 1 self) = advance (1 + n) self" for n by (simp add: advance_def)
  show ?case unfolding jz_get_padding.simps
    by (rule lands_number1 [OF Suc.prems(2) assms(1)], rule Suc.IH) (use Suc.prems adv in auto)
qed

lemma lands_footer:
  assumes "c = JZ_MSG_ENVELOPE_SIZE + f + JZ_MSG_PADDING_LENGTH f" "c \<le> length buf"
    "walks c self" "jz_parsed self"
  shows "lands c (jz_get_footer buf f self)"
  unfolding jz_get_footer_def
proof (rule lands_padding [OF assms(2) _ assms(3)], rule lands_number4 [OF _ assms(2)])
  fix n a assume "walks c (advance 4 (advance n self))"
  then show "lands c (let self = (advance 4 (advance n self))
       \<lparr>jm_crc := a, jm_packed_size := jm_needle (advance 4 (advance n self))\<rparr> in
     if jm_packed_size self < JZ_MSG_ENVELOPE_SIZE + f + JZ_MSG_PADDING_LENGTH f
     then Inr (self\<lparr>jm_valid := False, jm_invalidity := jz_d_packet_too_long\<rparr>)
     else Inr (self\<lparr>jm_valid := True\<rparr>))"
    using assms(1,4) by (auto simp: lands_def walks_def Let_def jz_parsed_def jz_msg_validate_def)
qed simp

lemma walks_update [simp]:
  "walks c (m\<lparr>jm_version := v\<rparr>) = walks c m" "walks c (m\<lparr>jm_id := v\<rparr>) = walks c m"
  "walks c (m\<lparr>jm_lcn := w\<rparr>) = walks c m" "walks c (m\<lparr>jm_q := v\<rparr>) = walks c m"
  "walks c (m\<lparr>jm_pr := w\<rparr>) = walks c m" "walks c (m\<lparr>jm_ps := w\<rparr>) = walks c m"
  "walks c (m\<lparr>jm_calling_address := s\<rparr>) = walks c m" "walks c (m\<lparr>jm_called_address := s\<rparr>) = walks c m"
  "walks c (m\<lparr>jm_packet := p\<rparr>) = walks c m" "walks c (m\<lparr>jm_window := w\<rparr>) = walks c m"
  "walks c (m\<lparr>jm_throughput := p\<rparr>) = walks c m" "walks c (m\<lparr>jm_cause := v\<rparr>) = walks c m"
  "walks c (m\<lparr>jm_diagnostic := v\<rparr>) = walks c m" "walks c (m\<lparr>jm_iodir := v\<rparr>) = walks c m"
  "walks c (m\<lparr>jm_diagnostic_version := v\<rparr>) = walks c m"
  "walks c (m\<lparr>jm_diagnostic_id := v\<rparr>) = walks c m" "walks c (m\<lparr>jm_diagnostic_lcn := w\<rparr>) = walks c m"
  "walks c (m\<lparr>jm_invalidity := v\<rparr>) = walks c m"
  by (simp_all add: walks_def)

lemma walks_data: "walks c m \<Longrightarrow> walks c (m\<lparr>jm_data := Some d\<rparr>)"
  by (simp add: walks_def)

text \<open>The header of the message has been read and is in order.\<close>

definition jz_headed :: "jz_msg \<Rightarrow> bool" where
  "jz_headed m \<longleftrightarrow> jm_signature m = JZ_MSG_SIGNATURE \<and> jm_version m = 1"

lemma jz_parsedI:
  "jz_headed m \<Longrightarrow> jm_id m = i \<Longrightarrow> i < JZ_MSG_COUNT \<Longrightarrow> walks c m \<Longrightarrow>
   i \<notin> {JZ_MSG_CONNECT, JZ_MSG_CALL_REQUEST, JZ_MSG_CALL_ACCEPTED} \<Longrightarrow> jz_parsed m"
  by (auto simp: jz_parsed_def jz_headed_def jz_msg_validate_def walks_def)

lemma jz_ids_less:
  "JZ_MSG_DATA < JZ_MSG_COUNT" "JZ_MSG_RR < JZ_MSG_COUNT" "JZ_MSG_RNR < JZ_MSG_COUNT"
  "JZ_MSG_CALL_REQUEST < JZ_MSG_COUNT" "JZ_MSG_CALL_ACCEPTED < JZ_MSG_COUNT"
  "JZ_MSG_CLEAR_REQUEST < JZ_MSG_COUNT" "JZ_MSG_RESET_REQUEST < JZ_MSG_COUNT"
  "JZ_MSG_CONNECT < JZ_MSG_COUNT" "JZ_MSG_DIAGNOSTIC < JZ_MSG_COUNT" "JZ_MSG_RESTART_REQUEST < JZ_MSG_COUNT"
  by (simp_all add: jz_ids JZ_MSG_COUNT_def)

lemma lands_payload:
  assumes c: "c = JZ_MSG_ENVELOPE_SIZE + f + JZ_MSG_PADDING_LENGTH f" "c \<le> length buf"
    and self: "walks c self" "jz_headed self"
  shows "lands c (jz_get_payload buf (jz_get_footer buf f) self)"
proof -
  note auto_gets = lands_gets [OF _ c(2)] lands_footer [OF c]
  have plain: "lands c (jz_get_footer buf f self)"
    if "jm_id self < JZ_MSG_COUNT" "jm_id self \<notin> {JZ_MSG_CONNECT, JZ_MSG_CALL_REQUEST, JZ_MSG_CALL_ACCEPTED}"
    using that self by (intro lands_footer [OF c] jz_parsedI [where c = c]) auto
  have data: "jm_id self = JZ_MSG_DATA \<Longrightarrow> lands c (jz_get_data buf (jz_get_footer buf f) self)"
    unfolding jz_get_data_def using self
    by (intro auto_gets) (auto simp: jz_headed_def jz_ids JZ_MSG_COUNT_def intro!: walks_data
        intro: jz_parsedI [where c = c])
  have pr: "jm_id self \<in> {JZ_MSG_RR, JZ_MSG_RNR} \<Longrightarrow> lands c (jz_get_pr buf (jz_get_footer buf f) self)"
    unfolding jz_get_pr_def using self
    by (intro auto_gets) (auto simp: jz_headed_def jz_ids JZ_MSG_COUNT_def intro: jz_parsedI [where c = c])
  have call: "jm_id self \<in> {JZ_MSG_CALL_REQUEST, JZ_MSG_CALL_ACCEPTED} \<Longrightarrow>
      lands c (jz_get_call buf (jz_get_footer buf f) self)"
    unfolding jz_get_call_def using self
    by (intro auto_gets) (auto simp: jz_headed_def jz_parsed_def jz_msg_validate_def jz_ids
        JZ_MSG_COUNT_def intro!: walks_data)
  have cause: "jm_id self \<in> {JZ_MSG_CLEAR_REQUEST, JZ_MSG_RESET_REQUEST, JZ_MSG_RESTART_REQUEST} \<Longrightarrow>
      lands c (jz_get_cause buf (jz_get_footer buf f) self)"
    unfolding jz_get_cause_def using self
    by (intro auto_gets) (auto simp: jz_headed_def jz_ids JZ_MSG_COUNT_def intro: jz_parsedI [where c = c])
  have connect: "jm_id self = JZ_MSG_CONNECT \<Longrightarrow> lands c (jz_get_connect buf (jz_get_footer buf f) self)"
    unfolding jz_get_connect_def using self
    by (intro auto_gets) (auto simp: jz_headed_def jz_parsed_def jz_msg_validate_def walks_def jz_ids
        JZ_MSG_COUNT_def)
  have diagnostic: "jm_id self = JZ_MSG_DIAGNOSTIC \<Longrightarrow>
      lands c (jz_get_diagnostic buf (jz_get_footer buf f) self)"
    unfolding jz_get_diagnostic_def using self
    by (intro auto_gets) (auto simp: jz_headed_def jz_ids JZ_MSG_COUNT_def intro: jz_parsedI [where c = c])
  have other: "lands c (jz_malformed (self\<lparr>jm_invalidity := v\<rparr>))" for v
    using self by (intro lands_malformed) simp
  show ?thesis
    using data pr call cause connect diagnostic other plain
    unfolding jz_get_payload_def by (auto simp: jz_ids JZ_MSG_COUNT_def)
qed

lemma lands_header:
  assumes c: "c = JZ_MSG_ENVELOPE_SIZE + f + JZ_MSG_PADDING_LENGTH f" "c \<le> length buf"
    and self: "walks c self" "jm_signature self = JZ_MSG_SIGNATURE"
  shows "lands c (jz_get_header buf (jz_get_payload buf (jz_get_footer buf f)) self)"
  unfolding jz_get_header_def Let_def
  by (intro lands_gets [OF _ c(2)])
    (use self in \<open>auto simp: jz_headed_def intro!: lands_payload [OF c] lands_malformed\<close>)

section \<open>What the functions on buffers return\<close>

text \<open>The envelope at the front of a buffer, read with unbounded numbers.\<close>

definition body_len :: "bytes \<Rightarrow> nat" where
  "body_len buf = (case GET_NUMBER4 (drop 4 buf) of None \<Rightarrow> 0 | Some (w, r) \<Rightarrow> unat w)"

definition signed :: "bytes \<Rightarrow> bool" where
  "signed buf \<longleftrightarrow> (\<exists>r. GET_NUMBER4 buf = Some (JZ_MSG_SIGNATURE, r))"

definition msg_size :: "nat \<Rightarrow> nat" where
  "msg_size n = JZ_MSG_ENVELOPE_SIZE + n + JZ_MSG_PADDING_LENGTH n"

lemma begins_eq:
  assumes "JZ_MSG_ENVELOPE_SIGNATURE_SIZE \<le> length buf"
  shows "jz_buffer_begins_with_signature buf = Inr (signed buf)"
proof -
  obtain w where w: "GET_NUMBER4 buf = Some (w, drop 4 buf)"
    using GET_NUMBER4_long [of buf] assms by (auto simp: jz_sizes)
  then have "read_u32 buf 0 = Inr w" using read_u32_get [of 0 buf w] by simp
  then show ?thesis using assms w by (auto simp: jz_buffer_begins_with_signature_def signed_def jz_sizes)
qed

lemma body_length_eq:
  assumes "JZ_MSG_ENVELOPE_HEADER_SIZE \<le> length buf"
  shows "jz_buffer_msg_body_length buf = Inr (of_nat (body_len buf)) \<and> body_len buf < 2 ^ 32"
proof -
  have "4 \<le> length (drop 4 buf)" using assms by (simp add: jz_sizes)
  then obtain w where w: "GET_NUMBER4 (drop 4 buf) = Some (w, drop 4 (drop 4 buf))"
    using GET_NUMBER4_long by blast
  then have "read_u32 buf 4 = Inr w" by (rule read_u32_get)
  then show ?thesis
    using assms w unsigned_less [of w] by (simp add: jz_buffer_msg_body_length_def body_len_def)
qed

lemma unat_of_nat_u32: "n < 2 ^ 32 \<Longrightarrow> unat (of_nat n :: u32) = n"
  by (simp add: unat_of_nat take_bit_eq_mod)

text \<open>The checksum stored behind the padding is that of the body.\<close>

definition crc_ok :: "bytes \<Rightarrow> bool" where
  "crc_ok buf \<longleftrightarrow>
     (\<exists>r. GET_NUMBER4 (drop (msg_size (body_len buf) - 4) buf) =
        Some (digital_crc32 (take (body_len buf) (drop 8 buf)), r))"

text \<open>The test for a complete message, with the 32-bit sum of the code.\<close>

definition complete :: "bytes \<Rightarrow> bool" where
  "complete buf \<longleftrightarrow> (12 + body_len buf + JZ_MSG_PADDING_LENGTH (body_len buf)) mod 2 ^ 32 \<le> length buf"

definition enveloped :: "bytes \<Rightarrow> bool" where
  "enveloped buf \<longleftrightarrow> JZ_MSG_ENVELOPE_SIZE \<le> length buf \<and> signed buf"

lemma contains_eq:
  assumes "enveloped buf"
  shows "jz_buffer_contains_a_message buf = Inr (complete buf)"
proof -
  have l: "12 \<le> length buf" using assms by (simp add: enveloped_def jz_sizes)
  have b: "jz_buffer_begins_with_signature buf = Inr True"
    using begins_eq [of buf] assms l by (simp add: enveloped_def jz_sizes)
  have n: "jz_buffer_msg_body_length buf = Inr (of_nat (body_len buf))" "body_len buf < 2 ^ 32"
    using body_length_eq [of buf] l by (simp_all add: jz_sizes)
  have "unat (12 + of_nat (body_len buf) + JZ_MSG_PADDING_LENGTH_32 (of_nat (body_len buf))) =
      (12 + body_len buf + JZ_MSG_PADDING_LENGTH (body_len buf)) mod 2 ^ 32"
    using n(2) by (simp add: unat_word_ariths padding_32 unat_of_nat_u32 mod_simps)
  then show ?thesis
    using l b n by (simp add: jz_buffer_contains_a_message_def complete_def jz_sizes not_less)
qed

lemma complete_small:
  "body_len buf \<le> JZ_MSG_MAX_PAYLOAD_LENGTH \<Longrightarrow> complete buf \<longleftrightarrow> msg_size (body_len buf) \<le> length buf"
  using padding_less [of "body_len buf"] by (simp add: complete_def msg_size_def jz_sizes)

lemma binary_size_eq:
  assumes "enveloped buf"
  shows "jz_buffer_msg_binary_size buf =
    (if body_len buf \<le> JZ_MSG_MAX_PAYLOAD_LENGTH then Inr (msg_size (body_len buf)) else Inl Assert_failed)"
proof -
  have l: "12 \<le> length buf" using assms by (simp add: enveloped_def jz_sizes)
  have b: "jz_buffer_begins_with_signature buf = Inr True"
    using begins_eq [of buf] assms l by (simp add: enveloped_def jz_sizes)
  have n: "jz_buffer_msg_body_length buf = Inr (of_nat (body_len buf))" "body_len buf < 2 ^ 32"
    using body_length_eq [of buf] l by (simp_all add: jz_sizes)
  have u: "unat (of_nat (body_len buf) :: u32) = body_len buf" using n(2) by (rule unat_of_nat_u32)
  show ?thesis
  proof (cases "body_len buf \<le> JZ_MSG_MAX_PAYLOAD_LENGTH")
    case True
    then have "unat (of_nat JZ_MSG_ENVELOPE_SIZE + of_nat (body_len buf) +
        JZ_MSG_PADDING_LENGTH_32 (of_nat (body_len buf))) = msg_size (body_len buf)"
      using binary_size_32 [of "of_nat (body_len buf)" JZ_MSG_ENVELOPE_SIZE] u
      by (simp add: msg_size_def jz_sizes)
    then show ?thesis
      using True l b n u by (simp add: jz_buffer_msg_binary_size_def) (simp add: jz_sizes)
  next
    case False
    then show ?thesis using l b n u by (simp add: jz_buffer_msg_binary_size_def jz_sizes)
  qed
qed

lemma envelope_valid_eq:
  assumes "enveloped buf"
  shows "jz_buffer_msg_envelope_is_valid buf =
    (if body_len buf > JZ_MSG_MAX_PAYLOAD_LENGTH then Inr False
     else if msg_size (body_len buf) \<le> length buf then Inr (crc_ok buf)
     else jz_buffer_msg_envelope_is_valid buf)"
proof -
  have l: "12 \<le> length buf" using assms by (simp add: enveloped_def jz_sizes)
  have b: "jz_buffer_begins_with_signature buf = Inr True"
    using begins_eq [of buf] assms l by (simp add: enveloped_def jz_sizes)
  have n: "jz_buffer_msg_body_length buf = Inr (of_nat (body_len buf))" "body_len buf < 2 ^ 32"
    using body_length_eq [of buf] l by (simp_all add: jz_sizes)
  have u: "unat (of_nat (body_len buf) :: u32) = body_len buf" using n(2) by (rule unat_of_nat_u32)
  consider "body_len buf > JZ_MSG_MAX_PAYLOAD_LENGTH"
    | "body_len buf \<le> JZ_MSG_MAX_PAYLOAD_LENGTH" "msg_size (body_len buf) \<le> length buf"
    | "\<not> body_len buf > JZ_MSG_MAX_PAYLOAD_LENGTH" "\<not> msg_size (body_len buf) \<le> length buf" by linarith
  then show ?thesis
  proof cases
    case 1
    then show ?thesis using l b n u by (simp add: jz_buffer_msg_envelope_is_valid_def jz_sizes)
  next
    case 2
    have at: "unat (of_nat JZ_MSG_ENVELOPE_HEADER_SIZE + of_nat (body_len buf) +
        JZ_MSG_PADDING_LENGTH_32 (of_nat (body_len buf))) = msg_size (body_len buf) - 4"
      using binary_size_32 [of "of_nat (body_len buf)" JZ_MSG_ENVELOPE_HEADER_SIZE] u 2(1)
      by (simp add: msg_size_def jz_sizes)
    have "4 \<le> length (drop (msg_size (body_len buf) - 4) buf)"
      using 2(2) by (simp add: msg_size_def jz_sizes)
    then obtain w r where w: "GET_NUMBER4 (drop (msg_size (body_len buf) - 4) buf) = Some (w, r)"
      using GET_NUMBER4_long by blast
    have body: "mem_block buf JZ_MSG_ENVELOPE_HEADER_SIZE (body_len buf) = Inr (take (body_len buf) (drop 8 buf))"
      using 2(2) by (simp add: mem_block_def msg_size_def jz_sizes)
    show ?thesis
      using 2 l b n w read_u32_get [OF w] unfolding jz_buffer_msg_envelope_is_valid_def crc_ok_def
      by (simp only: u at body Let_def bind_res_simps) (auto simp: jz_sizes)
  next
    case 3
    then show ?thesis by (simp only: if_False)
  qed
qed

lemma ahead_all [simp]: "ahead buf 0 (length buf) = buf"
  by (simp add: ahead_def)

text \<open>The parser after the signature and the length of the body.\<close>

lemma new_from_data_eq:
  assumes "enveloped buf" "JZ_MSG_ENVELOPE_SIZE < length buf"
  shows "jz_msg_new_from_data buf =
    jz_get_header buf (jz_get_payload buf (jz_get_footer buf (body_len buf)))
      (jz_msg_new0\<lparr>jm_data := Some [], jm_signature := JZ_MSG_SIGNATURE, jm_needle := 8,
         jm_ceiling := msg_size (body_len buf)\<rparr>)"
proof -
  obtain r where sig: "GET_NUMBER4 buf = Some (JZ_MSG_SIGNATURE, r)"
    using assms(1) by (auto simp: enveloped_def signed_def)
  have "4 \<le> length (drop 4 buf)" using assms(2) by (simp add: jz_sizes)
  then obtain w r' where w: "GET_NUMBER4 (drop 4 buf) = Some (w, r')" using GET_NUMBER4_long by blast
  then have n: "body_len buf = unat w" by (simp add: body_len_def)
  have "ahead buf 4 (length buf) = drop 4 buf" using ahead_add [of buf 0 4 "length buf"] by simp
  then show ?thesis
    using assms(2) sig w unfolding jz_msg_new_from_data_def n
    by (simp add: get_number4_eq msg_size_def advance_def)
qed

lemma new_from_data_lands:
  assumes "enveloped buf" "JZ_MSG_PAYLOAD_HEADER_SIZE \<le> body_len buf" "msg_size (body_len buf) \<le> length buf"
  shows "lands (msg_size (body_len buf)) (jz_msg_new_from_data buf)"
proof -
  have "JZ_MSG_ENVELOPE_SIZE < length buf" using assms(2,3) by (simp add: msg_size_def jz_sizes)
  then show ?thesis
    unfolding new_from_data_eq [OF assms(1) \<open>JZ_MSG_ENVELOPE_SIZE < length buf\<close>]
    by (intro lands_header [OF msg_size_def assms(3)])
      (simp_all add: walks_def jz_msg_new0_def msg_size_def jz_sizes)
qed

lemma new_diagnostic_eq:
  "jz_msg_new_diagnostic d v i l = Inr ((MSG_HEADER jz_msg_new0)\<lparr>jm_id := JZ_MSG_DIAGNOSTIC,
     jm_diagnostic := d, jm_diagnostic_version := v, jm_diagnostic_id := i, jm_diagnostic_lcn := l\<rparr>)"
  by (simp add: jz_msg_new_diagnostic_def MSG_ERROR_CHECK_def jz_msg_validate_def MSG_HEADER_def
      JZ_MSG_DIAGNOSTIC_def JZ_MSG_COUNT_def)

text \<open>The diagnostic that answers a message that cannot be unpacked.\<close>

definition jz_complaint :: "byte \<Rightarrow> jz_msg" where
  "jz_complaint d = (MSG_HEADER jz_msg_new0)\<lparr>jm_id := JZ_MSG_DIAGNOSTIC, jm_diagnostic := d\<rparr>"

lemma new_diagnostic_complaint: "jz_msg_new_diagnostic d 0 0 0 = Inr (jz_complaint d)"
  by (simp add: new_diagnostic_eq jz_complaint_def MSG_HEADER_def jz_msg_new0_def)

lemma msg_lcn_defined:
  "12 \<le> length buf \<Longrightarrow> jz_buffer_msg_lcn buf = Inr (push_bit 8 (ucast (buf ! 10)) + ucast (buf ! 11))"
  by (simp add: jz_buffer_msg_lcn_def mem_read_def jz_sizes)

text \<open>The outcome for a buffer whose envelope is complete and not too long.\<close>

lemma parse_complete:
  assumes e: "enveloped buf" and n: "body_len buf \<le> JZ_MSG_MAX_PAYLOAD_LENGTH"
    and l: "msg_size (body_len buf) \<le> length buf"
  shows "jz_buffer_parse_into_message buf =
    (if \<not> crc_ok buf then
       Inr (msg_size (body_len buf), Some (jz_complaint jz_d_invalid_envelope), True, False)
     else if body_len buf < JZ_MSG_PAYLOAD_HEADER_SIZE then
       Inr (msg_size (body_len buf), Some (jz_complaint jz_d_packet_too_short), True, False)
     else if push_bit 8 (ucast (buf ! 10)) + ucast (buf ! 11) > JZ_MSG_MAX_LCN then
       Inr (msg_size (body_len buf), Some (jz_complaint jz_d_packet_on_unassigned_logical_channel), True, False)
     else bind_res (jz_msg_new_from_data buf) (\<lambda>msg.
       if \<not> jm_valid msg then Inl Undefined
       else Inr (jm_packed_size msg, Some msg, False, False)))"
proof -
  have len: "12 \<le> length buf" "0 < length buf" using e by (auto simp: enveloped_def jz_sizes)
  have b: "jz_buffer_begins_with_signature buf = Inr True"
    using begins_eq [of buf] e len by (simp add: enveloped_def jz_sizes)
  have bl: "jz_buffer_msg_body_length buf = Inr (of_nat (body_len buf))" "body_len buf < 2 ^ 32"
    using body_length_eq [of buf] len by (simp_all add: jz_sizes)
  have u: "unat (of_nat (body_len buf) :: u32) = body_len buf" using bl(2) by (rule unat_of_nat_u32)
  have c: "jz_buffer_contains_a_message buf = Inr True"
    using contains_eq [OF e] complete_small [OF n] l by simp
  have v: "jz_buffer_msg_envelope_is_valid buf = Inr (crc_ok buf)"
    using envelope_valid_eq [OF e] n l by simp
  have s: "jz_buffer_msg_binary_size buf = Inr (msg_size (body_len buf))"
    using binary_size_eq [OF e] n by simp
  have notshort: "\<not> length buf < JZ_MSG_ENVELOPE_SIZE" using len by (simp add: jz_sizes)
  show ?thesis
    unfolding jz_buffer_parse_into_message_def b c v bl(1) s new_diagnostic_complaint u
      msg_lcn_defined [OF len(1)] jz_msg_binary_size_def
    using len(2) notshort by (simp add: Let_def u cong: if_cong)
qed

section \<open>Reading what was written\<close>

text \<open>What a message says, whatever the bookkeeping around it: a missing address reads as empty.\<close>

datatype jz_content =
    C_data byte u16 u16 bytes
  | C_pr u16
  | C_call cstr cstr packet_t u16 tput_t bytes
  | C_cause byte byte
  | C_connect cstr byte
  | C_diagnostic byte byte byte u16
  | C_plain

definition text_of :: "cstr option \<Rightarrow> cstr" where
  "text_of s = (case s of None \<Rightarrow> [] | Some t \<Rightarrow> t)"

definition jz_content :: "jz_msg \<Rightarrow> jz_content" where
  "jz_content m =
     (if jm_id m = JZ_MSG_DATA then C_data (jm_q m) (jm_pr m) (jm_ps m) (the (jm_data m))
      else if jm_id m \<in> {JZ_MSG_RR, JZ_MSG_RNR} then C_pr (jm_pr m)
      else if jm_id m \<in> {JZ_MSG_CALL_REQUEST, JZ_MSG_CALL_ACCEPTED} then
        C_call (text_of (jm_calling_address m)) (text_of (jm_called_address m)) (jm_packet m)
          (jm_window m) (jm_throughput m) (the (jm_data m))
      else if jm_id m \<in> {JZ_MSG_CLEAR_REQUEST, JZ_MSG_RESET_REQUEST, JZ_MSG_RESTART_REQUEST} then
        C_cause (jm_cause m) (jm_diagnostic m)
      else if jm_id m = JZ_MSG_CONNECT then C_connect (text_of (jm_calling_address m)) (jm_iodir m)
      else if jm_id m = JZ_MSG_DIAGNOSTIC then
        C_diagnostic (jm_diagnostic m) (jm_diagnostic_version m) (jm_diagnostic_id m) (jm_diagnostic_lcn m)
      else C_plain)"

text \<open>The messages that survive the trip: every field fits its place on the wire.\<close>

definition jz_transmissible :: "jz_msg \<Rightarrow> bool" where
  "jz_transmissible m \<longleftrightarrow> jz_sendable m \<and> jm_signature m = JZ_MSG_SIGNATURE \<and> jm_version m = 1 \<and>
     jm_lcn m \<le> JZ_MSG_MAX_LCN \<and> wire_string (text_of (jm_calling_address m)) \<and>
     wire_string (text_of (jm_called_address m)) \<and> jm_packet m < 256 \<and> jm_throughput m < 256 \<and>
     (\<forall>n. jz_frame_size m = Inr n \<longrightarrow> n \<le> JZ_MSG_MAX_PAYLOAD_LENGTH)"

lemma put_string_eq: "put_string_or_empty s = of_nat (length (text_of s)) # text_of s"
  by (simp add: put_string_or_empty_def text_of_def PUT_STRING_def PUT_NUMBER1_def split: option.split)

lemma put_number2_eq:
  "\<exists>a b. PUT_NUMBER2 h = [a, b] \<and> push_bit 8 (ucast a) + ucast b = h"
  using GET_PUT_NUMBER2 [of h "[]"] by (auto simp: PUT_NUMBER2_def)

lemma two_bytes:
  "push_bit 8 (ucast (ucast (drop_bit 8 h AND 255) :: byte)) + ucast (ucast (h AND 255) :: byte) = (h :: u16)"
  using GET_PUT_NUMBER2 [of h "[]"] by (simp add: PUT_NUMBER2_def)

lemmas put_eqs = PUT_NUMBER1_def PUT_NUMBER2_def two_bytes put_string_eq PUT_RAW_def

lemma ahead_Suc: "ahead buf (Suc n) c = tl (ahead buf n c)"
  using ahead_add [of buf n 1 c] by (simp add: drop_Suc)

lemmas read_simps = get_eqs put_eqs ahead_Suc tl_drop Let_def

lemma read_pr:
  assumes "jm_ceiling self \<le> length buf"
    "ahead buf (jm_needle self) (jm_ceiling self) = PUT_NUMBER2 pr @ t"
  shows "jz_get_pr buf k self = k ((advance 2 self)\<lparr>jm_pr := pr\<rparr>)"
  using assms by (simp add: jz_get_pr_def read_simps)

lemma read_cause:
  assumes "jm_ceiling self \<le> length buf"
    "ahead buf (jm_needle self) (jm_ceiling self) = PUT_NUMBER1 cause @ PUT_NUMBER1 diag @ t"
  shows "jz_get_cause buf k self =
    k ((advance 1 ((advance 1 self)\<lparr>jm_cause := cause\<rparr>))\<lparr>jm_diagnostic := diag\<rparr>)"
  using assms by (simp add: jz_get_cause_def read_simps)

lemma read_diagnostic:
  assumes "jm_ceiling self \<le> length buf"
    "ahead buf (jm_needle self) (jm_ceiling self) =
       PUT_NUMBER1 diag @ PUT_NUMBER1 v @ PUT_NUMBER1 i @ PUT_NUMBER2 l @ t"
  shows "jz_get_diagnostic buf k self =
    k ((advance 2 ((advance 1 ((advance 1 ((advance 1 self)\<lparr>jm_diagnostic := diag\<rparr>))
         \<lparr>jm_diagnostic_version := v\<rparr>))\<lparr>jm_diagnostic_id := i\<rparr>))\<lparr>jm_diagnostic_lcn := l\<rparr>)"
  using assms by (simp add: jz_get_diagnostic_def read_simps)

lemma read_connect:
  assumes "jm_ceiling self \<le> length buf" "wire_string (text_of s)"
    "ahead buf (jm_needle self) (jm_ceiling self) = put_string_or_empty s @ PUT_NUMBER1 d @ t"
  shows "jz_get_connect buf k self =
    k ((advance 1 ((advance (length (text_of s)) (advance 1 self))
         \<lparr>jm_calling_address := Some (text_of s)\<rparr>))\<lparr>jm_iodir := d\<rparr>)"
  using assms
  by (simp add: jz_get_connect_def read_simps wire_string_def STRING_MAX_def unat_of_nat_byte)

lemma read_raw:
  assumes "jm_ceiling self \<le> length buf" "length d \<le> JZ_MSG_MAX_PAYLOAD_LENGTH" "jm_data self = Some []"
    "ahead buf (jm_needle self) (jm_ceiling self) = PUT_NUMBER2 (of_nat (length d)) @ d @ t"
  shows "JZ_GET_RAW buf k self = k (advance (length d) ((advance 2 self)\<lparr>jm_data := Some d\<rparr>))"
  using assms by (simp add: read_simps jz_sizes RAW_MAX_def unat_of_nat_u16)

lemma read_data:
  assumes "jm_ceiling self \<le> length buf" "length d \<le> JZ_MSG_MAX_PAYLOAD_LENGTH"
    "ahead buf (jm_needle self) (jm_ceiling self) =
       PUT_NUMBER1 q @ PUT_NUMBER2 pr @ PUT_NUMBER2 ps @ PUT_NUMBER2 (of_nat (length d)) @ d @ t"
  shows "jz_get_data buf k self = k (advance (length d) ((advance 2 ((advance 2 ((advance 2
    ((advance 1 self)\<lparr>jm_q := q\<rparr>))\<lparr>jm_pr := pr\<rparr>))\<lparr>jm_ps := ps, jm_data := Some []\<rparr>))\<lparr>jm_data := Some d\<rparr>))"
proof -
  have *: "ahead buf (jm_needle self) (jm_ceiling self) =
      q # PUT_NUMBER2 pr @ PUT_NUMBER2 ps @ PUT_NUMBER2 (of_nat (length d)) @ d @ t"
    using assms(3) by (simp add: PUT_NUMBER1_def)
  show ?thesis
    unfolding jz_get_data_def get_number1_eq [OF assms(1)] *
    using assms(1,2) *
    by (simp add: get_number2_eq ahead_Suc PUT_NUMBER2_def two_bytes, subst read_raw)
      (simp_all add: ahead_Suc PUT_NUMBER2_def)
qed

lemma read_string:
  assumes "jm_ceiling self \<le> length buf" "wire_string (text_of s)"
    "ahead buf (jm_needle self) (jm_ceiling self) = put_string_or_empty s @ t"
  shows "JZ_GET_STRING buf k self = k (text_of s) (advance (1 + length (text_of s)) self)"
  using assms
  by (simp add: get_string_eq put_string_eq wire_string_def STRING_MAX_def unat_of_nat_byte advance_def)

lemma read_byte:
  assumes "jm_ceiling self \<le> length buf" "ahead buf (jm_needle self) (jm_ceiling self) = PUT_NUMBER1 a @ t"
  shows "JZ_GET_NUMBER1 buf k self = k a (advance 1 self)"
  using assms by (simp add: get_number1_eq PUT_NUMBER1_def)

lemma read_half:
  assumes "jm_ceiling self \<le> length buf" "ahead buf (jm_needle self) (jm_ceiling self) = PUT_NUMBER2 h @ t"
  shows "JZ_GET_NUMBER2 buf k self = k h (advance 2 self)"
  using assms by (simp add: get_number2_eq PUT_NUMBER2_def two_bytes)

lemma read_call:
  assumes c: "jm_ceiling self \<le> length buf" and "length d \<le> JZ_MSG_MAX_PAYLOAD_LENGTH"
    "wire_string (text_of a)" "wire_string (text_of b)" "p < 256" "th < 256"
    and 0: "ahead buf (jm_needle self) (jm_ceiling self) =
       put_string_or_empty a @ put_string_or_empty b @ PUT_NUMBER1 (of_nat p) @ PUT_NUMBER2 w @
       PUT_NUMBER1 (of_nat th) @ PUT_NUMBER2 (of_nat (length d)) @ d @ t"
  shows "jz_get_call buf k self = k (advance (length d) ((advance 2 ((advance 1 ((advance 2 ((advance 1
    ((advance (1 + length (text_of b)) ((advance (1 + length (text_of a)) self)
      \<lparr>jm_calling_address := Some (text_of a)\<rparr>))\<lparr>jm_called_address := Some (text_of b)\<rparr>))
      \<lparr>jm_packet := p\<rparr>))\<lparr>jm_window := w\<rparr>))\<lparr>jm_throughput := th, jm_data := Some []\<rparr>))\<lparr>jm_data := Some d\<rparr>))"
proof -
  let ?s1 = "(advance (1 + length (text_of a)) self)\<lparr>jm_calling_address := Some (text_of a)\<rparr>"
  let ?s2 = "(advance (1 + length (text_of b)) ?s1)\<lparr>jm_called_address := Some (text_of b)\<rparr>"
  let ?s3 = "(advance 1 ?s2)\<lparr>jm_packet := p\<rparr>"
  let ?s4 = "(advance 2 ?s3)\<lparr>jm_window := w\<rparr>"
  let ?s5 = "(advance 1 ?s4)\<lparr>jm_throughput := th, jm_data := Some []\<rparr>"
  let ?t5 = "PUT_NUMBER2 (of_nat (length d)) @ d @ t"
  let ?t4 = "PUT_NUMBER1 (of_nat th) @ ?t5"
  let ?t3 = "PUT_NUMBER2 w @ ?t4"
  let ?t2 = "PUT_NUMBER1 (of_nat p) @ ?t3"
  have skip: "ahead buf (jm_needle s + length u) (jm_ceiling s) = v"
    if "ahead buf (jm_needle s) (jm_ceiling s) = u @ v" for s u v using that by simp
  have str: "length (put_string_or_empty s) = 1 + length (text_of s)" for s by (simp add: put_string_eq)
  have 1: "ahead buf (jm_needle ?s1) (jm_ceiling ?s1) = put_string_or_empty b @ ?t2"
    using skip [OF 0] str [of a] by simp
  have 2: "ahead buf (jm_needle ?s2) (jm_ceiling ?s2) = ?t2" using skip [OF 1] str [of b] by simp
  have 3: "ahead buf (jm_needle ?s3) (jm_ceiling ?s3) = ?t3" using skip [OF 2] by simp
  have 4: "ahead buf (jm_needle ?s4) (jm_ceiling ?s4) = ?t4" using skip [OF 3] by simp
  have 5: "ahead buf (jm_needle ?s5) (jm_ceiling ?s5) = ?t5" using skip [OF 4] by simp
  have n: "unat (of_nat p :: byte) = p" "unat (of_nat th :: byte) = th" using assms by (simp_all add: unat_of_nat_byte)
  show ?thesis
    unfolding jz_get_call_def
    by (subst read_string [OF c assms(3) 0], subst read_string [OF _ assms(4) 1], simp add: c,
        subst read_byte [OF _ 2], simp add: c, subst n, subst read_half [OF _ 3], simp add: c,
        subst read_byte [OF _ 4], simp add: c, subst n, subst read_raw [OF _ assms(2) _ 5], simp_all add: c)
qed

text \<open>The reader moved over \<open>n\<close> bytes and holds the content of \<open>m\<close>.\<close>

definition carries :: "jz_msg \<Rightarrow> nat \<Rightarrow> jz_msg \<Rightarrow> jz_msg \<Rightarrow> bool" where
  "carries m n self self' \<longleftrightarrow> jm_needle self' = jm_needle self + n \<and> jm_ceiling self' = jm_ceiling self \<and>
     jm_id self' = jm_id self \<and> jm_lcn self' = jm_lcn self \<and> jz_content self' = jz_content m"

lemma text_of_Some [simp]: "text_of (Some t) = t"
  by (simp add: text_of_def)

lemma payloadI:
  "jz_get_payload buf k self = r \<Longrightarrow> r = k s \<Longrightarrow> carries m n self s \<Longrightarrow>
   \<exists>self'. jz_get_payload buf k self = k self' \<and> carries m n self self'"
  by blast

lemma read_payload_fields:
  assumes m: "jz_transmissible m" and p: "jz_put_payload m = Inr payload"
    and len: "length payload \<le> JZ_MSG_MAX_PAYLOAD_LENGTH"
    and self: "jm_ceiling self \<le> length buf" "jm_id self = jm_id m"
    and ah: "ahead buf (jm_needle self) (jm_ceiling self) = payload @ t"
    and i: "jm_id m \<in> {JZ_MSG_DATA, JZ_MSG_CALL_REQUEST, JZ_MSG_CALL_ACCEPTED}"
  shows "\<exists>self'. jz_get_payload buf k self = k self' \<and> carries m (length payload) self self'"
proof -
  obtain d where d: "jm_data m = Some d" using m i by (auto simp: jz_transmissible_def jz_sendable_def)
  show ?thesis
  proof (cases "jm_id m = JZ_MSG_DATA")
    case True
    have pay: "payload = PUT_NUMBER1 (jm_q m) @ PUT_NUMBER2 (jm_pr m) @ PUT_NUMBER2 (jm_ps m) @
        PUT_NUMBER2 (of_nat (length d)) @ d"
      using p True d by (simp add: jz_put_payload_def PUT_RAW_def)
    have ld: "length d \<le> JZ_MSG_MAX_PAYLOAD_LENGTH" using len pay by simp
    have ah': "ahead buf (jm_needle self) (jm_ceiling self) = PUT_NUMBER1 (jm_q m) @ PUT_NUMBER2 (jm_pr m) @
        PUT_NUMBER2 (jm_ps m) @ PUT_NUMBER2 (of_nat (length d)) @ d @ t" using ah pay by simp
    have "jz_get_payload buf k self = jz_get_data buf k self"
      using True self(2) by (simp add: jz_get_payload_def)
    then show ?thesis
      by (rule payloadI [OF _ read_data [OF self(1) ld ah']])
        (use True self(2) d pay in \<open>simp add: carries_def jz_content_def\<close>)
  next
    case False
    have pay: "payload = put_string_or_empty (jm_calling_address m) @ put_string_or_empty (jm_called_address m) @
        PUT_NUMBER1 (of_nat (jm_packet m)) @ PUT_NUMBER2 (jm_window m) @
        PUT_NUMBER1 (of_nat (jm_throughput m)) @ PUT_NUMBER2 (of_nat (length d)) @ d"
      using p False i d by (auto simp: jz_put_payload_def PUT_RAW_def jz_ids Let_def)
    have ld: "length d \<le> JZ_MSG_MAX_PAYLOAD_LENGTH" using len pay by simp
    have ah': "ahead buf (jm_needle self) (jm_ceiling self) =
        put_string_or_empty (jm_calling_address m) @ put_string_or_empty (jm_called_address m) @
        PUT_NUMBER1 (of_nat (jm_packet m)) @ PUT_NUMBER2 (jm_window m) @
        PUT_NUMBER1 (of_nat (jm_throughput m)) @ PUT_NUMBER2 (of_nat (length d)) @ d @ t" using ah pay by simp
    have "jz_get_payload buf k self = jz_get_call buf k self"
      using False i self(2) by (auto simp: jz_get_payload_def jz_ids)
    then show ?thesis
      by (rule payloadI [OF _ read_call [OF self(1) ld _ _ _ _ ah']])
        (use m False i self(2) d pay in
          \<open>auto simp: jz_transmissible_def carries_def jz_content_def jz_ids put_string_eq\<close>)
  qed
qed

lemma read_payload:
  assumes m: "jz_transmissible m" and p: "jz_put_payload m = Inr payload"
    and len: "length payload \<le> JZ_MSG_MAX_PAYLOAD_LENGTH"
    and self: "jm_ceiling self \<le> length buf" "jm_id self = jm_id m"
    and ah: "ahead buf (jm_needle self) (jm_ceiling self) = payload @ t"
  shows "\<exists>self'. jz_get_payload buf k self = k self' \<and> carries m (length payload) self self'"
proof -
  have i: "jm_id m \<in> {0, 1, 2, 3, 4, 5, 6, 7, 8, 9, 10, 11, 12, 13, 14, 16, 17, 18, 19}"
    using jz_id_cases [of m] m by (auto simp: jz_transmissible_def jz_sendable_def jz_ids)
  consider (fields) "jm_id m \<in> {JZ_MSG_DATA, JZ_MSG_CALL_REQUEST, JZ_MSG_CALL_ACCEPTED}"
    | (pr) "jm_id m \<in> {JZ_MSG_RR, JZ_MSG_RNR}"
    | (cause) "jm_id m \<in> {JZ_MSG_CLEAR_REQUEST, JZ_MSG_RESET_REQUEST, JZ_MSG_RESTART_REQUEST}"
    | (connect) "jm_id m = JZ_MSG_CONNECT" | (diagnostic) "jm_id m = JZ_MSG_DIAGNOSTIC"
    | (plain) "jm_id m \<in> {6, 8, 10, 11, 12, 14, 16, 17, 19}"
    using i by (auto simp: jz_ids)
  then show ?thesis
  proof cases
    case fields
    then show ?thesis by (rule read_payload_fields [OF assms])
  next
    case pr
    have pay: "payload = PUT_NUMBER2 (jm_pr m)"
      using p pr by (auto simp: jz_put_payload_def jz_ids Let_def)
    have "jz_get_payload buf k self = jz_get_pr buf k self"
      using pr self(2) by (auto simp: jz_get_payload_def jz_ids)
    then show ?thesis
      by (rule payloadI [OF _ read_pr [OF self(1) ah [unfolded pay]]])
        (use pr self(2) pay in \<open>auto simp: carries_def jz_content_def jz_ids\<close>)
  next
    case cause
    have pay: "payload = PUT_NUMBER1 (jm_cause m) @ PUT_NUMBER1 (jm_diagnostic m)"
      using p cause by (auto simp: jz_put_payload_def jz_ids Let_def)
    have "jz_get_payload buf k self = jz_get_cause buf k self"
      using cause self(2) by (auto simp: jz_get_payload_def jz_ids)
    then show ?thesis
      by (rule payloadI [OF _ read_cause [OF self(1) ah [unfolded pay append_assoc]]])
        (use cause self(2) pay in \<open>auto simp: carries_def jz_content_def jz_ids\<close>)
  next
    case connect
    have pay: "payload = put_string_or_empty (jm_calling_address m) @ PUT_NUMBER1 (jm_iodir m)"
      using p connect by (auto simp: jz_put_payload_def jz_ids Let_def)
    have "jz_get_payload buf k self = jz_get_connect buf k self"
      using connect self(2) by (auto simp: jz_get_payload_def jz_ids)
    then show ?thesis
      by (rule payloadI [OF _ read_connect [OF self(1) _ ah [unfolded pay append_assoc]]])
        (use m connect self(2) pay in
          \<open>auto simp: jz_transmissible_def carries_def jz_content_def jz_ids put_string_eq\<close>)
  next
    case diagnostic
    have pay: "payload = PUT_NUMBER1 (jm_diagnostic m) @ PUT_NUMBER1 (jm_diagnostic_version m) @
        PUT_NUMBER1 (jm_diagnostic_id m) @ PUT_NUMBER2 (jm_diagnostic_lcn m)"
      using p diagnostic by (auto simp: jz_put_payload_def jz_ids Let_def)
    have "jz_get_payload buf k self = jz_get_diagnostic buf k self"
      using diagnostic self(2) by (auto simp: jz_get_payload_def jz_ids)
    then show ?thesis
      by (rule payloadI [OF _ read_diagnostic [OF self(1) ah [unfolded pay append_assoc]]])
        (use diagnostic self(2) pay in \<open>auto simp: carries_def jz_content_def jz_ids\<close>)
  next
    case plain
    then have "jz_get_payload buf k self = k self" "payload = []"
      using self p by (auto simp: jz_get_payload_def jz_put_payload_def jz_ids Let_def)
    then show ?thesis
      using plain self(2) by (intro exI [of _ self]) (auto simp: carries_def jz_content_def jz_ids)
  qed
qed

lemma read_padding:
  assumes "jm_ceiling self \<le> length buf" "ahead buf (jm_needle self) (jm_ceiling self) = replicate p 0 @ t"
  shows "jz_get_padding buf p k self = k (advance p self)"
  using assms
proof (induction p arbitrary: self)
  case 0
  then show ?case by (simp add: advance_def)
next
  case (Suc p)
  have "jz_get_padding buf p k (advance 1 self) = k (advance p (advance 1 self))"
    using Suc.prems by (intro Suc.IH) (simp_all add: ahead_Suc)
  then show ?case using Suc.prems by (simp add: get_number1_eq advance_def)
qed

lemma read_footer:
  assumes "jm_ceiling self \<le> length buf" "jm_ceiling self = msg_size f"
    "ahead buf (jm_needle self) (jm_ceiling self) = replicate (JZ_MSG_PADDING_LENGTH f) 0 @ PUT_NUMBER4 crc"
  shows "\<exists>m. jz_get_footer buf f self = Inr m \<and> jm_valid m \<and> jm_packed_size m = msg_size f \<and>
    jm_id m = jm_id self \<and> jm_lcn m = jm_lcn self \<and> jz_content m = jz_content self"
proof -
  let ?s = "advance (JZ_MSG_PADDING_LENGTH f) self"
  have "ahead buf (jm_needle ?s) (jm_ceiling ?s) = PUT_NUMBER4 crc @ []" using assms(3) by simp
  then have g: "GET_NUMBER4 (ahead buf (jm_needle ?s) (jm_ceiling ?s)) = Some (crc, [])"
    by (metis GET_PUT_NUMBER4)
  have "jm_needle self + JZ_MSG_PADDING_LENGTH f + 4 = msg_size f"
    using length_ahead [OF assms(1), of "jm_needle self"] assms(2,3) by simp
  then show ?thesis
    unfolding jz_get_footer_def read_padding [OF assms(1,3)]
    using assms(1) g by (simp add: get_number4_eq Let_def msg_size_def jz_content_def advance_def)
qed

section \<open>An envelope at the front of a buffer\<close>

definition framed :: "bytes \<Rightarrow> bytes \<Rightarrow> u32 \<Rightarrow> bytes \<Rightarrow> bytes" where
  "framed body pad crc rest =
     PUT_NUMBER4 JZ_MSG_SIGNATURE @ PUT_NUMBER4 (of_nat (length body)) @ body @ pad @ PUT_NUMBER4 crc @ rest"

lemma framed_envelope:
  "jz_envelope JZ_MSG_SIGNATURE body @ rest =
     framed body (replicate (JZ_MSG_PADDING_LENGTH (length body)) 0) (digital_crc32 body) rest"
  by (simp add: jz_envelope_def framed_def)

lemma framed_facts:
  assumes n: "length body \<le> JZ_MSG_MAX_PAYLOAD_LENGTH"
    and pad: "length pad = JZ_MSG_PADDING_LENGTH (length body)"
  shows "enveloped (framed body pad crc rest)"
    and "body_len (framed body pad crc rest) = length body"
    and "msg_size (length body) \<le> length (framed body pad crc rest)"
    and "crc_ok (framed body pad crc rest) \<longleftrightarrow> crc = digital_crc32 body"
    and "ahead (framed body pad crc rest) 8 (msg_size (length body)) = body @ pad @ PUT_NUMBER4 crc"
proof -
  let ?buf = "framed body pad crc rest"
  have d: "drop 4 ?buf = PUT_NUMBER4 (of_nat (length body)) @ body @ pad @ PUT_NUMBER4 crc @ rest"
    "drop 8 ?buf = body @ pad @ PUT_NUMBER4 crc @ rest"
    by (simp_all add: framed_def)
  have "GET_NUMBER4 ?buf = Some (JZ_MSG_SIGNATURE, drop 4 ?buf)"
    unfolding framed_def by (subst GET_PUT_NUMBER4) simp
  then show "enveloped ?buf" by (simp add: enveloped_def signed_def framed_def jz_sizes)
  show bl: "body_len ?buf = length body"
    using n by (simp add: body_len_def d(1) GET_PUT_NUMBER4 unat_of_nat_u32 jz_sizes)
  show "msg_size (length body) \<le> length ?buf" using pad by (simp add: framed_def msg_size_def jz_sizes)
  have e: "drop (msg_size (length body) - 4) ?buf = PUT_NUMBER4 crc @ rest"
    using pad by (simp add: framed_def msg_size_def jz_sizes)
  show "crc_ok ?buf \<longleftrightarrow> crc = digital_crc32 body"
    unfolding crc_ok_def bl e d(2) by (simp add: GET_PUT_NUMBER4)
  show "ahead ?buf 8 (msg_size (length body)) = body @ pad @ PUT_NUMBER4 crc"
    unfolding ahead_def d(2) using pad by (simp add: msg_size_def jz_sizes)
qed

lemma framed_lcn:
  assumes "body = jz_body m payload"
  shows "push_bit 8 (ucast (framed body pad crc rest ! 10)) + ucast (framed body pad crc rest ! 11) = jm_lcn m"
  using assms by (simp add: framed_def jz_body_def PUT_NUMBER4_def PUT_NUMBER1_def PUT_NUMBER2_def two_bytes)

text \<open>A message whose checksum does not match is skipped as a whole.\<close>

lemma parse_damaged:
  assumes "length body \<le> JZ_MSG_MAX_PAYLOAD_LENGTH" "length pad = JZ_MSG_PADDING_LENGTH (length body)"
    "crc \<noteq> digital_crc32 body"
  shows "jz_buffer_parse_into_message (framed body pad crc rest) =
    Inr (msg_size (length body), Some (jz_complaint jz_d_invalid_envelope), True, False)"
proof -
  note f = framed_facts [OF assms(1,2), of crc rest]
  have n: "body_len (framed body pad crc rest) \<le> JZ_MSG_MAX_PAYLOAD_LENGTH" using f(2) assms(1) by simp
  have l: "msg_size (body_len (framed body pad crc rest)) \<le> length (framed body pad crc rest)"
    using f(2,3) by simp
  show ?thesis unfolding parse_complete [OF f(1) n l] using f(2,4) assms(3) by simp
qed

lemma read_header:
  assumes "jm_ceiling self \<le> length buf" "jm_version m = 1"
    "ahead buf (jm_needle self) (jm_ceiling self) = jz_body m payload @ t"
  shows "jz_get_header buf k self =
    k ((advance 2 ((advance 1 ((advance 1 self)\<lparr>jm_version := 1\<rparr>))\<lparr>jm_id := jm_id m\<rparr>))\<lparr>jm_lcn := jm_lcn m\<rparr>)"
  using assms by (simp add: jz_get_header_def jz_body_def read_simps)

lemma new_from_envelope:
  assumes m: "jz_transmissible m" and p: "jz_put_payload m = Inr payload"
    and n: "length (jz_body m payload) \<le> JZ_MSG_MAX_PAYLOAD_LENGTH"
  shows "\<exists>r. jz_msg_new_from_data (jz_envelope JZ_MSG_SIGNATURE (jz_body m payload) @ rest) = Inr r \<and>
    jm_valid r \<and> jm_packed_size r = msg_size (length (jz_body m payload)) \<and>
    jm_id r = jm_id m \<and> jm_lcn r = jm_lcn m \<and> jz_content r = jz_content m"
proof -
  let ?body = "jz_body m payload"
  let ?pad = "replicate (JZ_MSG_PADDING_LENGTH (length ?body)) (0 :: byte)"
  let ?buf = "framed ?body ?pad (digital_crc32 ?body) rest"
  note f = framed_facts [OF n, of ?pad "digital_crc32 ?body" rest, simplified length_replicate, OF refl]
  let ?s0 = "jz_msg_new0\<lparr>jm_data := Some [], jm_signature := JZ_MSG_SIGNATURE, jm_needle := 8,
    jm_ceiling := msg_size (length ?body)\<rparr>"
  let ?s1 = "(advance 2 ((advance 1 ((advance 1 ?s0)\<lparr>jm_version := 1\<rparr>))\<lparr>jm_id := jm_id m\<rparr>))\<lparr>jm_lcn := jm_lcn m\<rparr>"
  let ?tail = "?pad @ PUT_NUMBER4 (digital_crc32 ?body)"
  have 0: "jm_ceiling ?s0 \<le> length ?buf" "ahead ?buf (jm_needle ?s0) (jm_ceiling ?s0) = ?body @ ?tail"
    using f(3,5) by simp_all
  have v: "jm_version m = 1" using m by (simp add: jz_transmissible_def)
  have "ahead ?buf 12 (msg_size (length ?body)) = drop 4 (ahead ?buf 8 (msg_size (length ?body)))"
    using ahead_add [of ?buf 8 4 "msg_size (length ?body)"] by simp
  then have 1: "jm_ceiling ?s1 \<le> length ?buf" "jm_id ?s1 = jm_id m"
    "ahead ?buf (jm_needle ?s1) (jm_ceiling ?s1) = payload @ ?tail"
    unfolding f(5) using f(3) by (simp_all add: jz_body_def)
  have len: "length payload \<le> JZ_MSG_MAX_PAYLOAD_LENGTH" using n by (simp add: length_jz_body)
  from read_payload [OF m p len 1, of "jz_get_footer ?buf (length ?body)"] obtain s2 where
    s2: "jz_get_payload ?buf (jz_get_footer ?buf (length ?body)) ?s1 = jz_get_footer ?buf (length ?body) s2"
      "carries m (length payload) ?s1 s2" by blast
  have "ahead ?buf (jm_needle ?s1 + length payload) (jm_ceiling ?s1) = ?tail"
    unfolding ahead_add 1(3) by simp
  then have "ahead ?buf (jm_needle s2) (jm_ceiling s2) = ?tail" "jm_ceiling s2 = msg_size (length ?body)"
    using s2(2) unfolding carries_def by (presburger, simp)
  then obtain r where r: "jz_get_footer ?buf (length ?body) s2 = Inr r" "jm_valid r"
    "jm_packed_size r = msg_size (length ?body)" "jm_id r = jm_id s2" "jm_lcn r = jm_lcn s2"
    "jz_content r = jz_content s2" using read_footer [of s2 ?buf "length ?body"] f(3) by auto
  have "JZ_MSG_ENVELOPE_SIZE < length ?buf" using f(3) by (simp add: msg_size_def length_jz_body jz_sizes)
  from new_from_data_eq [OF f(1) this] have "jz_msg_new_from_data ?buf = Inr r"
    using read_header [OF 0(1) v 0(2)] s2(1) r(1) unfolding f(2) by simp
  then show ?thesis unfolding framed_envelope using r s2(2) by (auto simp: carries_def)
qed

lemma parse_envelope:
  assumes m: "jz_transmissible m" and p: "jz_put_payload m = Inr payload"
    and n: "length (jz_body m payload) \<le> JZ_MSG_MAX_PAYLOAD_LENGTH"
  shows "\<exists>r. jz_buffer_parse_into_message (jz_envelope JZ_MSG_SIGNATURE (jz_body m payload) @ rest) =
      Inr (length (jz_envelope JZ_MSG_SIGNATURE (jz_body m payload)), Some r, False, False) \<and>
    jm_valid r \<and> jm_id r = jm_id m \<and> jm_lcn r = jm_lcn m \<and> jz_content r = jz_content m"
proof -
  let ?body = "jz_body m payload"
  let ?pad = "replicate (JZ_MSG_PADDING_LENGTH (length ?body)) (0 :: byte)"
  let ?buf = "framed ?body ?pad (digital_crc32 ?body) rest"
  note f = framed_facts [OF n, of ?pad "digital_crc32 ?body" rest, simplified length_replicate, OF refl]
  from new_from_envelope [OF assms, of rest] obtain r where r: "jz_msg_new_from_data ?buf = Inr r"
    "jm_valid r" "jm_packed_size r = msg_size (length ?body)" "jm_id r = jm_id m" "jm_lcn r = jm_lcn m"
    "jz_content r = jz_content m" unfolding framed_envelope by blast
  have bl: "body_len ?buf \<le> JZ_MSG_MAX_PAYLOAD_LENGTH" "msg_size (body_len ?buf) \<le> length ?buf"
    using f(2,3) n by simp_all
  have "\<not> body_len ?buf < JZ_MSG_PAYLOAD_HEADER_SIZE" using f(2) by (simp add: length_jz_body)
  moreover have "\<not> jm_lcn m > JZ_MSG_MAX_LCN" using m by (auto simp: jz_transmissible_def)
  ultimately have "jz_buffer_parse_into_message ?buf = Inr (msg_size (length ?body), Some r, False, False)"
    unfolding parse_complete [OF f(1) bl] framed_lcn [OF refl] r(1) using f(4) r(2,3) by simp
  then show ?thesis
    unfolding framed_envelope using r by (auto simp: length_jz_envelope msg_size_def)
qed

lemma reject_version:
  assumes "jm_ceiling self \<le> length buf" "jm_version m \<noteq> 1"
    "ahead buf (jm_needle self) (jm_ceiling self) = jz_body m payload @ t"
  shows "\<exists>r. jz_get_header buf k self = Inr r \<and> \<not> jm_valid r"
  using assms by (simp add: jz_get_header_def jz_body_def read_simps jz_malformed_def)

section \<open>Every buffer\<close>

lemma parse_oversized:
  assumes "enveloped buf" "complete buf" "body_len buf > JZ_MSG_MAX_PAYLOAD_LENGTH"
  shows "jz_buffer_parse_into_message buf = Inl Assert_failed"
proof -
  have len: "12 \<le> length buf" "0 < length buf" "\<not> length buf < JZ_MSG_ENVELOPE_SIZE"
    using assms(1) by (auto simp: enveloped_def jz_sizes)
  have b: "jz_buffer_begins_with_signature buf = Inr True"
    using begins_eq [of buf] assms(1) len by (simp add: enveloped_def jz_sizes)
  show ?thesis
    unfolding jz_buffer_parse_into_message_def
    using len b contains_eq [OF assms(1)] assms(2,3) envelope_valid_eq [OF assms(1)]
      binary_size_eq [OF assms(1)] by (simp add: new_diagnostic_complaint)
qed

lemma parse_incomplete:
  assumes "buf \<noteq> []" "\<not> (enveloped buf \<and> complete buf)"
  shows "jz_buffer_parse_into_message buf =
    Inr (0, None, False, JZ_MSG_ENVELOPE_SIZE \<le> length buf \<and> \<not> signed buf)"
proof (cases "enveloped buf")
  case True
  then have len: "12 \<le> length buf" "\<not> length buf < JZ_MSG_ENVELOPE_SIZE" "signed buf"
    by (auto simp: enveloped_def jz_sizes)
  have b: "jz_buffer_begins_with_signature buf = Inr True"
    using begins_eq [of buf] len by (simp add: jz_sizes)
  show ?thesis
    unfolding jz_buffer_parse_into_message_def
    using assms len b contains_eq [OF True] True by simp
next
  case False
  have "JZ_MSG_ENVELOPE_SIZE \<le> length buf \<Longrightarrow> jz_buffer_begins_with_signature buf = Inr False"
    using begins_eq [of buf] False by (simp add: enveloped_def jz_sizes)
  then show ?thesis
    unfolding jz_buffer_parse_into_message_def using assms False by (auto simp: enveloped_def)
qed

lemma append_split_le:
  assumes "xs @ t = ys @ z" "length xs \<le> length ys"
  shows "\<exists>b. ys = xs @ b \<and> t = b @ z"
proof (intro exI conjI)
  have "take (length xs) (xs @ t) = take (length xs) (ys @ z)" using assms(1) by simp
  then have "xs = take (length xs) ys" using assms(2) by simp
  then show ys: "ys = xs @ drop (length xs) ys" by (metis append_take_drop_id)
  have "xs @ t = xs @ (drop (length xs) ys @ z)" using assms(1) ys by (metis append_assoc)
  then show "t = drop (length xs) ys @ z" by simp
qed

text \<open>A cut of an envelope inside its body is a cut of the body.\<close>

lemma split_envelope:
  assumes "p @ u @ t = jz_envelope sig body" "8 \<le> length p" "length p + length u \<le> 8 + length body"
  shows "\<exists>a b. body = a @ u @ b \<and> p = PUT_NUMBER4 sig @ PUT_NUMBER4 (of_nat (length body)) @ a \<and>
    t = b @ replicate (JZ_MSG_PADDING_LENGTH (length body)) 0 @ PUT_NUMBER4 (digital_crc32 body)"
proof -
  let ?h = "PUT_NUMBER4 sig @ PUT_NUMBER4 (of_nat (length body))"
  let ?z = "replicate (JZ_MSG_PADDING_LENGTH (length body)) 0 @ PUT_NUMBER4 (digital_crc32 body)"
  have e: "p @ u @ t = ?h @ body @ ?z" using assms(1) by (simp add: jz_envelope_def)
  have h: "length ?h = 8" by simp
  have p: "p = ?h @ drop 8 p"
  proof -
    have "take 8 (p @ u @ t) = take 8 (?h @ body @ ?z)" using e by simp
    then have "take 8 p = ?h" using assms(2) by simp
    then show ?thesis by (metis append_take_drop_id)
  qed
  then have "drop 8 p @ u @ t = body @ ?z" using e h by (metis append_assoc same_append_eq)
  then have b: "(drop 8 p @ u) @ t = body @ ?z" by simp
  moreover have "length (drop 8 p @ u) \<le> length body" using assms(2,3) by simp
  ultimately obtain b where "body = (drop 8 p @ u) @ b" "t = b @ ?z" using append_split_le by blast
  then show ?thesis using p by auto
qed

lemma msg_size_facts: "4 dvd msg_size n" "12 \<le> msg_size n"
  using padding_aligned [of n] by (simp_all add: msg_size_def jz_sizes add.assoc)

text \<open>What a result of the parser looks like.\<close>

definition parse_result_ok :: "bytes \<Rightarrow> nat \<times> jz_msg option \<times> bool \<times> bool \<Rightarrow> bool" where
  "parse_result_ok buf r = (case r of (siz, msg, is_error, is_fatal) \<Rightarrow>
     (is_fatal \<longleftrightarrow> JZ_MSG_ENVELOPE_SIZE \<le> length buf \<and> \<not> signed buf) \<and>
     (if siz = 0 then msg = None \<and> \<not> is_error
      else siz \<le> length buf \<and> 4 dvd siz \<and> \<not> is_fatal \<and>
        (if is_error then \<exists>d. msg = Some (jz_complaint d)
         else \<exists>m. msg = Some m \<and> jm_valid m \<and> jz_parsed m)))"

lemma parse_complete_ok:
  assumes e: "enveloped buf" and n: "body_len buf \<le> JZ_MSG_MAX_PAYLOAD_LENGTH"
    and l: "msg_size (body_len buf) \<le> length buf"
  shows "(\<exists>r. jz_buffer_parse_into_message buf = Inr r \<and> parse_result_ok buf r) \<or>
    (jz_buffer_parse_into_message buf = Inl Undefined \<and> crc_ok buf \<and>
     (\<exists>m. jz_msg_new_from_data buf = Inr m \<and> \<not> jm_valid m))"
proof (cases "crc_ok buf \<and> \<not> body_len buf < JZ_MSG_PAYLOAD_HEADER_SIZE \<and>
    \<not> push_bit 8 (ucast (buf ! 10)) + ucast (buf ! 11) > JZ_MSG_MAX_LCN")
  case True
  then obtain m where m: "jz_msg_new_from_data buf = Inr m" "jm_packed_size m \<le> msg_size (body_len buf)"
    "jm_valid m \<longrightarrow> jm_packed_size m = msg_size (body_len buf) \<and> jz_parsed m"
    using new_from_data_lands [OF e _ l] unfolding lands_def by fastforce
  have "msg_size (body_len buf) \<noteq> 0" using msg_size_facts(2) [of "body_len buf"] by simp
  then show ?thesis
    unfolding parse_complete [OF e n l] using True m e l msg_size_facts(1) [of "body_len buf"]
    by (auto simp: parse_result_ok_def enveloped_def)
next
  case False
  have "msg_size (body_len buf) \<noteq> 0" using msg_size_facts(2) [of "body_len buf"] by simp
  then show ?thesis
    unfolding parse_complete [OF e n l] using False e l msg_size_facts(1) [of "body_len buf"]
    by (auto simp: parse_result_ok_def enveloped_def)
qed

section \<open>Properties\<close>

text \<open>
  C11. A message that is serialized and then parsed comes back: for every message whose fields fit
  the wire format the serializer returns bytes, and parsing these bytes, whatever follows them in
  the buffer, consumes exactly them and returns a valid message with the same type, channel number
  and content.
\<close>

theorem jz_msg_roundtrip:
  assumes "jz_transmissible m"
  shows "\<exists>bs m' r. jz_msg_to_byte_array m = Inr (bs, m') \<and>
    jz_buffer_parse_into_message (bs @ rest) = Inr (length bs, Some r, False, False) \<and>
    jm_valid r \<and> jm_id r = jm_id m \<and> jm_lcn r = jm_lcn m \<and> jz_content r = jz_content m"
proof -
  have s: "jz_sendable m" "jm_signature m = JZ_MSG_SIGNATURE" using assms by (simp_all add: jz_transmissible_def)
  from to_byte_array_eq [OF s(1)] s(2) obtain payload m' where p: "jz_put_payload m = Inr payload"
    "jz_msg_to_byte_array m = Inr (jz_envelope JZ_MSG_SIGNATURE (jz_body m payload), m')" by auto
  have "length (jz_body m payload) \<le> JZ_MSG_MAX_PAYLOAD_LENGTH"
    using frame_payload [OF s(1)] p(1) assms by (auto simp: jz_transmissible_def length_jz_body)
  from parse_envelope [OF assms p(1) this, of rest] p(2) show ?thesis by blast
qed

text \<open>A DATA message of three bytes on channel 7.\<close>

definition jz_demo_data :: jz_msg where
  "jz_demo_data = (MSG_HEADER jz_msg_new0)\<lparr>jm_id := JZ_MSG_DATA, jm_lcn := 7, jm_q := 1, jm_pr := 2, jm_ps := 3,
     jm_data := Some [65, 66, 67]\<rparr>"

theorem jz_msg_roundtrip_witness:
  "\<exists>bs m' r. jz_msg_to_byte_array jz_demo_data = Inr (bs, m') \<and>
    jz_buffer_parse_into_message (bs @ [126]) = Inr (length bs, Some r, False, False) \<and>
    jm_valid r \<and> jm_id r = jm_id jz_demo_data \<and> jm_lcn r = jm_lcn jz_demo_data \<and> jz_content r = jz_content jz_demo_data"
  by (rule jz_msg_roundtrip)
    (simp add: jz_transmissible_def jz_demo_data_def jz_sendable_def MSG_HEADER_def jz_msg_new0_def jz_ids
      JZ_MSG_COUNT_def JZ_MSG_MAX_LCN_def jz_frame_size_def RAW_SIZE_def Let_def jz_sizes text_of_def
      wire_string_def)

text \<open>
  C12. The parser on any buffer that is not empty: it never reads outside the buffer. Either it
  returns, and then it has consumed nothing or one whole envelope, a multiple of four bytes that
  lies inside the buffer, with a valid and complete message or a diagnostic about a skipped one,
  and it gives up on the connection exactly when the signature is wrong; or it stops for one of two
  reasons, a body length above the maximum, or a payload that does not fill its envelope.
\<close>

theorem jz_buffer_parse_safe:
  assumes "buf \<noteq> []"
  shows "(\<exists>r. jz_buffer_parse_into_message buf = Inr r \<and> parse_result_ok buf r) \<or>
    (jz_buffer_parse_into_message buf = Inl Assert_failed \<and> body_len buf > JZ_MSG_MAX_PAYLOAD_LENGTH) \<or>
    (jz_buffer_parse_into_message buf = Inl Undefined \<and> crc_ok buf \<and>
     (\<exists>m. jz_msg_new_from_data buf = Inr m \<and> \<not> jm_valid m))"
proof (cases "enveloped buf \<and> complete buf")
  case False
  then show ?thesis using parse_incomplete [OF assms False] by (simp add: parse_result_ok_def)
next
  case True
  show ?thesis
  proof (cases "body_len buf \<le> JZ_MSG_MAX_PAYLOAD_LENGTH")
    case False
    then show ?thesis using True parse_oversized [of buf] by simp
  next
    case small: True
    then show ?thesis using True parse_complete_ok [of buf] complete_small [OF small] by blast
  qed
qed

theorem jz_buffer_parse_safe_witness:
  "(\<exists>r. jz_buffer_parse_into_message [126, 83] = Inr r \<and> parse_result_ok [126, 83] r) \<or>
    (jz_buffer_parse_into_message [126, 83] = Inl Assert_failed \<and> body_len [126, 83] > JZ_MSG_MAX_PAYLOAD_LENGTH) \<or>
    (jz_buffer_parse_into_message [126, 83] = Inl Undefined \<and> crc_ok [126, 83] \<and>
     (\<exists>m. jz_msg_new_from_data [126, 83] = Inr m \<and> \<not> jm_valid m))"
  by (rule jz_buffer_parse_safe) simp

text \<open>
  C14. Damage is noticed: when up to four consecutive bytes of the body of a serialized message are
  changed, the parser answers with the diagnostic for an invalid envelope and skips exactly the
  damaged message, so that the next one is found.
\<close>

theorem jz_damage_detected:
  assumes "jz_transmissible m" "jz_msg_to_byte_array m = Inr (p @ u @ t, m')" "jz_frame_size m = Inr n"
    and "8 \<le> length p" "length p + length u \<le> 8 + n"
    and "length u = length v" "length u \<le> 4" "u \<noteq> v"
  shows "jz_buffer_parse_into_message (p @ v @ t @ rest) =
    Inr (length (p @ u @ t), Some (jz_complaint jz_d_invalid_envelope), True, False)"
proof -
  have s: "jz_sendable m" "jm_signature m = JZ_MSG_SIGNATURE" using assms(1) by (simp_all add: jz_transmissible_def)
  obtain body where body: "p @ u @ t = jz_envelope JZ_MSG_SIGNATURE body" "length body = n"
    using to_byte_array_eq [OF s(1)] frame_payload [OF s(1)] assms(2,3) s(2) by (auto simp: length_jz_body)
  have n: "n \<le> JZ_MSG_MAX_PAYLOAD_LENGTH" using assms(1,3) by (simp add: jz_transmissible_def)
  let ?pad = "replicate (JZ_MSG_PADDING_LENGTH n) (0 :: byte)"
  obtain a b where ab: "body = a @ u @ b" "p = PUT_NUMBER4 JZ_MSG_SIGNATURE @ PUT_NUMBER4 (of_nat n) @ a"
    "t = b @ ?pad @ PUT_NUMBER4 (digital_crc32 body)"
    using split_envelope [OF body(1)] assms(4,5) body(2) by auto
  have "digital_crc32 body \<noteq> digital_crc32 (a @ v @ b)" unfolding ab(1) using assms(6-8) by (rule crc_changes)
  moreover have len: "length (a @ v @ b) = n" using ab(1) assms(6) body(2) by simp
  moreover have "p @ v @ t @ rest = framed (a @ v @ b) ?pad (digital_crc32 body) rest"
    unfolding framed_def len by (simp add: ab)
  ultimately show ?thesis
    using parse_damaged [of "a @ v @ b" ?pad "digital_crc32 body" rest] n body
    by (simp only: length_replicate) (simp add: length_jz_envelope msg_size_def)
qed

theorem jz_damage_detected_witness:
  "\<exists>p u t m'. jz_msg_to_byte_array ((MSG_HEADER jz_msg_new0)\<lparr>jm_id := JZ_MSG_ENQ\<rparr>) = Inr (p @ u @ t, m') \<and>
    u \<noteq> [9, 9] \<and> jz_buffer_parse_into_message (p @ [9, 9] @ t @ [126]) =
      Inr (16, Some (jz_complaint jz_d_invalid_envelope), True, False)"
proof -
  let ?m = "(MSG_HEADER jz_msg_new0)\<lparr>jm_id := JZ_MSG_ENQ\<rparr>"
  have m: "jz_transmissible ?m"
    by (simp add: jz_transmissible_def jz_sendable_def MSG_HEADER_def jz_msg_new0_def jz_ids
      JZ_MSG_COUNT_def JZ_MSG_MAX_LCN_def jz_frame_size_def Let_def jz_sizes text_of_def wire_string_def)
  have n: "jz_frame_size ?m = Inr 4"
    by (simp add: jz_frame_size_def MSG_HEADER_def jz_msg_new0_def jz_ids Let_def jz_sizes)
  from to_byte_array_eq [of ?m] m obtain m' where
    "jz_msg_to_byte_array ?m = Inr (jz_envelope JZ_MSG_SIGNATURE (jz_body ?m []), m')"
    by (auto simp: jz_transmissible_def jz_put_payload_def jz_ids Let_def MSG_HEADER_def)
  moreover have "jz_envelope JZ_MSG_SIGNATURE (jz_body ?m []) =
      (PUT_NUMBER4 JZ_MSG_SIGNATURE @ PUT_NUMBER4 4) @ [1, 16] @ [0, 0] @ PUT_NUMBER4 (digital_crc32 [1, 16, 0, 0])"
    by (simp add: jz_envelope_def jz_body_def MSG_HEADER_def jz_msg_new0_def JZ_MSG_ENQ_def
        PUT_NUMBER1_def PUT_NUMBER2_def JZ_MSG_PADDING_LENGTH_def)
  ultimately have b: "jz_msg_to_byte_array ?m = Inr ((PUT_NUMBER4 JZ_MSG_SIGNATURE @ PUT_NUMBER4 4) @ [1, 16] @
      ([0, 0] @ PUT_NUMBER4 (digital_crc32 [1, 16, 0, 0])), m')" by simp
  from jz_damage_detected [OF m b n, of "[9, 9]" "[126]"] b show ?thesis
    by (intro exI [of _ "PUT_NUMBER4 JZ_MSG_SIGNATURE @ PUT_NUMBER4 4"] exI [of _ "[1, 16]"]
        exI [of _ "[0, 0] @ PUT_NUMBER4 (digital_crc32 [1, 16, 0, 0])"] exI [of _ m']) simp
qed

text \<open>
  C15. The serializer and its array: for every type but DIRECTORY it returns, it writes exactly the
  bytes that the array was allocated for, the length is a multiple of four, and the array starts
  with the signature; a DIRECTORY message or an unknown type aborts the server.
\<close>

theorem jz_msg_to_byte_array_in_bounds:
  "(jz_sendable m \<longrightarrow> (\<exists>bs m' n. jz_msg_to_byte_array m = Inr (bs, m') \<and> jz_frame_size m = Inr n \<and>
      length bs = JZ_MSG_ENVELOPE_SIZE + n + JZ_MSG_PADDING_LENGTH n \<and> 4 dvd length bs \<and>
      take 4 bs = PUT_NUMBER4 (jm_signature m))) \<and>
   (jm_id m = JZ_MSG_DIRECTORY \<or> JZ_MSG_COUNT \<le> jm_id m \<longrightarrow> jz_msg_to_byte_array m = Inl Aborted)"
proof (intro conjI impI)
  assume s: "jz_sendable m"
  from to_byte_array_eq [OF s] obtain payload m' where p: "jz_put_payload m = Inr payload"
    "jz_msg_to_byte_array m = Inr (jz_envelope (jm_signature m) (jz_body m payload), m')" by auto
  moreover have "jz_frame_size m = Inr (length (jz_body m payload))"
    using frame_payload [OF s] p(1) by (auto simp: length_jz_body)
  moreover have "take 4 (jz_envelope (jm_signature m) (jz_body m payload)) = PUT_NUMBER4 (jm_signature m)"
    by (simp add: jz_envelope_def PUT_NUMBER4_def)
  ultimately show "\<exists>bs m' n. jz_msg_to_byte_array m = Inr (bs, m') \<and> jz_frame_size m = Inr n \<and>
      length bs = JZ_MSG_ENVELOPE_SIZE + n + JZ_MSG_PADDING_LENGTH n \<and> 4 dvd length bs \<and>
      take 4 bs = PUT_NUMBER4 (jm_signature m)"
    using msg_size_facts(1) by (auto simp: length_jz_envelope msg_size_def)
next
  assume "jm_id m = JZ_MSG_DIRECTORY \<or> JZ_MSG_COUNT \<le> jm_id m"
  then have "jm_id m = 15 \<or> 20 \<le> unat (jm_id m)"
    by (auto simp: JZ_MSG_DIRECTORY_def JZ_MSG_COUNT_def word_le_nat_alt)
  then show "jz_msg_to_byte_array m = Inl Aborted"
    by (auto simp: jz_msg_to_byte_array_def jz_frame_size_def jz_ids Let_def)
qed

theorem jz_msg_to_byte_array_in_bounds_witness:
  "(\<exists>bs m'. jz_msg_to_byte_array jz_demo_data = Inr (bs, m') \<and> length bs = 28 \<and>
      take 4 bs = PUT_NUMBER4 JZ_MSG_SIGNATURE) \<and>
   jz_msg_to_byte_array (jz_demo_data\<lparr>jm_id := JZ_MSG_DIRECTORY\<rparr>) = Inl Aborted"
proof -
  have s: "jz_sendable jz_demo_data" "jm_signature jz_demo_data = JZ_MSG_SIGNATURE"
    by (simp_all add: jz_demo_data_def jz_sendable_def MSG_HEADER_def jz_msg_new0_def jz_ids JZ_MSG_COUNT_def)
  have "jz_frame_size jz_demo_data = Inr 14"
    by (simp add: jz_demo_data_def jz_frame_size_def jz_ids RAW_SIZE_def Let_def jz_sizes)
  then show ?thesis
    using jz_msg_to_byte_array_in_bounds [of jz_demo_data] s
      jz_msg_to_byte_array_in_bounds [of "jz_demo_data\<lparr>jm_id := JZ_MSG_DIRECTORY\<rparr>"]
    by (auto simp: jz_sizes JZ_MSG_PADDING_LENGTH_def)
qed

text \<open>
  Twelve bytes stop the server: a buffer that starts with the signature and a body length of at
  least 2^32 - 12 passes for a complete message, because the sum with the size of the envelope is
  computed with 32 bits and wraps around, and the parser then fails an assertion.
\<close>

theorem jz_length_wraps_around:
  assumes "12 \<le> length buf" "signed buf" "2 ^ 32 - 12 \<le> body_len buf"
  shows "jz_buffer_parse_into_message buf = Inl Assert_failed"
proof (rule parse_oversized)
  let ?n = "body_len buf"
  have n: "?n < 2 ^ 32" using body_length_eq [of buf] assms(1) by (simp add: jz_sizes)
  then obtain k where k: "?n = 4294967284 + k" "k < 12" using assms(3) by (auto simp: le_iff_add)
  have "JZ_MSG_PADDING_LENGTH ?n = (if k mod 4 = 0 then 0 else 4 - k mod 4)"
    unfolding JZ_MSG_PADDING_LENGTH_def k(1) by presburger
  then have p: "k + JZ_MSG_PADDING_LENGTH ?n \<le> 12" using k(2) by presburger
  have "12 + ?n + JZ_MSG_PADDING_LENGTH ?n = k + JZ_MSG_PADDING_LENGTH ?n + 2 ^ 32" using k(1) by simp
  then have "(12 + ?n + JZ_MSG_PADDING_LENGTH ?n) mod 2 ^ 32 = k + JZ_MSG_PADDING_LENGTH ?n"
    using p by (simp only: mod_add_self2) simp
  then show "complete buf" using p assms(1) unfolding complete_def by linarith
qed (use assms in \<open>simp_all add: enveloped_def jz_sizes\<close>)

theorem jz_length_wraps_around_witness:
  "jz_buffer_parse_into_message [0x43, 0x56, 0x53, 0x7e, 0xff, 0xff, 0xff, 0xf8, 0, 0, 0, 0] = Inl Assert_failed"
  by (rule jz_length_wraps_around) (simp_all add: signed_def body_len_def JZ_MSG_SIGNATURE_def)

text \<open>
  A message of another protocol version stops the server: its envelope is in order and its
  checksum matches, the parser rejects the version, and the structure is then freed and read again.
\<close>

theorem jz_version_use_after_free:
  assumes "jm_version m \<noteq> 1" "jm_lcn m \<le> JZ_MSG_MAX_LCN" "length (jz_body m payload) \<le> JZ_MSG_MAX_PAYLOAD_LENGTH"
  shows "jz_buffer_parse_into_message (jz_envelope JZ_MSG_SIGNATURE (jz_body m payload) @ rest) = Inl Undefined"
proof -
  let ?body = "jz_body m payload"
  let ?pad = "replicate (JZ_MSG_PADDING_LENGTH (length ?body)) (0 :: byte)"
  let ?buf = "framed ?body ?pad (digital_crc32 ?body) rest"
  note f = framed_facts [OF assms(3), of ?pad "digital_crc32 ?body" rest, simplified length_replicate, OF refl]
  have bl: "body_len ?buf \<le> JZ_MSG_MAX_PAYLOAD_LENGTH" "msg_size (body_len ?buf) \<le> length ?buf"
    using f(2,3) assms(3) by simp_all
  have long: "JZ_MSG_ENVELOPE_SIZE < length ?buf" using f(3) by (simp add: msg_size_def length_jz_body jz_sizes)
  let ?s0 = "jz_msg_new0\<lparr>jm_data := Some [], jm_signature := JZ_MSG_SIGNATURE, jm_needle := 8,
    jm_ceiling := msg_size (length ?body)\<rparr>"
  have "jm_ceiling ?s0 \<le> length ?buf"
    "ahead ?buf (jm_needle ?s0) (jm_ceiling ?s0) = jz_body m payload @ ?pad @ PUT_NUMBER4 (digital_crc32 ?body)"
    using f(3,5) by simp_all
  from reject_version [OF this(1) assms(1) this(2)] obtain r where
    r: "jz_get_header ?buf (jz_get_payload ?buf (jz_get_footer ?buf (length ?body))) ?s0 = Inr r" "\<not> jm_valid r"
    by blast
  have new: "jz_msg_new_from_data ?buf = Inr r"
    unfolding new_from_data_eq [OF f(1) long] f(2) using r(1) by simp
  have "\<not> body_len ?buf < JZ_MSG_PAYLOAD_HEADER_SIZE" using f(2) by (simp add: length_jz_body)
  moreover have "\<not> jm_lcn m > JZ_MSG_MAX_LCN" using assms(2) by auto
  ultimately show ?thesis
    unfolding framed_envelope parse_complete [OF f(1) bl] framed_lcn [OF refl] new using f(4) r(2) by simp
qed

theorem jz_version_use_after_free_witness:
  "jz_buffer_parse_into_message
     (jz_envelope JZ_MSG_SIGNATURE (jz_body (jz_msg_new0\<lparr>jm_version := 2, jm_id := JZ_MSG_ENQ\<rparr>) []) @ []) = Inl Undefined"
  by (rule jz_version_use_after_free)
    (simp_all add: jz_msg_new0_def JZ_MSG_MAX_LCN_def length_jz_body jz_sizes)

end
