(* ===== verification/Jz_Server.thy ===== *)
theory Jz_Server
  imports Jz_Wire
begin

text \<open>
  The state of the application server and the operations that clients and channels share:
  \<^verbatim>\<open>application10/client.h\<close>, \<^verbatim>\<open>application10/channel.h\<close> and the parts of \<^verbatim>\<open>client.c\<close> that the channels
  call. A pointer to a client is its position in \<^verbatim>\<open>client_list\<close>, from which nothing is removed; a
  pointer to a channel is its address in a heap, so that a channel that was freed can still be
  pointed to, and reading it is undefined behaviour. What the libraries leave open is part of
  the state: the readings of the clock and the order in which hash tables are visited. The list
  \<open>sv_out\<close> records the messages that were handed to the connections, each as a whole: how much of it a single write
  takes is up to GLib and not represented.
\<close>

section \<open>Structures\<close>

text \<open>
  The packet size and the throughput of a channel are stored in bytes; all values come from bytes
  of messages, so they are kept as they are. The members \<^verbatim>\<open>connection\<close>, \<^verbatim>\<open>input_stream_source\<close> and
  \<^verbatim>\<open>hostname\<close> of a client and \<^verbatim>\<open>max_packet_size\<close> of a channel are left out: the code only sets up
  the first two and does not use the others. The receive buffer is its \<^verbatim>\<open>recv_buffer_size\<close> bytes.
\<close>

datatype channel_state_t =
    P1_READY
  | P2_CLIENT_WAITING
  | P3_SERVER_WAITING
  | P5_CALL_COLLISION
  | P6_CLIENT_CLEAR_REQUEST
  | P7_SERVER_CLEAR_INDICATION
  | D1_FLOW_CONTROL_READY
  | D2_CLIENT_RESET_REQUEST
  | D3_SERVER_RESET_INDICATION

datatype JzChannelTimerType = TIMER_NONE | TIMER_INCOMING_CALL | TIMER_RESET_INDICATION | TIMER_CLEAR_INDICATION

record jz_channel =
  jc_lcn :: u16
  jc_parent :: nat
  jc_peer :: "nat option"
  jc_state :: channel_state_t
  jc_client_ps :: u16
  jc_client_pr :: u16
  jc_peer_ps :: u16
  jc_peer_pr :: u16
  jc_window :: u16
  jc_throughput :: tput_t
  jc_packet :: packet_t
  jc_timer_type :: JzChannelTimerType
  jc_timer_expiration_time :: int
  jc_timer_count :: int

datatype client_state_t =
    C1_UNINITIALIZED
  | C2_CLIENT_RESTART_REQUEST
  | C3_SERVER_RESTART_REQUEST
  | C4_INITIALIZED

datatype JzClientTimerType = JZ_CLIENT_TIMER_NONE | JZ_CLIENT_TIMER_RESTART_INDICATION

record jz_client =
  cl_inet_address_str :: cstr
  cl_port :: u16
  cl_state :: client_state_t
  cl_address :: "cstr option"
  cl_iodir :: byte
  cl_timer_type :: JzClientTimerType
  cl_timer_expiration_time :: int
  cl_timer_count :: int
  cl_recv_buffer :: bytes
  cl_incoming :: "jz_msg list"
  cl_channels :: "(u16 \<times> nat) list"

record jz_server =
  sv_clients :: "jz_client list"
  sv_heap :: "nat \<Rightarrow> jz_channel option"
  sv_fresh :: nat
  sv_out :: "(nat \<times> jz_msg) list"
  sv_clock :: "nat \<Rightarrow> int"
  sv_tick :: nat
  sv_order :: "(u16 \<times> nat) list \<Rightarrow> (u16 \<times> nat) list"

definition CLIENT_RECV_BUFFER_SIZE :: nat where "CLIENT_RECV_BUFFER_SIZE = 1024"
definition G_USEC_PER_SEC :: int where "G_USEC_PER_SEC = 1000000"
definition JZ_CLIENT_TIMER_RESTART_INDICATION_DURATION_IN_SECONDS :: int where
  "JZ_CLIENT_TIMER_RESTART_INDICATION_DURATION_IN_SECONDS = 6"
definition TIMER_INCOMING_CALL_DURATION_IN_SECONDS :: int where "TIMER_INCOMING_CALL_DURATION_IN_SECONDS = 18"
definition TIMER_RESET_INDICATION_DURATION_IN_SECONDS :: int where "TIMER_RESET_INDICATION_DURATION_IN_SECONDS = 6"
definition TIMER_CLEAR_INDICATION_DURATION_IN_SECONDS :: int where "TIMER_CLEAR_INDICATION_DURATION_IN_SECONDS = 6"

section \<open>Access\<close>

definition client_at :: "jz_server \<Rightarrow> nat \<Rightarrow> jz_client res" where
  "client_at s i = (if i < length (sv_clients s) then Inr (sv_clients s ! i) else Inl Undefined)"

definition modify_client :: "nat \<Rightarrow> (jz_client \<Rightarrow> jz_client) \<Rightarrow> jz_server \<Rightarrow> jz_server" where
  "modify_client i f s = s\<lparr>sv_clients := (sv_clients s)[i := f (sv_clients s ! i)]\<rparr>"

definition channel_at :: "jz_server \<Rightarrow> nat \<Rightarrow> jz_channel res" where
  "channel_at s x = (case sv_heap s x of None \<Rightarrow> Inl Undefined | Some c \<Rightarrow> Inr c)"

definition modify_channel :: "nat \<Rightarrow> (jz_channel \<Rightarrow> jz_channel) \<Rightarrow> jz_server \<Rightarrow> jz_server res" where
  "modify_channel x f s = bind_res (channel_at s x) (\<lambda>c. Inr (s\<lparr>sv_heap := (sv_heap s)(x \<mapsto> f c)\<rparr>))"

definition read_clock :: "jz_server \<Rightarrow> int \<times> jz_server" where
  "read_clock s = (sv_clock s (sv_tick s), s\<lparr>sv_tick := Suc (sv_tick s)\<rparr>)"

section \<open>The description of a client for the log\<close>

text \<open>
  \<^verbatim>\<open>jz_client_diagnostic_string\<close> prints into a buffer of 80 bytes with
  \<^verbatim>\<open>"%-16s %-9s %2s %d %d"\<close>. Only its length matters: the text is used for logging alone.
\<close>

definition client_short_state_name :: "client_state_t \<Rightarrow> string" where
  "client_short_state_name c = (case c of
      C1_UNINITIALIZED \<Rightarrow> ''UNINIT'' | C2_CLIENT_RESTART_REQUEST \<Rightarrow> ''C_RESTART''
    | C3_SERVER_RESTART_REQUEST \<Rightarrow> ''S_RESTART'' | C4_INITIALIZED \<Rightarrow> ''INIT'')"

fun decimal_width :: "nat \<Rightarrow> nat" where
  "decimal_width n = (if n < 10 then 1 else Suc (decimal_width (n div 10)))"

declare decimal_width.simps [simp del]

definition diag_string_length :: "jz_client \<Rightarrow> string \<Rightarrow> nat" where
  "diag_string_length C iodir =
     (let addr = (case cl_address C of
            Some a \<Rightarrow> length a
          | None \<Rightarrow> length (cl_inet_address_str C) + 1 + decimal_width (unat (cl_port C)))
      in max 16 addr + 1 + max 9 (length (client_short_state_name (cl_state C))) + 1 +
         max 2 (length iodir) + 1 + decimal_width (length (cl_incoming C)) + 1 +
         decimal_width (length (cl_channels C)))"

definition diag_string_buffer_size :: nat where "diag_string_buffer_size = 80"

definition jz_client_diagnostic_string :: "jz_client \<Rightarrow> unit res" where
  "jz_client_diagnostic_string C =
     bind_res (jz_iodir_short_name (cl_iodir C)) (\<lambda>iodir.
       if diag_string_length C iodir \<ge> diag_string_buffer_size then Inl Undefined else Inr ())"

section \<open>Operations that channels use\<close>

text \<open>
  Sending: the message is serialized and handed to one write. Whether that succeeds is only logged, and the code goes
  on in the same way when only a part was written; the record says what was handed over, not what went out.
\<close>

definition jz_client_send_msg :: "nat \<Rightarrow> jz_msg \<Rightarrow> jz_server \<Rightarrow> jz_server res" where
  "jz_client_send_msg i M s =
     bind_res (client_at s i) (\<lambda>C.
     bind_res (jz_msg_to_byte_array M) (\<lambda>b_array.
     bind_res (jz_client_diagnostic_string C) (\<lambda>_.
     bind_res (if jm_id M = JZ_MSG_DIAGNOSTIC then jz_diag_name (jm_diagnostic M) else Inr []) (\<lambda>_.
     Inr (s\<lparr>sv_out := sv_out s @ [(i, M)]\<rparr>)))))"

text \<open>Building a message and sending it to a client.\<close>

definition jz_send_new :: "nat \<Rightarrow> jz_msg res \<Rightarrow> jz_server \<Rightarrow> jz_server res" where
  "jz_send_new i m s = bind_res m (\<lambda>msg. jz_client_send_msg i msg s)"

text \<open>The search goes through the list in order; clients without a name are passed over.\<close>

definition jz_client_list_find_client :: "jz_server \<Rightarrow> cstr \<Rightarrow> nat option" where
  "jz_client_list_find_client s address =
     List.find (\<lambda>i. cl_address (sv_clients s ! i) = Some address) [0..<length (sv_clients s)]"

definition jz_channel_new :: "nat \<Rightarrow> u16 \<Rightarrow> jz_channel" where
  "jz_channel_new client lcn = \<lparr>jc_lcn = lcn, jc_parent = client, jc_peer = None, jc_state = P1_READY,
     jc_client_ps = 0, jc_client_pr = 0, jc_peer_ps = 0, jc_peer_pr = 0, jc_window = 0,
     jc_throughput = 0, jc_packet = 0, jc_timer_type = TIMER_NONE, jc_timer_expiration_time = 0,
     jc_timer_count = 0\<rparr>"

text \<open>A new channel in the table of a client; the result is its address.\<close>

definition insert_channel :: "nat \<Rightarrow> u16 \<Rightarrow> jz_server \<Rightarrow> nat \<times> jz_server" where
  "insert_channel i lcn s =
     (sv_fresh s,
      modify_client i (\<lambda>C. C\<lparr>cl_channels := cl_channels C @ [(lcn, sv_fresh s)]\<rparr>)
        (s\<lparr>sv_heap := (sv_heap s)(sv_fresh s \<mapsto> jz_channel_new i lcn), sv_fresh := Suc (sv_fresh s)\<rparr>))"

text \<open>The loop over the channel numbers in use.\<close>

function low_lcn :: "(u16 \<times> nat) list \<Rightarrow> u16 \<Rightarrow> u16" where
  "low_lcn t lcn =
     (if lcn \<in> fst ` set t \<and> lcn < JZ_MSG_MAX_LCN then low_lcn t (lcn + 1) else lcn)"
  by pat_completeness auto
termination
proof (relation "measure (\<lambda>(t, lcn). 1024 - unat lcn)")
  fix t :: "(u16 \<times> nat) list" and lcn :: u16
  assume "lcn \<in> fst ` set t \<and> lcn < JZ_MSG_MAX_LCN"
  then have l: "unat lcn < 1024" by (simp add: JZ_MSG_MAX_LCN_def word_less_nat_alt)
  then have "unat (lcn + 1) = Suc (unat lcn)" by (simp add: unat_word_ariths)
  then show "((t, lcn + 1), t, lcn) \<in> measure (\<lambda>(t, lcn). 1024 - unat lcn)" using l by simp
qed simp

declare low_lcn.simps [simp del]

definition jz_client_reserve_low_channel :: "nat \<Rightarrow> jz_server \<Rightarrow> (nat option \<times> jz_server) res" where
  "jz_client_reserve_low_channel i s =
     bind_res (client_at s i) (\<lambda>C.
     let lcn = low_lcn (cl_channels C) 1 in
     if lcn < JZ_MSG_MAX_LCN then
       let key_is_new = lcn \<notin> fst ` set (cl_channels C); (ch, s') = insert_channel i lcn s in
       bind_res (client_at s' i) (\<lambda>C'.
       bind_res (jz_client_diagnostic_string C') (\<lambda>_.
       bind_res (c_assert key_is_new) (\<lambda>_. Inr (Some ch, s'))))
     else Inr (None, s))"

section \<open>Tables of channels\<close>

text \<open>
  The tables of the clients and the heap fit together: a channel number occurs once in a table, its
  entry points to a channel that was not freed, of that client and with that number, and addresses
  that were not handed out are free.
\<close>

definition table_entry_ok :: "(nat \<Rightarrow> jz_channel option) \<Rightarrow> nat \<Rightarrow> u16 \<times> nat \<Rightarrow> bool" where
  "table_entry_ok h i = (\<lambda>(lcn, x). case h x of None \<Rightarrow> False | Some X \<Rightarrow> jc_lcn X = lcn \<and> jc_parent X = i)"

definition tables_ok :: "jz_server \<Rightarrow> bool" where
  "tables_ok s \<longleftrightarrow>
     (\<forall>i < length (sv_clients s). distinct (map fst (cl_channels (sv_clients s ! i))) \<and>
        (\<forall>e \<in> set (cl_channels (sv_clients s ! i)). table_entry_ok (sv_heap s) i e)) \<and>
     (\<forall>x \<ge> sv_fresh s. sv_heap s x = None)"

text \<open>A visit of a hash table comes to every entry once.\<close>

definition order_ok :: "jz_server \<Rightarrow> bool" where
  "order_ok s \<longleftrightarrow> (\<forall>t. mset (sv_order s t) = mset t)"

text \<open>Entries depend on the number and the owner of a channel alone.\<close>

definition owner :: "jz_server \<Rightarrow> nat \<Rightarrow> (u16 \<times> nat) option" where
  "owner s x = map_option (\<lambda>X. (jc_lcn X, jc_parent X)) (sv_heap s x)"

lemma entry_ok_owner: "table_entry_ok (sv_heap s) i = (\<lambda>(lcn, x). owner s x = Some (lcn, i))"
  by (auto simp: table_entry_ok_def owner_def fun_eq_iff split: option.split)

lemma tables_ok_owner:
  "tables_ok s \<longleftrightarrow>
     (\<forall>i < length (sv_clients s). distinct (map fst (cl_channels (sv_clients s ! i))) \<and>
        (\<forall>(lcn, x) \<in> set (cl_channels (sv_clients s ! i)). owner s x = Some (lcn, i))) \<and>
     (\<forall>x \<ge> sv_fresh s. owner s x = None)"
  by (simp add: tables_ok_def entry_ok_owner) (simp add: owner_def)

lemma tables_ok_cong:
  assumes "tables_ok s" "owner s' = owner s" "sv_fresh s' = sv_fresh s"
    and "map cl_channels (sv_clients s') = map cl_channels (sv_clients s)"
  shows "tables_ok s'"
proof -
  have l: "length (sv_clients s') = length (sv_clients s)" using assms(4) by (rule map_eq_imp_length_eq)
  have "cl_channels (sv_clients s' ! i) = cl_channels (sv_clients s ! i)" if "i < length (sv_clients s)" for i
    using arg_cong [OF assms(4), of "\<lambda>xs. xs ! i"] that l by simp
  then show ?thesis using assms(1) by (simp add: tables_ok_owner assms(2,3) l)
qed

section \<open>Frames\<close>

text \<open>
  What the operations of channels leave alone: everything about the clients but their tables, the
  number and the owner of the channels there are, and that the tables and the heap fit together.
\<close>

definition outline :: "jz_server \<Rightarrow> jz_client list" where
  "outline s = map (\<lambda>C. C\<lparr>cl_channels := []\<rparr>) (sv_clients s)"

type_synonym jz_frame = "jz_client list \<times> (nat \<rightharpoonup> u16 \<times> nat)"

definition stays :: "jz_frame \<Rightarrow> jz_server \<Rightarrow> bool" where
  "stays n s \<longleftrightarrow> outline s = fst n \<and> snd n \<subseteq>\<^sub>m owner s \<and> order_ok s \<and> tables_ok s"

text \<open>A computation whose result, if it has one, satisfies a predicate.\<close>

definition ensures :: "('a \<Rightarrow> bool) \<Rightarrow> 'a res \<Rightarrow> bool" where
  "ensures P r \<longleftrightarrow> (\<forall>s. r = Inr s \<longrightarrow> P s)"

named_theorems ensures_intros \<open>operations that keep a predicate on servers\<close>

lemma ensures_Inl [ensures_intros]: "ensures P (Inl e)"
  by (simp add: ensures_def)

lemma ensures_Inr [ensures_intros]: "P s \<Longrightarrow> ensures P (Inr s)"
  by (simp add: ensures_def)

lemma ensures_bind: "ensures P r \<Longrightarrow> (\<And>s. P s \<Longrightarrow> ensures Q (f s)) \<Longrightarrow> ensures Q (bind_res r f)"
  by (cases r) (auto simp: ensures_def)

lemma ensures_value: "(\<And>a. r = Inr a \<Longrightarrow> ensures P (f a)) \<Longrightarrow> ensures P (bind_res r f)"
  by (cases r) (auto simp: ensures_def)

lemmas ensures_server = ensures_bind [where P = P and Q = P for P :: "jz_server \<Rightarrow> bool"]

text \<open>Values that are no servers: the predicate holds whatever they are.\<close>

lemmas ensures_values = ensures_value [where 'a = jz_channel] ensures_value [where 'a = jz_client]
  ensures_value [where 'a = jz_msg] ensures_value [where 'a = bytes] ensures_value [where 'a = string]
  ensures_value [where 'a = unit] ensures_value [where 'a = nat] ensures_value [where 'a = bool]
  ensures_value [where 'a = "byte option"]

declare ensures_values [ensures_intros] ensures_server [ensures_intros]

abbreviation kept :: "jz_frame \<Rightarrow> jz_server res \<Rightarrow> bool" where
  "kept n \<equiv> ensures (stays n)"

lemma outline_simps [simp]:
  "outline (s\<lparr>sv_heap := h\<rparr>) = outline s" "outline (s\<lparr>sv_out := q\<rparr>) = outline s"
  "outline (s\<lparr>sv_tick := t\<rparr>) = outline s" "outline (s\<lparr>sv_fresh := k\<rparr>) = outline s"
  by (simp_all add: outline_def)

lemma tables_ok_simps [simp]:
  "tables_ok (s\<lparr>sv_out := q\<rparr>) = tables_ok s" "tables_ok (s\<lparr>sv_tick := t\<rparr>) = tables_ok s"
  by (simp_all add: tables_ok_def)

lemma owner_simps [simp]:
  "owner (s\<lparr>sv_out := q\<rparr>) = owner s" "owner (s\<lparr>sv_tick := t\<rparr>) = owner s"
  by (simp_all add: owner_def fun_eq_iff)

lemma order_ok_simps [simp]:
  "order_ok (s\<lparr>sv_heap := h\<rparr>) = order_ok s" "order_ok (s\<lparr>sv_out := q\<rparr>) = order_ok s"
  "order_ok (s\<lparr>sv_tick := t\<rparr>) = order_ok s" "order_ok (s\<lparr>sv_fresh := k\<rparr>) = order_ok s"
  "order_ok (modify_client i f s) = order_ok s" "order_ok (snd (insert_channel i lcn s)) = order_ok s"
  by (simp_all add: order_ok_def modify_client_def insert_channel_def)

lemma stays_simps [simp]:
  "stays n (s\<lparr>sv_out := q\<rparr>) = stays n s" "stays n (s\<lparr>sv_tick := t\<rparr>) = stays n s"
  by (simp_all add: stays_def)

lemma outline_modify_channels:
  "outline (modify_client i (\<lambda>C. C\<lparr>cl_channels := g C\<rparr>) s) = outline s"
proof (cases "i < length (sv_clients s)")
  case True
  then show ?thesis
    by (auto simp: outline_def modify_client_def map_update intro!: list_update_same_conv [THEN iffD2])
next
  case False
  then show ?thesis by (simp add: outline_def modify_client_def list_update_beyond not_less)
qed

lemma stays_changed:
  assumes "stays n s" "sv_heap s x = Some X" "jc_lcn X' = jc_lcn X" "jc_parent X' = jc_parent X"
  shows "stays n (s\<lparr>sv_heap := (sv_heap s)(x \<mapsto> X')\<rparr>)"
proof -
  have "owner (s\<lparr>sv_heap := (sv_heap s)(x \<mapsto> X')\<rparr>) = owner s"
    using assms(2-4) by (auto simp: owner_def fun_eq_iff)
  then show ?thesis using assms(1) by (auto simp: stays_def intro: tables_ok_cong [of s])
qed

text \<open>Adding a channel under a number that is free.\<close>

lemma stays_insert_channel:
  assumes "stays n s" "i < length (sv_clients s)" "lcn \<notin> fst ` set (cl_channels (sv_clients s ! i))"
  shows "stays n (snd (insert_channel i lcn s))"
proof -
  let ?s = "snd (insert_channel i lcn s)"
  have old: "tables_ok s" using assms(1) by (simp add: stays_def)
  then have free: "owner s (sv_fresh s) = None" by (simp add: tables_ok_owner)
  have owner: "owner ?s = (owner s)(sv_fresh s \<mapsto> (lcn, i))"
    by (auto simp: owner_def fun_eq_iff insert_channel_def modify_client_def jz_channel_new_def)
  have "distinct (map fst (cl_channels (sv_clients ?s ! j)))" if "j < length (sv_clients s)" for j
    using old that assms(2,3)
    by (auto simp: tables_ok_def insert_channel_def modify_client_def nth_list_update)
  moreover have "owner ?s x = Some (l, j)"
    if "j < length (sv_clients s)" "(l, x) \<in> set (cl_channels (sv_clients ?s ! j))" for j l x
  proof (cases "(l, x) \<in> set (cl_channels (sv_clients s ! j))")
    case True
    then have "owner s x = Some (l, j)" using old that(1) by (auto simp: tables_ok_owner)
    then show ?thesis using free by (auto simp: owner)
  next
    case False
    then have "j = i \<and> l = lcn \<and> x = sv_fresh s"
      using that assms(2) by (auto simp: insert_channel_def modify_client_def nth_list_update split: if_splits)
    then show ?thesis by (simp add: owner)
  qed
  moreover have "owner ?s x = None" if "x \<ge> Suc (sv_fresh s)" for x
    using old that by (simp add: tables_ok_owner owner)
  ultimately have "tables_ok ?s"
    by (auto simp: tables_ok_owner) (auto simp: insert_channel_def modify_client_def)
  moreover have "snd n \<subseteq>\<^sub>m owner ?s"
    using assms(1) free by (auto simp: stays_def owner map_le_def dom_def)
  moreover have "outline ?s = outline s" by (simp add: insert_channel_def outline_modify_channels)
  ultimately show ?thesis using assms(1) by (simp add: stays_def)
qed

lemma stays_reserve:
  assumes "jz_client_reserve_low_channel i s = Inr (y, s')" "stays n s"
  shows "stays n s'"
  using assms stays_insert_channel [OF assms(2), of i "low_lcn (cl_channels (sv_clients s ! i)) 1"]
  by (auto simp: jz_client_reserve_low_channel_def bind_res_Inr client_at_def Let_def c_assert_def
      split: if_splits prod.splits)

end
