(* ===== verification/Jz_Channel.thy ===== *)
theory Jz_Channel
  imports Jz_Server
begin

text \<open>
  The logical channels of the application server, \<^verbatim>\<open>application10/channel.c\<close>: the handlers of the
  messages that a client sends on a channel, one per state; the handlers of the messages that the
  server passes on from the other end or sends itself; the timers. Every handler maps the server to
  the server after it, or to the fault that stops the program.
\<close>

section \<open>Shared steps\<close>

text \<open>
  The arguments of the trace output in \<^verbatim>\<open>jz_channel_dump\<close> and in the two punishments: the names of
  the client and of the client at the other end.
\<close>

definition client_address :: "jz_server \<Rightarrow> nat \<Rightarrow> cstr res" where
  "client_address s i = bind_res (client_at s i) (\<lambda>C.
     case cl_address C of None \<Rightarrow> Inl Undefined | Some a \<Rightarrow> Inr a)"

definition jz_channel_dump :: "nat \<Rightarrow> jz_server \<Rightarrow> jz_server res" where
  "jz_channel_dump x s =
     bind_res (channel_at s x) (\<lambda>C.
     bind_res (client_address s (jc_parent C)) (\<lambda>_.
     case jc_peer C of
       None \<Rightarrow> Inr s
     | Some y \<Rightarrow> bind_res (channel_at s y) (\<lambda>Y. bind_res (client_address s (jc_parent Y)) (\<lambda>_. Inr s))))"

text \<open>\<^verbatim>\<open>g_memdup (msg->data->data, msg->data->len)\<close>\<close>

definition copy_data :: "jz_msg \<Rightarrow> bytes res" where
  "copy_data msg = (case jm_data msg of None \<Rightarrow> Inl Undefined | Some d \<Rightarrow> Inr d)"

definition jz_channel_timer_reset :: "jz_channel \<Rightarrow> jz_channel" where
  "jz_channel_timer_reset X = X\<lparr>jc_timer_type := TIMER_NONE, jc_timer_expiration_time := 0, jc_timer_count := 0\<rparr>"

definition jz_channel_reset_flow_control :: "jz_channel \<Rightarrow> jz_channel" where
  "jz_channel_reset_flow_control X = X\<lparr>jc_peer_ps := 0, jc_peer_pr := 0, jc_client_ps := 0,
     jc_client_pr := 0, jc_state := D1_FLOW_CONTROL_READY\<rparr>"

text \<open>Starting a timer keeps the count when the same timer was running.\<close>

definition start_timer :: "JzChannelTimerType \<Rightarrow> int \<Rightarrow> int \<Rightarrow> jz_channel \<Rightarrow> jz_channel" where
  "start_timer t seconds now X =
     (if jc_timer_type X \<noteq> t then X\<lparr>jc_timer_count := 0\<rparr> else X)
       \<lparr>jc_timer_type := t, jc_timer_expiration_time := now + seconds * G_USEC_PER_SEC\<rparr>"

text \<open>\<^verbatim>\<open>(pr + window - 1) % SEQ_MAX\<close> is computed with \<^verbatim>\<open>int\<close>; the remainder keeps the sign.\<close>

definition jz_window_top :: "u16 \<Rightarrow> u16 \<Rightarrow> u16" where
  "jz_window_top pr window = of_int ((uint pr + uint window - 1) smod uint SEQ_MAX)"

definition jz_next_ps :: "u16 \<Rightarrow> u16" where
  "jz_next_ps ps = of_int ((uint ps + 1) smod uint SEQ_MAX)"

section \<open>Messages from the server\<close>

definition jz_channel_do_server_clear_indication :: "nat \<Rightarrow> jz_msg \<Rightarrow> jz_server \<Rightarrow> jz_server res" where
  "jz_channel_do_server_clear_indication x msg s =
     bind_res (channel_at s x) (\<lambda>X.
     let (now, s) = read_clock s in
     bind_res (modify_channel x (\<lambda>X. start_timer TIMER_CLEAR_INDICATION
         TIMER_CLEAR_INDICATION_DURATION_IN_SECONDS now
         (X\<lparr>jc_state := P7_SERVER_CLEAR_INDICATION, jc_peer := None\<rparr>)) s) (\<lambda>s.
     jz_send_new (jc_parent X) (jz_msg_new_clear_request (jm_lcn msg) (jm_cause msg) (jm_diagnostic msg)) s))"

definition jz_channel_do_server_incoming_call :: "nat \<Rightarrow> jz_msg \<Rightarrow> jz_server \<Rightarrow> jz_server res" where
  "jz_channel_do_server_incoming_call x msg s =
     bind_res (channel_at s x) (\<lambda>X.
     let (now, s) = read_clock s in
     bind_res (modify_channel x (\<lambda>X. start_timer TIMER_INCOMING_CALL
         TIMER_INCOMING_CALL_DURATION_IN_SECONDS now
         (X\<lparr>jc_state := P3_SERVER_WAITING, jc_window := jm_window msg,
            jc_throughput := jm_throughput msg, jc_packet := jm_packet msg\<rparr>)) s) (\<lambda>s.
     bind_res (copy_data msg) (\<lambda>data.
     jz_send_new (jc_parent X) (jz_msg_new_call_request (jm_lcn msg) (jm_calling_address msg)
       (jm_called_address msg) (jm_packet msg) (jm_window msg) (jm_throughput msg) data) s)))"

definition jz_channel_do_server_call_collision :: "nat \<Rightarrow> jz_msg \<Rightarrow> jz_server \<Rightarrow> jz_server res" where
  "jz_channel_do_server_call_collision x msg s = modify_channel x (\<lambda>X. X\<lparr>jc_state := P5_CALL_COLLISION\<rparr>) s"

definition jz_channel_do_server_call_connected :: "nat \<Rightarrow> jz_msg \<Rightarrow> jz_server \<Rightarrow> jz_server res" where
  "jz_channel_do_server_call_connected x msg s =
     bind_res (channel_at s x) (\<lambda>X.
     bind_res (modify_channel x (\<lambda>X. (jz_channel_reset_flow_control X)\<lparr>jc_window := jm_window msg,
         jc_throughput := jm_throughput msg, jc_packet := jm_packet msg\<rparr>) s) (\<lambda>s.
     bind_res (copy_data msg) (\<lambda>data.
     jz_send_new (jc_parent X) (jz_msg_new_call_accepted (jm_lcn msg) (jm_calling_address msg)
       (jm_called_address msg) (jm_packet msg) (jm_window msg) (jm_throughput msg) data) s)))"

definition jz_channel_do_server_clear_confirmation :: "nat \<Rightarrow> jz_msg \<Rightarrow> jz_server \<Rightarrow> jz_server res" where
  "jz_channel_do_server_clear_confirmation x msg s =
     bind_res (channel_at s x) (\<lambda>X.
     bind_res (modify_channel x (\<lambda>X. X\<lparr>jc_state := D1_FLOW_CONTROL_READY\<rparr>) s) (\<lambda>s.
     jz_send_new (jc_parent X) (jz_msg_new_clear_confirmation (jm_lcn msg)) s))"

definition jz_channel_do_server_reset_indication :: "nat \<Rightarrow> jz_msg \<Rightarrow> jz_server \<Rightarrow> jz_server res" where
  "jz_channel_do_server_reset_indication x msg s =
     bind_res (channel_at s x) (\<lambda>X.
     let (now, s) = read_clock s in
     bind_res (modify_channel x (\<lambda>X. start_timer TIMER_RESET_INDICATION
         TIMER_RESET_INDICATION_DURATION_IN_SECONDS now
         (X\<lparr>jc_state := D3_SERVER_RESET_INDICATION\<rparr>)) s) (\<lambda>s.
     jz_send_new (jc_parent X) (jz_msg_new_reset_request (jm_lcn msg) (jm_cause msg) (jm_diagnostic msg)) s))"

definition jz_channel_do_server_reset_confirmation :: "nat \<Rightarrow> jz_msg \<Rightarrow> jz_server \<Rightarrow> jz_server res" where
  "jz_channel_do_server_reset_confirmation x msg s =
     bind_res (channel_at s x) (\<lambda>X.
     bind_res (modify_channel x jz_channel_reset_flow_control s) (\<lambda>s.
     jz_send_new (jc_parent X) (jz_msg_new_reset_confirmation (jm_lcn msg)) s))"

definition jz_channel_do_server_rr :: "nat \<Rightarrow> jz_msg \<Rightarrow> jz_server \<Rightarrow> jz_server res" where
  "jz_channel_do_server_rr x msg s =
     bind_res (channel_at s x) (\<lambda>X.
     bind_res (c_assert (seq_in_range (jm_pr msg) (jc_peer_pr X) (jc_client_ps X))) (\<lambda>_.
     bind_res (modify_channel x (\<lambda>X. X\<lparr>jc_peer_pr := jm_pr msg\<rparr>) s) (\<lambda>s.
     jz_send_new (jc_parent X) (jz_msg_new_rr (jm_lcn msg) (jm_pr msg)) s)))"

definition jz_channel_do_server_rnr :: "nat \<Rightarrow> jz_msg \<Rightarrow> jz_server \<Rightarrow> jz_server res" where
  "jz_channel_do_server_rnr x msg s =
     bind_res (channel_at s x) (\<lambda>X.
     bind_res (c_assert (seq_in_range (jm_pr msg) (jc_peer_pr X) (jc_client_ps X))) (\<lambda>_.
     bind_res (modify_channel x (\<lambda>X. X\<lparr>jc_peer_pr := jm_pr msg\<rparr>) s) (\<lambda>s.
     jz_send_new (jc_parent X) (jz_msg_new_rnr (jm_lcn msg) (jm_pr msg)) s)))"

definition jz_channel_do_server_data :: "nat \<Rightarrow> jz_msg \<Rightarrow> jz_server \<Rightarrow> jz_server res" where
  "jz_channel_do_server_data x msg s =
     bind_res (channel_at s x) (\<lambda>X.
     bind_res (copy_data msg) (\<lambda>data.
     bind_res (packet_bytes (jc_packet X)) (\<lambda>size.
     bind_res (c_assert (length data \<le> size)) (\<lambda>_.
     bind_res (c_assert (length data \<noteq> 0)) (\<lambda>_.
     bind_res (c_assert (seq_in_range (jm_ps msg) (jc_peer_pr X)
         (jz_window_top (jc_peer_pr X) (jc_window X)))) (\<lambda>_.
     bind_res (modify_channel x (\<lambda>X. X\<lparr>jc_peer_pr := jm_pr msg, jc_peer_ps := jm_ps msg\<rparr>) s) (\<lambda>s.
     jz_send_new (jc_parent X) (jz_msg_new_data (jm_lcn msg) (jm_q msg) (jm_pr msg) (jm_ps msg) data) s)))))))"

text \<open>The handlers by state.\<close>

definition jz_channel_process_server_message_in_P1_ready_state ::
  "nat \<Rightarrow> jz_msg \<Rightarrow> jz_server \<Rightarrow> jz_server res" where
  "jz_channel_process_server_message_in_P1_ready_state x msg =
     (if jm_id msg = JZ_MSG_CLEAR_REQUEST then jz_channel_do_server_clear_indication x msg
      else if jm_id msg = JZ_MSG_CALL_REQUEST then jz_channel_do_server_incoming_call x msg
      else Inr)"

definition jz_channel_process_server_message_in_P2_client_waiting_state ::
  "nat \<Rightarrow> jz_msg \<Rightarrow> jz_server \<Rightarrow> jz_server res" where
  "jz_channel_process_server_message_in_P2_client_waiting_state x msg =
     (if jm_id msg = JZ_MSG_CLEAR_REQUEST then jz_channel_do_server_clear_indication x msg
      else if jm_id msg = JZ_MSG_CALL_REQUEST then jz_channel_do_server_call_collision x msg
      else if jm_id msg = JZ_MSG_CALL_ACCEPTED then jz_channel_do_server_call_connected x msg
      else Inr)"

definition jz_channel_process_server_message_in_P3_server_waiting_state ::
  "nat \<Rightarrow> jz_msg \<Rightarrow> jz_server \<Rightarrow> jz_server res" where
  "jz_channel_process_server_message_in_P3_server_waiting_state x msg =
     (if jm_id msg = JZ_MSG_CLEAR_REQUEST then jz_channel_do_server_clear_indication x msg else Inr)"

definition jz_channel_process_server_message_in_D1_flow_control_ready_state ::
  "nat \<Rightarrow> jz_msg \<Rightarrow> jz_server \<Rightarrow> jz_server res" where
  "jz_channel_process_server_message_in_D1_flow_control_ready_state x msg =
     (if jm_id msg = JZ_MSG_CLEAR_REQUEST then jz_channel_do_server_clear_indication x msg
      else if jm_id msg = JZ_MSG_RESET_REQUEST then jz_channel_do_server_reset_indication x msg
      else if jm_id msg = JZ_MSG_DATA then jz_channel_do_server_data x msg
      else if jm_id msg = JZ_MSG_RR then jz_channel_do_server_rr x msg
      else if jm_id msg = JZ_MSG_RNR then jz_channel_do_server_rnr x msg
      else Inr)"

definition jz_channel_process_server_message_in_D2_client_reset_request_state ::
  "nat \<Rightarrow> jz_msg \<Rightarrow> jz_server \<Rightarrow> jz_server res" where
  "jz_channel_process_server_message_in_D2_client_reset_request_state x msg =
     (if jm_id msg = JZ_MSG_CLEAR_REQUEST then jz_channel_do_server_clear_indication x msg
      else if jm_id msg = JZ_MSG_RESET_REQUEST \<or> jm_id msg = JZ_MSG_RESET_CONFIRMATION
      then jz_channel_do_server_reset_confirmation x msg
      else Inr)"

definition jz_channel_process_server_message_in_D3_server_reset_indication_state ::
  "nat \<Rightarrow> jz_msg \<Rightarrow> jz_server \<Rightarrow> jz_server res" where
  "jz_channel_process_server_message_in_D3_server_reset_indication_state x msg =
     (if jm_id msg = JZ_MSG_CLEAR_REQUEST then jz_channel_do_server_clear_indication x msg else Inr)"

definition jz_channel_process_server_message_in_P5_call_collision_state ::
  "nat \<Rightarrow> jz_msg \<Rightarrow> jz_server \<Rightarrow> jz_server res" where
  "jz_channel_process_server_message_in_P5_call_collision_state x msg =
     (if jm_id msg = JZ_MSG_CLEAR_REQUEST then jz_channel_do_server_clear_indication x msg
      else if jm_id msg = JZ_MSG_CALL_ACCEPTED then jz_channel_do_server_call_connected x msg
      else Inr)"

definition jz_channel_process_server_message_in_P6_client_clear_request_state ::
  "nat \<Rightarrow> jz_msg \<Rightarrow> jz_server \<Rightarrow> jz_server res" where
  "jz_channel_process_server_message_in_P6_client_clear_request_state x msg =
     (if jm_id msg = JZ_MSG_CLEAR_REQUEST \<or> jm_id msg = JZ_MSG_CLEAR_CONFIRMATION
      then jz_channel_do_server_clear_confirmation x msg else Inr)"

definition jz_channel_process_server_message_in_P7_server_clear_indication_state ::
  "nat \<Rightarrow> jz_msg \<Rightarrow> jz_server \<Rightarrow> jz_server res" where
  "jz_channel_process_server_message_in_P7_server_clear_indication_state x msg = Inr"

definition jz_channel_process_server_message :: "nat \<Rightarrow> jz_msg \<Rightarrow> jz_server \<Rightarrow> jz_server res" where
  "jz_channel_process_server_message x msg s =
     bind_res (channel_at s x) (\<lambda>C.
     bind_res ((case jc_state C of
         P1_READY \<Rightarrow> jz_channel_process_server_message_in_P1_ready_state x msg
       | P2_CLIENT_WAITING \<Rightarrow> jz_channel_process_server_message_in_P2_client_waiting_state x msg
       | P3_SERVER_WAITING \<Rightarrow> jz_channel_process_server_message_in_P3_server_waiting_state x msg
       | D1_FLOW_CONTROL_READY \<Rightarrow> jz_channel_process_server_message_in_D1_flow_control_ready_state x msg
       | D2_CLIENT_RESET_REQUEST \<Rightarrow> jz_channel_process_server_message_in_D2_client_reset_request_state x msg
       | D3_SERVER_RESET_INDICATION \<Rightarrow> jz_channel_process_server_message_in_D3_server_reset_indication_state x msg
       | P5_CALL_COLLISION \<Rightarrow> jz_channel_process_server_message_in_P5_call_collision_state x msg
       | P6_CLIENT_CLEAR_REQUEST \<Rightarrow> jz_channel_process_server_message_in_P6_client_clear_request_state x msg
       | P7_SERVER_CLEAR_INDICATION \<Rightarrow> jz_channel_process_server_message_in_P7_server_clear_indication_state x msg) s)
     (jz_channel_dump x))"

text \<open>Building a message and passing it to a channel.\<close>

definition jz_pass_new :: "nat \<Rightarrow> jz_msg res \<Rightarrow> jz_server \<Rightarrow> jz_server res" where
  "jz_pass_new y m s = bind_res m (\<lambda>msg. jz_channel_process_server_message y msg s)"

section \<open>Punishments\<close>

definition jz_channel_do_punishment_clear_request :: "nat \<Rightarrow> byte \<Rightarrow> byte \<Rightarrow> jz_server \<Rightarrow> jz_server res" where
  "jz_channel_do_punishment_clear_request x cause diagnostic s =
     bind_res (jz_channel_dump x s) (\<lambda>_.
     bind_res (jz_diag_name diagnostic) (\<lambda>_.
     bind_res (channel_at s x) (\<lambda>X.
     let peer = jc_peer X in
     bind_res (jz_pass_new x (jz_msg_new_clear_request (jc_lcn X) cause diagnostic) s) (\<lambda>s.
     case peer of
       None \<Rightarrow> Inr s
     | Some y \<Rightarrow>
       bind_res (modify_channel y (\<lambda>Y. Y\<lparr>jc_peer := None\<rparr>) s) (\<lambda>s.
       bind_res (channel_at s y) (\<lambda>Y.
       let cause = (if cause = c_clear__local_procedure_error then c_clear__remote_procedure_error else cause) in
       jz_pass_new y (jz_msg_new_clear_request (jc_lcn Y) cause diagnostic) s))))))"

definition jz_channel_do_punishment_reset_request :: "nat \<Rightarrow> byte \<Rightarrow> byte \<Rightarrow> jz_server \<Rightarrow> jz_server res" where
  "jz_channel_do_punishment_reset_request x cause diagnostic s =
     bind_res (jz_channel_dump x s) (\<lambda>_.
     bind_res (jz_diag_name diagnostic) (\<lambda>_.
     bind_res (channel_at s x) (\<lambda>X.
     let peer = jc_peer X in
     bind_res (jz_pass_new x (jz_msg_new_reset_request (jc_lcn X) cause diagnostic) s) (\<lambda>s.
     case peer of
       None \<Rightarrow> Inr s
     | Some y \<Rightarrow>
       bind_res (channel_at s y) (\<lambda>Y.
       let cause = (if cause = c_reset__local_procedure_error then c_reset__remote_procedure_error else cause) in
       jz_pass_new y (jz_msg_new_reset_request (jc_lcn Y) cause diagnostic) s)))))"

section \<open>Messages from the client\<close>

text \<open>The facilities of a call request, checked in this order; the diagnostic of the first that fails.\<close>

definition call_request_refusal :: "jz_client \<Rightarrow> jz_msg \<Rightarrow> (byte \<times> byte) option" where
  "call_request_refusal parent msg =
     (if cl_iodir parent = jz_io_outgoing_calls_barred \<or> cl_iodir parent = jz_io_calls_barred
      then Some (c_clear__local_procedure_error, jz_d_outgoing_calls_barred)
      else if seq_rngchk (jm_window msg) \<noteq> 0
      then Some (c_clear__local_procedure_error, jz_d_invalid_window_facility)
      else if tput_rngchk (jm_throughput msg) \<noteq> 0
      then Some (c_clear__local_procedure_error, jz_d_invalid_throughput_facility)
      else if packet_rngchk (jm_packet msg) \<noteq> 0
      then Some (c_clear__local_procedure_error, jz_d_invalid_packet_facility)
      else None)"

text \<open>
  The request is passed to the new channel as it came from the caller, with the caller's channel
  number; the copy with the number of the new channel is built and dropped.
\<close>

definition connect_call :: "nat \<Rightarrow> nat \<Rightarrow> jz_msg \<Rightarrow> jz_server \<Rightarrow> jz_server res" where
  "connect_call x y msg s =
     bind_res (modify_channel x (\<lambda>X. X\<lparr>jc_peer := Some y\<rparr>) s) (\<lambda>s.
     bind_res (modify_channel y (\<lambda>Y. Y\<lparr>jc_peer := Some x\<rparr>) s) (\<lambda>s.
     bind_res (modify_channel x (\<lambda>X. X\<lparr>jc_window := jm_window msg, jc_throughput := jm_throughput msg,
       jc_packet := jm_packet msg\<rparr>) s) (\<lambda>s.
     bind_res (channel_at s y) (\<lambda>Y.
     bind_res (copy_data msg) (\<lambda>data.
     bind_res (jz_msg_new_call_request (jc_lcn Y) (jm_calling_address msg) (jm_called_address msg)
       (jm_packet msg) (jm_window msg) (jm_throughput msg) data) (\<lambda>msg2.
     bind_res (jz_channel_process_server_message y msg s) (\<lambda>s.
     modify_channel x (\<lambda>X. X\<lparr>jc_state := P2_CLIENT_WAITING\<rparr>) s)))))))"

definition jz_channel_do_client_call_request :: "nat \<Rightarrow> jz_msg \<Rightarrow> jz_server \<Rightarrow> jz_server res" where
  "jz_channel_do_client_call_request x msg s =
     bind_res (channel_at s x) (\<lambda>X.
     bind_res (client_at s (jc_parent X)) (\<lambda>parent.
     case call_request_refusal parent msg of
       Some (cause, diagnostic) \<Rightarrow> jz_channel_do_punishment_clear_request x cause diagnostic s
     | None \<Rightarrow>
       (case jm_called_address msg of None \<Rightarrow> Inl Undefined | Some called_address \<Rightarrow>
        case jz_client_list_find_client s called_address of
          None \<Rightarrow> jz_channel_do_punishment_clear_request x c_clear__not_obtainable jz_d_invalid_called_address s
        | Some peer \<Rightarrow>
          bind_res (client_at s peer) (\<lambda>callee.
          if cl_iodir callee = jz_io_incoming_calls_barred \<or> cl_iodir callee = jz_io_calls_barred
          then jz_channel_do_punishment_clear_request x c_clear__access_barred jz_d_input_barred s
          else bind_res (jz_client_reserve_low_channel peer s) (\<lambda>(channel, s).
            case channel of
              None \<Rightarrow> jz_channel_do_punishment_clear_request x c_clear__number_busy
                jz_d_no_logical_channel_available s
            | Some y \<Rightarrow> connect_call x y msg s)))))"

definition call_accepted_refusal :: "jz_channel \<Rightarrow> jz_msg \<Rightarrow> byte option res" where
  "call_accepted_refusal X msg =
     bind_res (window_negotiate (jm_window msg) (jc_window X)) (\<lambda>window_ok.
     if \<not> window_ok then Inr (Some jz_d_invalid_window_facility_negotiation)
     else bind_res (tput_negotiate (jm_throughput msg) (jc_throughput X)) (\<lambda>tput_ok.
     if \<not> tput_ok then Inr (Some jz_d_invalid_throughput_facility_negotiation)
     else bind_res (packet_negotiate (jm_packet msg) (jc_packet X)) (\<lambda>packet_ok.
     if \<not> packet_ok then Inr (Some jz_d_invalid_packet_facility_negotiation)
     else Inr None)))"

text \<open>Passing a call message on to the other end, with its channel number.\<close>

definition forward_call ::
  "(u16 \<Rightarrow> cstr option \<Rightarrow> cstr option \<Rightarrow> packet_t \<Rightarrow> u16 \<Rightarrow> tput_t \<Rightarrow> bytes \<Rightarrow> jz_msg res) \<Rightarrow>
   nat \<Rightarrow> jz_msg \<Rightarrow> jz_server \<Rightarrow> jz_server res" where
  "forward_call new x msg s =
     bind_res (modify_channel x (\<lambda>X. X\<lparr>jc_window := jm_window msg, jc_throughput := jm_throughput msg,
       jc_packet := jm_packet msg\<rparr>) s) (\<lambda>s.
     bind_res (channel_at s x) (\<lambda>X.
     bind_res (c_assert (jc_peer X \<noteq> None)) (\<lambda>_.
     let y = the (jc_peer X) in
     bind_res (channel_at s y) (\<lambda>Y.
     bind_res (copy_data msg) (\<lambda>data.
     jz_pass_new y (new (jc_lcn Y) (jm_calling_address msg) (jm_called_address msg) (jm_packet msg)
       (jm_window msg) (jm_throughput msg) data) s)))))"

definition jz_channel_do_client_call_accepted :: "nat \<Rightarrow> jz_msg \<Rightarrow> jz_server \<Rightarrow> jz_server res" where
  "jz_channel_do_client_call_accepted x msg s =
     bind_res (channel_at s x) (\<lambda>X.
     bind_res (call_accepted_refusal X msg) (\<lambda>refusal.
     case refusal of
       Some diagnostic \<Rightarrow> jz_channel_do_punishment_clear_request x c_clear__local_procedure_error diagnostic s
     | None \<Rightarrow>
       bind_res (forward_call jz_msg_new_call_accepted x msg s) (\<lambda>s.
       modify_channel x jz_channel_reset_flow_control s)))"

definition jz_channel_do_client_call_collision :: "nat \<Rightarrow> jz_msg \<Rightarrow> jz_server \<Rightarrow> jz_server res" where
  "jz_channel_do_client_call_collision x msg s =
     bind_res (forward_call jz_msg_new_call_request x msg s) (\<lambda>s.
     modify_channel x (\<lambda>X. X\<lparr>jc_state := P5_CALL_COLLISION\<rparr>) s)"

text \<open>To the other end, if there is one.\<close>

definition to_peer :: "nat \<Rightarrow> (jz_channel \<Rightarrow> jz_msg res) \<Rightarrow> jz_server \<Rightarrow> jz_server res" where
  "to_peer x new s =
     bind_res (channel_at s x) (\<lambda>X.
     case jc_peer X of
       None \<Rightarrow> Inr s
     | Some y \<Rightarrow> bind_res (channel_at s y) (\<lambda>Y. jz_pass_new y (new Y) s))"

definition jz_channel_do_client_clear_request :: "nat \<Rightarrow> jz_msg \<Rightarrow> jz_server \<Rightarrow> jz_server res" where
  "jz_channel_do_client_clear_request x msg s =
     bind_res (to_peer x (\<lambda>Y. jz_msg_new_clear_request (jc_lcn Y) (jm_cause msg) (jm_diagnostic msg)) s) (\<lambda>s.
     modify_channel x (\<lambda>X. X\<lparr>jc_state := P6_CLIENT_CLEAR_REQUEST\<rparr>) s)"

definition jz_channel_do_client_reset_request :: "nat \<Rightarrow> jz_msg \<Rightarrow> jz_server \<Rightarrow> jz_server res" where
  "jz_channel_do_client_reset_request x msg s =
     (if \<not> CAUSE_IS_CLIENT_ORIGINATED (jm_cause msg) then
        jz_channel_do_punishment_reset_request x c_reset__local_procedure_error
          jz_d_improper_cause_code_from_client s
      else
        bind_res (modify_channel x (\<lambda>X. X\<lparr>jc_state := D2_CLIENT_RESET_REQUEST\<rparr>) s)
        (to_peer x (\<lambda>Y. jz_msg_new_reset_request (jc_lcn Y) (jm_cause msg) (jm_diagnostic msg))))"

definition jz_channel_do_client_reset_confirmation :: "nat \<Rightarrow> jz_msg \<Rightarrow> jz_server \<Rightarrow> jz_server res" where
  "jz_channel_do_client_reset_confirmation x msg s =
     bind_res (modify_channel x jz_channel_reset_flow_control s)
     (to_peer x (\<lambda>Y. jz_msg_new_reset_confirmation (jc_lcn Y)))"

text \<open>Nothing calls the next one.\<close>

definition jz_channel_do_client_reset_collision :: "nat \<Rightarrow> jz_msg \<Rightarrow> jz_server \<Rightarrow> jz_server res" where
  "jz_channel_do_client_reset_collision x msg s =
     bind_res (modify_channel x jz_channel_reset_flow_control s)
     (to_peer x (\<lambda>Y. jz_msg_new_reset_confirmation (jc_lcn Y)))"

text \<open>The checks of DATA; the diagnostic of the first that fails.\<close>

definition client_data_refusal :: "jz_channel \<Rightarrow> jz_msg \<Rightarrow> bytes \<Rightarrow> byte option res" where
  "client_data_refusal X msg data =
     bind_res (packet_bytes (jc_packet X)) (\<lambda>size.
     if length data \<ge> size then Inr (Some jz_d_packet_too_long)
     else if length data = 0 then Inr (Some jz_d_packet_too_short)
     else if jm_ps msg \<noteq> jc_client_ps X \<or>
       \<not> seq_in_range (jm_ps msg) (jc_peer_pr X) (jz_window_top (jc_peer_pr X) (jc_window X))
     then Inr (Some jz_d_invalid_ps)
     else if \<not> seq_in_range (jm_pr msg) (jc_client_pr X) (jc_peer_ps X)
     then Inr (Some jz_d_pr_invalid_window_update)
     else Inr None)"

definition jz_channel_do_client_data :: "nat \<Rightarrow> jz_msg \<Rightarrow> jz_server \<Rightarrow> jz_server res" where
  "jz_channel_do_client_data x msg s =
     bind_res (channel_at s x) (\<lambda>X.
     bind_res (copy_data msg) (\<lambda>data.
     bind_res (client_data_refusal X msg data) (\<lambda>refusal.
     case refusal of
       Some diag \<Rightarrow> jz_channel_do_punishment_reset_request x c_reset__local_procedure_error diag s
     | None \<Rightarrow>
       bind_res (modify_channel x (\<lambda>X. X\<lparr>jc_client_ps := jz_next_ps (jc_client_ps X),
         jc_client_pr := jm_pr msg\<rparr>) s)
       (to_peer x (\<lambda>Y. jz_msg_new_data (jc_lcn Y) (jm_q msg) (jm_pr msg) (jm_ps msg) data)))))"

text \<open>RR and RNR are passed on with the channel number of the sender.\<close>

definition jz_channel_do_client_rr :: "nat \<Rightarrow> jz_msg \<Rightarrow> jz_server \<Rightarrow> jz_server res" where
  "jz_channel_do_client_rr x msg s =
     bind_res (channel_at s x) (\<lambda>X.
     if \<not> seq_in_range (jm_pr msg) (jc_client_pr X) (jc_peer_ps X) then
       jz_channel_do_punishment_reset_request x c_reset__local_procedure_error jz_d_pr_invalid_window_update s
     else
       bind_res (modify_channel x (\<lambda>X. X\<lparr>jc_client_pr := jm_pr msg\<rparr>) s)
       (to_peer x (\<lambda>Y. jz_msg_new_rr (jm_lcn msg) (jm_pr msg))))"

definition jz_channel_do_client_rnr :: "nat \<Rightarrow> jz_msg \<Rightarrow> jz_server \<Rightarrow> jz_server res" where
  "jz_channel_do_client_rnr x msg s =
     bind_res (channel_at s x) (\<lambda>X.
     if \<not> seq_in_range (jm_pr msg) (jc_client_pr X) (jc_peer_ps X) then
       jz_channel_do_punishment_reset_request x c_reset__local_procedure_error jz_d_pr_invalid_window_update s
     else
       bind_res (modify_channel x (\<lambda>X. X\<lparr>jc_client_pr := jm_pr msg\<rparr>) s)
       (to_peer x (\<lambda>Y. jz_msg_new_rnr (jm_lcn msg) (jm_pr msg))))"

definition jz_channel_do_client_clear_confirmation :: "nat \<Rightarrow> jz_msg \<Rightarrow> jz_server \<Rightarrow> jz_server res" where
  "jz_channel_do_client_clear_confirmation x msg s = modify_channel x (\<lambda>X. X\<lparr>jc_state := P1_READY\<rparr>) s"

text \<open>The last step of the handlers that stop their timer when the state changed.\<close>

definition stop_timer :: "nat \<Rightarrow> channel_state_t \<Rightarrow> JzChannelTimerType \<Rightarrow> jz_server \<Rightarrow> jz_server res" where
  "stop_timer x original_state t s =
     bind_res (channel_at s x) (\<lambda>X.
     if jc_state X \<noteq> original_state \<and> jc_timer_type X = t then modify_channel x jz_channel_timer_reset s
     else Inr s)"

definition jz_channel_process_message_in_P1_ready_state :: "nat \<Rightarrow> jz_msg \<Rightarrow> jz_server \<Rightarrow> jz_server res" where
  "jz_channel_process_message_in_P1_ready_state x msg =
     (if jm_id msg = JZ_MSG_CLEAR_REQUEST then jz_channel_do_client_clear_request x msg
      else if jm_id msg = JZ_MSG_CALL_REQUEST then jz_channel_do_client_call_request x msg
      else jz_channel_do_punishment_clear_request x c_clear__local_procedure_error
        jz_d_invalid_message_for_state_ready)"

definition jz_channel_process_message_in_P2_client_waiting_state ::
  "nat \<Rightarrow> jz_msg \<Rightarrow> jz_server \<Rightarrow> jz_server res" where
  "jz_channel_process_message_in_P2_client_waiting_state x msg =
     (if jm_id msg = JZ_MSG_CLEAR_REQUEST then jz_channel_do_client_clear_request x msg
      else jz_channel_do_punishment_clear_request x c_clear__local_procedure_error
        jz_d_invalid_message_for_state_client_waiting)"

definition jz_channel_process_message_in_P3_server_waiting_state ::
  "nat \<Rightarrow> jz_msg \<Rightarrow> jz_server \<Rightarrow> jz_server res" where
  "jz_channel_process_message_in_P3_server_waiting_state x msg s =
     bind_res
       (if jm_id msg = JZ_MSG_CLEAR_REQUEST then jz_channel_do_client_clear_request x msg s
        else if jm_id msg = JZ_MSG_CALL_REQUEST then jz_channel_do_client_call_collision x msg s
        else if jm_id msg = JZ_MSG_CALL_ACCEPTED then jz_channel_do_client_call_accepted x msg s
        else jz_channel_do_punishment_clear_request x c_clear__local_procedure_error
          jz_d_invalid_message_for_state_server_waiting s)
     (stop_timer x P3_SERVER_WAITING TIMER_INCOMING_CALL)"

definition jz_channel_process_message_in_D1_flow_control_ready_state ::
  "nat \<Rightarrow> jz_msg \<Rightarrow> jz_server \<Rightarrow> jz_server res" where
  "jz_channel_process_message_in_D1_flow_control_ready_state x msg =
     (if jm_id msg = JZ_MSG_CLEAR_REQUEST then jz_channel_do_client_clear_request x msg
      else if jm_id msg = JZ_MSG_RESET_REQUEST then jz_channel_do_client_reset_request x msg
      else if jm_id msg = JZ_MSG_DATA then jz_channel_do_client_data x msg
      else if jm_id msg = JZ_MSG_RR then jz_channel_do_client_rr x msg
      else if jm_id msg = JZ_MSG_RNR then jz_channel_do_client_rnr x msg
      else jz_channel_do_punishment_reset_request x c_reset__local_procedure_error
        jz_d_invalid_message_for_state_flow_control_ready)"

definition jz_channel_process_message_in_D2_client_reset_request_state ::
  "nat \<Rightarrow> jz_msg \<Rightarrow> jz_server \<Rightarrow> jz_server res" where
  "jz_channel_process_message_in_D2_client_reset_request_state x msg =
     (if jm_id msg = JZ_MSG_CLEAR_REQUEST then jz_channel_do_client_clear_request x msg
      else if jm_id msg = JZ_MSG_RESET_REQUEST then Inr
      else jz_channel_do_punishment_reset_request x c_reset__local_procedure_error
        jz_d_invalid_message_for_state_client_reset_request)"

definition jz_channel_process_message_in_D3_server_reset_indication_state ::
  "nat \<Rightarrow> jz_msg \<Rightarrow> jz_server \<Rightarrow> jz_server res" where
  "jz_channel_process_message_in_D3_server_reset_indication_state x msg s =
     bind_res
       (if jm_id msg = JZ_MSG_CLEAR_REQUEST then jz_channel_do_client_clear_request x msg s
        else if jm_id msg = JZ_MSG_RESET_REQUEST \<or> jm_id msg = JZ_MSG_RESET_CONFIRMATION
        then jz_channel_do_client_reset_confirmation x msg s
        else Inr s)
     (stop_timer x D3_SERVER_RESET_INDICATION TIMER_RESET_INDICATION)"

definition jz_channel_process_message_in_P5_call_collision_state ::
  "nat \<Rightarrow> jz_msg \<Rightarrow> jz_server \<Rightarrow> jz_server res" where
  "jz_channel_process_message_in_P5_call_collision_state x msg =
     (if jm_id msg = JZ_MSG_CLEAR_REQUEST then jz_channel_do_client_clear_request x msg
      else jz_channel_do_punishment_clear_request x c_clear__local_procedure_error
        jz_d_invalid_message_for_state_call_collision)"

definition jz_channel_process_message_in_P6_client_clear_request_state ::
  "nat \<Rightarrow> jz_msg \<Rightarrow> jz_server \<Rightarrow> jz_server res" where
  "jz_channel_process_message_in_P6_client_clear_request_state x msg =
     (if jm_id msg = JZ_MSG_CLEAR_REQUEST then Inr
      else jz_channel_do_punishment_clear_request x c_clear__local_procedure_error
        jz_d_invalid_message_for_state_client_clear_request)"

definition jz_channel_process_message_in_P7_server_clear_indication_state ::
  "nat \<Rightarrow> jz_msg \<Rightarrow> jz_server \<Rightarrow> jz_server res" where
  "jz_channel_process_message_in_P7_server_clear_indication_state x msg s =
     bind_res
       (if jm_id msg = JZ_MSG_CLEAR_REQUEST \<or> jm_id msg = JZ_MSG_CLEAR_CONFIRMATION
        then jz_channel_do_client_clear_confirmation x msg s
        else Inr s)
     (stop_timer x P7_SERVER_CLEAR_INDICATION TIMER_CLEAR_INDICATION)"

definition jz_channel_process_message :: "nat \<Rightarrow> jz_msg \<Rightarrow> jz_server \<Rightarrow> jz_server res" where
  "jz_channel_process_message x msg s =
     bind_res (channel_at s x) (\<lambda>C.
     bind_res ((case jc_state C of
         P1_READY \<Rightarrow> jz_channel_process_message_in_P1_ready_state x msg
       | P2_CLIENT_WAITING \<Rightarrow> jz_channel_process_message_in_P2_client_waiting_state x msg
       | P3_SERVER_WAITING \<Rightarrow> jz_channel_process_message_in_P3_server_waiting_state x msg
       | D1_FLOW_CONTROL_READY \<Rightarrow> jz_channel_process_message_in_D1_flow_control_ready_state x msg
       | D2_CLIENT_RESET_REQUEST \<Rightarrow> jz_channel_process_message_in_D2_client_reset_request_state x msg
       | D3_SERVER_RESET_INDICATION \<Rightarrow> jz_channel_process_message_in_D3_server_reset_indication_state x msg
       | P5_CALL_COLLISION \<Rightarrow> jz_channel_process_message_in_P5_call_collision_state x msg
       | P6_CLIENT_CLEAR_REQUEST \<Rightarrow> jz_channel_process_message_in_P6_client_clear_request_state x msg
       | P7_SERVER_CLEAR_INDICATION \<Rightarrow> jz_channel_process_message_in_P7_server_clear_indication_state x msg) s)
     (jz_channel_dump x))"

section \<open>Restarts and the end of a channel\<close>

definition restart_channel :: "byte \<Rightarrow> nat \<Rightarrow> byte \<Rightarrow> jz_server \<Rightarrow> jz_server res" where
  "restart_channel cause x diagnostic s =
     bind_res (channel_at s x) (\<lambda>X.
     bind_res (modify_channel x (\<lambda>X. X\<lparr>jc_peer := None\<rparr>) s) (\<lambda>s.
     bind_res
       (case jc_peer X of
          None \<Rightarrow> Inr s
        | Some y \<Rightarrow>
          bind_res (modify_channel y (\<lambda>Y. Y\<lparr>jc_peer := None\<rparr>) s) (\<lambda>s.
          bind_res (channel_at s y) (\<lambda>Y.
          jz_pass_new y (jz_msg_new_clear_request (jc_lcn Y) cause diagnostic) s)))
       (modify_channel x (\<lambda>X. jz_channel_timer_reset (X\<lparr>jc_state := P1_READY\<rparr>)))))"

definition jz_channel_do_client_restart_request :: "nat \<Rightarrow> byte \<Rightarrow> jz_server \<Rightarrow> jz_server res" where
  "jz_channel_do_client_restart_request = restart_channel c_clear__client_originated"

definition jz_channel_do_server_restart_indication :: "nat \<Rightarrow> byte \<Rightarrow> jz_server \<Rightarrow> jz_server res" where
  "jz_channel_do_server_restart_indication = restart_channel c_clear__remote_procedure_error"

definition jz_channel_free :: "nat \<Rightarrow> jz_server \<Rightarrow> jz_server res" where
  "jz_channel_free x s =
     bind_res (channel_at s x) (\<lambda>C.
     bind_res (case jc_peer C of None \<Rightarrow> Inr s | Some y \<Rightarrow> modify_channel y (\<lambda>Y. Y\<lparr>jc_peer := None\<rparr>) s) (\<lambda>s.
     Inr (s\<lparr>sv_heap := (sv_heap s)(x := None)\<rparr>)))"

section \<open>Timers\<close>

definition jz_channel_do_incoming_call_expiration :: "nat \<Rightarrow> jz_server \<Rightarrow> jz_server res" where
  "jz_channel_do_incoming_call_expiration x s =
     bind_res (channel_at s x) (\<lambda>X.
     bind_res (c_assert (jc_timer_count X = 1)) (\<lambda>_.
     bind_res (modify_channel x jz_channel_timer_reset s)
     (jz_channel_do_punishment_clear_request x c_clear__local_procedure_error jz_d_time_expired_incoming_call)))"

definition jz_channel_do_reset_indication_expiration :: "nat \<Rightarrow> jz_server \<Rightarrow> jz_server res" where
  "jz_channel_do_reset_indication_expiration x s =
     bind_res (channel_at s x) (\<lambda>X.
     bind_res (c_assert (jc_timer_count X = 1 \<or> jc_timer_count X = 2)) (\<lambda>_.
     if jc_timer_count X = 1 then
       jz_channel_do_punishment_reset_request x c_reset__local_procedure_error jz_d_time_expired_reset_request s
     else
       jz_channel_do_punishment_clear_request x c_clear__local_procedure_error jz_d_time_expired_reset_request s))"

definition jz_channel_do_clear_indication_expiration :: "nat \<Rightarrow> jz_server \<Rightarrow> jz_server res" where
  "jz_channel_do_clear_indication_expiration x s =
     bind_res (channel_at s x) (\<lambda>X.
     bind_res (c_assert (jc_timer_count X = 1 \<or> jc_timer_count X = 2)) (\<lambda>_.
     if jc_timer_count X = 1 then
       jz_channel_do_punishment_clear_request x c_clear__local_procedure_error jz_d_time_expired_clear_request s
     else
       bind_res (case jc_peer X of
           None \<Rightarrow> Inr s
         | Some y \<Rightarrow> modify_channel y (\<lambda>Y. Y\<lparr>jc_state := P1_READY, jc_peer := None\<rparr>) s) (\<lambda>s.
       bind_res (modify_channel x (\<lambda>X. jz_channel_timer_reset (X\<lparr>jc_state := P1_READY, jc_peer := None\<rparr>)) s)
       (jz_send_new (jc_parent X) (jz_msg_new_diagnostic jz_d_time_expired_clear_request JZ_MSG_VERSION
         JZ_MSG_CLEAR_REQUEST (jc_lcn X))))))"

definition jz_channel_check_timers :: "nat \<Rightarrow> jz_server \<Rightarrow> jz_server res" where
  "jz_channel_check_timers x s =
     (let (now, s) = read_clock s in
      bind_res (channel_at s x) (\<lambda>X.
      if jc_timer_type X = TIMER_NONE \<or> jc_timer_expiration_time X > now then Inr s
      else bind_res (modify_channel x (\<lambda>X. X\<lparr>jc_timer_count := jc_timer_count X + 1\<rparr>) s)
        (case jc_timer_type X of
           TIMER_NONE \<Rightarrow> (\<lambda>s. Inl Aborted)
         | TIMER_INCOMING_CALL \<Rightarrow> jz_channel_do_incoming_call_expiration x
         | TIMER_RESET_INDICATION \<Rightarrow> jz_channel_do_reset_indication_expiration x
         | TIMER_CLEAR_INDICATION \<Rightarrow> jz_channel_do_clear_indication_expiration x)))"

end
