(* ===== verification/Jz_Frame.thy ===== *)
theory Jz_Frame
  imports Jz_Channel
begin

text \<open>
  What the operations of channels leave alone. The locale \<open>channel_frame\<close> states which steps a
  predicate on servers has to survive: sending, reading the clock, changing a channel of some set
  that is closed under going to the other end, and reserving a channel. Inside it every operation of
  \<open>Jz_Channel\<close> is shown to keep the predicate. The locale is interpreted twice: for the outline of the
  clients and their tables, and for the channels outside of a call.
\<close>

section \<open>Frames\<close>

lemma channel_owner_kept [simp]:
  "jc_lcn (start_timer t seconds now X) = jc_lcn X" "jc_parent (start_timer t seconds now X) = jc_parent X"
  "jc_peer (start_timer t seconds now X) = jc_peer X"
  "jc_lcn (jz_channel_timer_reset X) = jc_lcn X" "jc_parent (jz_channel_timer_reset X) = jc_parent X"
  "jc_peer (jz_channel_timer_reset X) = jc_peer X"
  "jc_lcn (jz_channel_reset_flow_control X) = jc_lcn X"
  "jc_parent (jz_channel_reset_flow_control X) = jc_parent X"
  "jc_peer (jz_channel_reset_flow_control X) = jc_peer X"
  by (simp_all add: start_timer_def jz_channel_timer_reset_def jz_channel_reset_flow_control_def)

lemmas server_handlers = jz_channel_do_server_clear_indication_def jz_channel_do_server_incoming_call_def
  jz_channel_do_server_call_collision_def jz_channel_do_server_call_connected_def
  jz_channel_do_server_clear_confirmation_def jz_channel_do_server_reset_indication_def
  jz_channel_do_server_reset_confirmation_def jz_channel_do_server_rr_def jz_channel_do_server_rnr_def
  jz_channel_do_server_data_def

lemmas server_states = jz_channel_process_server_message_in_P1_ready_state_def
  jz_channel_process_server_message_in_P2_client_waiting_state_def
  jz_channel_process_server_message_in_P3_server_waiting_state_def
  jz_channel_process_server_message_in_D1_flow_control_ready_state_def
  jz_channel_process_server_message_in_D2_client_reset_request_state_def
  jz_channel_process_server_message_in_D3_server_reset_indication_state_def
  jz_channel_process_server_message_in_P5_call_collision_state_def
  jz_channel_process_server_message_in_P6_client_clear_request_state_def
  jz_channel_process_server_message_in_P7_server_clear_indication_state_def

lemmas client_handlers = jz_channel_do_client_call_accepted_def jz_channel_do_client_call_collision_def
  jz_channel_do_client_clear_request_def jz_channel_do_client_reset_request_def
  jz_channel_do_client_reset_confirmation_def jz_channel_do_client_data_def jz_channel_do_client_rr_def
  jz_channel_do_client_rnr_def jz_channel_do_client_clear_confirmation_def stop_timer_def

lemmas client_states = jz_channel_process_message_in_P1_ready_state_def
  jz_channel_process_message_in_P2_client_waiting_state_def
  jz_channel_process_message_in_P3_server_waiting_state_def
  jz_channel_process_message_in_D1_flow_control_ready_state_def
  jz_channel_process_message_in_D2_client_reset_request_state_def
  jz_channel_process_message_in_D3_server_reset_indication_state_def
  jz_channel_process_message_in_P5_call_collision_state_def
  jz_channel_process_message_in_P6_client_clear_request_state_def
  jz_channel_process_message_in_P7_server_clear_indication_state_def

locale channel_frame =
  fixes P :: "jz_server \<Rightarrow> bool" and A :: "nat set"
  assumes sent: "P s \<Longrightarrow> P (s\<lparr>sv_out := q\<rparr>)"
    and ticked: "P s \<Longrightarrow> P (s\<lparr>sv_tick := k\<rparr>)"
    and changed: "P s \<Longrightarrow> sv_heap s z = Some Z \<Longrightarrow> z \<in> A \<Longrightarrow> jc_lcn Z' = jc_lcn Z \<Longrightarrow> jc_parent Z' = jc_parent Z \<Longrightarrow>
      set_option (jc_peer Z') \<subseteq> A \<Longrightarrow> P (s\<lparr>sv_heap := (sv_heap s)(z \<mapsto> Z')\<rparr>)"
    and closed: "P s \<Longrightarrow> sv_heap s z = Some Z \<Longrightarrow> z \<in> A \<Longrightarrow> jc_peer Z = Some y \<Longrightarrow> y \<in> A"
    and reserved: "P s \<Longrightarrow> jz_client_reserve_low_channel i s = Inr (r, t) \<Longrightarrow> P t \<and> set_option r \<subseteq> A"
begin

lemma peer_in: "channel_at s z = Inr Z \<Longrightarrow> jc_peer Z = Some y \<Longrightarrow> P s \<Longrightarrow> z \<in> A \<Longrightarrow> y \<in> A"
  using closed by (auto simp: channel_at_def split: option.splits)

lemma frame_modify [ensures_intros]:
  assumes "P s" "z \<in> A" "\<And>Z. jc_lcn (f Z) = jc_lcn Z" "\<And>Z. jc_parent (f Z) = jc_parent Z"
    and "\<And>Z. jc_peer (f Z) = jc_peer Z \<or> set_option (jc_peer (f Z)) \<subseteq> A"
  shows "ensures P (modify_channel z f s)"
proof -
  have "P (s\<lparr>sv_heap := (sv_heap s)(z \<mapsto> f Z)\<rparr>)" if "sv_heap s z = Some Z" for Z
  proof (rule changed [OF assms(1) that assms(2)])
    show "set_option (jc_peer (f Z)) \<subseteq> A"
      using assms(5) [of Z] closed [OF assms(1) that assms(2)] by auto
  qed (simp_all add: assms(3,4))
  then show ?thesis
    by (auto simp: ensures_def modify_channel_def channel_at_def bind_res_Inr split: option.splits)
qed

lemma frame_send_msg [ensures_intros]: "P s \<Longrightarrow> ensures P (jz_client_send_msg i M s)"
  using sent by (auto simp: ensures_def jz_client_send_msg_def bind_res_Inr)

lemma frame_send_new [ensures_intros]: "P s \<Longrightarrow> ensures P (jz_send_new i m s)"
  unfolding jz_send_new_def by (intro ensures_value frame_send_msg)

lemma frame_clock [ensures_intros]:
  "P s \<Longrightarrow> (\<And>now s'. P s' \<Longrightarrow> ensures P (f now s')) \<Longrightarrow> ensures P (case read_clock s of (now, s') \<Rightarrow> f now s')"
  using ticked by (simp add: read_clock_def)

lemma frame_dump [ensures_intros]: "P s \<Longrightarrow> ensures P (jz_channel_dump x s)"
  unfolding jz_channel_dump_def by (auto split: option.split intro!: ensures_intros intro: peer_in)

lemma frame_server_handlers [ensures_intros]:
  assumes "P s" "x \<in> A"
  shows "ensures P (jz_channel_do_server_clear_indication x msg s)"
    "ensures P (jz_channel_do_server_incoming_call x msg s)"
    "ensures P (jz_channel_do_server_call_collision x msg s)"
    "ensures P (jz_channel_do_server_call_connected x msg s)"
    "ensures P (jz_channel_do_server_clear_confirmation x msg s)"
    "ensures P (jz_channel_do_server_reset_indication x msg s)"
    "ensures P (jz_channel_do_server_reset_confirmation x msg s)"
    "ensures P (jz_channel_do_server_rr x msg s)" "ensures P (jz_channel_do_server_rnr x msg s)"
    "ensures P (jz_channel_do_server_data x msg s)"
  using assms unfolding server_handlers Let_def by (auto intro!: ensures_intros)

lemma frame_server_states:
  assumes "P s" "x \<in> A"
  shows "ensures P (jz_channel_process_server_message_in_P1_ready_state x msg s)"
    "ensures P (jz_channel_process_server_message_in_P2_client_waiting_state x msg s)"
    "ensures P (jz_channel_process_server_message_in_P3_server_waiting_state x msg s)"
    "ensures P (jz_channel_process_server_message_in_D1_flow_control_ready_state x msg s)"
    "ensures P (jz_channel_process_server_message_in_D2_client_reset_request_state x msg s)"
    "ensures P (jz_channel_process_server_message_in_D3_server_reset_indication_state x msg s)"
    "ensures P (jz_channel_process_server_message_in_P5_call_collision_state x msg s)"
    "ensures P (jz_channel_process_server_message_in_P6_client_clear_request_state x msg s)"
    "ensures P (jz_channel_process_server_message_in_P7_server_clear_indication_state x msg s)"
  unfolding server_states using frame_server_handlers [OF assms, of msg] ensures_Inr [of P, OF assms(1)] by simp_all

lemma frame_server_message [ensures_intros]:
  assumes "P s" "x \<in> A"
  shows "ensures P (jz_channel_process_server_message x msg s)"
  unfolding jz_channel_process_server_message_def
proof (intro ensures_values ensures_server)
  fix C
  show "ensures P ((case jc_state C of
         P1_READY \<Rightarrow> jz_channel_process_server_message_in_P1_ready_state x msg
       | P2_CLIENT_WAITING \<Rightarrow> jz_channel_process_server_message_in_P2_client_waiting_state x msg
       | P3_SERVER_WAITING \<Rightarrow> jz_channel_process_server_message_in_P3_server_waiting_state x msg
       | P5_CALL_COLLISION \<Rightarrow> jz_channel_process_server_message_in_P5_call_collision_state x msg
       | P6_CLIENT_CLEAR_REQUEST \<Rightarrow> jz_channel_process_server_message_in_P6_client_clear_request_state x msg
       | P7_SERVER_CLEAR_INDICATION \<Rightarrow> jz_channel_process_server_message_in_P7_server_clear_indication_state x msg
       | D1_FLOW_CONTROL_READY \<Rightarrow> jz_channel_process_server_message_in_D1_flow_control_ready_state x msg
       | D2_CLIENT_RESET_REQUEST \<Rightarrow> jz_channel_process_server_message_in_D2_client_reset_request_state x msg
       | D3_SERVER_RESET_INDICATION \<Rightarrow> jz_channel_process_server_message_in_D3_server_reset_indication_state x msg) s)"
    using frame_server_states [OF assms, of msg] by (cases "jc_state C") simp_all
qed (rule frame_dump)

lemma frame_pass_new [ensures_intros]: "P s \<Longrightarrow> y \<in> A \<Longrightarrow> ensures P (jz_pass_new y m s)"
  unfolding jz_pass_new_def by (auto intro!: ensures_intros)

lemma frame_punishments [ensures_intros]:
  assumes "P s" "x \<in> A"
  shows "ensures P (jz_channel_do_punishment_clear_request x cause diagnostic s)"
    "ensures P (jz_channel_do_punishment_reset_request x cause diagnostic s)"
  using assms unfolding jz_channel_do_punishment_clear_request_def jz_channel_do_punishment_reset_request_def Let_def
  by (auto split: option.split intro!: ensures_intros intro: peer_in)

lemma frame_to_peer [ensures_intros]: "P s \<Longrightarrow> x \<in> A \<Longrightarrow> ensures P (to_peer x new s)"
  unfolding to_peer_def by (auto split: option.split intro!: ensures_intros intro: peer_in)

lemma frame_forward_call [ensures_intros]: "P s \<Longrightarrow> x \<in> A \<Longrightarrow> ensures P (forward_call new x msg s)"
  unfolding forward_call_def Let_def by (auto intro!: ensures_intros intro: peer_in)

lemma frame_connect_call [ensures_intros]: "P s \<Longrightarrow> x \<in> A \<Longrightarrow> y \<in> A \<Longrightarrow> ensures P (connect_call x y msg s)"
  unfolding connect_call_def by (auto intro!: ensures_intros)

lemma frame_call_request [ensures_intros]:
  assumes "P s" "x \<in> A"
  shows "ensures P (jz_channel_do_client_call_request x msg s)"
proof -
  have "ensures P (bind_res (jz_client_reserve_low_channel peer s) (\<lambda>(channel, s).
      case channel of
        None \<Rightarrow> jz_channel_do_punishment_clear_request x c_clear__number_busy jz_d_no_logical_channel_available s
      | Some y \<Rightarrow> connect_call x y msg s))" for peer
  proof (intro ensures_value)
    fix r assume "jz_client_reserve_low_channel peer s = Inr r"
    then obtain channel s' where "r = (channel, s')" "P s'" "set_option channel \<subseteq> A"
      using reserved [OF assms(1)] by (cases r) blast
    then show "ensures P (case r of (channel, s) \<Rightarrow> case channel of
        None \<Rightarrow> jz_channel_do_punishment_clear_request x c_clear__number_busy jz_d_no_logical_channel_available s
      | Some y \<Rightarrow> connect_call x y msg s)"
      using assms(2) by (cases channel) (simp_all add: frame_punishments frame_connect_call)
  qed
  then show ?thesis
    unfolding jz_channel_do_client_call_request_def
    by (intro ensures_values) (auto split: option.split intro!: ensures_values frame_punishments ensures_Inl assms)
qed

lemma frame_client_handlers [ensures_intros]:
  assumes "P s" "x \<in> A"
  shows "ensures P (jz_channel_do_client_call_accepted x msg s)"
    "ensures P (jz_channel_do_client_call_collision x msg s)"
    "ensures P (jz_channel_do_client_clear_request x msg s)"
    "ensures P (jz_channel_do_client_reset_request x msg s)"
    "ensures P (jz_channel_do_client_reset_confirmation x msg s)"
    "ensures P (jz_channel_do_client_data x msg s)" "ensures P (jz_channel_do_client_rr x msg s)"
    "ensures P (jz_channel_do_client_rnr x msg s)"
    "ensures P (jz_channel_do_client_clear_confirmation x msg s)" "ensures P (stop_timer x st t s)"
  using assms unfolding client_handlers by (auto split: option.split intro!: ensures_intros intro: peer_in)

lemma frame_client_states:
  assumes "P s" "x \<in> A"
  shows "ensures P (jz_channel_process_message_in_P1_ready_state x msg s)"
    "ensures P (jz_channel_process_message_in_P2_client_waiting_state x msg s)"
    "ensures P (jz_channel_process_message_in_P3_server_waiting_state x msg s)"
    "ensures P (jz_channel_process_message_in_D1_flow_control_ready_state x msg s)"
    "ensures P (jz_channel_process_message_in_D2_client_reset_request_state x msg s)"
    "ensures P (jz_channel_process_message_in_D3_server_reset_indication_state x msg s)"
    "ensures P (jz_channel_process_message_in_P5_call_collision_state x msg s)"
    "ensures P (jz_channel_process_message_in_P6_client_clear_request_state x msg s)"
    "ensures P (jz_channel_process_message_in_P7_server_clear_indication_state x msg s)"
  unfolding client_states
  using frame_client_handlers(1-9) [OF assms, of msg] frame_punishments [OF assms] ensures_Inr [of P, OF assms(1)]
    frame_call_request [OF assms, of msg]
  by (auto intro!: ensures_server frame_client_handlers(10) assms)

lemma frame_process_message [ensures_intros]:
  assumes "P s" "x \<in> A"
  shows "ensures P (jz_channel_process_message x msg s)"
  unfolding jz_channel_process_message_def
proof (intro ensures_values ensures_server)
  fix C
  show "ensures P ((case jc_state C of
         P1_READY \<Rightarrow> jz_channel_process_message_in_P1_ready_state x msg
       | P2_CLIENT_WAITING \<Rightarrow> jz_channel_process_message_in_P2_client_waiting_state x msg
       | P3_SERVER_WAITING \<Rightarrow> jz_channel_process_message_in_P3_server_waiting_state x msg
       | P5_CALL_COLLISION \<Rightarrow> jz_channel_process_message_in_P5_call_collision_state x msg
       | P6_CLIENT_CLEAR_REQUEST \<Rightarrow> jz_channel_process_message_in_P6_client_clear_request_state x msg
       | P7_SERVER_CLEAR_INDICATION \<Rightarrow> jz_channel_process_message_in_P7_server_clear_indication_state x msg
       | D1_FLOW_CONTROL_READY \<Rightarrow> jz_channel_process_message_in_D1_flow_control_ready_state x msg
       | D2_CLIENT_RESET_REQUEST \<Rightarrow> jz_channel_process_message_in_D2_client_reset_request_state x msg
       | D3_SERVER_RESET_INDICATION \<Rightarrow> jz_channel_process_message_in_D3_server_reset_indication_state x msg) s)"
    using frame_client_states [OF assms, of msg] by (cases "jc_state C") simp_all
qed (rule frame_dump)

lemma frame_restart [ensures_intros]: "P s \<Longrightarrow> x \<in> A \<Longrightarrow> ensures P (restart_channel cause x diagnostic s)"
  unfolding restart_channel_def by (auto split: option.split intro!: ensures_intros intro: peer_in)

lemma frame_restarts [ensures_intros]:
  assumes "P s" "x \<in> A"
  shows "ensures P (jz_channel_do_client_restart_request x diagnostic s)"
    "ensures P (jz_channel_do_server_restart_indication x diagnostic s)"
  using frame_restart [OF assms]
  by (simp_all add: jz_channel_do_client_restart_request_def jz_channel_do_server_restart_indication_def)

lemma frame_expirations [ensures_intros]:
  assumes "P s" "x \<in> A"
  shows "ensures P (jz_channel_do_incoming_call_expiration x s)"
    "ensures P (jz_channel_do_reset_indication_expiration x s)"
    "ensures P (jz_channel_do_clear_indication_expiration x s)"
  using assms unfolding jz_channel_do_incoming_call_expiration_def jz_channel_do_reset_indication_expiration_def
    jz_channel_do_clear_indication_expiration_def by (auto split: option.split intro!: ensures_intros intro: peer_in)

lemma frame_check_timers [ensures_intros]: "P s \<Longrightarrow> x \<in> A \<Longrightarrow> ensures P (jz_channel_check_timers x s)"
  unfolding jz_channel_check_timers_def Let_def
  by (auto split: JzChannelTimerType.split intro!: ensures_intros)

end

section \<open>Clients and tables\<close>

interpretation clients: channel_frame "stays n" UNIV for n
  using stays_reserve by unfold_locales (auto intro: stays_changed)

text \<open>A channel is freed once no table has it.\<close>

definition untabled :: "nat \<Rightarrow> jz_server \<Rightarrow> bool" where
  "untabled x s \<longleftrightarrow> (\<forall>C \<in> set (sv_clients s). x \<notin> snd ` set (cl_channels C))"

lemma stays_free:
  assumes "stays n s" "untabled x s" "snd n x = None"
  shows "stays n (s\<lparr>sv_heap := (sv_heap s)(x := None)\<rparr>)"
proof -
  let ?s = "s\<lparr>sv_heap := (sv_heap s)(x := None)\<rparr>"
  have owner: "owner ?s = (owner s)(x := None)" by (auto simp: owner_def fun_eq_iff)
  have old: "tables_ok s" using assms(1) by (simp add: stays_def)
  have "y \<noteq> x" if "i < length (sv_clients s)" "(l, y) \<in> set (cl_channels (sv_clients s ! i))" for i l y
    using that assms(2) nth_mem [OF that(1)] by (force simp: untabled_def)
  then have "tables_ok ?s" using old by (fastforce simp: tables_ok_owner owner)
  moreover have "snd n \<subseteq>\<^sub>m owner ?s"
    using assms(1,3) by (auto simp: stays_def owner map_le_def dom_def)
  ultimately show ?thesis using assms(1) by (simp add: stays_def)
qed

lemma kept_free:
  assumes "stays n s" "untabled x s" "snd n x = None"
  shows "kept n (jz_channel_free x s)"
proof -
  have "kept n (bind_res (modify_channel y (\<lambda>Y. Y\<lparr>jc_peer := None\<rparr>) s)
    (\<lambda>s. Inr (s\<lparr>sv_heap := (sv_heap s)(x := None)\<rparr>)))" for y
  proof (cases "modify_channel y (\<lambda>Y. Y\<lparr>jc_peer := None\<rparr>) s")
    case (Inr t)
    then have "stays n t"
      using clients.frame_modify [OF assms(1), of y "\<lambda>Y. Y\<lparr>jc_peer := None\<rparr>"] by (simp add: ensures_def)
    moreover have "untabled x t"
      using assms(2) Inr by (auto simp: untabled_def modify_channel_def bind_res_Inr)
    ultimately show ?thesis using Inr by (simp add: ensures_Inr stays_free assms(3))
  qed (simp add: ensures_Inl)
  then show ?thesis
    unfolding jz_channel_free_def
    by (auto split: option.split intro!: ensures_values ensures_Inr stays_free assms)
qed

section \<open>Calls\<close>

text \<open>
  A set of channels that holds the other end of each of its channels, and all addresses that were not
  handed out; and a server in which the channels outside of it are those of \<open>h\<close>.
\<close>

definition confined :: "nat set \<Rightarrow> (nat \<Rightarrow> jz_channel option) \<Rightarrow> jz_server \<Rightarrow> bool" where
  "confined A h s \<longleftrightarrow> (\<forall>z. z \<notin> A \<longrightarrow> sv_heap s z = h z) \<and>
     (\<forall>x \<in> A. \<forall>X y. sv_heap s x = Some X \<longrightarrow> jc_peer X = Some y \<longrightarrow> y \<in> A) \<and> (\<forall>z \<ge> sv_fresh s. z \<in> A)"

lemma confined_reserve:
  assumes "confined A h s" "jz_client_reserve_low_channel i s = Inr (r, t)"
  shows "confined A h t \<and> set_option r \<subseteq> A"
proof -
  have new: "sv_fresh s \<in> A" using assms(1) by (simp add: confined_def)
  have "confined A h (snd (insert_channel i lcn s))" for lcn
  proof -
    let ?t = "snd (insert_channel i lcn s)"
    have t: "sv_heap ?t = (sv_heap s)(sv_fresh s \<mapsto> jz_channel_new i lcn)" "sv_fresh ?t = Suc (sv_fresh s)"
      by (simp_all add: insert_channel_def modify_client_def)
    have "jc_peer (jz_channel_new i lcn) = None" by (simp add: jz_channel_new_def)
    then show ?thesis
      using assms(1) new unfolding confined_def t by (metis Suc_leD fun_upd_apply option.distinct(1) option.inject)
  qed
  moreover have "r = None \<and> t = s \<or> (\<exists>lcn. r = Some (sv_fresh s) \<and> t = snd (insert_channel i lcn s))"
    using assms(2)
    by (auto simp: jz_client_reserve_low_channel_def bind_res_Inr Let_def insert_channel_def split: if_splits)
  ultimately show ?thesis using assms(1) new by auto
qed

interpretation calls: channel_frame "confined A h" A for A h
proof unfold_locales
  fix s z and Z Z' :: jz_channel
  assume "confined A h s" "sv_heap s z = Some Z" "z \<in> A" "set_option (jc_peer Z') \<subseteq> A"
  then show "confined A h (s\<lparr>sv_heap := (sv_heap s)(z \<mapsto> Z')\<rparr>)" by (auto simp: confined_def)
next
  fix s z y and Z :: jz_channel
  assume "confined A h s" "sv_heap s z = Some Z" "z \<in> A" "jc_peer Z = Some y"
  then show "y \<in> A" by (auto simp: confined_def)
next
  fix s i r t
  assume "confined A h s" "jz_client_reserve_low_channel i s = Inr (r, t)"
  then show "confined A h t \<and> set_option r \<subseteq> A" by (rule confined_reserve)
qed (simp_all add: confined_def)

end
