(* ===== verification/Jz_Client.thy ===== *)
theory Jz_Client
  imports Jz_Frame
begin

text \<open>
  The clients of the application server, \<^verbatim>\<open>application10/client.c\<close>, and the idle handler of
  \<^verbatim>\<open>application10/service.c\<close>: reading into the receive buffer, cutting it into messages, processing
  the queue of messages by the state of the client, restarts, hang-ups and timers. What a read from
  the connection returns is an argument: some bytes, nothing for now, or the end.
\<close>

section \<open>New clients\<close>

definition jz_client_new :: "cstr \<Rightarrow> u16 \<Rightarrow> jz_client" where
  "jz_client_new inet_address_str port = \<lparr>cl_inet_address_str = inet_address_str, cl_port = port,
     cl_state = C1_UNINITIALIZED, cl_address = None, cl_iodir = jz_io_calls_barred,
     cl_timer_type = JZ_CLIENT_TIMER_NONE, cl_timer_expiration_time = 0, cl_timer_count = 0,
     cl_recv_buffer = [], cl_incoming = [], cl_channels = []\<rparr>"

text \<open>An incoming connection.\<close>

definition socket_service_incoming :: "cstr \<Rightarrow> u16 \<Rightarrow> jz_server \<Rightarrow> jz_server" where
  "socket_service_incoming inet_address_str port s =
     s\<lparr>sv_clients := sv_clients s @ [jz_client_new inet_address_str port]\<rparr>"

definition jz_client_timer_reset :: "jz_client \<Rightarrow> jz_client" where
  "jz_client_timer_reset X = X\<lparr>cl_timer_type := JZ_CLIENT_TIMER_NONE, cl_timer_expiration_time := 0,
     cl_timer_count := 0\<rparr>"

section \<open>Restarting all channels of a client\<close>

text \<open>
  \<^verbatim>\<open>g_hash_table_foreach_remove\<close> with an iterator that returns TRUE: every channel is restarted and
  freed in turn.
\<close>

fun restart_all :: "(nat \<Rightarrow> byte \<Rightarrow> jz_server \<Rightarrow> jz_server res) \<Rightarrow> byte \<Rightarrow> nat \<Rightarrow> (u16 \<times> nat) list \<Rightarrow>
    jz_server \<Rightarrow> jz_server res" where
  "restart_all restart diagnostic i [] s = Inr s"
| "restart_all restart diagnostic i ((lcn, x) # t) s =
     bind_res (restart x diagnostic s) (\<lambda>s.
     bind_res (jz_channel_free x
       (modify_client i (\<lambda>C. C\<lparr>cl_channels := filter (\<lambda>p. fst p \<noteq> lcn) (cl_channels C)\<rparr>) s))
     (restart_all restart diagnostic i t))"

definition restart_channels :: "(nat \<Rightarrow> byte \<Rightarrow> jz_server \<Rightarrow> jz_server res) \<Rightarrow> byte \<Rightarrow> nat \<Rightarrow>
    jz_server \<Rightarrow> jz_server res" where
  "restart_channels restart diagnostic i s =
     bind_res (client_at s i) (\<lambda>C. restart_all restart diagnostic i (sv_order s (cl_channels C)) s)"

definition jz_client_do_punishment_restart :: "nat \<Rightarrow> byte \<Rightarrow> byte \<Rightarrow> jz_server \<Rightarrow> jz_server res" where
  "jz_client_do_punishment_restart i cause diagnostic s =
     bind_res (jz_send_new i (jz_msg_new_restart_request cause diagnostic) s) (\<lambda>s.
     bind_res (restart_channels jz_channel_do_server_restart_indication diagnostic i s) (\<lambda>s.
     let (now, s) = read_clock s in
     Inr (modify_client i (\<lambda>C.
       (if cl_timer_type C \<noteq> JZ_CLIENT_TIMER_RESTART_INDICATION then C\<lparr>cl_timer_count := 0\<rparr> else C)
         \<lparr>cl_state := C3_SERVER_RESTART_REQUEST, cl_timer_type := JZ_CLIENT_TIMER_RESTART_INDICATION,
          cl_timer_expiration_time := now +
            JZ_CLIENT_TIMER_RESTART_INDICATION_DURATION_IN_SECONDS * G_USEC_PER_SEC\<rparr>) s)))"

definition jz_client_do_restart :: "nat \<Rightarrow> byte \<Rightarrow> byte \<Rightarrow> jz_server \<Rightarrow> jz_server res" where
  "jz_client_do_restart i cause diagnostic s =
     (if \<not> CAUSE_IS_CLIENT_ORIGINATED cause then
        jz_client_do_punishment_restart i c_restart__local_procedure_error jz_d_improper_cause_code_from_client s
      else
        bind_res (restart_channels jz_channel_do_client_restart_request diagnostic i
          (modify_client i (\<lambda>C. C\<lparr>cl_state := C2_CLIENT_RESTART_REQUEST\<rparr>) s)) (\<lambda>s.
        bind_res (jz_send_new i jz_msg_new_restart_confirmation s) (\<lambda>s.
        Inr (modify_client i (\<lambda>C. jz_client_timer_reset (C\<lparr>cl_state := C4_INITIALIZED\<rparr>)) s))))"

definition jz_client_do_hangup :: "nat \<Rightarrow> jz_server \<Rightarrow> jz_server res" where
  "jz_client_do_hangup i s =
     bind_res (restart_channels jz_channel_do_server_restart_indication jz_d_eterm i s) (\<lambda>s.
     Inr (modify_client i (\<lambda>C. C\<lparr>cl_state := C1_UNINITIALIZED\<rparr>) s))"

definition jz_client_do_restart_confirmation :: "nat \<Rightarrow> jz_server \<Rightarrow> jz_server" where
  "jz_client_do_restart_confirmation i = modify_client i (\<lambda>C. C\<lparr>cl_state := C4_INITIALIZED\<rparr>)"

definition jz_client_do_diagnostic :: "nat \<Rightarrow> byte \<Rightarrow> byte \<Rightarrow> byte \<Rightarrow> u16 \<Rightarrow> jz_server \<Rightarrow> jz_server res" where
  "jz_client_do_diagnostic i diagnostic version id' lcn =
     jz_send_new i (jz_msg_new_diagnostic diagnostic version id' lcn)"

text \<open>The description of the client for the log, as a step.\<close>

definition log_client :: "nat \<Rightarrow> jz_server \<Rightarrow> jz_server res" where
  "log_client i s = bind_res (client_at s i) (\<lambda>C. bind_res (jz_client_diagnostic_string C) (\<lambda>_. Inr s))"

definition jz_client_do_connect :: "nat \<Rightarrow> jz_msg \<Rightarrow> jz_server \<Rightarrow> jz_server res" where
  "jz_client_do_connect i msg s =
     bind_res (jz_send_new i jz_msg_new_connect_indication s) (\<lambda>s.
     bind_res (log_client i s) (\<lambda>s.
     Inr (modify_client i (\<lambda>C. C\<lparr>cl_state := C4_INITIALIZED, cl_address := jm_calling_address msg,
       cl_iodir := jm_iodir msg\<rparr>) s)))"

section \<open>Messages by the state of the client\<close>

text \<open>
  Comparing the name of another client with a missing one is undefined; the loop stops at the first
  client that has the name.
\<close>

definition name_in_use :: "jz_msg \<Rightarrow> jz_server \<Rightarrow> bool res" where
  "name_in_use msg s =
     (case jm_calling_address msg of
        None \<Rightarrow> if \<forall>C \<in> set (sv_clients s). cl_address C = None then Inr False else Inl Undefined
      | Some name \<Rightarrow> Inr (\<exists>C \<in> set (sv_clients s). cl_address C = Some name))"

definition jz_client_process_message_in_C1_uninitialized_state ::
  "nat \<Rightarrow> jz_msg \<Rightarrow> jz_server \<Rightarrow> jz_server res" where
  "jz_client_process_message_in_C1_uninitialized_state i msg s =
     (if jm_id msg = JZ_MSG_CONNECT then
        bind_res (name_in_use msg s) (\<lambda>in_use.
        if in_use then jz_client_do_diagnostic i jz_d_address_in_use 0 0 0 s
        else jz_client_do_connect i msg s)
      else Inr s)"

definition jz_client_process_message_in_C2_client_restart_request_state ::
  "nat \<Rightarrow> jz_msg \<Rightarrow> jz_server \<Rightarrow> jz_server res" where
  "jz_client_process_message_in_C2_client_restart_request_state i msg s =
     (if jm_id msg = JZ_MSG_RESTART_REQUEST then Inr s
      else if jm_id msg = JZ_MSG_RESTART_CONFIRMATION \<or> jz_msg_is_for_channel msg then
        jz_client_do_punishment_restart i c_restart__local_procedure_error
          jz_d_invalid_message_for_state_client_restart_request s
      else jz_client_do_diagnostic i jz_d_invalid_message_for_state_client_restart_request
        (jm_version msg) (jm_id msg) (jm_lcn msg) s)"

definition jz_client_process_message_in_C3_server_restart_request_state ::
  "nat \<Rightarrow> jz_msg \<Rightarrow> jz_server \<Rightarrow> jz_server res" where
  "jz_client_process_message_in_C3_server_restart_request_state i msg s =
     bind_res (client_at s i) (\<lambda>before.
     bind_res
       (if jm_id msg = JZ_MSG_RESTART_REQUEST \<or> jm_id msg = JZ_MSG_RESTART_CONFIRMATION
        then Inr (jz_client_do_restart_confirmation i s)
        else if jz_msg_is_for_channel msg then Inr s
        else jz_client_do_diagnostic i jz_d_invalid_message_for_state_server_restart_request
          (jm_version msg) (jm_id msg) (jm_lcn msg) s) (\<lambda>s.
     bind_res (client_at s i) (\<lambda>C.
     if cl_state C \<noteq> cl_state before \<and> cl_timer_type C = JZ_CLIENT_TIMER_RESTART_INDICATION
     then Inr (modify_client i jz_client_timer_reset s) else Inr s)))"

definition jz_client_process_message_in_C4_initialized_state ::
  "nat \<Rightarrow> jz_msg \<Rightarrow> jz_server \<Rightarrow> jz_server res" where
  "jz_client_process_message_in_C4_initialized_state i msg s =
     (if jm_id msg = JZ_MSG_RESTART_REQUEST then
        jz_client_do_restart i (jm_cause msg) (jm_diagnostic msg) s
      else if jm_id msg = JZ_MSG_RESTART_CONFIRMATION then
        jz_client_do_punishment_restart i c_restart__local_procedure_error
          jz_d_invalid_message_for_state_initialized s
      else if jz_msg_is_for_channel msg then
        bind_res (client_at s i) (\<lambda>C.
        case map_of (cl_channels C) (jm_lcn msg) of
          Some x \<Rightarrow> jz_channel_process_message x msg s
        | None \<Rightarrow>
          let (x, s) = insert_channel i (jm_lcn msg) s in
          bind_res (log_client i s) (jz_channel_process_message x msg))
      else jz_client_do_diagnostic i jz_d_invalid_message_for_state_initialized
        (jm_version msg) (jm_id msg) (jm_lcn msg) s)"

text \<open>The loop over the queue; no handler adds to it.\<close>

definition jz_client_process_message :: "nat \<Rightarrow> jz_msg \<Rightarrow> jz_server \<Rightarrow> jz_server res" where
  "jz_client_process_message i msg s =
     bind_res (log_client i s) (\<lambda>s.
     if jz_msg_validate msg = jz_d_ok then
       bind_res (client_at s i) (\<lambda>C.
       (case cl_state C of
          C1_UNINITIALIZED \<Rightarrow> jz_client_process_message_in_C1_uninitialized_state i msg
        | C2_CLIENT_RESTART_REQUEST \<Rightarrow> jz_client_process_message_in_C2_client_restart_request_state i msg
        | C3_SERVER_RESTART_REQUEST \<Rightarrow> jz_client_process_message_in_C3_server_restart_request_state i msg
        | C4_INITIALIZED \<Rightarrow> jz_client_process_message_in_C4_initialized_state i msg) s)
     else Inr s)"

fun process_queue :: "nat \<Rightarrow> jz_msg list \<Rightarrow> jz_server \<Rightarrow> jz_server res" where
  "process_queue i [] s = Inr s"
| "process_queue i (msg # queue) s =
     bind_res (jz_client_process_message i msg (modify_client i (\<lambda>C. C\<lparr>cl_incoming := queue\<rparr>) s))
     (process_queue i queue)"

definition jz_client_process_messages :: "nat \<Rightarrow> jz_server \<Rightarrow> jz_server res" where
  "jz_client_process_messages i s = bind_res (client_at s i) (\<lambda>C. process_queue i (cl_incoming C) s)"

section \<open>Input\<close>

text \<open>
  What the connection has for a non-blocking read: some bytes, none yet, or the end (an error or no
  byte at all). The read asks for as many bytes as there is room for in the buffer, so of the bytes
  that the connection hands out it takes at most that many; the others stay there for the next one.
\<close>

datatype jz_input = Received bytes | Would_block | Closed

text \<open>\<open>None\<close> stands for \<^verbatim>\<open>G_SOURCE_REMOVE\<close>.\<close>

definition jz_client_read_into_recv_buffer :: "nat \<Rightarrow> jz_input \<Rightarrow> jz_server \<Rightarrow> jz_server option res" where
  "jz_client_read_into_recv_buffer i input s =
     bind_res (log_client i s) (\<lambda>s.
     bind_res (client_at s i) (\<lambda>C.
     bind_res (c_assert (length (cl_recv_buffer C) < CLIENT_RECV_BUFFER_SIZE)) (\<lambda>_.
     case input of
       Received bs \<Rightarrow>
         let res = take (CLIENT_RECV_BUFFER_SIZE - length (cl_recv_buffer C)) bs in
         if res \<noteq> [] then Inr (Some (modify_client i (\<lambda>C. C\<lparr>cl_recv_buffer := cl_recv_buffer C @ res\<rparr>) s))
         else Inr None
     | Would_block \<Rightarrow> Inr (Some s)
     | Closed \<Rightarrow> Inr None)))"

text \<open>
  The loop over the buffer, from the bytes that are left; a round that goes on consumes at least
  one byte, unless a complaint about nothing was sent, after which the loop would not end. The result is whether the connection can go on, and the bytes left.
\<close>

function parse_buffer :: "nat \<Rightarrow> bytes \<Rightarrow> jz_server \<Rightarrow> ((bool \<times> bytes) \<times> jz_server) res" where
  "parse_buffer i p s =
     (if p = [] then Inr ((True, p), s)
      else case jz_buffer_parse_into_message p of
        Inl e \<Rightarrow> Inl e
      | Inr (siz, msg, is_error, is_fatal) \<Rightarrow>
        if is_fatal then Inr ((False, p), s)
        else if is_error then
          (case msg of
             None \<Rightarrow> Inl Undefined
           | Some m \<Rightarrow>
             case jz_client_send_msg i m s of
               Inl e \<Rightarrow> Inl e
             | Inr s \<Rightarrow> if siz = 0 then Inl Diverged else parse_buffer i (drop siz p) s)
        else if siz \<noteq> 0 then
          (case msg of
             None \<Rightarrow> Inl Undefined
           | Some m \<Rightarrow>
             case log_client i (modify_client i (\<lambda>C. C\<lparr>cl_incoming := cl_incoming C @ [m]\<rparr>) s) of
               Inl e \<Rightarrow> Inl e
             | Inr s \<Rightarrow> parse_buffer i (drop siz p) s)
        else Inr ((True, p), s))"
  by pat_completeness auto
termination
  by (relation "measure (\<lambda>(i, p, s). length p)") auto

declare parse_buffer.simps [simp del]

definition jz_client_parse_recv_buffer_into_messages :: "nat \<Rightarrow> jz_server \<Rightarrow> (bool \<times> jz_server) res" where
  "jz_client_parse_recv_buffer_into_messages i s =
     bind_res (client_at s i) (\<lambda>C.
     bind_res (parse_buffer i (cl_recv_buffer C) s) (\<lambda>((ret, p), s).
     Inr (ret, modify_client i (\<lambda>C. C\<lparr>cl_recv_buffer := p\<rparr>) s)))"

definition jz_client_process_fatally_invalid_message :: "nat \<Rightarrow> jz_server \<Rightarrow> jz_server res" where
  "jz_client_process_fatally_invalid_message i s =
     jz_client_do_punishment_restart i c_restart__local_procedure_error jz_d_unidentifiable_packet
       (modify_client i (\<lambda>C. C\<lparr>cl_recv_buffer := []\<rparr>) s)"

definition jz_client_input_available_callback :: "nat \<Rightarrow> jz_input \<Rightarrow> jz_server \<Rightarrow> jz_server res" where
  "jz_client_input_available_callback i input s =
     bind_res (jz_client_read_into_recv_buffer i input s) (\<lambda>r.
     case r of
       Some s \<Rightarrow>
         bind_res (jz_client_parse_recv_buffer_into_messages i s) (\<lambda>(ok, s).
         if ok then jz_client_process_messages i s
         else jz_client_process_fatally_invalid_message i s)
     | None \<Rightarrow> bind_res (log_client i s) (jz_client_do_hangup i))"

section \<open>Timers\<close>

definition jz_client_do_restart_indication_expiration :: "nat \<Rightarrow> jz_server \<Rightarrow> jz_server res" where
  "jz_client_do_restart_indication_expiration i s =
     bind_res (client_at s i) (\<lambda>C.
     bind_res (c_assert (cl_timer_count C = 1 \<or> cl_timer_count C = 2)) (\<lambda>_.
     if cl_timer_count C = 1 then
       jz_client_do_punishment_restart i c_restart__local_procedure_error jz_d_time_expired_restart_request s
     else
       jz_send_new i (jz_msg_new_diagnostic jz_d_time_expired_restart_request JZ_MSG_VERSION JZ_MSG_CLEAR_REQUEST 0)
         (modify_client i (\<lambda>C. jz_client_timer_reset (C\<lparr>cl_state := C4_INITIALIZED\<rparr>)) s)))"

fun check_channels :: "(u16 \<times> nat) list \<Rightarrow> jz_server \<Rightarrow> jz_server res" where
  "check_channels [] s = Inr s"
| "check_channels ((lcn, x) # t) s = bind_res (jz_channel_check_timers x s) (check_channels t)"

definition jz_client_check_timers :: "nat \<Rightarrow> jz_server \<Rightarrow> jz_server res" where
  "jz_client_check_timers i s =
     bind_res (client_at s i) (\<lambda>C.
     bind_res (check_channels (sv_order s (cl_channels C)) s) (\<lambda>s.
     let (now, s) = read_clock s in
     bind_res (client_at s i) (\<lambda>C.
     if cl_timer_type C = JZ_CLIENT_TIMER_NONE \<or> cl_timer_expiration_time C > now then Inr s
     else jz_client_do_restart_indication_expiration i
       (modify_client i (\<lambda>C. C\<lparr>cl_timer_count := cl_timer_count C + 1\<rparr>) s))))"

fun check_clients :: "nat list \<Rightarrow> jz_server \<Rightarrow> jz_server res" where
  "check_clients [] s = Inr s"
| "check_clients (i # is) s = bind_res (jz_client_check_timers i s) (check_clients is)"

definition socket_service_idle_handler :: "jz_server \<Rightarrow> jz_server res" where
  "socket_service_idle_handler s = check_clients [0..<length (sv_clients s)] s"

section \<open>Restarts keep the tables\<close>

lemma clients_modify [simp]:
  "length (sv_clients (modify_client i f s)) = length (sv_clients s)"
  "j < length (sv_clients s) \<Longrightarrow> sv_clients (modify_client i f s) ! j =
     (if i = j then f (sv_clients s ! j) else sv_clients s ! j)"
  by (simp_all add: modify_client_def nth_list_update)

lemma modify_client_others [simp]:
  "sv_heap (modify_client i f s) = sv_heap s" "sv_fresh (modify_client i f s) = sv_fresh s"
  "sv_order (modify_client i f s) = sv_order s" "sv_out (modify_client i f s) = sv_out s"
  "sv_clock (modify_client i f s) = sv_clock s" "sv_tick (modify_client i f s) = sv_tick s"
  "owner (modify_client i f s) = owner s"
  by (simp_all add: modify_client_def owner_def fun_eq_iff)

lemma stays_filter:
  assumes "stays f s"
  shows "stays f (modify_client i (\<lambda>C. C\<lparr>cl_channels := filter P (cl_channels C)\<rparr>) s)"
proof -
  let ?s = "modify_client i (\<lambda>C. C\<lparr>cl_channels := filter P (cl_channels C)\<rparr>) s"
  have "tables_ok ?s"
    using assms by (auto simp: stays_def tables_ok_def distinct_map_filter)
  then show ?thesis using assms by (simp add: stays_def outline_modify_channels)
qed

lemma untabled_filter:
  assumes "stays f s" "owner s x = Some (lcn, i)" "i < length (sv_clients s)"
  shows "untabled x (modify_client i (\<lambda>C. C\<lparr>cl_channels := filter (\<lambda>p. fst p \<noteq> lcn) (cl_channels C)\<rparr>) s)" (is "untabled x ?s")
proof -
  have "l = lcn \<and> j = i" if "j < length (sv_clients s)" "(l, x) \<in> set (cl_channels (sv_clients s ! j))" for j l
  proof -
    have "owner s x = Some (l, j)" using assms(1) that by (auto simp: stays_def tables_ok_owner)
    then show ?thesis using assms(2) by simp
  qed
  note entry = this
  have "(l, x) \<notin> set (cl_channels (sv_clients ?s ! j))" if j: "j < length (sv_clients s)" for j l
  proof
    assume "(l, x) \<in> set (cl_channels (sv_clients ?s ! j))"
    then have "(l, x) \<in> set (cl_channels (sv_clients s ! j))" "j = i \<longrightarrow> l \<noteq> lcn"
      using j by (simp_all split: if_splits)
    then show False using entry [OF j] by blast
  qed
  then have "x \<notin> snd ` set (cl_channels (sv_clients ?s ! j))" if "j < length (sv_clients s)" for j
    using that by force
  then have "\<forall>j < length (sv_clients ?s). x \<notin> snd ` set (cl_channels (sv_clients ?s ! j))"
    unfolding clients_modify(1) by blast
  then show ?thesis unfolding untabled_def all_set_conv_all_nth .
qed

lemma stays_weaken: "stays (n, g) s \<Longrightarrow> g' \<subseteq>\<^sub>m g \<Longrightarrow> stays (n, g') s"
  by (auto simp: stays_def intro: map_le_trans)

lemma stays_owners: "stays (n, g) s \<Longrightarrow> stays (n, owner s) s"
  by (simp add: stays_def)

lemma kept_restart_one:
  assumes restart: "\<And>f s. stays f s \<Longrightarrow> kept f (restart s)"
    and "stays (n, g) s" "owner s x = Some (lcn, i)" "i < length n"
  shows "kept (n, (owner s)(x := None)) (bind_res (restart s) (\<lambda>s.
    jz_channel_free x (modify_client i (\<lambda>C. C\<lparr>cl_channels := filter (\<lambda>p. fst p \<noteq> lcn) (cl_channels C)\<rparr>) s)))"
proof (rule ensures_value)
  fix t assume "restart s = Inr t"
  then have t: "stays (n, owner s) t" using restart [OF stays_owners [OF assms(2)]] by (simp add: ensures_def)
  then have "owner t x = Some (lcn, i)" using assms(3) by (auto simp: stays_def map_le_def dom_def)
  moreover have "length (sv_clients t) = length n"
    using t arg_cong [where f = length] by (fastforce simp: stays_def outline_def)
  moreover have "stays (n, (owner s)(x := None)) t"
    using t by (rule stays_weaken) (simp add: map_le_def)
  ultimately show "kept (n, (owner s)(x := None)) (jz_channel_free x
      (modify_client i (\<lambda>C. C\<lparr>cl_channels := filter (\<lambda>p. fst p \<noteq> lcn) (cl_channels C)\<rparr>) t))"
    using assms(4) by (intro kept_free stays_filter untabled_filter) simp_all
qed

lemma kept_restart_all:
  assumes restart: "\<And>f x s. stays f s \<Longrightarrow> kept f (restart x diagnostic s)"
    and "stays (n, Map.empty) s" "\<forall>(lcn, x) \<in> set t. owner s x = Some (lcn, i)"
    and "distinct (map fst t)" "i < length n"
  shows "kept (n, Map.empty) (restart_all restart diagnostic i t s)"
  using assms(2-4)
proof (induction t arbitrary: s)
  case (Cons e t)
  obtain lcn x where e: "e = (lcn, x)" by (cases e)
  let ?one = "bind_res (restart x diagnostic s) (\<lambda>s.
    jz_channel_free x (modify_client i (\<lambda>C. C\<lparr>cl_channels := filter (\<lambda>p. fst p \<noteq> lcn) (cl_channels C)\<rparr>) s))"
  have "kept (n, Map.empty) (bind_res ?one (restart_all restart diagnostic i t))"
  proof (rule ensures_value)
    fix u assume "?one = Inr u"
    then have u: "stays (n, (owner s)(x := None)) u"
      using kept_restart_one [of "restart x diagnostic", OF restart Cons.prems(1), of x lcn i] Cons.prems(2) assms(5)
      by (simp add: ensures_def e)
    have "owner u y = Some (l, i)" if "(l, y) \<in> set t" for l y
    proof -
      have "l \<noteq> lcn" using Cons.prems(3) that by (force simp: e)
      then have "y \<noteq> x" "owner s y = Some (l, i)" using Cons.prems(2) that by (auto simp: e)
      then show ?thesis using u by (auto simp: stays_def map_le_def dom_def)
    qed
    then show "kept (n, Map.empty) (restart_all restart diagnostic i t u)"
      using Cons.prems(3) stays_weaken [OF u, of Map.empty] by (intro Cons.IH) (auto simp: map_le_def)
  qed
  then show ?case by (simp add: e bind_res_assoc)
qed (simp add: ensures_Inr)

lemma kept_restart_channels:
  assumes "\<And>f x s. stays f s \<Longrightarrow> kept f (restart x diagnostic s)" "stays (n, Map.empty) s"
  shows "kept (n, Map.empty) (restart_channels restart diagnostic i s)"
  unfolding restart_channels_def
proof (rule ensures_value)
  fix C assume C: "client_at s i = Inr C"
  let ?t = "sv_order s (cl_channels C)"
  have i: "i < length (sv_clients s)" "C = sv_clients s ! i"
    using C by (auto simp: client_at_def split: if_splits)
  have "mset ?t = mset (cl_channels C)" using assms(2) by (simp add: stays_def order_ok_def)
  then have "set ?t = set (cl_channels C)" "mset (map fst ?t) = mset (map fst (cl_channels C))"
    by (auto dest: mset_eq_setD)
  then have "\<forall>(lcn, x) \<in> set ?t. owner s x = Some (lcn, i)" "distinct (map fst ?t)"
    using assms(2) i mset_eq_imp_distinct_iff by (auto simp: stays_def tables_ok_owner simp del: mset_map)
  moreover have "i < length n" using assms(2) i by (auto simp: stays_def outline_def)
  ultimately show "kept (n, Map.empty) (restart_all restart diagnostic i ?t s)"
    using assms by (intro kept_restart_all)
qed

end
