(* ===== verification/Jz_Stream.thy ===== *)
theory Jz_Stream
  imports Jz_Client
begin

text \<open>
  The message stream of a client: what the connection delivers is cut into the messages that were
  written, however the network divides it, as long as each message fits the receive buffer. The theory also says when the description of a client
  fits the buffer of the log, on which every step depends.
\<close>

section \<open>The description of a client fits its buffer\<close>

definition client_text_length :: "jz_client \<Rightarrow> nat" where
  "client_text_length C = (case cl_address C of
      Some a \<Rightarrow> length a
    | None \<Rightarrow> length (cl_inet_address_str C) + 1 + decimal_width (unat (cl_port C)))"

text \<open>
  A client that can be described: its direction is one of the four, its name has at most 40
  characters, and queue and table are small.
\<close>

definition describable :: "jz_client \<Rightarrow> bool" where
  "describable C \<longleftrightarrow> jz_iodir_validate (cl_iodir C) \<and> client_text_length C \<le> 40 \<and>
     length (cl_incoming C) < 100000 \<and> length (cl_channels C) < 100000"

lemma client_text_length_simps [simp]:
  "client_text_length (C\<lparr>cl_incoming := q\<rparr>) = client_text_length C"
  "client_text_length (C\<lparr>cl_recv_buffer := p\<rparr>) = client_text_length C"
  "client_text_length (C\<lparr>cl_channels := t\<rparr>) = client_text_length C"
  "client_text_length (C\<lparr>cl_state := st\<rparr>) = client_text_length C"
  by (simp_all add: client_text_length_def cong: option.case_cong)

lemma decimal_width_le: "n < 10 ^ k \<Longrightarrow> 0 < k \<Longrightarrow> decimal_width n \<le> k"
proof (induction n arbitrary: k rule: decimal_width.induct)
  case (1 n)
  show ?case
  proof (cases "n < 10")
    case True
    then show ?thesis using 1(3) by (subst decimal_width.simps) simp
  next
    case False
    then obtain l where l: "k = Suc l" "0 < l" using 1(2,3) by (cases k; cases "k - 1") auto
    then have "n div 10 < 10 ^ l" using 1(2) by (simp add: div_less_iff_less_mult)
    then show ?thesis using 1(1) [OF False _ l(2)] False l by (subst decimal_width.simps) simp
  qed
qed

lemma short_names_length: "jz_iodir_validate d \<Longrightarrow> \<exists>t. jz_iodir_short_name d = Inr t \<and> length t = 2"
proof -
  assume d: "jz_iodir_validate d"
  then have "unat d \<in> {0, 1, 2, 3}" by (auto simp: jz_iodir_validate_iff)
  then have "length (jz_iodir_short_names ! unat d) = 2" by (auto simp: jz_iodir_short_names_def)
  then show ?thesis using d by (simp add: jz_iodir_short_name_def)
qed

lemma describable_string:
  assumes "describable C"
  shows "jz_client_diagnostic_string C = Inr ()"
proof -
  obtain t where t: "jz_iodir_short_name (cl_iodir C) = Inr t" "length t = 2"
    using short_names_length assms by (auto simp: describable_def)
  have "decimal_width (length (cl_incoming C)) \<le> 5" "decimal_width (length (cl_channels C)) \<le> 5"
    using assms decimal_width_le [of _ 5] by (simp_all add: describable_def)
  moreover have "length (client_short_state_name (cl_state C)) \<le> 9"
    by (cases "cl_state C") (simp_all add: client_short_state_name_def)
  moreover have "max 16 (client_text_length C) \<le> 40" using assms by (simp add: describable_def)
  ultimately have "diag_string_length C t < diag_string_buffer_size"
    using t(2)
    by (simp add: diag_string_length_def diag_string_buffer_size_def
        client_text_length_def [symmetric] Let_def)
  then show ?thesis using t(1) by (simp add: jz_client_diagnostic_string_def)
qed

lemma log_client_describable:
  "i < length (sv_clients s) \<Longrightarrow> describable (sv_clients s ! i) \<Longrightarrow> log_client i s = Inr s"
  by (simp add: log_client_def client_at_def describable_string)

section \<open>Messages on the wire\<close>

definition jz_wire :: "jz_msg \<Rightarrow> bytes" where
  "jz_wire m = (case jz_msg_to_byte_array m of Inl e \<Rightarrow> [] | Inr (bs, m') \<Rightarrow> bs)"

text \<open>What arrives agrees with what was sent.\<close>

definition jz_delivered :: "jz_msg \<Rightarrow> jz_msg \<Rightarrow> bool" where
  "jz_delivered m r \<longleftrightarrow> jm_valid r \<and> jm_id r = jm_id m \<and> jm_lcn r = jm_lcn m \<and> jz_content r = jz_content m"

lemma wire_envelope:
  assumes "jz_transmissible m"
  obtains payload where "jz_put_payload m = Inr payload"
    "jz_wire m = jz_envelope JZ_MSG_SIGNATURE (jz_body m payload)"
    "length (jz_body m payload) \<le> JZ_MSG_MAX_PAYLOAD_LENGTH"
proof -
  have s: "jz_sendable m" "jm_signature m = JZ_MSG_SIGNATURE" using assms by (simp_all add: jz_transmissible_def)
  from to_byte_array_eq [OF s(1)] obtain payload m' where p: "jz_put_payload m = Inr payload"
    "jz_msg_to_byte_array m = Inr (jz_envelope JZ_MSG_SIGNATURE (jz_body m payload), m')" by (auto simp: s(2))
  moreover have "length (jz_body m payload) \<le> JZ_MSG_MAX_PAYLOAD_LENGTH"
    using frame_payload [OF s(1)] p(1) assms by (auto simp: jz_transmissible_def length_jz_body)
  ultimately show ?thesis using that by (simp add: jz_wire_def)
qed

lemma parse_wire:
  assumes "jz_transmissible m"
  shows "\<exists>r. jz_buffer_parse_into_message (jz_wire m @ rest) = Inr (length (jz_wire m), Some r, False, False) \<and>
    jz_delivered m r"
proof -
  from wire_envelope [OF assms] obtain payload where p: "jz_put_payload m = Inr payload"
    "jz_wire m = jz_envelope JZ_MSG_SIGNATURE (jz_body m payload)"
    "length (jz_body m payload) \<le> JZ_MSG_MAX_PAYLOAD_LENGTH" by blast
  then show ?thesis using parse_envelope [OF assms p(1,3), of rest] by (simp add: jz_delivered_def)
qed

lemma wire_long:
  assumes "jz_transmissible m"
  shows "12 \<le> length (jz_wire m)"
proof -
  from wire_envelope [OF assms] obtain body where "jz_wire m = jz_envelope JZ_MSG_SIGNATURE body" by blast
  then show ?thesis by (simp add: length_jz_envelope jz_sizes)
qed

text \<open>The beginning of a message that is not there yet.\<close>

definition unfinished :: "bytes \<Rightarrow> bool" where
  "unfinished p \<longleftrightarrow> (\<exists>m q. jz_transmissible m \<and> q \<noteq> [] \<and> jz_wire m = p @ q)"

lemma parse_unfinished:
  assumes "unfinished p" "p \<noteq> []"
  shows "jz_buffer_parse_into_message p = Inr (0, None, False, False)"
proof -
  obtain m q where m: "jz_transmissible m" "q \<noteq> []" "jz_wire m = p @ q" using assms(1) by (auto simp: unfinished_def)
  from wire_envelope [OF m(1)] obtain body where w: "jz_wire m = jz_envelope JZ_MSG_SIGNATURE body"
    "length body \<le> JZ_MSG_MAX_PAYLOAD_LENGTH" by blast
  have head: "take 8 (jz_wire m) = PUT_NUMBER4 JZ_MSG_SIGNATURE @ PUT_NUMBER4 (of_nat (length body))"
    by (simp add: w jz_envelope_def)
  have "signed p \<and> \<not> complete p" if "12 \<le> length p"
  proof -
    have "take 8 p = PUT_NUMBER4 JZ_MSG_SIGNATURE @ PUT_NUMBER4 (of_nat (length body))"
      using head that by (simp add: m(3))
    then have p: "p = PUT_NUMBER4 JZ_MSG_SIGNATURE @ PUT_NUMBER4 (of_nat (length body)) @ drop 8 p"
      using append_take_drop_id [of 8 p] by (metis append_assoc)
    have n: "body_len p = length body"
      using w(2) by (subst p) (simp add: body_len_def GET_PUT_NUMBER4 unat_of_nat_u32 jz_sizes)
    have "length p < msg_size (length body)"
      using m(2,3) arg_cong [OF w(1), of length] length_greater_0_conv [of q]
      by (simp add: length_jz_envelope msg_size_def jz_sizes del: length_greater_0_conv)
    then have "\<not> complete p" using complete_small [of p] n w(2) by simp
    moreover have "signed p" by (subst p) (simp add: signed_def GET_PUT_NUMBER4)
    ultimately show ?thesis by simp
  qed
  then show ?thesis using parse_incomplete [OF assms(2)] by (auto simp: enveloped_def jz_sizes)
qed

lemma demo_transmissible: "jz_transmissible jz_demo_data"
  by (simp add: jz_transmissible_def jz_demo_data_def jz_sendable_def MSG_HEADER_def jz_msg_new0_def jz_ids
      JZ_MSG_COUNT_def JZ_MSG_MAX_LCN_def jz_frame_size_def RAW_SIZE_def Let_def jz_sizes text_of_def wire_string_def)

lemma demo_wire_fits: "length (jz_wire jz_demo_data) \<le> CLIENT_RECV_BUFFER_SIZE"
proof -
  obtain payload where p: "jz_wire jz_demo_data = jz_envelope JZ_MSG_SIGNATURE (jz_body jz_demo_data payload)"
      "jz_put_payload jz_demo_data = Inr payload"
    using wire_envelope [OF demo_transmissible] by blast
  have "length payload < 100"
    using p(2) by (auto simp: jz_put_payload_def jz_demo_data_def jz_ids Let_def MSG_HEADER_def jz_msg_new0_def text_of_def PUT_RAW_def
        bind_res_Inr PUT_NUMBER4_def PUT_NUMBER2_def PUT_NUMBER1_def)
  then have "length payload + 4 - length payload mod 4 \<le> 1008" by linarith
  then show ?thesis using \<open>length payload < 100\<close> by (simp add: p(1) length_jz_envelope length_jz_body CLIENT_RECV_BUFFER_SIZE_def jz_sizes
        JZ_MSG_PADDING_LENGTH_def)
qed

lemma unfinished_demo: "n < 12 \<Longrightarrow> unfinished (take n (jz_wire jz_demo_data))"
  unfolding unfinished_def
  using demo_transmissible wire_long [OF demo_transmissible]
  by (intro exI [of _ jz_demo_data] exI [of _ "drop n (jz_wire jz_demo_data)"]) simp

section \<open>Cutting the stream\<close>

lemma modify_client_twice:
  "i < length (sv_clients s) \<Longrightarrow> modify_client i f (modify_client i g s) = modify_client i (\<lambda>C. f (g C)) s"
  by (simp add: modify_client_def)

lemma modify_client_cong:
  "f (sv_clients s ! i) = g (sv_clients s ! i) \<Longrightarrow> modify_client i f s = modify_client i g s"
  by (simp add: modify_client_def)

lemma parse_stream:
  assumes "\<forall>m \<in> set ms. jz_transmissible m" "unfinished rest" "i < length (sv_clients s)"
    "describable (sv_clients s ! i)" "length (cl_incoming (sv_clients s ! i)) + length ms < 100000"
  shows "\<exists>queue. list_all2 jz_delivered ms queue \<and>
    parse_buffer i (concat (map jz_wire ms) @ rest) s =
      Inr ((True, rest), modify_client i (\<lambda>C. C\<lparr>cl_incoming := cl_incoming C @ queue\<rparr>) s)"
  using assms
proof (induction ms arbitrary: s)
  case Nil
  have "modify_client i (\<lambda>C. C\<lparr>cl_incoming := cl_incoming C @ []\<rparr>) s = s" by (simp add: modify_client_def)
  moreover have "parse_buffer i rest s = Inr ((True, rest), s)"
    using Nil.prems(2) parse_unfinished by (subst parse_buffer.simps) simp
  ultimately show ?case by simp
next
  case (Cons m ms)
  obtain r where r: "jz_buffer_parse_into_message (jz_wire m @ concat (map jz_wire ms) @ rest) =
      Inr (length (jz_wire m), Some r, False, False)" "jz_delivered m r"
    using parse_wire [of m] Cons.prems(1) by fastforce
  let ?s = "modify_client i (\<lambda>C. C\<lparr>cl_incoming := cl_incoming C @ [r]\<rparr>) s"
  have d: "describable (sv_clients ?s ! i)"
    using Cons.prems(3,4,5) by (simp add: describable_def)
  obtain queue where queue: "list_all2 jz_delivered ms queue"
    "parse_buffer i (concat (map jz_wire ms) @ rest) ?s =
      Inr ((True, rest), modify_client i (\<lambda>C. C\<lparr>cl_incoming := cl_incoming C @ queue\<rparr>) ?s)"
    using Cons.IH [of ?s] Cons.prems d by auto
  have w: "jz_wire m \<noteq> []" using wire_long [of m] Cons.prems(1) by auto
  have l: "log_client i ?s = Inr ?s" using log_client_describable [OF _ d] Cons.prems(3) by simp
  have "parse_buffer i (concat (map jz_wire (m # ms)) @ rest) s = parse_buffer i (concat (map jz_wire ms) @ rest) ?s"
    using w by (subst parse_buffer.simps) (simp add: r(1) l)
  then have "parse_buffer i (concat (map jz_wire (m # ms)) @ rest) s =
      Inr ((True, rest), modify_client i (\<lambda>C. C\<lparr>cl_incoming := cl_incoming C @ r # queue\<rparr>) s)"
    using queue(2) Cons.prems(3) by (simp add: modify_client_twice)
  then show ?case using r(2) queue(1) by (intro exI [of _ "r # queue"]) simp
qed

text \<open>
  The position in a stream of messages: the bytes in the buffer are the beginning of the next message,
  and not the whole of it.
\<close>

fun within_message :: "bytes \<Rightarrow> jz_msg list \<Rightarrow> bool" where
  "within_message p [] = (p = [])"
| "within_message p (m # ms) = (length p < length (jz_wire m))"

lemma append_longer:
  assumes "p @ q = a @ b" "length a \<le> length p"
  obtains p' where "p = a @ p'" "p' @ q = b"
proof -
  have "take (length a) p = a" using arg_cong [OF assms(1), of "take (length a)"] assms(2) by simp
  then have "p = a @ drop (length a) p" using append_take_drop_id [of "length a" p] by simp
  moreover have "drop (length a) p @ q = b" using arg_cong [OF assms(1), of "drop (length a)"] assms(2) by simp
  ultimately show thesis using that by blast
qed

lemma cut_stream:
  assumes "p @ q = concat (map jz_wire ms)"
  shows "\<exists>done left rest. ms = done @ left \<and> p = concat (map jz_wire done) @ rest \<and> within_message rest left"
  using assms
proof (induction ms arbitrary: p)
  case Nil
  then show ?case by simp
next
  case (Cons m ms)
  show ?case
  proof (cases "length p < length (jz_wire m)")
    case True
    then show ?thesis by (intro exI [of _ "[]"] exI [of _ "m # ms"] exI [of _ p]) simp
  next
    case False
    then obtain p' where p': "p = jz_wire m @ p'" "p' @ q = concat (map jz_wire ms)"
      using append_longer [of p q "jz_wire m" "concat (map jz_wire ms)"] Cons.prems by auto
    obtain ds left rest where "ms = ds @ left" "p' = concat (map jz_wire ds) @ rest" "within_message rest left"
      using Cons.IH [OF p'(2)] by blast
    then show ?thesis using p'(1) by (intro exI [of _ "m # ds"] exI [of _ left] exI [of _ rest]) simp
  qed
qed

lemma within_unfinished:
  assumes "within_message rest ms" "rest @ q = concat (map jz_wire ms)" "\<forall>m \<in> set ms. jz_transmissible m"
  shows "unfinished rest"
proof (cases ms)
  case Nil
  then show ?thesis using assms(1) unfinished_demo [of 0] by simp
next
  case (Cons m ns)
  then have "jz_wire m @ concat (map jz_wire ns) = rest @ q" "length rest < length (jz_wire m)" using assms(1,2) by simp_all
  then obtain q' where "jz_wire m = rest @ q'" "q' \<noteq> []"
    using append_longer [of "jz_wire m" "concat (map jz_wire ns)" rest q] by (metis append_Nil2 less_imp_le less_irrefl)
  then show ?thesis using assms(3) Cons unfolding unfinished_def by (metis list.set_intros(1))
qed

lemma parse_delivered:
  assumes "i < length (sv_clients s)" "describable (sv_clients s ! i)"
    and "cl_recv_buffer (sv_clients s ! i) = concat (map jz_wire ms) @ rest"
    and "\<forall>m \<in> set ms. jz_transmissible m" "unfinished rest"
    and "length (cl_incoming (sv_clients s ! i)) + length ms < 100000"
  shows "\<exists>queue. list_all2 jz_delivered ms queue \<and>
    jz_client_parse_recv_buffer_into_messages i s = Inr (True, modify_client i (\<lambda>C.
      C\<lparr>cl_incoming := cl_incoming C @ queue, cl_recv_buffer := rest\<rparr>) s)"
proof -
  obtain queue where queue: "list_all2 jz_delivered ms queue"
    "parse_buffer i (concat (map jz_wire ms) @ rest) s =
      Inr ((True, rest), modify_client i (\<lambda>C. C\<lparr>cl_incoming := cl_incoming C @ queue\<rparr>) s)"
    using parse_stream [OF assms(4,5,1,2,6)] by auto
  then show ?thesis
    using assms(1,3)
    by (intro exI [of _ queue]) (simp add: jz_client_parse_recv_buffer_into_messages_def client_at_def modify_client_twice)
qed

text \<open>
  C17. The stream is cut where it was put together. A client writes messages, each of which fits
  the receive buffer of 1024 bytes; so far a part of the next message is in the buffer, and some
  of the bytes that follow it have arrived. Then reading and parsing succeed, whatever the part and however many bytes arrived:
  the read takes the bytes there is room for, exactly the messages that are now complete are
  appended to the queue in their order, with the same types, channel numbers and contents, and
  nothing else changes. Again a part of the next message is in the buffer, and the bytes that
  were not read follow it, so the next read finds the same situation.
  Messages of 1025 to 1044 bytes, which the serializer makes too, do not fit: they can fill the buffer, and
  then the assertion at the beginning of the next read fails.
\<close>

theorem jz_stream_delivered:
  assumes "i < length (sv_clients s)" "describable (sv_clients s ! i)"
    and "\<forall>m \<in> set ms. jz_transmissible m \<and> length (jz_wire m) \<le> CLIENT_RECV_BUFFER_SIZE"
    and "within_message (cl_recv_buffer (sv_clients s ! i)) ms" "bs \<noteq> []"
    and "cl_recv_buffer (sv_clients s ! i) @ bs @ later = concat (map jz_wire ms)"
    and "length (cl_incoming (sv_clients s ! i)) + length ms < 100000"
  shows "\<exists>t complete left queue rest. jz_client_read_into_recv_buffer i (Received bs) s = Inr (Some t) \<and>
    jz_client_parse_recv_buffer_into_messages i t = Inr (True, modify_client i (\<lambda>C.
      C\<lparr>cl_incoming := cl_incoming C @ queue, cl_recv_buffer := rest\<rparr>) s) \<and>
    ms = complete @ left \<and> list_all2 jz_delivered complete queue \<and> within_message rest left \<and>
    rest @ drop (CLIENT_RECV_BUFFER_SIZE - length (cl_recv_buffer (sv_clients s ! i))) bs @ later = concat (map jz_wire left)"
proof -
  let ?buf = "cl_recv_buffer (sv_clients s ! i)"
  let ?n = "CLIENT_RECV_BUFFER_SIZE - length ?buf"
  let ?t = "modify_client i (\<lambda>C. C\<lparr>cl_recv_buffer := cl_recv_buffer C @ take ?n bs\<rparr>) s"
  have room: "length ?buf < CLIENT_RECV_BUFFER_SIZE"
    using assms(3,4) by (cases ms) (auto simp: CLIENT_RECV_BUFFER_SIZE_def)
  then have read: "jz_client_read_into_recv_buffer i (Received bs) s = Inr (Some ?t)"
    using assms(1,2,5) by (simp add: jz_client_read_into_recv_buffer_def log_client_describable client_at_def Let_def)
  have all: "(?buf @ take ?n bs) @ drop ?n bs @ later = concat (map jz_wire ms)" using assms(6)
    by (metis append.assoc append_take_drop_id)
  obtain ds left rest where cut: "ms = ds @ left" "?buf @ take ?n bs = concat (map jz_wire ds) @ rest" "within_message rest left"
    using cut_stream [OF all] by blast
  then have follow: "rest @ drop ?n bs @ later = concat (map jz_wire left)" using all by simp
  have "unfinished rest" using within_unfinished [OF cut(3) follow] assms(3) cut(1) by simp
  moreover have "describable (sv_clients ?t ! i)" using assms(1,2) by (simp add: describable_def)
  ultimately obtain queue where "list_all2 jz_delivered ds queue"
      "jz_client_parse_recv_buffer_into_messages i ?t = Inr (True, modify_client i (\<lambda>C.
        C\<lparr>cl_incoming := cl_incoming C @ queue, cl_recv_buffer := rest\<rparr>) ?t)"
    using parse_delivered [of i ?t ds rest] assms(1,3,7) cut by auto
  then show ?thesis using read cut(1,3) follow assms(1) by (auto simp: modify_client_twice)
qed

text \<open>A client that was just connected.\<close>

definition demo_client :: jz_client where
  "demo_client = jz_client_new (map of_char ''127.0.0.1'') 5000"

definition demo_server :: "jz_client list \<Rightarrow> jz_server" where
  "demo_server cs = \<lparr>sv_clients = cs, sv_heap = (\<lambda>_. None), sv_fresh = 0, sv_out = [], sv_clock = (\<lambda>_. 0),
     sv_tick = 0, sv_order = (\<lambda>t. t)\<rparr>"

lemma describable_demo: "describable demo_client"
proof -
  have "decimal_width 5000 \<le> 5" by (rule decimal_width_le) simp_all
  then show ?thesis
    by (simp add: describable_def client_text_length_def demo_client_def jz_client_new_def jz_iodir_validate_def)
qed

text \<open>Three bytes of a message were left; the rest of it and five bytes of the next one arrive.\<close>

theorem jz_stream_delivered_witness:
  "\<exists>t complete left queue rest. jz_client_read_into_recv_buffer 0
      (Received (drop 3 (jz_wire jz_demo_data) @ take 5 (jz_wire jz_demo_data)))
      (demo_server [demo_client\<lparr>cl_recv_buffer := take 3 (jz_wire jz_demo_data)\<rparr>]) = Inr (Some t) \<and>
    jz_client_parse_recv_buffer_into_messages 0 t = Inr (True, modify_client 0 (\<lambda>C.
      C\<lparr>cl_incoming := cl_incoming C @ queue, cl_recv_buffer := rest\<rparr>)
      (demo_server [demo_client\<lparr>cl_recv_buffer := take 3 (jz_wire jz_demo_data)\<rparr>])) \<and>
    [jz_demo_data, jz_demo_data] = complete @ left \<and> list_all2 jz_delivered complete queue \<and> within_message rest left \<and>
    rest @ drop (CLIENT_RECV_BUFFER_SIZE - length (cl_recv_buffer (sv_clients
        (demo_server [demo_client\<lparr>cl_recv_buffer := take 3 (jz_wire jz_demo_data)\<rparr>]) ! 0)))
      (drop 3 (jz_wire jz_demo_data) @ take 5 (jz_wire jz_demo_data)) @ drop 5 (jz_wire jz_demo_data) =
      concat (map jz_wire left)"
  by (rule jz_stream_delivered)
    (use describable_demo wire_long [OF demo_transmissible] demo_transmissible demo_wire_fits in
      \<open>simp_all add: demo_server_def describable_def client_text_length_def demo_client_def jz_client_new_def\<close>)

end
