(* ===== verification/Jz_Calls.thy ===== *)
theory Jz_Calls
  imports Jz_Stream
begin

text \<open>
  Calls between two clients of the application server: how DATA, CLEAR and CALL messages of one
  channel reach the channel at the other end and its client.
\<close>

section \<open>Sending to a client that can be described\<close>

definition ready_client :: "jz_server \<Rightarrow> nat \<Rightarrow> bool" where
  "ready_client s i \<longleftrightarrow> i < length (sv_clients s) \<and> describable (sv_clients s ! i) \<and>
     cl_address (sv_clients s ! i) \<noteq> None"

text \<open>What can be sent without a fault.\<close>

definition can_send :: "jz_msg \<Rightarrow> bool" where
  "can_send M \<longleftrightarrow> jz_sendable M \<and> (jm_id M = JZ_MSG_DIAGNOSTIC \<longrightarrow> (\<exists>t. jz_diag_name (jm_diagnostic M) = Inr t))"

lemma send_msg_ready:
  assumes "i < length (sv_clients s)" "describable (sv_clients s ! i)" "can_send M"
  shows "jz_client_send_msg i M s = Inr (s\<lparr>sv_out := sv_out s @ [(i, M)]\<rparr>)"
proof -
  obtain b where "jz_msg_to_byte_array M = Inr b"
    using to_byte_array_eq [of M] assms(3) by (auto simp: can_send_def)
  moreover obtain t where "(if jm_id M = JZ_MSG_DIAGNOSTIC then jz_diag_name (jm_diagnostic M) else Inr []) = Inr t"
    using assms(3) by (cases "jm_id M = JZ_MSG_DIAGNOSTIC") (auto simp: can_send_def)
  ultimately show ?thesis
    using assms(1,2) by (simp add: jz_client_send_msg_def client_at_def describable_string)
qed

lemma send_new_ready:
  "ready_client s i \<Longrightarrow> can_send M \<Longrightarrow> jz_send_new i (Inr M) s = Inr (s\<lparr>sv_out := sv_out s @ [(i, M)]\<rparr>)"
  by (simp add: jz_send_new_def send_msg_ready ready_client_def)

text \<open>The messages that the channels build.\<close>

definition jz_data_msg :: "u16 \<Rightarrow> byte \<Rightarrow> u16 \<Rightarrow> u16 \<Rightarrow> bytes \<Rightarrow> jz_msg" where
  "jz_data_msg lcn q pr ps data = (MSG_HEADER jz_msg_new0)\<lparr>jm_id := JZ_MSG_DATA, jm_lcn := lcn, jm_q := q,
     jm_pr := pr, jm_ps := ps, jm_data := Some data\<rparr>"

definition jz_cause_msg :: "byte \<Rightarrow> u16 \<Rightarrow> byte \<Rightarrow> byte \<Rightarrow> jz_msg" where
  "jz_cause_msg kind lcn cause diagnostic = (MSG_HEADER jz_msg_new0)\<lparr>jm_id := kind, jm_lcn := lcn,
     jm_cause := cause, jm_diagnostic := diagnostic\<rparr>"

definition jz_rr_msg :: "u16 \<Rightarrow> u16 \<Rightarrow> jz_msg" where
  "jz_rr_msg lcn pr = (MSG_HEADER jz_msg_new0)\<lparr>jm_id := JZ_MSG_RR, jm_lcn := lcn, jm_pr := pr\<rparr>"

lemma new_messages:
  "jz_msg_new_data lcn q pr ps data = Inr (jz_data_msg lcn q pr ps data)"
  "jz_msg_new_clear_request lcn cause diagnostic = Inr (jz_cause_msg JZ_MSG_CLEAR_REQUEST lcn cause diagnostic)"
  "jz_msg_new_reset_request lcn cause diagnostic = Inr (jz_cause_msg JZ_MSG_RESET_REQUEST lcn cause diagnostic)"
  "jz_msg_new_rr lcn pr = Inr (jz_rr_msg lcn pr)"
  by (simp_all add: jz_msg_new_data_def jz_msg_new_clear_request_def jz_msg_new_reset_request_def
      jz_msg_new_rr_def jz_data_msg_def jz_cause_msg_def jz_rr_msg_def MSG_ERROR_CHECK_def
      jz_msg_validate_def MSG_HEADER_def jz_ids JZ_MSG_COUNT_def jz_msg_new0_def)

lemma message_fields [simp]:
  "jm_id (jz_data_msg lcn q pr ps data) = JZ_MSG_DATA" "jm_lcn (jz_data_msg lcn q pr ps data) = lcn"
  "jm_q (jz_data_msg lcn q pr ps data) = q" "jm_pr (jz_data_msg lcn q pr ps data) = pr"
  "jm_ps (jz_data_msg lcn q pr ps data) = ps" "jm_data (jz_data_msg lcn q pr ps data) = Some data"
  "jm_id (jz_cause_msg kind lcn cause diagnostic) = kind" "jm_lcn (jz_cause_msg kind lcn cause diagnostic) = lcn"
  "jm_cause (jz_cause_msg kind lcn cause diagnostic) = cause"
  "jm_diagnostic (jz_cause_msg kind lcn cause diagnostic) = diagnostic"
  "jm_id (jz_rr_msg lcn pr) = JZ_MSG_RR" "jm_lcn (jz_rr_msg lcn pr) = lcn" "jm_pr (jz_rr_msg lcn pr) = pr"
  by (simp_all add: jz_data_msg_def jz_cause_msg_def jz_rr_msg_def)

lemma can_send_messages [simp]:
  "can_send (jz_data_msg lcn q pr ps data)" "can_send (jz_rr_msg lcn pr)"
  "can_send (jz_cause_msg JZ_MSG_CLEAR_REQUEST lcn cause diagnostic)"
  "can_send (jz_cause_msg JZ_MSG_RESET_REQUEST lcn cause diagnostic)"
  by (simp_all add: can_send_def jz_sendable_def jz_ids JZ_MSG_COUNT_def)

lemmas can_send_numerals [simp] = can_send_messages(3,4) [unfolded jz_ids]

section \<open>Two channels in a call\<close>

definition jz_in_call :: "jz_server \<Rightarrow> nat \<Rightarrow> nat \<Rightarrow> jz_channel \<Rightarrow> jz_channel \<Rightarrow> bool" where
  "jz_in_call s x y X Y \<longleftrightarrow> x \<noteq> y \<and> sv_heap s x = Some X \<and> sv_heap s y = Some Y \<and>
     jc_peer X = Some y \<and> jc_peer Y = Some x \<and>
     jc_state X = D1_FLOW_CONTROL_READY \<and> jc_state Y = D1_FLOW_CONTROL_READY \<and>
     ready_client s (jc_parent X) \<and> ready_client s (jc_parent Y)"

lemma heap_access:
  "sv_heap s x = Some X \<Longrightarrow> channel_at s x = Inr X"
  "sv_heap s x = Some X \<Longrightarrow> modify_channel x f s = Inr (s\<lparr>sv_heap := (sv_heap s)(x \<mapsto> f X)\<rparr>)"
  by (simp_all add: channel_at_def modify_channel_def)

lemma ready_client_simps [simp]:
  "ready_client (s\<lparr>sv_heap := h\<rparr>) i = ready_client s i" "ready_client (s\<lparr>sv_out := q\<rparr>) i = ready_client s i"
  "ready_client (s\<lparr>sv_tick := t\<rparr>) i = ready_client s i"
  by (simp_all add: ready_client_def)

lemma client_address_ready: "ready_client s i \<Longrightarrow> \<exists>a. client_address s i = Inr a"
  by (auto simp: ready_client_def client_address_def client_at_def)

text \<open>The trace output does nothing when both clients have names.\<close>

lemma dump_ready:
  assumes "sv_heap s x = Some X" "ready_client s (jc_parent X)"
    and "\<And>y. jc_peer X = Some y \<Longrightarrow> \<exists>Y. sv_heap s y = Some Y \<and> ready_client s (jc_parent Y)"
  shows "jz_channel_dump x s = Inr s"
proof -
  obtain a where a: "client_address s (jc_parent X) = Inr a" using client_address_ready [OF assms(2)] by blast
  show ?thesis
  proof (cases "jc_peer X")
    case None
    then show ?thesis using assms(1) a by (simp add: jz_channel_dump_def heap_access)
  next
    case (Some y)
    then obtain Y where Y: "sv_heap s y = Some Y" "ready_client s (jc_parent Y)" using assms(3) by blast
    then obtain b where "client_address s (jc_parent Y) = Inr b" using client_address_ready by blast
    then show ?thesis using Some Y(1) assms(1) a by (simp add: jz_channel_dump_def heap_access)
  qed
qed

text \<open>A channel and the channel it points to, with clients that can be told.\<close>

definition settled :: "jz_server \<Rightarrow> nat \<Rightarrow> jz_channel \<Rightarrow> bool" where
  "settled s x X \<longleftrightarrow> sv_heap s x = Some X \<and> ready_client s (jc_parent X) \<and>
     (case jc_peer X of None \<Rightarrow> True
      | Some y \<Rightarrow> (case sv_heap s y of None \<Rightarrow> False | Some Y \<Rightarrow> ready_client s (jc_parent Y)))"

lemma settled_dump: "settled s x X \<Longrightarrow> jz_channel_dump x s = Inr s"
  by (rule dump_ready [of s x X]) (auto simp: settled_def split: option.splits)

lemma settled_out [simp]: "settled (s\<lparr>sv_out := q\<rparr>) x X = settled s x X"
  by (simp add: settled_def cong: option.case_cong)

lemma settled_update:
  assumes "settled s x X" "jc_parent X' = jc_parent X" "jc_peer X' = jc_peer X"
  shows "settled (s\<lparr>sv_heap := (sv_heap s)(x \<mapsto> X')\<rparr>) x X'"
  using assms by (auto simp: settled_def split: option.splits)

lemma in_call_settled: "jz_in_call s x y X Y \<Longrightarrow> settled s x X \<and> settled s y Y"
  by (simp add: jz_in_call_def settled_def)

section \<open>DATA in a call\<close>

text \<open>At the receiving end: the data is passed to the client, or an assertion fails.\<close>

lemma server_data:
  assumes "settled s y Y" "jc_state Y = D1_FLOW_CONTROL_READY" "packet_bytes (jc_packet Y) = Inr n"
    "length d \<le> n" "d \<noteq> []"
  shows "jz_pass_new y (Inr (jz_data_msg lcn q pr ps d)) s =
    (if seq_in_range ps (jc_peer_pr Y) (jz_window_top (jc_peer_pr Y) (jc_window Y))
     then Inr (s\<lparr>sv_heap := (sv_heap s)(y \<mapsto> Y\<lparr>jc_peer_pr := pr, jc_peer_ps := ps\<rparr>),
       sv_out := sv_out s @ [(jc_parent Y, jz_data_msg lcn q pr ps d)]\<rparr>)
     else Inl Assert_failed)"
proof -
  let ?Y = "Y\<lparr>jc_peer_pr := pr, jc_peer_ps := ps\<rparr>"
  have Y: "sv_heap s y = Some Y" "ready_client s (jc_parent Y)" using assms(1) by (auto simp: settled_def)
  have "settled (s\<lparr>sv_heap := (sv_heap s)(y \<mapsto> ?Y)\<rparr>) y ?Y" by (rule settled_update [OF assms(1)]) simp_all
  then have "settled (s\<lparr>sv_heap := (sv_heap s)(y \<mapsto> ?Y),
      sv_out := sv_out s @ [(jc_parent Y, jz_data_msg lcn q pr ps d)]\<rparr>) y ?Y" by simp
  note settled_dump [OF this]
  then show ?thesis
    using Y assms(2-5)
    by (simp add: jz_pass_new_def jz_channel_process_server_message_def heap_access jz_ids
        jz_channel_process_server_message_in_D1_flow_control_ready_state_def jz_channel_do_server_data_def
        copy_data_def c_assert_def new_messages send_new_ready)
qed





lemma smod_8: "int n smod 8 = int (n mod 8)"
  by (simp add: smod_int_alt_def sgn_if zmod_int)



lemma next_ps: "jz_next_ps ps = of_nat ((unat ps + 1) mod 8)"
proof -
  have "uint ps + 1 = int (unat ps + 1)" unfolding uint_nat by linarith
  moreover have "uint SEQ_MAX = 8" by (simp add: SEQ_MAX_def)
  ultimately have "jz_next_ps ps = word_of_int (int (unat ps + 1) smod 8)" by (simp only: jz_next_ps_def)
  then show ?thesis unfolding smod_8 by simp
qed


lemma data_accepted:
  assumes "client_data_refusal X msg d = Inr None"
  shows "\<exists>n. packet_bytes (jc_packet X) = Inr n \<and> length d \<le> n \<and> d \<noteq> []"
  using assms by (auto simp: client_data_refusal_def bind_res_Inr split: if_splits)

text \<open>What becomes of the sender.\<close>

definition data_sent :: "jz_msg \<Rightarrow> jz_channel \<Rightarrow> jz_channel" where
  "data_sent msg X = X\<lparr>jc_client_ps := of_nat ((unat (jc_client_ps X) + 1) mod 8), jc_client_pr := jm_pr msg\<rparr>"

lemma data_sent_eq: "data_sent msg X = X\<lparr>jc_client_ps := jz_next_ps (jc_client_ps X), jc_client_pr := jm_pr msg\<rparr>"
  by (simp add: data_sent_def next_ps)

definition data_forwarded :: "jz_server \<Rightarrow> nat \<Rightarrow> nat \<Rightarrow> jz_channel \<Rightarrow> jz_channel \<Rightarrow> jz_msg \<Rightarrow> bytes \<Rightarrow> jz_server" where
  "data_forwarded s x y X Y msg d = s\<lparr>sv_heap := (sv_heap s)(x \<mapsto> data_sent msg X,
       y \<mapsto> Y\<lparr>jc_peer_pr := jm_pr msg, jc_peer_ps := jm_ps msg\<rparr>),
     sv_out := sv_out s @ [(jc_parent Y, jz_data_msg (jc_lcn Y) (jm_q msg) (jm_pr msg) (jm_ps msg) d)]\<rparr>"

lemma client_data_accepted:
  assumes c: "jz_in_call s x y X Y" and p: "jc_packet Y = jc_packet X"
    and m: "jm_id msg = JZ_MSG_DATA" "jm_data msg = Some d" "client_data_refusal X msg d = Inr None"
  shows "jz_channel_process_message x msg s =
    (if seq_in_range (jm_ps msg) (jc_peer_pr Y) (jz_window_top (jc_peer_pr Y) (jc_window Y))
     then Inr (data_forwarded s x y X Y msg d) else Inl Assert_failed)"
proof -
  let ?s = "s\<lparr>sv_heap := (sv_heap s)(x \<mapsto> data_sent msg X)\<rparr>"
  have X: "sv_heap s x = Some X" "jc_peer X = Some y" "jc_state X = D1_FLOW_CONTROL_READY"
    and Y: "sv_heap s y = Some Y" "jc_peer Y = Some x" "jc_state Y = D1_FLOW_CONTROL_READY" "x \<noteq> y"
    and r: "ready_client s (jc_parent X)" "ready_client s (jc_parent Y)"
    using c by (simp_all add: jz_in_call_def)
  have "settled ?s y Y" using X Y r by (simp add: settled_def data_sent_eq)
  then have fwd: "jz_pass_new y (Inr (jz_data_msg (jc_lcn Y) (jm_q msg) (jm_pr msg) (jm_ps msg) d)) ?s =
    (if seq_in_range (jm_ps msg) (jc_peer_pr Y) (jz_window_top (jc_peer_pr Y) (jc_window Y))
     then Inr (data_forwarded s x y X Y msg d) else Inl Assert_failed)"
    using server_data [of ?s y Y _ d] Y(3) data_accepted [OF m(3)] p by (auto simp: data_forwarded_def)
  have "settled (data_forwarded s x y X Y msg d) x (data_sent msg X)"
    using X Y r by (simp add: settled_def data_forwarded_def data_sent_eq)
  note settled_dump [OF this]
  then show ?thesis
    using X Y m fwd
    by (simp add: jz_channel_process_message_def heap_access jz_ids copy_data_def
        jz_channel_process_message_in_D1_flow_control_ready_state_def jz_channel_do_client_data_def
        to_peer_def new_messages data_sent_eq)
qed

text \<open>An indication from the server starts a timer and is passed to the client.\<close>

definition reset_told :: "int \<Rightarrow> jz_channel \<Rightarrow> jz_channel" where
  "reset_told now X = start_timer TIMER_RESET_INDICATION TIMER_RESET_INDICATION_DURATION_IN_SECONDS now
     (X\<lparr>jc_state := D3_SERVER_RESET_INDICATION\<rparr>)"

definition clear_told :: "int \<Rightarrow> jz_channel \<Rightarrow> jz_channel" where
  "clear_told now X = start_timer TIMER_CLEAR_INDICATION TIMER_CLEAR_INDICATION_DURATION_IN_SECONDS now
     (X\<lparr>jc_state := P7_SERVER_CLEAR_INDICATION, jc_peer := None\<rparr>)"

lemma start_timer_simps [simp]:
  "jc_peer (start_timer t n now X) = jc_peer X" "jc_state (start_timer t n now X) = jc_state X"
  "jc_client_ps (start_timer t n now X) = jc_client_ps X" "jc_client_pr (start_timer t n now X) = jc_client_pr X"
  "jc_peer_ps (start_timer t n now X) = jc_peer_ps X" "jc_peer_pr (start_timer t n now X) = jc_peer_pr X"
  by (simp_all add: start_timer_def)

lemma told_simps [simp]:
  "jc_peer (reset_told now X) = jc_peer X" "jc_parent (reset_told now X) = jc_parent X"
  "jc_lcn (reset_told now X) = jc_lcn X" "jc_state (reset_told now X) = D3_SERVER_RESET_INDICATION"
  "jc_peer (clear_told now X) = None" "jc_parent (clear_told now X) = jc_parent X"
  "jc_lcn (clear_told now X) = jc_lcn X" "jc_state (clear_told now X) = P7_SERVER_CLEAR_INDICATION"
  by (simp_all add: reset_told_def clear_told_def)

lemma settled_tick [simp]: "settled (s\<lparr>sv_tick := t\<rparr>) x X = settled s x X"
  by (simp add: settled_def cong: option.case_cong)

definition told :: "jz_server \<Rightarrow> nat \<Rightarrow> jz_channel \<Rightarrow> nat \<Rightarrow> jz_msg \<Rightarrow> jz_server" where
  "told s y Y i m = s\<lparr>sv_tick := Suc (sv_tick s), sv_heap := (sv_heap s)(y \<mapsto> Y), sv_out := sv_out s @ [(i, m)]\<rparr>"

lemma settled_told:
  assumes "settled s y Y" "jc_parent Y' = jc_parent Y" "jc_peer Y' = jc_peer Y \<or> jc_peer Y' = None"
  shows "settled (told s y Y' i m) y Y'"
  using assms by (auto simp: settled_def told_def split: option.splits)







lemma window_values:
  "jz_window_top 0 2 = 1" "jz_window_top 1 2 = 2" "jz_next_ps 0 = 1" "jz_next_ps 1 = 2"
  by code_simp+

lemma range_values:
  "seq_in_range 0 0 0" "seq_in_range 0 0 1" "seq_in_range 1 0 1" "seq_in_range 2 1 2" "seq_in_range 1 0 2"
  "\<not> seq_in_range 2 0 1"
  by code_simp+

text \<open>Two clients with a fresh call between their channels.\<close>

definition demo_named :: "string \<Rightarrow> jz_client" where
  "demo_named name = demo_client\<lparr>cl_state := C4_INITIALIZED, cl_address := Some (map of_char name),
     cl_iodir := jz_io_bidirectional\<rparr>"

definition demo_end :: "nat \<Rightarrow> nat \<Rightarrow> jz_channel" where
  "demo_end i y = (jz_channel_new i 1)\<lparr>jc_peer := Some y, jc_state := D1_FLOW_CONTROL_READY, jc_window := 2,
     jc_packet := 7\<rparr>"

definition jz_demo_call :: jz_server where
  "jz_demo_call = (demo_server [(demo_named ''a'')\<lparr>cl_channels := [(1, 0)]\<rparr>, (demo_named ''b'')\<lparr>cl_channels := [(1, 1)]\<rparr>])
     \<lparr>sv_heap := [0 \<mapsto> demo_end 0 1, 1 \<mapsto> demo_end 1 0], sv_fresh := 2\<rparr>"

lemma describable_named: "length name \<le> 40 \<Longrightarrow> length t < 100000 \<Longrightarrow> describable ((demo_named name)\<lparr>cl_channels := t\<rparr>)"
  by (simp add: describable_def client_text_length_def demo_named_def demo_client_def jz_client_new_def
      jz_iodir_validate_def)

lemma in_call_demo: "jz_in_call jz_demo_call 0 1 (demo_end 0 1) (demo_end 1 0)"
  by (simp add: jz_in_call_def jz_demo_call_def demo_end_def jz_channel_new_def ready_client_def demo_server_def
      describable_named) (simp add: demo_named_def)

lemma packet_bytes_demo: "packet_bytes 7 = Inr 128"
  by code_simp


section \<open>Windows of the wrong direction\<close>

lemma in_call_forwarded:
  "jz_in_call s x y X Y \<Longrightarrow> jz_in_call (data_forwarded s x y X Y msg d) x y (data_sent msg X)
     (Y\<lparr>jc_peer_pr := jm_pr msg, jc_peer_ps := jm_ps msg\<rparr>)"
  by (simp add: jz_in_call_def data_forwarded_def data_sent_eq)

text \<open>RR is passed on with the channel number it came with.\<close>

lemma rr_in_call:
  assumes c: "jz_in_call s x y X Y" and m: "jm_id msg = JZ_MSG_RR"
    and r: "seq_in_range (jm_pr msg) (jc_client_pr X) (jc_peer_ps X)"
      "seq_in_range (jm_pr msg) (jc_peer_pr Y) (jc_client_ps Y)"
  shows "jz_channel_process_message x msg s = Inr (s\<lparr>sv_heap := (sv_heap s)(
      x \<mapsto> X\<lparr>jc_client_pr := jm_pr msg\<rparr>, y \<mapsto> Y\<lparr>jc_peer_pr := jm_pr msg\<rparr>),
    sv_out := sv_out s @ [(jc_parent Y, jz_rr_msg (jm_lcn msg) (jm_pr msg))]\<rparr>)" (is "_ = Inr ?t")
proof -
  let ?s = "s\<lparr>sv_heap := (sv_heap s)(x \<mapsto> X\<lparr>jc_client_pr := jm_pr msg\<rparr>)\<rparr>"
  have X: "sv_heap s x = Some X" "jc_peer X = Some y" "jc_state X = D1_FLOW_CONTROL_READY"
    and Y: "sv_heap s y = Some Y" "jc_peer Y = Some x" "jc_state Y = D1_FLOW_CONTROL_READY" "x \<noteq> y"
    and rc: "ready_client s (jc_parent X)" "ready_client s (jc_parent Y)"
    using c by (simp_all add: jz_in_call_def)
  have d: "jz_channel_dump x ?t = Inr ?t" "jz_channel_dump y ?t = Inr ?t"
    using X Y rc by (auto intro!: settled_dump simp: settled_def)
  have "jz_pass_new y (Inr (jz_rr_msg (jm_lcn msg) (jm_pr msg))) ?s = Inr ?t"
    using Y r(2) rc d(2)
    by (simp add: jz_pass_new_def jz_channel_process_server_message_def heap_access jz_ids
        jz_channel_process_server_message_in_D1_flow_control_ready_state_def jz_channel_do_server_rr_def
        c_assert_def new_messages send_new_ready)
  then show ?thesis
    using X Y m r(1) d(1)
    by (simp add: jz_channel_process_message_def heap_access jz_ids
        jz_channel_process_message_in_D1_flow_control_ready_state_def jz_channel_do_client_rr_def
        to_peer_def new_messages)
qed

definition fresh_flow :: "jz_channel \<Rightarrow> bool" where
  "fresh_flow X \<longleftrightarrow> jc_client_ps X = 0 \<and> jc_client_pr X = 0 \<and> jc_peer_ps X = 0 \<and> jc_peer_pr X = 0 \<and> jc_window X = 2"

lemma packet_accepted:
  assumes "packet_bytes (jc_packet X) = Inr n" "d \<noteq> []" "length d < n" "jc_client_ps X = ps"
    and "seq_in_range ps (jc_peer_pr X) (jz_window_top (jc_peer_pr X) (jc_window X))"
    and "seq_in_range pr (jc_client_pr X) (jc_peer_ps X)"
  shows "client_data_refusal X (jz_data_msg l q pr ps d) d = Inr None"
  using assms by (simp add: client_data_refusal_def)

text \<open>
  C36. In a call whose window is 2 the third packet stops the server, although the receiver has made
  room for it: one side sends two packets, the other side acknowledges the first one with RR, and
  the first side sends the third packet. All three pass the checks of the sender's channel; the
  assertion at the other end compares the third one with numbers of the opposite direction.
\<close>

theorem jz_third_packet_aborts:
  assumes "jz_in_call s x y X Y" "fresh_flow X" "fresh_flow Y" "jc_packet Y = jc_packet X"
    and "packet_bytes (jc_packet X) = Inr n" "d \<noteq> []" "length d < n"
  shows "\<exists>s1 s2 s3. jz_channel_process_message x (jz_data_msg l 0 0 0 d) s = Inr s1 \<and>
    jz_channel_process_message x (jz_data_msg l 0 0 1 d) s1 = Inr s2 \<and>
    jz_channel_process_message y (jz_rr_msg k 1) s2 = Inr s3 \<and>
    sv_out s3 = sv_out s @ [(jc_parent Y, jz_data_msg (jc_lcn Y) 0 0 0 d),
      (jc_parent Y, jz_data_msg (jc_lcn Y) 0 0 1 d), (jc_parent X, jz_rr_msg k 1)] \<and>
    jz_channel_process_message x (jz_data_msg l 0 0 2 d) s3 = Inl Assert_failed"
proof -
  let ?m = "\<lambda>ps. jz_data_msg l 0 0 ps d"
  let ?X1 = "data_sent (?m 0) X" and ?Y1 = "Y\<lparr>jc_peer_pr := 0, jc_peer_ps := 0\<rparr>"
  let ?X2 = "data_sent (?m 1) ?X1" and ?Y2 = "?Y1\<lparr>jc_peer_pr := 0, jc_peer_ps := 1\<rparr>"
  let ?X3 = "?X2\<lparr>jc_peer_pr := 1\<rparr>" and ?Y3 = "?Y2\<lparr>jc_client_pr := 1\<rparr>"
  let ?s1 = "data_forwarded s x y X Y (?m 0) d"
  let ?s2 = "data_forwarded ?s1 x y ?X1 ?Y1 (?m 1) d"
  let ?s3 = "?s2\<lparr>sv_heap := (sv_heap ?s2)(y \<mapsto> ?Y3, x \<mapsto> ?X3), sv_out := sv_out ?s2 @ [(jc_parent X, jz_rr_msg k 1)]\<rparr>"
  note fresh = assms(2,3) [unfolded fresh_flow_def]
  note vals = fresh window_values range_values
  have c1: "jz_in_call ?s1 x y ?X1 ?Y1" using in_call_forwarded [OF assms(1), of "?m 0" d] by simp
  have c2: "jz_in_call ?s2 x y ?X2 ?Y2" using in_call_forwarded [OF c1, of "?m 1" d] by simp
  have c3: "jz_in_call ?s3 x y ?X3 ?Y3" using c2 by (simp add: jz_in_call_def)
  have "client_data_refusal X (?m 0) d = Inr None" using packet_accepted [OF assms(5-7)] vals by simp
  then have 1: "jz_channel_process_message x (?m 0) s = Inr ?s1"
    using client_data_accepted [OF assms(1,4)] vals by simp
  have "client_data_refusal ?X1 (?m 1) d = Inr None"
    using assms(5-7) vals by (intro packet_accepted) (simp_all add: data_sent_eq)
  then have 2: "jz_channel_process_message x (?m 1) ?s1 = Inr ?s2"
    using client_data_accepted [OF c1] assms(4) vals by (simp add: data_sent_eq)
  have "jz_in_call ?s2 y x ?Y2 ?X2" using c2 by (auto simp: jz_in_call_def)
  then have 3: "jz_channel_process_message y (jz_rr_msg k 1) ?s2 = Inr ?s3"
    using rr_in_call [of ?s2 y x ?Y2 ?X2 "jz_rr_msg k 1"] vals by (simp add: data_sent_eq)
  have "client_data_refusal ?X3 (?m 2) d = Inr None"
    using assms(5-7) vals by (intro packet_accepted) (simp_all add: data_sent_eq)
  then have 4: "jz_channel_process_message x (?m 2) ?s3 = Inl Assert_failed"
    using client_data_accepted [OF c3] assms(4) vals by (simp add: data_sent_eq)
  have "sv_out ?s3 = sv_out s @ [(jc_parent Y, jz_data_msg (jc_lcn Y) 0 0 0 d),
      (jc_parent Y, jz_data_msg (jc_lcn Y) 0 0 1 d), (jc_parent X, jz_rr_msg k 1)]"
    by (simp add: data_forwarded_def)
  then show ?thesis using 1 2 3 4 by blast
qed

theorem jz_third_packet_aborts_witness:
  "\<exists>s1 s2 s3. jz_channel_process_message 0 (jz_data_msg 1 0 0 0 [65]) jz_demo_call = Inr s1 \<and>
    jz_channel_process_message 0 (jz_data_msg 1 0 0 1 [65]) s1 = Inr s2 \<and>
    jz_channel_process_message 1 (jz_rr_msg 1 1) s2 = Inr s3 \<and>
    sv_out s3 = [(1, jz_data_msg 1 0 0 0 [65]), (1, jz_data_msg 1 0 0 1 [65]), (0, jz_rr_msg 1 1)] \<and>
    jz_channel_process_message 0 (jz_data_msg 1 0 0 2 [65]) s3 = Inl Assert_failed"
  using jz_third_packet_aborts [OF in_call_demo, of 128 "[65]" 1 1] packet_bytes_demo
  by (simp add: fresh_flow_def demo_end_def jz_channel_new_def jz_demo_call_def demo_server_def)

section \<open>Clearing a call\<close>

lemma server_clear:
  assumes "settled s y Y" "jc_state Y \<notin> {P6_CLIENT_CLEAR_REQUEST, P7_SERVER_CLEAR_INDICATION}"
  shows "jz_pass_new y (Inr (jz_cause_msg JZ_MSG_CLEAR_REQUEST lcn cause diagnostic)) s =
    Inr (told s y (clear_told (sv_clock s (sv_tick s)) Y) (jc_parent Y)
      (jz_cause_msg JZ_MSG_CLEAR_REQUEST lcn cause diagnostic))"
proof -
  let ?m = "jz_cause_msg JZ_MSG_CLEAR_REQUEST lcn cause diagnostic"
  let ?t = "told s y (clear_told (sv_clock s (sv_tick s)) Y) (jc_parent Y) ?m"
  have Y: "sv_heap s y = Some Y" "ready_client s (jc_parent Y)" using assms(1) by (auto simp: settled_def)
  have "jz_channel_dump y ?t = Inr ?t" by (rule settled_dump [OF settled_told [OF assms(1)]]) simp_all
  moreover have "jz_channel_do_server_clear_indication y ?m s = Inr ?t"
    using Y
    by (simp add: jz_channel_do_server_clear_indication_def heap_access read_clock_def new_messages send_new_ready
        clear_told_def told_def)
  ultimately show ?thesis
    using Y assms(2)
    by (cases "jc_state Y") (simp_all add: jz_pass_new_def jz_channel_process_server_message_def heap_access
        server_states)
qed

text \<open>A clear request in a call: the other end is told and forgets the sender, but not the other way round.\<close>

definition clear_requested :: "jz_server \<Rightarrow> nat \<Rightarrow> nat \<Rightarrow> jz_channel \<Rightarrow> jz_channel \<Rightarrow> jz_msg \<Rightarrow> jz_server" where
  "clear_requested s x y X Y msg =
     (let t = told s y (clear_told (sv_clock s (sv_tick s)) Y) (jc_parent Y)
            (jz_cause_msg JZ_MSG_CLEAR_REQUEST (jc_lcn Y) (jm_cause msg) (jm_diagnostic msg))
      in t\<lparr>sv_heap := (sv_heap t)(x \<mapsto> X\<lparr>jc_state := P6_CLIENT_CLEAR_REQUEST\<rparr>)\<rparr>)"

lemma client_clear:
  assumes c: "jz_in_call s x y X Y" and m: "jm_id msg = JZ_MSG_CLEAR_REQUEST"
  shows "jz_channel_process_message x msg s = Inr (clear_requested s x y X Y msg)"
proof -
  let ?t = "clear_requested s x y X Y msg"
  have X: "sv_heap s x = Some X" "jc_peer X = Some y" "jc_state X = D1_FLOW_CONTROL_READY"
    and Y: "sv_heap s y = Some Y" "jc_state Y = D1_FLOW_CONTROL_READY" "x \<noteq> y" "settled s y Y"
    using c by (simp_all add: jz_in_call_def settled_def)
  have "settled ?t x (X\<lparr>jc_state := P6_CLIENT_CLEAR_REQUEST\<rparr>)"
    using c by (simp add: settled_def jz_in_call_def clear_requested_def told_def Let_def)
  note dump = settled_dump [OF this]
  have "to_peer x (\<lambda>Y. jz_msg_new_clear_request (jc_lcn Y) (jm_cause msg) (jm_diagnostic msg)) s =
      Inr (told s y (clear_told (sv_clock s (sv_tick s)) Y) (jc_parent Y)
        (jz_cause_msg JZ_MSG_CLEAR_REQUEST (jc_lcn Y) (jm_cause msg) (jm_diagnostic msg)))"
    using X Y server_clear [OF Y(4)] by (simp add: to_peer_def heap_access new_messages)
  moreover have "sv_heap (told s y Y' i m') x = Some X" for Y' i m' using X Y by (simp add: told_def)
  ultimately show ?thesis
    using X m dump
    by (simp add: jz_channel_process_message_def heap_access
        jz_channel_process_message_in_D1_flow_control_ready_state_def jz_channel_do_client_clear_request_def
        clear_requested_def Let_def)
qed

text \<open>A channel whose other end was freed cannot be used any more.\<close>

lemma stale_channel:
  assumes "sv_heap s x = Some X" "jc_state X = P6_CLIENT_CLEAR_REQUEST" "jc_peer X = Some y" "sv_heap s y = None"
    "ready_client s (jc_parent X)"
  shows "jz_channel_process_message x msg s = Inl Undefined"
proof -
  obtain a where "client_address s (jc_parent X) = Inr a" using client_address_ready [OF assms(5)] by blast
  then have "jz_channel_dump x s = Inl Undefined"
    using assms by (simp add: jz_channel_dump_def channel_at_def)
  then show ?thesis
    using assms by (simp add: jz_channel_process_message_def heap_access jz_channel_do_punishment_clear_request_def
        jz_channel_process_message_in_P6_client_clear_request_state_def)
qed

text \<open>The restart of a client with one channel that has no other end.\<close>

lemma order_single: "order_ok s \<Longrightarrow> sv_order s [e] = [e]"
  by (metis mset_single_iff_right mset.simps order_ok_def)

lemma restart_single:
  assumes i: "i < length (sv_clients s)" "describable (sv_clients s ! i)" "order_ok s"
    and c: "cl_channels (sv_clients s ! i) = [(lcn, y)]" "sv_heap s y = Some Y" "jc_peer Y = None"
    and "CAUSE_IS_CLIENT_ORIGINATED cause"
  shows "\<exists>t. jz_client_do_restart i cause diagnostic s = Inr t \<and> sv_heap t = (sv_heap s)(y := None) \<and>
    length (sv_clients t) = length (sv_clients s) \<and>
    (\<forall>j < length (sv_clients s). j \<noteq> i \<longrightarrow> sv_clients t ! j = sv_clients s ! j)"
proof -
  let ?s = "modify_client i (\<lambda>C. C\<lparr>cl_state := C2_CLIENT_RESTART_REQUEST\<rparr>) s"
  let ?u = "(modify_client i (\<lambda>C. C\<lparr>cl_channels := []\<rparr>) ?s)\<lparr>sv_heap := (sv_heap s)(y := None)\<rparr>"
  have "order_ok ?s" using i(3) by simp
  note order = order_single [OF this]
  have "restart_channels jz_channel_do_client_restart_request diagnostic i ?s = Inr ?u"
    using i c order
    by (simp add: restart_channels_def client_at_def jz_channel_do_client_restart_request_def restart_channel_def
        heap_access jz_channel_free_def jz_channel_timer_reset_def modify_client_def)
  moreover obtain M where M: "jz_msg_new_restart_confirmation = Inr M" "can_send M"
    by (simp add: jz_msg_new_restart_confirmation_def MSG_ERROR_CHECK_def jz_msg_validate_def MSG_HEADER_def jz_ids
        JZ_MSG_COUNT_def jz_msg_new0_def can_send_def jz_sendable_def)
  have "describable (sv_clients ?u ! i)" "i < length (sv_clients ?u)" using i by (simp_all add: describable_def)
  then have "jz_send_new i jz_msg_new_restart_confirmation ?u = Inr (?u\<lparr>sv_out := sv_out ?u @ [(i, M)]\<rparr>)"
    unfolding jz_send_new_def M(1) by (simp add: send_msg_ready M(2))
  ultimately show ?thesis
    using assms(7) by (simp add: jz_client_do_restart_def)
qed

text \<open>
  C37. A call that is cleared leaves a pointer behind: when a client clears a call, its own channel
  keeps pointing to the channel at the other end; when the other client then restarts, that channel
  is freed, and from then on every message on the first channel makes the server read freed memory.
\<close>

theorem jz_stale_peer:
  assumes c: "jz_in_call s x y X Y" and m: "jm_id msg = JZ_MSG_CLEAR_REQUEST"
    and o: "order_ok s" "cl_channels (sv_clients s ! jc_parent Y) = [(lcn, y)]" "jc_parent X \<noteq> jc_parent Y"
    and r: "CAUSE_IS_CLIENT_ORIGINATED cause"
  shows "\<exists>s1 s2. jz_channel_process_message x msg s = Inr s1 \<and>
    jz_client_do_restart (jc_parent Y) cause diagnostic s1 = Inr s2 \<and>
    (\<forall>msg2. jz_channel_process_message x msg2 s2 = Inl Undefined)"
proof -
  let ?s = "clear_requested s x y X Y msg"
  let ?X = "X\<lparr>jc_state := P6_CLIENT_CLEAR_REQUEST\<rparr>"
  have rc: "ready_client s (jc_parent X)" "ready_client s (jc_parent Y)" and xy: "x \<noteq> y" "jc_peer X = Some y"
    using c by (simp_all add: jz_in_call_def)
  have clients: "sv_clients ?s = sv_clients s" "sv_order ?s = sv_order s" by (simp_all add: clear_requested_def told_def Let_def)
  have heap: "sv_heap ?s x = Some ?X" "sv_heap ?s y = Some (clear_told (sv_clock s (sv_tick s)) Y)"
    using xy by (simp_all add: clear_requested_def told_def Let_def)
  obtain t where t: "jz_client_do_restart (jc_parent Y) cause diagnostic ?s = Inr t"
    "sv_heap t = (sv_heap ?s)(y := None)" "length (sv_clients t) = length (sv_clients s)"
    "\<forall>j < length (sv_clients s). j \<noteq> jc_parent Y \<longrightarrow> sv_clients t ! j = sv_clients s ! j"
    using restart_single [of "jc_parent Y" ?s lcn y _ cause diagnostic, OF _ _ _ _ heap(2) _ r] rc(2) o(1,2)
    by (auto simp: clients ready_client_def order_ok_def)
  have "ready_client t (jc_parent X)" using rc(1) o(3) t(3,4) by (simp add: ready_client_def)
  then have "jz_channel_process_message x msg2 t = Inl Undefined" for msg2
    using heap(1) xy t(2) by (intro stale_channel [of t x ?X y]) simp_all
  then show ?thesis using client_clear [OF c m] t(1) by blast
qed

theorem jz_stale_peer_witness:
  "\<exists>s1 s2. jz_channel_process_message 0 (jz_cause_msg JZ_MSG_CLEAR_REQUEST 1 0 0) jz_demo_call = Inr s1 \<and>
    jz_client_do_restart 1 0 0 s1 = Inr s2 \<and> (\<forall>msg2. jz_channel_process_message 0 msg2 s2 = Inl Undefined)"
  using jz_stale_peer [OF in_call_demo, of "jz_cause_msg JZ_MSG_CLEAR_REQUEST 1 0 0" 1 0 0]
  by (simp add: order_ok_def jz_demo_call_def demo_server_def demo_end_def jz_channel_new_def CAUSE_IS_CLIENT_ORIGINATED_def)

section \<open>Other calls\<close>

text \<open>
  The channels that a channel leads to, by the pointers to other ends. The two ends of a call
  lead to each other and nowhere else; but an end whose call was cleared may keep its pointer.
\<close>

definition peers :: "jz_server \<Rightarrow> (nat \<times> nat) set" where
  "peers s = {(x, y). \<exists>X. sv_heap s x = Some X \<and> jc_peer X = Some y}"

definition fresh_unused :: "jz_server \<Rightarrow> bool" where
  "fresh_unused s \<longleftrightarrow> (\<forall>z. sv_heap s z \<noteq> None \<longrightarrow> z < sv_fresh s)"

lemma peers_Image: "confined A h s \<Longrightarrow> x \<in> A \<Longrightarrow> (x, z) \<in> (peers s)\<^sup>* \<Longrightarrow> z \<in> A"
  by (rotate_tac 2, induction rule: rtrancl_induct) (auto simp: confined_def peers_def)

lemma reachable_confined:
  assumes "fresh_unused s"
  shows "confined ((peers s)\<^sup>* `` {x} \<union> {sv_fresh s..}) (sv_heap s) s"
proof -
  have "sv_heap s z = None" if "sv_fresh s \<le> z" for z using assms that by (force simp: fresh_unused_def)
  then show ?thesis
    by (auto simp: confined_def peers_def intro: rtrancl_into_rtrancl)
qed

lemma in_call_peers:
  assumes "jz_in_call s x y X Y"
  shows "(peers s)\<^sup>* `` {x} = {x, y}"
proof -
  have p: "(x, y) \<in> peers s" using assms by (auto simp: peers_def jz_in_call_def)
  have "z \<in> {x, y}" if "(x, z) \<in> (peers s)\<^sup>*" for z
    using that by induction (use assms in \<open>auto simp: peers_def jz_in_call_def\<close>)
  then show ?thesis using p by (auto intro: r_into_rtrancl)
qed

text \<open>
  C20. What a message can reach: whatever message a client sends on a channel, and whenever its
  timer is checked, if the server goes on then every channel that the pointers to other ends do not
  lead to from there is exactly as before, and they still do not lead to it. For a channel whose other end
  points back to it these are all channels but the two of its call. A channel keeps its
  pointer when its call is cleared; when the other end has entered another call by then, the
  pointers lead there, and a message on the first channel can change that call.
\<close>

theorem jz_isolation:
  assumes "fresh_unused s" "jz_channel_process_message x msg s = Inr t \<or> jz_channel_check_timers x s = Inr t"
    and "(x, z) \<notin> (peers s)\<^sup>*" "z < sv_fresh s"
  shows "sv_heap t z = sv_heap s z \<and> (x, z) \<notin> (peers t)\<^sup>*"
proof -
  let ?A = "(peers s)\<^sup>* `` {x} \<union> {sv_fresh s..}"
  have x: "x \<in> ?A" and z: "z \<notin> ?A" using assms(3,4) by auto
  have "confined ?A (sv_heap s) t"
    using assms(2) calls.frame_process_message [OF reachable_confined [OF assms(1)] x, of msg]
      calls.frame_check_timers [OF reachable_confined [OF assms(1)] x]
    by (auto simp: ensures_def)
  then show ?thesis using z peers_Image [OF _ x, of "sv_heap s" t z] by (auto simp: confined_def)
qed

text \<open>A third channel beside the call.\<close>

theorem jz_isolation_witness:
  "\<exists>t. jz_channel_process_message 0 (jz_data_msg 1 0 0 0 [65])
      (jz_demo_call\<lparr>sv_heap := (sv_heap jz_demo_call)(2 \<mapsto> jz_channel_new 0 9), sv_fresh := 3\<rparr>) = Inr t \<and>
    sv_heap t 2 = Some (jz_channel_new 0 9)"
proof -
  let ?s = "jz_demo_call\<lparr>sv_heap := (sv_heap jz_demo_call)(2 \<mapsto> jz_channel_new 0 9), sv_fresh := 3\<rparr>"
  let ?X = "demo_end 0 1" and ?Y = "demo_end 1 0" and ?m = "jz_data_msg 1 0 0 0 [65]"
  have ends: "jc_packet (demo_end i y) = 7" "jc_peer_pr (demo_end i y) = 0" "jc_window (demo_end i y) = 2"
    "jc_client_ps (demo_end i y) = 0" "jc_client_pr (demo_end i y) = 0" "jc_peer_ps (demo_end i y) = 0"
    "jc_peer (demo_end i y) = Some y" for i y
    by (simp_all add: demo_end_def jz_channel_new_def)
  have c: "jz_in_call ?s 0 1 ?X ?Y" using in_call_demo by (simp add: jz_in_call_def ready_client_def)
  moreover have "client_data_refusal ?X ?m [65] = Inr None"
    by (rule packet_accepted [where n = 128]) (simp_all add: ends packet_bytes_demo window_values range_values)
  ultimately have t: "jz_channel_process_message 0 ?m ?s = Inr (data_forwarded ?s 0 1 ?X ?Y ?m [65])"
    using client_data_accepted [of ?s 0 1 ?X ?Y ?m "[65]"] by (simp add: ends window_values range_values)
  have f: "fresh_unused ?s" by (auto simp: fresh_unused_def jz_demo_call_def split: if_splits)
  have "2 \<notin> (peers ?s)\<^sup>* `` {0}" unfolding in_call_peers [OF c] by simp
  then have "(0, 2) \<notin> (peers ?s)\<^sup>*" by blast
  then have "sv_heap (data_forwarded ?s 0 1 ?X ?Y ?m [65]) 2 = sv_heap ?s 2"
    using jz_isolation [OF f disjI1 [OF t]] by simp
  then show ?thesis using t by simp
qed

end
