(* ===== verification/Jz_Setup.thy ===== *)
theory Jz_Setup
  imports Jz_Calls
begin

text \<open>
  Setting up calls in the application server, registering clients, and the timers that end what is
  not answered.
\<close>

section \<open>Call requests\<close>

text \<open>The search for the lowest channel number that is not in use.\<close>

lemma low_lcn_free: "low_lcn t lcn < JZ_MSG_MAX_LCN \<Longrightarrow> low_lcn t lcn \<notin> fst ` set t"
proof (induction t lcn rule: low_lcn.induct)
  case (1 t lcn)
  then show ?case by (cases "lcn \<in> fst ` set t \<and> lcn < JZ_MSG_MAX_LCN") (auto simp: low_lcn.simps [of t lcn])
qed

lemma low_lcn_least:
  "lcn \<le> k \<Longrightarrow> k < low_lcn t lcn \<Longrightarrow> k \<in> fst ` set t"
proof (induction t lcn rule: low_lcn.induct)
  case (1 t lcn)
  show ?case
  proof (cases "lcn \<in> fst ` set t \<and> lcn < JZ_MSG_MAX_LCN")
    case True
    then have "k = lcn \<or> lcn + 1 \<le> k" using 1(2) by (metis inc_le order_le_less)
    then show ?thesis using 1 True by (auto simp: low_lcn.simps [of t lcn])
  next
    case False
    then have "low_lcn t lcn = lcn" by (subst low_lcn.simps) auto
    then show ?thesis using "1.prems" by simp
  qed
qed

lemma find_client_range: "jz_client_list_find_client s a = Some j \<Longrightarrow> j < length (sv_clients s)"
  by (auto simp: jz_client_list_find_client_def find_Some_iff)

text \<open>All reasons to refuse a call, in the order of the code, with cause and diagnostic.\<close>

definition call_refusal :: "jz_server \<Rightarrow> jz_client \<Rightarrow> jz_msg \<Rightarrow> cstr \<Rightarrow> (byte \<times> byte) option" where
  "call_refusal s parent msg called =
     (case call_request_refusal parent msg of
        Some r \<Rightarrow> Some r
      | None \<Rightarrow>
        (case jz_client_list_find_client s called of
           None \<Rightarrow> Some (c_clear__not_obtainable, jz_d_invalid_called_address)
         | Some j \<Rightarrow>
             if cl_iodir (sv_clients s ! j) = jz_io_incoming_calls_barred \<or>
               cl_iodir (sv_clients s ! j) = jz_io_calls_barred
             then Some (c_clear__access_barred, jz_d_input_barred)
             else if \<not> low_lcn (cl_channels (sv_clients s ! j)) 1 < JZ_MSG_MAX_LCN
             then Some (c_clear__number_busy, jz_d_no_logical_channel_available)
             else None))"

lemma call_refusal_named:
  assumes "call_refusal s parent msg called = Some (cause, diagnostic)"
  shows "\<exists>t. jz_diag_name diagnostic = Inr t"
proof -
  have "diagnostic \<in> {jz_d_outgoing_calls_barred, jz_d_invalid_window_facility, jz_d_invalid_throughput_facility,
      jz_d_invalid_packet_facility, jz_d_invalid_called_address, jz_d_input_barred, jz_d_no_logical_channel_available}"
    using assms by (auto simp: call_refusal_def call_request_refusal_def split: option.splits if_splits)
  then show ?thesis unfolding jz_diag_name_defined
    by (auto simp: jz_diag_validate_def jz_d_last_def jz_d_message_rate_exceeded_def jz_d_outgoing_calls_barred_def
        jz_d_invalid_window_facility_def jz_d_invalid_throughput_facility_def jz_d_invalid_packet_facility_def
        jz_d_invalid_called_address_def jz_d_input_barred_def jz_d_no_logical_channel_available_def)
qed

text \<open>The call message that goes out.\<close>

definition jz_call_msg :: "u16 \<Rightarrow> jz_msg \<Rightarrow> bytes \<Rightarrow> jz_msg" where
  "jz_call_msg lcn msg d = (MSG_HEADER jz_msg_new0)\<lparr>jm_id := JZ_MSG_CALL_REQUEST, jm_lcn := lcn,
     jm_calling_address := jm_calling_address msg, jm_called_address := jm_called_address msg,
     jm_packet := jm_packet msg, jm_window := jm_window msg, jm_throughput := jm_throughput msg, jm_data := Some d\<rparr>"

lemma new_call_request:
  "jz_msg_new_call_request lcn (jm_calling_address msg) (jm_called_address msg) (jm_packet msg) (jm_window msg)
     (jm_throughput msg) d = Inr (jz_call_msg lcn msg d)"
  by (simp add: jz_msg_new_call_request_def jz_call_msg_def MSG_ERROR_CHECK_def jz_msg_validate_def MSG_HEADER_def
      jz_ids JZ_MSG_COUNT_def jz_msg_new0_def)

lemma can_send_call [simp]: "can_send (jz_call_msg lcn msg d)"
  by (simp add: can_send_def jz_sendable_def jz_call_msg_def jz_ids JZ_MSG_COUNT_def)

definition with_facilities :: "jz_msg \<Rightarrow> jz_channel \<Rightarrow> jz_channel" where
  "with_facilities msg X = X\<lparr>jc_window := jm_window msg, jc_throughput := jm_throughput msg, jc_packet := jm_packet msg\<rparr>"

text \<open>The server after a call was passed on to client \<open>j\<close> on a new channel.\<close>

definition call_placed :: "jz_server \<Rightarrow> nat \<Rightarrow> jz_channel \<Rightarrow> nat \<Rightarrow> jz_msg \<Rightarrow> bytes \<Rightarrow> jz_server" where
  "call_placed s x X j msg d =
     (let y = sv_fresh s; lcn = low_lcn (cl_channels (sv_clients s ! j)) 1;
          s1 = snd (insert_channel j lcn s);
          Y = start_timer TIMER_INCOMING_CALL TIMER_INCOMING_CALL_DURATION_IN_SECONDS (sv_clock s (sv_tick s))
            (with_facilities msg ((jz_channel_new j lcn)\<lparr>jc_peer := Some x, jc_state := P3_SERVER_WAITING\<rparr>))
      in s1\<lparr>sv_tick := Suc (sv_tick s),
         sv_heap := (sv_heap s1)(y \<mapsto> Y, x \<mapsto> (with_facilities msg (X\<lparr>jc_peer := Some y\<rparr>))\<lparr>jc_state := P2_CLIENT_WAITING\<rparr>),
         sv_out := sv_out s @ [(j, jz_call_msg (jm_lcn msg) msg d)]\<rparr>)"

lemma insert_channel_eqs:
  "fst (insert_channel j lcn s) = sv_fresh s"
  "sv_heap (snd (insert_channel j lcn s)) = (sv_heap s)(sv_fresh s \<mapsto> jz_channel_new j lcn)"
  "sv_out (snd (insert_channel j lcn s)) = sv_out s" "sv_clock (snd (insert_channel j lcn s)) = sv_clock s"
  "sv_tick (snd (insert_channel j lcn s)) = sv_tick s"
  "length (sv_clients (snd (insert_channel j lcn s))) = length (sv_clients s)"
  "i < length (sv_clients s) \<Longrightarrow> sv_clients (snd (insert_channel j lcn s)) ! i =
     (if j = i then (sv_clients s ! i)\<lparr>cl_channels := cl_channels (sv_clients s ! i) @ [(lcn, sv_fresh s)]\<rparr>
      else sv_clients s ! i)"
  by (simp_all add: insert_channel_def)

lemma ready_insert:
  assumes "ready_client s i" "length (cl_channels (sv_clients s ! i)) < 99999"
  shows "ready_client (snd (insert_channel j lcn s)) i"
  using assms by (simp add: ready_client_def insert_channel_eqs describable_def)

lemma reserve_eq:
  assumes "j < length (sv_clients s)" "ready_client (snd (insert_channel j lcn s)) j"
    "lcn = low_lcn (cl_channels (sv_clients s ! j)) 1" "lcn < JZ_MSG_MAX_LCN"
  shows "jz_client_reserve_low_channel j s = Inr (Some (sv_fresh s), snd (insert_channel j lcn s))"
  using assms low_lcn_free [of "cl_channels (sv_clients s ! j)" 1]
  by (simp add: jz_client_reserve_low_channel_def client_at_def Let_def split_beta ready_client_def
      describable_string c_assert_def insert_channel_eqs(1,6))

text \<open>The callee's new channel takes the request.\<close>

lemma incoming_call:
  assumes "settled s y Y" "jc_state Y = P1_READY" "jm_id msg = JZ_MSG_CALL_REQUEST" "jm_data msg = Some d"
  shows "jz_channel_process_server_message y msg s =
    Inr (told s y (start_timer TIMER_INCOMING_CALL TIMER_INCOMING_CALL_DURATION_IN_SECONDS (sv_clock s (sv_tick s))
      (with_facilities msg (Y\<lparr>jc_state := P3_SERVER_WAITING\<rparr>))) (jc_parent Y) (jz_call_msg (jm_lcn msg) msg d))"
    (is "_ = Inr ?t")
proof -
  have Y: "sv_heap s y = Some Y" "ready_client s (jc_parent Y)" using assms(1) by (auto simp: settled_def)
  have "jz_channel_dump y ?t = Inr ?t"
    by (rule settled_dump [OF settled_told [OF assms(1)]]) (simp_all add: with_facilities_def)
  then show ?thesis
    using Y assms(2-4)
    by (simp add: jz_channel_process_server_message_def heap_access jz_ids read_clock_def copy_data_def
        jz_channel_process_server_message_in_P1_ready_state_def jz_channel_do_server_incoming_call_def
        new_call_request send_new_ready with_facilities_def told_def)
qed

lemma out_before_heap: "s\<lparr>sv_out := q, sv_heap := h\<rparr> = s\<lparr>sv_heap := h, sv_out := q\<rparr>" for s :: jz_server
  by simp

lemma connect_call_eq:
  assumes "sv_heap s x = Some X" "sv_heap s y = Some Y" "x \<noteq> y" "jc_state Y = P1_READY"
    "ready_client s (jc_parent X)" "ready_client s (jc_parent Y)"
    "jm_id msg = JZ_MSG_CALL_REQUEST" "jm_data msg = Some d"
  shows "connect_call x y msg s = Inr (s\<lparr>sv_tick := Suc (sv_tick s), sv_heap := (sv_heap s)(
      y \<mapsto> start_timer TIMER_INCOMING_CALL TIMER_INCOMING_CALL_DURATION_IN_SECONDS (sv_clock s (sv_tick s))
        (with_facilities msg (Y\<lparr>jc_peer := Some x, jc_state := P3_SERVER_WAITING\<rparr>)),
      x \<mapsto> (with_facilities msg (X\<lparr>jc_peer := Some y\<rparr>))\<lparr>jc_state := P2_CLIENT_WAITING\<rparr>),
    sv_out := sv_out s @ [(jc_parent Y, jz_call_msg (jm_lcn msg) msg d)]\<rparr>)"
proof -
  let ?X = "with_facilities msg (X\<lparr>jc_peer := Some y\<rparr>)" and ?Y = "Y\<lparr>jc_peer := Some x\<rparr>"
  let ?s = "s\<lparr>sv_heap := (sv_heap s)(x \<mapsto> ?X, y \<mapsto> ?Y)\<rparr>"
  have "settled ?s y ?Y" using assms by (simp add: settled_def with_facilities_def)
  note jz_in_call = incoming_call [OF this _ assms(7,8)]
  have heap: "(sv_heap s)(x \<mapsto> X\<lparr>jc_peer := Some y\<rparr>, y \<mapsto> ?Y, x \<mapsto> ?X) = (sv_heap s)(x \<mapsto> ?X, y \<mapsto> ?Y)"
    using assms(3) by auto
  have "connect_call x y msg s = bind_res (jz_channel_process_server_message y msg ?s)
      (modify_channel x (\<lambda>X. X\<lparr>jc_state := P2_CLIENT_WAITING\<rparr>))"
    using assms(1-3,8) heap
    by (simp add: connect_call_def heap_access copy_data_def new_call_request with_facilities_def [symmetric])
  then show ?thesis
    using jz_in_call assms(3,4)
    by (simp add: heap_access told_def with_facilities_def fun_upd_twist out_before_heap)
qed

text \<open>A channel without another end is cleared by telling its client.\<close>

definition cleared :: "jz_server \<Rightarrow> nat \<Rightarrow> jz_channel \<Rightarrow> byte \<times> byte \<Rightarrow> jz_server" where
  "cleared s x X = (\<lambda>(cause, diagnostic). told s x (clear_told (sv_clock s (sv_tick s)) X) (jc_parent X)
     (jz_cause_msg JZ_MSG_CLEAR_REQUEST (jc_lcn X) cause diagnostic))"

lemma punishment_clear:
  assumes "settled s x X" "jc_peer X = None" "jz_diag_name diagnostic = Inr t"
    "jc_state X \<notin> {P6_CLIENT_CLEAR_REQUEST, P7_SERVER_CLEAR_INDICATION}"
  shows "jz_channel_do_punishment_clear_request x cause diagnostic s = Inr (cleared s x X (cause, diagnostic))"
  using assms server_clear [OF assms(1,4)]
  by (simp add: jz_channel_do_punishment_clear_request_def settled_dump [OF assms(1)] heap_access new_messages settled_def
      cleared_def Let_def)

text \<open>What the request comes to.\<close>

lemma client_call_request:
  assumes X: "settled s x X" "jc_state X = P1_READY" "jc_peer X = None"
    and m: "jm_id msg = JZ_MSG_CALL_REQUEST" "jm_called_address msg = Some called" "jm_data msg = Some d"
    and s: "\<And>j. j < length (sv_clients s) \<Longrightarrow> ready_client s j \<or> cl_address (sv_clients s ! j) = None"
      "\<And>j. j < length (sv_clients s) \<Longrightarrow> length (cl_channels (sv_clients s ! j)) < 99999"
      "sv_heap s (sv_fresh s) = None"
  shows "jz_channel_do_client_call_request x msg s =
    (case call_refusal s (sv_clients s ! jc_parent X) msg called of
       Some r \<Rightarrow> Inr (cleared s x X r)
     | None \<Rightarrow> Inr (call_placed s x X (the (jz_client_list_find_client s called)) msg d))"
proof -
  have x: "sv_heap s x = Some X" "ready_client s (jc_parent X)" "jc_parent X < length (sv_clients s)"
    using X(1) by (simp_all add: settled_def ready_client_def)
  then have at: "channel_at s x = Inr X" "client_at s (jc_parent X) = Inr (sv_clients s ! jc_parent X)"
    by (simp_all add: heap_access client_at_def)
  have refuse: "jz_channel_do_punishment_clear_request x cause diagnostic s = Inr (cleared s x X (cause, diagnostic))"
    if "call_refusal s (sv_clients s ! jc_parent X) msg called = Some (cause, diagnostic)" for cause diagnostic
    using call_refusal_named [OF that] punishment_clear [OF X(1,3)] X(2) by auto
  show ?thesis
  proof (cases "call_request_refusal (sv_clients s ! jc_parent X) msg")
    case (Some r)
    then show ?thesis
      using at refuse by (cases r) (simp add: jz_channel_do_client_call_request_def call_refusal_def)
  next
    case ok: None
    show ?thesis
    proof (cases "jz_client_list_find_client s called")
      case None
      then show ?thesis
        using at ok m refuse by (simp add: jz_channel_do_client_call_request_def call_refusal_def)
    next
      case (Some j)
      let ?lcn = "low_lcn (cl_channels (sv_clients s ! j)) 1"
      have j: "j < length (sv_clients s)" using find_client_range [OF Some] .
      have "cl_address (sv_clients s ! j) = Some called"
        using Some by (auto simp: jz_client_list_find_client_def find_Some_iff)
      then have rj: "ready_client s j" using s(1) [OF j] by simp
      note r = ready_insert [OF rj s(2) [OF j]] ready_insert [OF x(2) s(2) [OF x(3)]]
      have "x \<noteq> sv_fresh s" using x(1) s(3) by auto
      then have "connect_call x (sv_fresh s) msg (snd (insert_channel j ?lcn s)) = Inr (call_placed s x X j msg d)"
        using connect_call_eq [of "snd (insert_channel j ?lcn s)" x X "sv_fresh s" "jz_channel_new j ?lcn" msg d] x(1) r m
        by (simp add: insert_channel_eqs call_placed_def Let_def jz_channel_new_def)
      moreover have "jz_client_reserve_low_channel j s = (if ?lcn < JZ_MSG_MAX_LCN
          then Inr (Some (sv_fresh s), snd (insert_channel j ?lcn s)) else Inr (None, s))"
        using reserve_eq [OF j r(1)] j by (simp add: jz_client_reserve_low_channel_def client_at_def Let_def)
      ultimately show ?thesis
        using at ok m Some j refuse
        by (simp add: jz_channel_do_client_call_request_def call_refusal_def client_at_def)
    qed
  qed
qed

lemma settled_placed:
  assumes "sv_heap s x = Some X" "ready_client s (jc_parent X)" "ready_client s j" "x \<noteq> sv_fresh s"
    and "\<And>i. i < length (sv_clients s) \<Longrightarrow> length (cl_channels (sv_clients s ! i)) < 99999"
  shows "\<exists>X'. settled (call_placed s x X j msg d) x X'"
proof -
  have "jc_parent X < length (sv_clients s)" "j < length (sv_clients s)"
    using assms(2,3) by (simp_all add: ready_client_def)
  then have "ready_client (snd (insert_channel j lcn s)) (jc_parent X)" "ready_client (snd (insert_channel j lcn s)) j" for lcn
    using assms(2,3,5) by (simp_all add: ready_insert)
  then show ?thesis
    using assms(1,4) by (simp add: settled_def call_placed_def Let_def with_facilities_def jz_channel_new_def)
qed

lemma call_request_cases:
  assumes "settled s x X" "jc_state X = P1_READY" "jc_peer X = None"
    and "jm_id msg = JZ_MSG_CALL_REQUEST" "jm_called_address msg = Some called" "jm_data msg = Some d"
    and "\<forall>j < length (sv_clients s). (ready_client s j \<or> cl_address (sv_clients s ! j) = None) \<and>
      length (cl_channels (sv_clients s ! j)) < 99999"
    and "sv_heap s (sv_fresh s) = None"
  shows "jz_channel_process_message x msg s =
    (case call_refusal s (sv_clients s ! jc_parent X) msg called of
       Some r \<Rightarrow> Inr (cleared s x X r)
     | None \<Rightarrow> Inr (call_placed s x X (the (jz_client_list_find_client s called)) msg d))"
proof -
  have x: "sv_heap s x = Some X" "ready_client s (jc_parent X)" using assms(1) by (simp_all add: settled_def)
  have step: "jz_channel_process_message x msg s =
      bind_res (jz_channel_do_client_call_request x msg s) (jz_channel_dump x)"
    using x assms(2,4) by (simp add: jz_channel_process_message_def heap_access jz_ids
        jz_channel_process_message_in_P1_ready_state_def)
  note result = client_call_request [OF assms(1-6) _ _ assms(8)]
  show ?thesis
  proof (cases "call_refusal s (sv_clients s ! jc_parent X) msg called")
    case (Some r)
    have "settled (cleared s x X r) x (clear_told (sv_clock s (sv_tick s)) X)"
      unfolding cleared_def split_beta by (rule settled_told [OF assms(1)]) simp_all
    note settled_dump [OF this]
    then show ?thesis using step result Some assms(7) by simp
  next
    case None
    then obtain j where j: "jz_client_list_find_client s called = Some j"
      by (auto simp: call_refusal_def split: option.splits)
    then have "cl_address (sv_clients s ! j) = Some called" "j < length (sv_clients s)"
      by (auto simp: jz_client_list_find_client_def find_Some_iff)
    then have "ready_client s j" using assms(7) by fastforce
    moreover have "x \<noteq> sv_fresh s" using x(1) assms(8) by auto
    ultimately obtain X' where "settled (call_placed s x X j msg d) x X'"
      using settled_placed [OF x] assms(7) by blast
    note settled_dump [OF this]
    then show ?thesis using step result None j assms(7) by simp
  qed
qed

text \<open>
  The result apart from the code: who is called, under which number, and the server afterwards, with the
  new channel at the end of the table of client \<open>j\<close>.
\<close>

definition first_named :: "jz_server \<Rightarrow> cstr \<Rightarrow> nat \<Rightarrow> bool" where
  "first_named s a j \<longleftrightarrow> j < length (sv_clients s) \<and> cl_address (sv_clients s ! j) = Some a \<and>
     (\<forall>i < j. cl_address (sv_clients s ! i) \<noteq> Some a)"

definition lowest_free :: "(u16 \<times> nat) list \<Rightarrow> u16 \<Rightarrow> bool" where
  "lowest_free t lcn \<longleftrightarrow> lcn \<notin> fst ` set t \<and> (\<forall>k. 1 \<le> k \<longrightarrow> k < lcn \<longrightarrow> k \<in> fst ` set t) \<and> 1 \<le> lcn \<and> lcn < 1024"

definition call_set_up :: "jz_server \<Rightarrow> nat \<Rightarrow> jz_channel \<Rightarrow> nat \<Rightarrow> u16 \<Rightarrow> jz_msg \<Rightarrow> bytes \<Rightarrow> jz_server" where
  "call_set_up s x X j lcn msg d =
     (let y = sv_fresh s; C = sv_clients s ! j;
          Y = start_timer TIMER_INCOMING_CALL TIMER_INCOMING_CALL_DURATION_IN_SECONDS (sv_clock s (sv_tick s))
            (with_facilities msg ((jz_channel_new j lcn)\<lparr>jc_peer := Some x, jc_state := P3_SERVER_WAITING\<rparr>))
      in s\<lparr>sv_clients := (sv_clients s)[j := C\<lparr>cl_channels := cl_channels C @ [(lcn, y)]\<rparr>], sv_fresh := Suc y,
         sv_tick := Suc (sv_tick s),
         sv_heap := (sv_heap s)(y \<mapsto> Y, x \<mapsto> (with_facilities msg (X\<lparr>jc_peer := Some y\<rparr>))\<lparr>jc_state := P2_CLIENT_WAITING\<rparr>),
         sv_out := sv_out s @ [(j, jz_call_msg (jm_lcn msg) msg d)]\<rparr>)"

lemma call_placed_set_up:
  "call_placed s x X j msg d = call_set_up s x X j (low_lcn (cl_channels (sv_clients s ! j)) 1) msg d"
  by (simp add: call_placed_def call_set_up_def Let_def insert_channel_def modify_client_def)

lemma find_client_first:
  "case jz_client_list_find_client s a of
     None \<Rightarrow> (\<forall>j < length (sv_clients s). cl_address (sv_clients s ! j) \<noteq> Some a)
   | Some j \<Rightarrow> first_named s a j"
  by (auto simp: jz_client_list_find_client_def first_named_def find_None_iff find_Some_iff split: option.splits)

lemma low_lcn_start: "lcn \<le> low_lcn t lcn"
proof (induction t lcn rule: low_lcn.induct)
  case (1 t lcn)
  show ?case
  proof (cases "lcn \<in> fst ` set t \<and> lcn < JZ_MSG_MAX_LCN")
    case True
    then have "unat lcn < 1024" by (simp add: JZ_MSG_MAX_LCN_def word_less_nat_alt)
    then have "lcn \<le> lcn + 1" by (simp add: word_le_nat_alt unat_word_ariths)
    then show ?thesis using 1 True by (auto simp: low_lcn.simps [of t lcn])
  qed (auto simp: low_lcn.simps [of t lcn])
qed

lemma low_lcn_lowest: "lowest_free t (low_lcn t 1)" if "low_lcn t 1 < 1024"
  using that low_lcn_free [of t 1] low_lcn_least [of 1 _ t] low_lcn_start [of 1 t]
  by (auto simp: lowest_free_def JZ_MSG_MAX_LCN_def)

lemma low_lcn_exhausted: "low_lcn t 1 < 1024 \<longleftrightarrow> (\<exists>n. 1 \<le> n \<and> n < 1024 \<and> n \<notin> fst ` set t)"
  using low_lcn_lowest [of t] low_lcn_least [of 1 _ t] unfolding lowest_free_def by (meson less_le_trans not_le)

text \<open>
  C19. A call request on a channel that is ready, in all cases. It is refused for the first of these
  reasons that applies, and then the caller's client gets one CLEAR_REQUEST with the cause and the
  diagnostic of that reason: the caller may not make calls, the window is more than 8 (windows of 0 and 8 are accepted, since the
  code checks the range of sequence numbers; \<^verbatim>\<open>seq.h\<close> says 1 to 7), the throughput or the packet
  size is out of range, nobody has the called name, the called client takes no calls, or the numbers 1 to
  1023 of its channels are all in use. Otherwise the called client, the first with that name, gets a new channel under the lowest number that is free,
  the two channels are each other's peers, the new one waits for an answer for at most 18 seconds,
  and exactly one CALL_REQUEST goes to the called client. That message carries the channel number of
  the caller, not the number under which the called client has to answer.
\<close>

theorem jz_call_request:
  assumes "settled s x X" "jc_state X = P1_READY" "jc_peer X = None"
    and "jm_id msg = JZ_MSG_CALL_REQUEST" "jm_called_address msg = Some called" "jm_data msg = Some d"
    and "\<forall>j < length (sv_clients s). (ready_client s j \<or> cl_address (sv_clients s ! j) = None) \<and>
      length (cl_channels (sv_clients s ! j)) < 99999"
    and "sv_heap s (sv_fresh s) = None"
  shows "\<exists>t. jz_channel_process_message x msg s = Inr t \<and>
    (if cl_iodir (sv_clients s ! jc_parent X) \<in> {jz_io_outgoing_calls_barred, jz_io_calls_barred}
     then t = cleared s x X (c_clear__local_procedure_error, jz_d_outgoing_calls_barred)
     else if 8 < unat (jm_window msg) then t = cleared s x X (c_clear__local_procedure_error, jz_d_invalid_window_facility)
     else if jm_throughput msg \<notin> {3..44}
     then t = cleared s x X (c_clear__local_procedure_error, jz_d_invalid_throughput_facility)
     else if jm_packet msg \<notin> {4..12} then t = cleared s x X (c_clear__local_procedure_error, jz_d_invalid_packet_facility)
     else if \<forall>j < length (sv_clients s). cl_address (sv_clients s ! j) \<noteq> Some called
     then t = cleared s x X (c_clear__not_obtainable, jz_d_invalid_called_address)
     else \<exists>j. first_named s called j \<and>
       (if cl_iodir (sv_clients s ! j) \<in> {jz_io_incoming_calls_barred, jz_io_calls_barred}
        then t = cleared s x X (c_clear__access_barred, jz_d_input_barred)
        else if \<forall>n. 1 \<le> n \<and> n < 1024 \<longrightarrow> n \<in> fst ` set (cl_channels (sv_clients s ! j))
        then t = cleared s x X (c_clear__number_busy, jz_d_no_logical_channel_available)
        else \<exists>lcn. lowest_free (cl_channels (sv_clients s ! j)) lcn \<and> t = call_set_up s x X j lcn msg d))"
proof -
  let ?P = "sv_clients s ! jc_parent X"
  have rng: "seq_rngchk (jm_window msg) \<noteq> 0 \<longleftrightarrow> 8 < unat (jm_window msg)" "tput_rngchk n \<noteq> 0 \<longleftrightarrow> n \<notin> {3..44}"
      "packet_rngchk n \<noteq> 0 \<longleftrightarrow> n \<notin> {4..12}" for n
    by (auto simp: seq_rngchk_0 tput_rngchk_0 packet_rngchk_0 word_le_nat_alt)
  have full: "\<not> low_lcn t 1 < JZ_MSG_MAX_LCN \<longleftrightarrow> (\<forall>n. 1 \<le> n \<and> n < 1024 \<longrightarrow> n \<in> fst ` set t)" for t :: "(u16 \<times> nat) list"
    unfolding JZ_MSG_MAX_LCN_def low_lcn_exhausted by blast
  have low: "lowest_free t (low_lcn t 1)" if "\<not> (\<forall>n. 1 \<le> n \<and> n < 1024 \<longrightarrow> n \<in> fst ` set t)" for t :: "(u16 \<times> nat) list"
    using that low_lcn_lowest unfolding full [symmetric] JZ_MSG_MAX_LCN_def by blast
  note cases = call_request_cases [OF assms]
  show ?thesis
  proof (cases "call_request_refusal ?P msg")
    case (Some r)
    then show ?thesis
      using cases unfolding call_refusal_def call_request_refusal_def rng by (auto split: if_splits)
  next
    case None
    then have ok: "\<not> cl_iodir ?P \<in> {jz_io_outgoing_calls_barred, jz_io_calls_barred}" "\<not> 8 < unat (jm_window msg)"
        "\<not> jm_throughput msg \<notin> {3..44}" "\<not> jm_packet msg \<notin> {4..12}"
      unfolding call_request_refusal_def rng by (auto split: if_splits)
    show ?thesis
    proof (cases "jz_client_list_find_client s called")
      case none: None
      then show ?thesis
        using cases None ok find_client_first [of s called] by (simp add: call_refusal_def)
    next
      case (Some j)
      then have j: "first_named s called j" using find_client_first [of s called] by simp
      then have named: "\<not> (\<forall>j < length (sv_clients s). cl_address (sv_clients s ! j) \<noteq> Some called)"
        by (auto simp: first_named_def)
      let ?t = "cl_channels (sv_clients s ! j)"
      let ?D = "\<lambda>t. if cl_iodir (sv_clients s ! j) \<in> {jz_io_incoming_calls_barred, jz_io_calls_barred}
        then t = cleared s x X (c_clear__access_barred, jz_d_input_barred)
        else if \<forall>n. 1 \<le> n \<and> n < 1024 \<longrightarrow> n \<in> fst ` set ?t
        then t = cleared s x X (c_clear__number_busy, jz_d_no_logical_channel_available)
        else \<exists>lcn. lowest_free ?t lcn \<and> t = call_set_up s x X j lcn msg d"
      have "\<exists>t. jz_channel_process_message x msg s = Inr t \<and> ?D t"
        using cases None Some low [of ?t] unfolding call_refusal_def full call_placed_set_up by auto
      then show ?thesis
        using j
        unfolding if_not_P [OF ok(1)] if_not_P [OF ok(2)] if_not_P [OF ok(3)] if_not_P [OF ok(4)] if_not_P [OF named]
        by blast
    qed
  qed
qed

text \<open>Client \<^verbatim>\<open>a\<close> calls client \<^verbatim>\<open>b\<close> on its channel 5.\<close>

definition demo_caller :: jz_server where
  "demo_caller = (demo_server [(demo_named ''a'')\<lparr>cl_channels := [(5, 0)]\<rparr>, (demo_named ''b'')\<lparr>cl_channels := []\<rparr>])
     \<lparr>sv_heap := [0 \<mapsto> jz_channel_new 0 5], sv_fresh := 1\<rparr>"

definition demo_call_request :: jz_msg where
  "demo_call_request = (MSG_HEADER jz_msg_new0)\<lparr>jm_id := JZ_MSG_CALL_REQUEST, jm_lcn := 5,
     jm_calling_address := Some [97], jm_called_address := Some [98], jm_packet := 7, jm_window := 2,
     jm_throughput := 9, jm_data := Some []\<rparr>"

theorem jz_call_request_witness:
  "\<exists>lcn. jz_channel_process_message 0 demo_call_request demo_caller =
     Inr (call_set_up demo_caller 0 (jz_channel_new 0 5) 1 lcn demo_call_request []) \<and> lowest_free [] lcn"
proof -
  have "ready_client demo_caller j" "length (cl_channels (sv_clients demo_caller ! j)) < 99999"
    if "j < length (sv_clients demo_caller)" for j
    using that describable_named [of "''a''" "[(5, 0)]"] describable_named [of "''b''" "[]"]
    by (auto simp: demo_caller_def demo_server_def ready_client_def less_Suc_eq)
      (auto simp: demo_named_def)
  moreover have "settled demo_caller 0 (jz_channel_new 0 5)"
    using calculation(1) [of 0] by (simp add: settled_def demo_caller_def demo_server_def jz_channel_new_def)
  moreover have m: "jm_id demo_call_request = JZ_MSG_CALL_REQUEST" "jm_called_address demo_call_request = Some [98]"
      "jm_data demo_call_request = Some []" "unat (jm_window demo_call_request) = 2" "jm_throughput demo_call_request = 9"
      "jm_packet demo_call_request = 7"
    by (simp_all add: demo_call_request_def)
  moreover have c: "jc_state (jz_channel_new 0 5) = P1_READY" "jc_peer (jz_channel_new 0 5) = None" "jc_parent (jz_channel_new 0 5) = 0"
      "sv_heap demo_caller (sv_fresh demo_caller) = None"
    by (simp_all add: jz_channel_new_def demo_caller_def demo_server_def)
  moreover have p: "cl_iodir (sv_clients demo_caller ! 0) = jz_io_bidirectional" "cl_iodir (sv_clients demo_caller ! 1) = jz_io_bidirectional"
      "cl_channels (sv_clients demo_caller ! 1) = []" "length (sv_clients demo_caller) = 2"
      "cl_address (sv_clients demo_caller ! 0) = Some [97]" "cl_address (sv_clients demo_caller ! 1) = Some [98]"
    by (simp_all add: demo_caller_def demo_server_def demo_named_def)
  moreover have j: "first_named demo_caller [98] j \<longleftrightarrow> j = 1" for j
    using p by (auto simp: first_named_def less_2_cases_iff)
  have some: "\<not> (\<forall>n :: u16. 1 \<le> n \<and> n < 1024 \<longrightarrow> n \<in> fst ` set [])" by (auto intro: exI [of _ 1])
  have named: "\<not> (\<forall>j < length (sv_clients demo_caller). cl_address (sv_clients demo_caller ! j) \<noteq> Some [98])"
    using p(4,6) by (metis one_less_numeral_iff semiring_norm(76))
  ultimately show ?thesis
    using jz_call_request [of demo_caller 0 "jz_channel_new 0 5" demo_call_request "[98]" "[]"] some
    unfolding c j if_not_P [OF named] by (auto simp: m c p jz_iodirs split: if_splits)
qed

section \<open>Registering\<close>

definition jz_plain_msg :: "byte \<Rightarrow> jz_msg" where
  "jz_plain_msg kind = (MSG_HEADER jz_msg_new0)\<lparr>jm_id := kind\<rparr>"

definition jz_diagnostic_msg :: "byte \<Rightarrow> byte \<Rightarrow> byte \<Rightarrow> u16 \<Rightarrow> jz_msg" where
  "jz_diagnostic_msg diagnostic version kind lcn = (MSG_HEADER jz_msg_new0)\<lparr>jm_id := JZ_MSG_DIAGNOSTIC,
     jm_diagnostic := diagnostic, jm_diagnostic_version := version, jm_diagnostic_id := kind,
     jm_diagnostic_lcn := lcn\<rparr>"

lemma new_plain_messages:
  "jz_msg_new_connect_indication = Inr (jz_plain_msg JZ_MSG_CONNECT_INDICATION)"
  "jz_msg_new_diagnostic diagnostic version kind lcn = Inr (jz_diagnostic_msg diagnostic version kind lcn)"
  by (simp_all add: jz_msg_new_connect_indication_def jz_msg_new_diagnostic_def jz_plain_msg_def jz_diagnostic_msg_def
      MSG_ERROR_CHECK_def jz_msg_validate_def MSG_HEADER_def jz_ids JZ_MSG_COUNT_def jz_msg_new0_def)

lemma can_send_plain:
  "can_send (jz_plain_msg JZ_MSG_CONNECT_INDICATION)"
  "jz_diag_validate diagnostic \<Longrightarrow> can_send (jz_diagnostic_msg diagnostic version kind lcn)"
  by (simp_all add: can_send_def jz_sendable_def jz_plain_msg_def jz_diagnostic_msg_def jz_ids JZ_MSG_COUNT_def
      jz_diag_name_defined)

definition connected :: "jz_msg \<Rightarrow> jz_client \<Rightarrow> jz_client" where
  "connected msg C = C\<lparr>cl_state := C4_INITIALIZED, cl_address := jm_calling_address msg, cl_iodir := jm_iodir msg\<rparr>"

lemma process_connect:
  assumes i: "i < length (sv_clients s)" "describable (sv_clients s ! i)" "cl_state (sv_clients s ! i) = C1_UNINITIALIZED"
    and m: "jz_msg_validate msg = jz_d_ok" "jm_id msg = JZ_MSG_CONNECT" "jm_calling_address msg = Some name"
  shows "jz_client_process_message i msg s =
    (if \<exists>C \<in> set (sv_clients s). cl_address C = Some name
     then Inr (s\<lparr>sv_out := sv_out s @ [(i, jz_diagnostic_msg jz_d_address_in_use 0 0 0)]\<rparr>)
     else Inr (modify_client i (connected msg)
       (s\<lparr>sv_out := sv_out s @ [(i, jz_plain_msg JZ_MSG_CONNECT_INDICATION)]\<rparr>)))"
proof -
  have "jz_diag_validate jz_d_address_in_use"
    by (simp add: jz_diag_validate_def jz_d_last_def jz_d_message_rate_exceeded_def jz_d_address_in_use_def)
  note can = can_send_plain(1) can_send_plain(2) [OF this]
  then show ?thesis
    using assms
    by (simp add: jz_client_process_message_def log_client_describable client_at_def name_in_use_def
        jz_client_process_message_in_C1_uninitialized_state_def jz_client_do_diagnostic_def jz_client_do_connect_def
        new_plain_messages jz_send_new_def send_msg_ready connected_def [abs_def])
qed

text \<open>
  C26. CONNECT from a client that is not registered. If another client has the name, the client gets
  a diagnostic and nothing else changes. Otherwise it gets a CONNECT_INDICATION, is registered with
  the name and the direction it asked for, and from then on a search for the name finds it.
\<close>

theorem jz_connect:
  assumes "i < length (sv_clients s)" "describable (sv_clients s ! i)" "cl_state (sv_clients s ! i) = C1_UNINITIALIZED"
    and "jz_msg_validate msg = jz_d_ok" "jm_id msg = JZ_MSG_CONNECT" "jm_calling_address msg = Some name"
  shows "if \<exists>C \<in> set (sv_clients s). cl_address C = Some name
    then jz_client_process_message i msg s =
      Inr (s\<lparr>sv_out := sv_out s @ [(i, jz_diagnostic_msg jz_d_address_in_use 0 0 0)]\<rparr>)
    else \<exists>t. jz_client_process_message i msg s = Inr t \<and>
      t = modify_client i (connected msg) (s\<lparr>sv_out := sv_out s @ [(i, jz_plain_msg JZ_MSG_CONNECT_INDICATION)]\<rparr>) \<and>
      jz_client_list_find_client t name = Some i"
proof (cases "\<exists>C \<in> set (sv_clients s). cl_address C = Some name")
  case False
  let ?t = "modify_client i (connected msg) (s\<lparr>sv_out := sv_out s @ [(i, jz_plain_msg JZ_MSG_CONNECT_INDICATION)]\<rparr>)"
  have "(cl_address (sv_clients ?t ! j) = Some name) \<longleftrightarrow> j = i" if "j < length (sv_clients s)" for j
  proof -
    have "cl_address (sv_clients s ! j) \<noteq> Some name" using False nth_mem [OF that] by blast
    then show ?thesis using that assms(6) by (simp add: connected_def)
  qed
  then have "jz_client_list_find_client ?t name = Some i"
    using assms(1) unfolding jz_client_list_find_client_def find_Some_iff
    by (intro exI [of _ i]) (simp del: clients_modify(2))
  then show ?thesis using False process_connect [OF assms] by simp
qed (use process_connect [OF assms] in simp)

definition jz_demo_connect :: "cstr \<Rightarrow> byte \<Rightarrow> jz_msg" where
  "jz_demo_connect name iodir = (MSG_HEADER jz_msg_new0)\<lparr>jm_id := JZ_MSG_CONNECT, jm_calling_address := Some name,
     jm_iodir := iodir\<rparr>"

lemma demo_connect_simps:
  "jz_msg_validate (jz_demo_connect name iodir) = jz_d_ok" "jm_id (jz_demo_connect name iodir) = JZ_MSG_CONNECT"
  "jm_calling_address (jz_demo_connect name iodir) = Some name" "jm_iodir (jz_demo_connect name iodir) = iodir"
  by (simp_all add: jz_demo_connect_def jz_msg_validate_def MSG_HEADER_def jz_ids JZ_MSG_COUNT_def)

theorem jz_connect_witness:
  "jz_client_process_message 0 (jz_demo_connect [97] 0) (demo_server [demo_client, demo_named ''a'']) =
     Inr ((demo_server [demo_client, demo_named ''a''])\<lparr>sv_out := [(0, jz_diagnostic_msg jz_d_address_in_use 0 0 0)]\<rparr>) \<and>
   jz_client_list_find_client (modify_client 0 (connected (jz_demo_connect [98] 0))
     ((demo_server [demo_client, demo_named ''a''])\<lparr>sv_out := [(0, jz_plain_msg JZ_MSG_CONNECT_INDICATION)]\<rparr>)) [98] = Some 0"
proof -
  let ?s = "demo_server [demo_client, demo_named ''a'']"
  have c: "cl_state demo_client = C1_UNINITIALIZED" "cl_address demo_client = None" "cl_address (demo_named ''a'') = Some [97]"
    by (simp_all add: demo_client_def jz_client_new_def demo_named_def)
  then show ?thesis
    using jz_connect [of 0 ?s "jz_demo_connect [97] 0" "[97]"] jz_connect [of 0 ?s "jz_demo_connect [98] 0" "[98]"]
      describable_demo by (simp add: demo_connect_simps demo_server_def)
qed

text \<open>
  Nothing checks the fields of CONNECT: a name of 63 or more characters, or a direction other than
  the four that exist, is accepted, and then whatever happens next on the connection stops the
  server, with an overflow of the buffer for the log or with a failed assertion.
\<close>

theorem jz_connect_unchecked:
  assumes "i < length (sv_clients s)" "describable (sv_clients s ! i)" "cl_state (sv_clients s ! i) = C1_UNINITIALIZED"
    and "jz_msg_validate msg = jz_d_ok" "jm_id msg = JZ_MSG_CONNECT" "jm_calling_address msg = Some name"
    and "\<forall>C \<in> set (sv_clients s). cl_address C \<noteq> Some name"
    and "63 \<le> length name \<or> \<not> jz_iodir_validate (jm_iodir msg)"
  shows "\<exists>t. jz_client_process_message i msg s = Inr t \<and> (\<forall>input.
    jz_client_input_available_callback i input t =
      Inl (if jz_iodir_validate (jm_iodir msg) then Undefined else Assert_failed))"
proof -
  let ?t = "modify_client i (connected msg) (s\<lparr>sv_out := sv_out s @ [(i, jz_plain_msg JZ_MSG_CONNECT_INDICATION)]\<rparr>)"
  let ?C = "connected msg (sv_clients s ! i)" and ?e = "if jz_iodir_validate (jm_iodir msg) then Undefined else Assert_failed"
  have "jz_client_diagnostic_string ?C = Inl ?e"
  proof (cases "jz_iodir_validate (jm_iodir msg)")
    case True
    then obtain t where t: "jz_iodir_short_name (jm_iodir msg) = Inr t" "length t = 2" using short_names_length by blast
    have "1 \<le> decimal_width n" for n by (subst decimal_width.simps) simp
    note this [of "length (cl_incoming ?C)"] this [of "length (cl_channels ?C)"]
    moreover have "client_text_length ?C = length name" using assms(6) by (simp add: client_text_length_def connected_def)
    ultimately have "diag_string_buffer_size \<le> diag_string_length ?C t"
      using assms(8) True t(2) unfolding diag_string_length_def client_text_length_def [symmetric]
      by (simp add: diag_string_buffer_size_def Let_def)
    then show ?thesis using t(1) True by (simp add: jz_client_diagnostic_string_def connected_def)
  qed (simp add: jz_client_diagnostic_string_def jz_iodir_short_name_def connected_def c_assert_def)
  then have "log_client i ?t = Inl ?e" using assms(1) by (simp add: log_client_def client_at_def)
  then have "jz_client_input_available_callback i input ?t = Inl ?e" for input
    by (simp add: jz_client_input_available_callback_def jz_client_read_into_recv_buffer_def)
  then show ?thesis using process_connect [OF assms(1-6)] assms(7) by auto
qed

theorem jz_connect_unchecked_witness:
  "\<exists>t. jz_client_process_message 0 (jz_demo_connect (replicate 63 65) 0) (demo_server [demo_client]) = Inr t \<and>
    (\<forall>input. jz_client_input_available_callback 0 input t = Inl Undefined)"
proof -
  have "cl_state demo_client = C1_UNINITIALIZED" "cl_address demo_client = None" "jz_iodir_validate 0"
    by (simp_all add: demo_client_def jz_client_new_def jz_iodir_validate_iff)
  then show ?thesis
    using jz_connect_unchecked [of 0 "demo_server [demo_client]" "jz_demo_connect (replicate 63 65) 0" "replicate 63 65"]
      describable_demo by (simp add: demo_connect_simps demo_server_def)
qed

section \<open>Timers\<close>

lemma expired_diagnostics: "jz_diag_validate jz_d_time_expired_clear_request" "jz_diag_validate jz_d_time_expired_restart_request"
  by (simp_all add: jz_diag_validate_def jz_d_last_def jz_d_message_rate_exceeded_def jz_d_time_expired_clear_request_def
      jz_d_time_expired_restart_request_def)

text \<open>
  A clear indication that the client does not answer: after six seconds the first check of the
  timer counts the expiration, but sends nothing and does not set a new time, so the next check,
  however soon, counts the second one: the channel is ready again and the client gets a diagnostic.
\<close>

theorem jz_clear_timeout:
  assumes X: "settled s x X" "jc_state X = P7_SERVER_CLEAR_INDICATION" "jc_peer X = None"
    and t: "jc_timer_type X = TIMER_CLEAR_INDICATION" "jc_timer_count X = 0"
    and now: "jc_timer_expiration_time X \<le> sv_clock s (sv_tick s)"
      "jc_timer_expiration_time X \<le> sv_clock s (Suc (sv_tick s))"
  shows "\<exists>s1 s2. jz_channel_check_timers x s = Inr s1 \<and> sv_out s1 = sv_out s \<and>
    sv_heap s1 = (sv_heap s)(x \<mapsto> X\<lparr>jc_timer_count := 1\<rparr>) \<and>
    jz_channel_check_timers x s1 = Inr s2 \<and>
    sv_out s2 = sv_out s @ [(jc_parent X, jz_diagnostic_msg jz_d_time_expired_clear_request JZ_MSG_VERSION
      JZ_MSG_CLEAR_REQUEST (jc_lcn X))] \<and>
    sv_heap s2 = (sv_heap s)(x \<mapsto> jz_channel_timer_reset (X\<lparr>jc_state := P1_READY, jc_peer := None\<rparr>))"
proof -
  let ?s1 = "s\<lparr>sv_tick := Suc (sv_tick s), sv_heap := (sv_heap s)(x \<mapsto> X\<lparr>jc_timer_count := 1\<rparr>)\<rparr>"
  have x: "sv_heap s x = Some X" "ready_client s (jc_parent X)" using X(1) by (simp_all add: settled_def)
  have "settled ?s1 x (X\<lparr>jc_timer_count := 1\<rparr>)" using x X(3) by (simp add: settled_def)
  note dump = settled_dump [OF this]
  have "\<exists>n. jz_diag_name jz_d_time_expired_clear_request = Inr n" using expired_diagnostics(1) by (simp add: jz_diag_name_defined)
  then have "jz_channel_do_punishment_clear_request x c_clear__local_procedure_error jz_d_time_expired_clear_request ?s1 = Inr ?s1"
    using X(2,3) dump
    by (auto simp: jz_channel_do_punishment_clear_request_def heap_access new_messages jz_pass_new_def Let_def
        jz_channel_process_server_message_def jz_channel_process_server_message_in_P7_server_clear_indication_state_def)
  then have 1: "jz_channel_check_timers x s = Inr ?s1"
    using x t now(1) by (simp add: jz_channel_check_timers_def read_clock_def heap_access
        jz_channel_do_clear_indication_expiration_def)
  have "\<exists>s2. jz_channel_check_timers x ?s1 = Inr s2 \<and>
    sv_out s2 = sv_out s @ [(jc_parent X, jz_diagnostic_msg jz_d_time_expired_clear_request JZ_MSG_VERSION
      JZ_MSG_CLEAR_REQUEST (jc_lcn X))] \<and>
    sv_heap s2 = (sv_heap s)(x \<mapsto> jz_channel_timer_reset (X\<lparr>jc_state := P1_READY, jc_peer := None\<rparr>))"
    using x X(3) t(1) now(2) can_send_plain(2) [OF expired_diagnostics(1)]
    by (simp add: jz_channel_check_timers_def read_clock_def heap_access jz_channel_do_clear_indication_expiration_def
        new_plain_messages send_new_ready jz_channel_timer_reset_def)
  then show ?thesis using 1 by auto
qed

definition demo_clearing :: jz_server where
  "demo_clearing = (demo_server [(demo_named ''a'')\<lparr>cl_channels := [(5, 0)]\<rparr>])\<lparr>sv_heap := [0 \<mapsto> (jz_channel_new 0 5)
     \<lparr>jc_state := P7_SERVER_CLEAR_INDICATION, jc_timer_type := TIMER_CLEAR_INDICATION, jc_timer_expiration_time := 6000000\<rparr>],
     sv_clock := (\<lambda>n. 6000000 + int n)\<rparr>"

theorem jz_clear_timeout_witness:
  "\<exists>s1 s2. jz_channel_check_timers 0 demo_clearing = Inr s1 \<and> sv_out s1 = [] \<and>
    jz_channel_check_timers 0 s1 = Inr s2 \<and>
    sv_out s2 = [(0, jz_diagnostic_msg jz_d_time_expired_clear_request JZ_MSG_VERSION JZ_MSG_CLEAR_REQUEST 5)]"
proof -
  let ?X = "(jz_channel_new 0 5)\<lparr>jc_state := P7_SERVER_CLEAR_INDICATION, jc_timer_type := TIMER_CLEAR_INDICATION,
    jc_timer_expiration_time := 6000000\<rparr>"
  have "settled demo_clearing 0 ?X"
    using describable_named [of "''a''" "[(5, 0)]"]
    by (simp add: settled_def demo_clearing_def demo_server_def jz_channel_new_def ready_client_def) (simp add: demo_named_def)
  note jz_clear_timeout [OF this]
  then show ?thesis by (auto simp: jz_channel_new_def demo_clearing_def demo_server_def)
qed

lemma restart_request_eq:
  "jz_msg_new_restart_request cause diagnostic = Inr (jz_cause_msg JZ_MSG_RESTART_REQUEST 0 cause diagnostic)"
  "can_send (jz_cause_msg JZ_MSG_RESTART_REQUEST lcn cause diagnostic)"
  by (simp_all add: jz_msg_new_restart_request_def jz_cause_msg_def MSG_ERROR_CHECK_def jz_msg_validate_def MSG_HEADER_def
      jz_ids JZ_MSG_COUNT_def jz_msg_new0_def can_send_def jz_sendable_def)

lemma describable_timers [simp]:
  "describable (C\<lparr>cl_state := st\<rparr>) = describable C" "describable (C\<lparr>cl_timer_type := ty\<rparr>) = describable C"
  "describable (C\<lparr>cl_timer_expiration_time := e\<rparr>) = describable C"
  "describable (C\<lparr>cl_timer_count := n\<rparr>) = describable C"
  by (simp_all add: describable_def client_text_length_def cong: option.case_cong)

text \<open>The restart of a client that has no channels.\<close>

lemma punishment_restart_empty:
  assumes "i < length (sv_clients s)" "describable (sv_clients s ! i)" "cl_channels (sv_clients s ! i) = []" "order_ok s"
    "cl_timer_type (sv_clients s ! i) = JZ_CLIENT_TIMER_RESTART_INDICATION"
  shows "jz_client_do_punishment_restart i cause diagnostic s = Inr (modify_client i (\<lambda>C. C\<lparr>cl_state := C3_SERVER_RESTART_REQUEST,
      cl_timer_type := JZ_CLIENT_TIMER_RESTART_INDICATION, cl_timer_expiration_time := sv_clock s (sv_tick s) + 6000000\<rparr>)
    (s\<lparr>sv_out := sv_out s @ [(i, jz_cause_msg JZ_MSG_RESTART_REQUEST 0 cause diagnostic)], sv_tick := Suc (sv_tick s)\<rparr>))"
proof -
  have "sv_order s [] = []" using assms(4) by (metis mset_zero_iff order_ok_def mset.simps(1))
  then show ?thesis
    using assms restart_request_eq
    by (simp add: jz_client_do_punishment_restart_def jz_send_new_def send_msg_ready restart_channels_def client_at_def
        read_clock_def modify_client_def JZ_CLIENT_TIMER_RESTART_INDICATION_DURATION_IN_SECONDS_def G_USEC_PER_SEC_def)
qed

text \<open>
  A client that does not answer a restart is not stuck: at the first expiration of the timer the
  server sends the restart request again and waits another six seconds, and at the second one it
  gives up: the client counts as initialized again, its timer is off, and it gets a diagnostic.
\<close>

theorem jz_restart_timeout:
  assumes "i < length (sv_clients s)" "describable (sv_clients s ! i)" "cl_channels (sv_clients s ! i) = []" "order_ok s"
    and "cl_timer_type (sv_clients s ! i) = JZ_CLIENT_TIMER_RESTART_INDICATION" "cl_timer_count (sv_clients s ! i) = 0"
    and "cl_timer_expiration_time (sv_clients s ! i) \<le> sv_clock s (sv_tick s)"
    and "sv_clock s (sv_tick s + 1) + 6000000 \<le> sv_clock s (sv_tick s + 2)"
  shows "\<exists>s1 s2. jz_client_check_timers i s = Inr s1 \<and> cl_state (sv_clients s1 ! i) = C3_SERVER_RESTART_REQUEST \<and>
    jz_client_check_timers i s1 = Inr s2 \<and> cl_state (sv_clients s2 ! i) = C4_INITIALIZED \<and>
    cl_timer_type (sv_clients s2 ! i) = JZ_CLIENT_TIMER_NONE \<and>
    sv_out s2 = sv_out s @ [(i, jz_cause_msg JZ_MSG_RESTART_REQUEST 0 c_restart__local_procedure_error
        jz_d_time_expired_restart_request),
      (i, jz_diagnostic_msg jz_d_time_expired_restart_request JZ_MSG_VERSION JZ_MSG_CLEAR_REQUEST 0)]"
proof -
  let ?a = "modify_client i (\<lambda>C. C\<lparr>cl_timer_count := cl_timer_count C + 1\<rparr>) (s\<lparr>sv_tick := Suc (sv_tick s)\<rparr>)"
  let ?s1 = "modify_client i (\<lambda>C. C\<lparr>cl_state := C3_SERVER_RESTART_REQUEST,
      cl_timer_type := JZ_CLIENT_TIMER_RESTART_INDICATION, cl_timer_expiration_time := sv_clock s (Suc (sv_tick s)) + 6000000\<rparr>)
    (?a\<lparr>sv_out := sv_out s @ [(i, jz_cause_msg JZ_MSG_RESTART_REQUEST 0 c_restart__local_procedure_error
      jz_d_time_expired_restart_request)], sv_tick := Suc (Suc (sv_tick s))\<rparr>)"
  have none: "sv_order s [] = []" using assms(4) by (metis mset_zero_iff order_ok_def mset.simps(1))
  have "describable (sv_clients ?a ! i)" using assms(1,2) by simp
  then have "jz_client_do_punishment_restart i c_restart__local_procedure_error jz_d_time_expired_restart_request ?a = Inr ?s1"
    using punishment_restart_empty [of i ?a] assms by simp
  then have 1: "jz_client_check_timers i s = Inr ?s1"
    using assms none by (simp add: jz_client_check_timers_def client_at_def read_clock_def
        jz_client_do_restart_indication_expiration_def)
  have "\<exists>s2. jz_client_check_timers i ?s1 = Inr s2 \<and> cl_state (sv_clients s2 ! i) = C4_INITIALIZED \<and>
    cl_timer_type (sv_clients s2 ! i) = JZ_CLIENT_TIMER_NONE \<and>
    sv_out s2 = sv_out ?s1 @ [(i, jz_diagnostic_msg jz_d_time_expired_restart_request JZ_MSG_VERSION JZ_MSG_CLEAR_REQUEST 0)]"
    using assms none can_send_plain(2) [OF expired_diagnostics(2)]
    by (simp add: jz_client_check_timers_def client_at_def read_clock_def jz_client_do_restart_indication_expiration_def
        new_plain_messages jz_send_new_def send_msg_ready jz_client_timer_reset_def)
  then show ?thesis using 1 assms(1) by auto
qed

definition demo_restarting :: jz_server where
  "demo_restarting = (demo_server [(demo_named ''a'')\<lparr>cl_channels := [], cl_state := C3_SERVER_RESTART_REQUEST,
     cl_timer_type := JZ_CLIENT_TIMER_RESTART_INDICATION\<rparr>])\<lparr>sv_clock := (\<lambda>n. 6000000 * int n)\<rparr>"

theorem jz_restart_timeout_witness:
  "\<exists>s1 s2. jz_client_check_timers 0 demo_restarting = Inr s1 \<and>
    jz_client_check_timers 0 s1 = Inr s2 \<and> cl_state (sv_clients s2 ! 0) = C4_INITIALIZED"
proof -
  have "describable (sv_clients demo_restarting ! 0)" "order_ok demo_restarting"
    using describable_named [of "''a''" "[]"] by (simp_all add: demo_restarting_def demo_server_def order_ok_def)
  then show ?thesis
    using jz_restart_timeout [of 0 demo_restarting]
    by (auto simp: demo_restarting_def demo_server_def demo_named_def demo_client_def jz_client_new_def)
qed

end
