(* ===== verification/Jz_Service.thy ===== *)
theory Jz_Service
  imports Jz_Setup
begin

text \<open>
  The application server as a whole: the events of its main loop (\<^verbatim>\<open>application10/service.c\<close> and the
  callback of \<^verbatim>\<open>client.c\<close>), what every event keeps, and the behaviour of connections, of the message
  stream and of calls across components.
\<close>

section \<open>The invariant of the server\<close>

text \<open>
  No two clients have the same name, no receive buffer overflows, and the tables of channels fit the
  heap. The last conjunct is about hash tables: a visit comes to every entry once.
\<close>

definition unique_names :: "jz_client list \<Rightarrow> bool" where
  "unique_names cs \<longleftrightarrow> (\<forall>i < length cs. \<forall>j < length cs.
     i \<noteq> j \<longrightarrow> cl_address (cs ! i) \<noteq> None \<longrightarrow> cl_address (cs ! i) \<noteq> cl_address (cs ! j))"

definition buffers_ok :: "jz_client list \<Rightarrow> bool" where
  "buffers_ok cs \<longleftrightarrow> (\<forall>C \<in> set cs. length (cl_recv_buffer C) \<le> CLIENT_RECV_BUFFER_SIZE)"

definition server_ok :: "jz_server \<Rightarrow> bool" where
  "server_ok s \<longleftrightarrow> unique_names (sv_clients s) \<and> buffers_ok (sv_clients s) \<and> tables_ok s \<and> order_ok s"

text \<open>A computation that ends in a server as it should be, unless it stops with a fault.\<close>

abbreviation sound :: "jz_server res \<Rightarrow> bool" where
  "sound \<equiv> ensures server_ok"

named_theorems sound_intros \<open>operations that keep the invariant of the server\<close>

lemmas [sound_intros] = ensures_Inl ensures_Inr [where P = server_ok] ensures_bind [where P = server_ok and Q = server_ok]
  ensures_value [where 'a = jz_client and P = server_ok] ensures_value [where 'a = unit and P = server_ok]
  ensures_value [where 'a = bool and P = server_ok]

text \<open>The invariant depends on the outline of the clients and the tables.\<close>

lemma unique_names_outline: "unique_names (outline s) \<longleftrightarrow> unique_names (sv_clients s)"
  by (simp add: unique_names_def outline_def)

lemma buffers_ok_outline: "buffers_ok (outline s) \<longleftrightarrow> buffers_ok (sv_clients s)"
  by (simp add: buffers_ok_def outline_def)

lemma server_ok_stays: "server_ok s \<longleftrightarrow> unique_names (outline s) \<and> buffers_ok (outline s) \<and> stays (outline s, Map.empty) s"
  by (auto simp: server_ok_def stays_def unique_names_outline buffers_ok_outline)

lemma server_ok_same: "server_ok s \<Longrightarrow> stays (outline s, Map.empty) t \<Longrightarrow> server_ok t"
  by (auto simp: server_ok_stays stays_def)

text \<open>
  The contract between clients and channels: what a client calls on a channel or on a connection
  leaves the clients alone, but for their tables, which go on to fit the heap.
\<close>

locale channel_operation =
  fixes operation :: "jz_server \<Rightarrow> jz_server res"
  assumes keeps: "\<And>n s. stays (n, Map.empty) s \<Longrightarrow> kept (n, Map.empty) (operation s)"
begin

lemma outline_kept:
  assumes "server_ok s" "operation s = Inr t"
  shows "stays (outline s, Map.empty) t"
  using keeps [of "outline s" s] assms by (simp add: server_ok_stays ensures_def)

lemma sound_operation:
  assumes "server_ok s"
  shows "sound (operation s)"
  using outline_kept [OF assms] server_ok_same [OF assms] by (auto simp: ensures_def)

end

interpretation sending: channel_operation "jz_client_send_msg i M" for i M
  by unfold_locales (rule clients.frame_send_msg)

interpretation sending_new: channel_operation "jz_send_new i m" for i m
  by unfold_locales (rule clients.frame_send_new)

interpretation channel_message: channel_operation "jz_channel_process_message x msg" for x msg
  by unfold_locales (simp add: clients.frame_process_message)

interpretation channel_timers: channel_operation "jz_channel_check_timers x" for x
  by unfold_locales (simp add: clients.frame_check_timers)

interpretation client_restart: channel_operation "restart_channels jz_channel_do_client_restart_request diagnostic i"
  for diagnostic i
  by unfold_locales (simp add: kept_restart_channels clients.frame_restarts)

interpretation server_restart: channel_operation "restart_channels jz_channel_do_server_restart_indication diagnostic i"
  for diagnostic i
  by unfold_locales (simp add: kept_restart_channels clients.frame_restarts)

lemmas sound_channel_operations [sound_intros] = sending_new.sound_operation sending.sound_operation
  channel_message.sound_operation channel_timers.sound_operation client_restart.sound_operation
  server_restart.sound_operation

lemma server_ok_read_clock: "server_ok s \<Longrightarrow> server_ok (snd (read_clock s))"
  by (simp add: server_ok_def read_clock_def)

lemma sound_clock [sound_intros]:
  "server_ok s \<Longrightarrow> (\<And>now s'. server_ok s' \<Longrightarrow> sound (f now s')) \<Longrightarrow> sound (case read_clock s of (now, s') \<Rightarrow> f now s')"
  using server_ok_read_clock [of s] by (cases "read_clock s") simp

lemma tables_ok_modify:
  assumes "tables_ok s" "\<And>C. cl_channels (f C) = cl_channels C"
  shows "tables_ok (modify_client i f s)"
proof (rule tables_ok_cong [OF assms(1)])
  show "map cl_channels (sv_clients (modify_client i f s)) = map cl_channels (sv_clients s)"
    using assms(2) by (intro nth_equalityI) simp_all
qed simp_all

text \<open>Changes of a client that leave its name and its table alone.\<close>

lemma server_ok_modify:
  assumes "server_ok s" "\<And>C. cl_address (f C) = cl_address C" "\<And>C. cl_channels (f C) = cl_channels C"
    and "\<And>C. length (cl_recv_buffer C) \<le> CLIENT_RECV_BUFFER_SIZE \<Longrightarrow>
      length (cl_recv_buffer (f C)) \<le> CLIENT_RECV_BUFFER_SIZE"
  shows "server_ok (modify_client i f s)"
proof -
  have "unique_names (sv_clients (modify_client i f s))"
    using assms(1) by (simp add: server_ok_def unique_names_def assms(2))
  moreover have "buffers_ok (sv_clients (modify_client i f s))"
    using assms(1,4) by (simp add: server_ok_def buffers_ok_def all_set_conv_all_nth)
  moreover have "tables_ok (modify_client i f s)"
    using assms(1,3) by (simp add: tables_ok_modify server_ok_def)
  ultimately show ?thesis using assms(1) by (simp add: server_ok_def)
qed

text \<open>A name that no client has.\<close>

lemma server_ok_register:
  assumes "server_ok s" "\<And>C. cl_address (f C) = a" "\<And>C. cl_channels (f C) = cl_channels C"
    and "\<And>C. cl_recv_buffer (f C) = cl_recv_buffer C"
    and "a \<noteq> None \<Longrightarrow> \<forall>C \<in> set (sv_clients s). cl_address C \<noteq> a"
  shows "server_ok (modify_client i f s)"
proof -
  have old: "unique_names (sv_clients s)" using assms(1) by (simp add: server_ok_def)
  have other: "a \<noteq> None \<Longrightarrow> j < length (sv_clients s) \<Longrightarrow> cl_address (sv_clients s ! j) \<noteq> a" for j
    using assms(5) by simp
  have "unique_names (sv_clients (modify_client i f s))"
    unfolding unique_names_def
  proof (intro allI impI)
    fix j k
    assume "j < length (sv_clients (modify_client i f s))" "k < length (sv_clients (modify_client i f s))"
      "j \<noteq> k" "cl_address (sv_clients (modify_client i f s) ! j) \<noteq> None"
    then show "cl_address (sv_clients (modify_client i f s) ! j) \<noteq> cl_address (sv_clients (modify_client i f s) ! k)"
      using old other [of j] other [of k]
      by (cases "i = j"; cases "i = k") (auto simp: unique_names_def assms(2))
  qed
  moreover have "buffers_ok (sv_clients (modify_client i f s))"
    using assms(1,4) by (simp add: server_ok_def buffers_ok_def all_set_conv_all_nth)
  moreover have "tables_ok (modify_client i f s)"
    using assms(1,3) by (simp add: tables_ok_modify server_ok_def)
  ultimately show ?thesis using assms(1) by (simp add: server_ok_def)
qed

section \<open>Every operation of a client keeps the invariant\<close>

lemma client_at_Inr [res_simps]: "client_at s i = Inr C \<longleftrightarrow> i < length (sv_clients s) \<and> C = sv_clients s ! i"
  by (auto simp: client_at_def)

lemma log_client_Inr: "log_client i s = Inr t \<Longrightarrow> t = s"
  by (auto simp: log_client_def bind_res_Inr)

lemma sound_log_client [sound_intros]: "server_ok s \<Longrightarrow> sound (log_client i s)"
  by (auto simp: ensures_def dest: log_client_Inr)

lemma jz_client_timer_reset_simps [simp]:
  "cl_address (jz_client_timer_reset C) = cl_address C" "cl_channels (jz_client_timer_reset C) = cl_channels C"
  "cl_recv_buffer (jz_client_timer_reset C) = cl_recv_buffer C"
  by (simp_all add: jz_client_timer_reset_def)

lemma sound_do_diagnostic [sound_intros]:
  "server_ok s \<Longrightarrow> sound (jz_client_do_diagnostic i diagnostic version id' lcn s)"
  by (simp add: jz_client_do_diagnostic_def sound_intros)

lemma sound_punishment_restart [sound_intros]:
  "server_ok s \<Longrightarrow> sound (jz_client_do_punishment_restart i cause diagnostic s)"
  unfolding jz_client_do_punishment_restart_def Let_def
  by (intro sound_intros) (auto intro!: server_ok_modify)

lemma sound_restart [sound_intros]: "server_ok s \<Longrightarrow> sound (jz_client_do_restart i cause diagnostic s)"
  unfolding jz_client_do_restart_def
  by (auto intro!: sound_intros server_ok_modify)

lemma sound_hangup [sound_intros]: "server_ok s \<Longrightarrow> sound (jz_client_do_hangup i s)"
  unfolding jz_client_do_hangup_def by (auto intro!: sound_intros server_ok_modify)

lemma server_ok_restart_confirmation: "server_ok s \<Longrightarrow> server_ok (jz_client_do_restart_confirmation i s)"
  unfolding jz_client_do_restart_confirmation_def by (auto intro!: server_ok_modify)

lemma send_new_clients: "jz_send_new i m s = Inr t \<Longrightarrow> sv_clients t = sv_clients s"
  by (auto simp: jz_send_new_def jz_client_send_msg_def bind_res_Inr)

lemma sound_C1 [sound_intros]:
  assumes "server_ok s"
  shows "sound (jz_client_process_message_in_C1_uninitialized_state i msg s)"
proof -
  have "sound (jz_client_do_connect i msg s)" if free: "name_in_use msg s = Inr False"
    unfolding jz_client_do_connect_def
  proof (intro ensures_value ensures_Inr)
    fix t u assume t: "jz_send_new i jz_msg_new_connect_indication s = Inr t" and u: "log_client i t = Inr u"
    have "\<forall>C \<in> set (sv_clients s). jm_calling_address msg \<noteq> None \<longrightarrow> cl_address C \<noteq> jm_calling_address msg"
      using free by (auto simp: name_in_use_def split: option.splits if_splits)
    moreover have "server_ok t" using sound_channel_operations(1) [OF assms] t by (simp add: ensures_def)
    ultimately show "server_ok (modify_client i (\<lambda>C. C\<lparr>cl_state := C4_INITIALIZED,
        cl_address := jm_calling_address msg, cl_iodir := jm_iodir msg\<rparr>) u)"
      using log_client_Inr [OF u] send_new_clients [OF t]
      by (auto intro!: server_ok_register [where a = "jm_calling_address msg"])
  qed
  then show ?thesis
    using assms unfolding jz_client_process_message_in_C1_uninitialized_state_def
    by (auto intro!: ensures_values sound_do_diagnostic ensures_Inr)
qed

lemma sound_C2 [sound_intros]:
  "server_ok s \<Longrightarrow> sound (jz_client_process_message_in_C2_client_restart_request_state i msg s)"
  unfolding jz_client_process_message_in_C2_client_restart_request_state_def by (auto intro!: sound_intros)

lemma sound_C3 [sound_intros]:
  "server_ok s \<Longrightarrow> sound (jz_client_process_message_in_C3_server_restart_request_state i msg s)"
  unfolding jz_client_process_message_in_C3_server_restart_request_state_def
  by (auto intro!: sound_intros server_ok_restart_confirmation server_ok_modify)

lemma server_ok_insert_channel:
  assumes "server_ok s" "i < length (sv_clients s)" "map_of (cl_channels (sv_clients s ! i)) lcn = None"
  shows "server_ok (snd (insert_channel i lcn s))"
proof -
  have "stays (outline s, Map.empty) s" using assms(1) by (simp add: server_ok_stays)
  then have "stays (outline s, Map.empty) (snd (insert_channel i lcn s))"
    using assms(2,3) by (intro stays_insert_channel) (simp_all add: map_of_eq_None_iff)
  then show ?thesis by (rule server_ok_same [OF assms(1)])
qed

lemma sound_C4 [sound_intros]:
  assumes "server_ok s"
  shows "sound (jz_client_process_message_in_C4_initialized_state i msg s)"
proof -
  have "sound (case map_of (cl_channels C) (jm_lcn msg) of
          Some x \<Rightarrow> jz_channel_process_message x msg s
        | None \<Rightarrow> let (x, s) = insert_channel i (jm_lcn msg) s in bind_res (log_client i s) (jz_channel_process_message x msg))"
    if C: "client_at s i = Inr C" for C
  proof (cases "map_of (cl_channels C) (jm_lcn msg)")
    case None
    then have "server_ok (snd (insert_channel i (jm_lcn msg) s))"
      using C assms by (intro server_ok_insert_channel) (auto simp: res_simps)
    then show ?thesis using None by (auto simp: split_beta Let_def intro!: ensures_server sound_log_client sound_channel_operations)
  next
    case (Some x)
    then show ?thesis using assms by (simp add: sound_intros)
  qed
  then show ?thesis
    using assms unfolding jz_client_process_message_in_C4_initialized_state_def
    by (auto intro!: ensures_values sound_do_diagnostic sound_punishment_restart sound_restart)
qed

lemma sound_process_message [sound_intros]:
  assumes "server_ok s"
  shows "sound (jz_client_process_message i msg s)"
proof -
  have "sound ((case cl_state C of
          C1_UNINITIALIZED \<Rightarrow> jz_client_process_message_in_C1_uninitialized_state i msg
        | C2_CLIENT_RESTART_REQUEST \<Rightarrow> jz_client_process_message_in_C2_client_restart_request_state i msg
        | C3_SERVER_RESTART_REQUEST \<Rightarrow> jz_client_process_message_in_C3_server_restart_request_state i msg
        | C4_INITIALIZED \<Rightarrow> jz_client_process_message_in_C4_initialized_state i msg) t)" if "server_ok t" for C t
    using that by (cases "cl_state C") (simp_all add: sound_intros)
  then show ?thesis
    using assms unfolding jz_client_process_message_def by (auto intro!: ensures_server sound_log_client ensures_values ensures_Inr)
qed

lemma sound_process_queue: "server_ok s \<Longrightarrow> sound (process_queue i queue s)"
proof (induction queue arbitrary: s)
  case (Cons msg queue)
  have "server_ok (modify_client i (\<lambda>C. C\<lparr>cl_incoming := queue\<rparr>) s)"
    using Cons.prems by (auto intro!: server_ok_modify)
  then show ?case using Cons.IH by (auto intro!: ensures_server sound_process_message)
qed (simp add: ensures_Inr)

section \<open>Input keeps the invariant\<close>

lemma parse_buffer_ok:
  "parse_buffer i p s = Inr ((ret, p'), t) \<Longrightarrow> server_ok s \<Longrightarrow> server_ok t \<and> length p' \<le> length p"
proof (induction i p s arbitrary: ret p' t rule: parse_buffer.induct)
  case (1 i p s)
  note IH = "1.IH" and prems = "1.prems"
  show ?case
  proof (cases "p = []")
    case False
    obtain siz msg is_error is_fatal where r: "jz_buffer_parse_into_message p = Inr (siz, msg, is_error, is_fatal)"
      using prems(1) False by (subst (asm) parse_buffer.simps) (auto split: sum.splits)
    note [simp] = False r
    show ?thesis
    proof (cases "is_fatal \<or> \<not> is_error \<and> siz = 0")
      case True
      then show ?thesis using prems by (subst (asm) parse_buffer.simps) (auto split: if_splits)
    next
      case more: False
      show ?thesis
      proof (cases is_error)
        case True
        then obtain m u where u: "msg = Some m" "jz_client_send_msg i m s = Inr u" "siz \<noteq> 0"
          "parse_buffer i (drop siz p) u = Inr ((ret, p'), t)"
          using prems(1) more by (subst (asm) parse_buffer.simps) (auto split: option.splits sum.splits if_splits)
        moreover have "server_ok u" using sound_channel_operations(2) [OF prems(2)] u(2) by (simp add: ensures_def)
        moreover have "\<not> is_fatal" using more by simp
        ultimately have "server_ok t \<and> length p' \<le> length (drop siz p)"
          using IH(1) [OF False r refl refl refl _ _ u(1,2,3) u(4)] True by simp
        then show ?thesis by auto
      next
        case no: False
        then obtain m u where u: "msg = Some m"
          "log_client i (modify_client i (\<lambda>C. C\<lparr>cl_incoming := cl_incoming C @ [m]\<rparr>) s) = Inr u"
          "parse_buffer i (drop siz p) u = Inr ((ret, p'), t)"
          using prems(1) more by (subst (asm) parse_buffer.simps) (auto split: option.splits sum.splits)
        moreover have "server_ok (modify_client i (\<lambda>C. C\<lparr>cl_incoming := cl_incoming C @ [m]\<rparr>) s)"
          using prems(2) by (auto intro!: server_ok_modify)
        then have "server_ok u" using log_client_Inr [OF u(2)] by simp
        moreover have "\<not> is_fatal" "siz \<noteq> 0" using no more by simp_all
        ultimately have "server_ok t \<and> length p' \<le> length (drop siz p)"
          using IH(2) [OF False r refl refl refl _ no _ u(1,2) u(3)] by simp
        then show ?thesis by auto
      qed
    qed
  qed (use prems in \<open>simp add: parse_buffer.simps\<close>)
qed

lemma parse_recv_buffer_ok:
  assumes "jz_client_parse_recv_buffer_into_messages i s = Inr (ok, t)" "server_ok s"
  shows "server_ok t"
proof -
  obtain p u where i: "i < length (sv_clients s)"
    and u: "parse_buffer i (cl_recv_buffer (sv_clients s ! i)) s = Inr ((ok, p), u)"
    and t: "t = modify_client i (\<lambda>C. C\<lparr>cl_recv_buffer := p\<rparr>) u"
    using assms(1) by (auto simp: jz_client_parse_recv_buffer_into_messages_def bind_res_Inr client_at_Inr)
  have "length (cl_recv_buffer (sv_clients s ! i)) \<le> CLIENT_RECV_BUFFER_SIZE"
    using assms(2) i by (simp add: server_ok_def buffers_ok_def)
  then have "length p \<le> CLIENT_RECV_BUFFER_SIZE" using parse_buffer_ok [OF u assms(2)] by simp
  then show ?thesis using parse_buffer_ok [OF u assms(2)] by (auto simp: t intro!: server_ok_modify)
qed

lemma read_ok:
  assumes "jz_client_read_into_recv_buffer i input s = Inr (Some t)" "server_ok s"
  shows "server_ok t"
proof (cases input)
  case (Received bs)
  let ?res = "take (CLIENT_RECV_BUFFER_SIZE - length (cl_recv_buffer (sv_clients s ! i))) bs"
  have i: "i < length (sv_clients s)" and t: "t = modify_client i (\<lambda>C. C\<lparr>cl_recv_buffer := cl_recv_buffer C @ ?res\<rparr>) s"
    using assms(1) Received
    by (auto simp: jz_client_read_into_recv_buffer_def bind_res_Inr client_at_Inr Let_def dest!: log_client_Inr split: if_splits)
  let ?p = "cl_recv_buffer (sv_clients s ! i) @ ?res"
  have "length (cl_recv_buffer (sv_clients s ! i)) \<le> CLIENT_RECV_BUFFER_SIZE"
    using assms(2) i by (simp add: server_ok_def buffers_ok_def)
  then have "length ?p \<le> CLIENT_RECV_BUFFER_SIZE" by simp
  moreover have "t = modify_client i (\<lambda>C. C\<lparr>cl_recv_buffer := ?p\<rparr>) s" by (simp add: t modify_client_def)
  ultimately show ?thesis using assms(2) by (auto intro!: server_ok_modify)
qed (use assms in \<open>auto simp: jz_client_read_into_recv_buffer_def bind_res_Inr dest!: log_client_Inr\<close>)

lemma sound_process_messages [sound_intros]: "server_ok s \<Longrightarrow> sound (jz_client_process_messages i s)"
  unfolding jz_client_process_messages_def by (auto intro!: ensures_values sound_process_queue)

lemma sound_fatally_invalid [sound_intros]:
  "server_ok s \<Longrightarrow> sound (jz_client_process_fatally_invalid_message i s)"
  unfolding jz_client_process_fatally_invalid_message_def
  by (auto intro!: sound_punishment_restart server_ok_modify)

lemma sound_input:
  assumes "server_ok s"
  shows "sound (jz_client_input_available_callback i input s)"
  unfolding jz_client_input_available_callback_def
proof (rule ensures_value)
  fix r assume r: "jz_client_read_into_recv_buffer i input s = Inr r"
  show "sound (case r of
       Some s \<Rightarrow> bind_res (jz_client_parse_recv_buffer_into_messages i s) (\<lambda>(ok, s).
         if ok then jz_client_process_messages i s else jz_client_process_fatally_invalid_message i s)
     | None \<Rightarrow> bind_res (log_client i s) (jz_client_do_hangup i))"
  proof (cases r)
    case (Some t)
    then have "server_ok t" using read_ok r assms by simp
    then show ?thesis
      using Some parse_recv_buffer_ok by (auto intro!: ensures_value sound_process_messages sound_fatally_invalid)
  qed (use assms in \<open>simp add: ensures_server sound_intros\<close>)
qed

section \<open>Timers keep the invariant\<close>

lemma sound_restart_indication_expiration [sound_intros]:
  "server_ok s \<Longrightarrow> sound (jz_client_do_restart_indication_expiration i s)"
  unfolding jz_client_do_restart_indication_expiration_def
  by (auto intro!: sound_intros server_ok_modify)

lemma sound_check_channels [sound_intros]: "server_ok s \<Longrightarrow> sound (check_channels t s)"
  by (induction t s rule: check_channels.induct) (auto intro!: sound_intros)

lemma sound_client_timers [sound_intros]: "server_ok s \<Longrightarrow> sound (jz_client_check_timers i s)"
  unfolding jz_client_check_timers_def Let_def by (auto intro!: sound_intros server_ok_modify)

lemma sound_check_clients: "server_ok s \<Longrightarrow> sound (check_clients is s)"
  by (induction "is" s rule: check_clients.induct) (auto intro!: sound_intros)

section \<open>Runs\<close>

text \<open>
  The main loop handles one event at a time: a new connection, input on a connection, or nothing to
  do. A run goes on as long as no handler stops the program.
\<close>

inductive jz_run :: "jz_server \<Rightarrow> jz_server \<Rightarrow> bool" for s where
  start: "jz_run s s"
| incoming: "jz_run s t \<Longrightarrow> jz_run s (socket_service_incoming inet_address_str port t)"
| input: "jz_run s t \<Longrightarrow> jz_client_input_available_callback i input t = Inr u \<Longrightarrow> jz_run s u"
| idle: "jz_run s t \<Longrightarrow> socket_service_idle_handler t = Inr u \<Longrightarrow> jz_run s u"

lemma server_ok_incoming:
  assumes "server_ok s"
  shows "server_ok (socket_service_incoming inet_address_str port s)"
proof -
  let ?s = "socket_service_incoming inet_address_str port s"
  have owner: "owner ?s = owner s" by (simp add: owner_def socket_service_incoming_def fun_eq_iff)
  have "unique_names (sv_clients ?s)"
    using assms
    by (auto simp: server_ok_def unique_names_def socket_service_incoming_def nth_append jz_client_new_def)
  moreover have "buffers_ok (sv_clients ?s)"
    using assms by (auto simp: server_ok_def buffers_ok_def socket_service_incoming_def jz_client_new_def)
  moreover have "tables_ok ?s"
    using assms unfolding server_ok_def tables_ok_owner owner
    by (auto simp: socket_service_incoming_def nth_append jz_client_new_def less_Suc_eq)
  ultimately show ?thesis
    using assms by (simp add: server_ok_def order_ok_def socket_service_incoming_def)
qed

text \<open>
  C16. Over any run of new connections, input and timer checks the application server keeps its
  invariant: no two clients have the same name, no receive buffer holds more than 1024 bytes, and
  every channel number occurs at most once in the table of a client, where it leads to a channel
  that was not freed, of that client and with that number.
\<close>

theorem jz_run_invariant:
  assumes "jz_run s t" "server_ok s"
  shows "server_ok t"
  using assms
proof induction
  case (input t i input u)
  then show ?case using sound_input [of t i input] by (simp add: ensures_def)
next
  case (idle t u)
  then show ?case
    using sound_check_clients [of t] by (simp add: socket_service_idle_handler_def ensures_def)
qed (auto intro: server_ok_incoming)

lemma server_ok_idle: "server_ok (demo_server [])"
  by (simp add: server_ok_def unique_names_def buffers_ok_def tables_ok_def order_ok_def demo_server_def)

theorem jz_run_invariant_witness:
  "\<exists>t. jz_run (demo_server []) t \<and> length (sv_clients t) = 2 \<and> sv_tick t = 2 \<and> server_ok t"
proof -
  let ?a = "map of_char ''127.0.0.1'' :: cstr"
  let ?s = "socket_service_incoming ?a 5001 (socket_service_incoming ?a 5000 (demo_server []))"
  have "socket_service_idle_handler ?s = Inr (?s\<lparr>sv_tick := 2\<rparr>)"
    by (simp add: socket_service_idle_handler_def jz_client_check_timers_def socket_service_incoming_def
        demo_server_def jz_client_new_def client_at_def read_clock_def numeral_2_eq_2)
  then have run: "jz_run (demo_server []) (?s\<lparr>sv_tick := 2\<rparr>)" 
    by (rule jz_run.idle [OF jz_run.incoming [OF jz_run.incoming [OF jz_run.start]]])
  moreover note jz_run_invariant [OF run server_ok_idle]
  ultimately show ?thesis by (intro exI [of _ "?s\<lparr>sv_tick := 2\<rparr>"]) (simp add: socket_service_incoming_def demo_server_def)
qed

end
