(* ===== verification/Jz_Shutdown.thy ===== *)
theory Jz_Shutdown
  imports Jz_Service
begin

text \<open>
  The end of the application server: \<^verbatim>\<open>jz_client_free\<close> of \<^verbatim>\<open>application10/client.c\<close>, \<^verbatim>\<open>service_fini\<close> of
  \<^verbatim>\<open>application10/service.c\<close>, and the signal handler and the end of \<^verbatim>\<open>application10/main.c\<close>. The list of clients
  keeps the clients that were freed, so their positions are recorded: touching one of them is undefined. Of the
  listening service and its address, which are objects of GLib, the number of references is held: an object
  without one is gone, and touching it is undefined. \<^verbatim>\<open>service_init\<close>, which makes them, is here for that reason.
\<close>

section \<open>Releasing clients\<close>

record jz_process =
  pr_server :: jz_server
  pr_freed :: "nat set"
  pr_running :: bool
  pr_accepting :: bool
  pr_service_refs :: nat
  pr_address_refs :: nat

text \<open>
  Calls on an object of GLib, given its references. How many references to the address the
  listener keeps for itself, \<open>held\<close>, is not documented; \<open>failed\<close> says whether it could not use the address.
\<close>

definition g_object_use :: "nat \<Rightarrow> unit res" where
  "g_object_use refs = (if refs = 0 then Inl Undefined else Inr ())"

definition g_object_unref :: "nat \<Rightarrow> nat res" where
  "g_object_unref refs = (case refs of 0 \<Rightarrow> Inl Undefined | Suc n \<Rightarrow> Inr n)"


definition service_start_accepting_new_connections :: "jz_process \<Rightarrow> jz_process res" where
  "service_start_accepting_new_connections p =
     bind_res (g_object_use (pr_service_refs p)) (\<lambda>_. Inr (p\<lparr>pr_accepting := True\<rparr>))"

definition service_stop_accepting_new_connections :: "jz_process \<Rightarrow> jz_process res" where
  "service_stop_accepting_new_connections p =
     bind_res (g_object_use (pr_service_refs p)) (\<lambda>_. Inr (p\<lparr>pr_accepting := False\<rparr>))"

text \<open>\<^verbatim>\<open>g_hash_table_unref\<close> frees the channels in the order of the table.\<close>

fun free_channels :: "(u16 \<times> nat) list \<Rightarrow> jz_server \<Rightarrow> jz_server res" where
  "free_channels [] s = Inr s"
| "free_channels ((lcn, x) # t) s = bind_res (jz_channel_free x s) (free_channels t)"

definition jz_client_free :: "nat \<Rightarrow> jz_process \<Rightarrow> jz_process res" where
  "jz_client_free i p =
     (if i \<in> pr_freed p then Inl Undefined
      else
        let s = modify_client i (\<lambda>C. C\<lparr>cl_port := 0, cl_state := C1_UNINITIALIZED, cl_address := None,
                  cl_iodir := jz_io_calls_barred, cl_recv_buffer := [], cl_incoming := []\<rparr>) (pr_server p) in
        bind_res (client_at s i) (\<lambda>C.
        bind_res (free_channels (sv_order s (cl_channels C)) s) (\<lambda>s.
        Inr (p\<lparr>pr_server := modify_client i (\<lambda>C. C\<lparr>cl_channels := []\<rparr>) s, pr_freed := insert i (pr_freed p)\<rparr>))))"

fun free_clients :: "nat list \<Rightarrow> jz_process \<Rightarrow> jz_process res" where
  "free_clients [] p = Inr p"
| "free_clients (i # l) p = bind_res (jz_client_free i p) (free_clients l)"

text \<open>After the clients, the listener is stopped and closed, and one reference to each object is given up.\<close>

definition service_fini :: "jz_process \<Rightarrow> jz_process res" where
  "service_fini p =
     bind_res (free_clients [0..<length (sv_clients (pr_server p))] p) (\<lambda>p.
     bind_res (g_object_use (pr_service_refs p)) (\<lambda>_.
     bind_res (g_object_unref (pr_service_refs p)) (\<lambda>service_refs.
     bind_res (g_object_unref (pr_address_refs p)) (\<lambda>address_refs.
     Inr (p\<lparr>pr_accepting := False, pr_service_refs := service_refs, pr_address_refs := address_refs\<rparr>)))))"

definition signal_handler :: "jz_process \<Rightarrow> jz_process res" where
  "signal_handler p = bind_res (service_fini p) (\<lambda>p. Inr (p\<lparr>pr_running := False\<rparr>))"

text \<open>From the signal to the end: when the handler has stopped the loop, \<^verbatim>\<open>main\<close> goes on after it.\<close>

definition jz_main_end :: "jz_process \<Rightarrow> jz_process res" where
  "jz_main_end p = bind_res (signal_handler p) service_fini"

section \<open>Channels\<close>




section \<open>Clients\<close>











lemma jz_client_free_freed:
  assumes "jz_client_free i p = Inr q"
  shows "pr_freed q = insert i (pr_freed p) \<and> length (sv_clients (pr_server q)) = length (sv_clients (pr_server p))"
proof -
  have len: "free_channels t s = Inr u \<Longrightarrow> sv_clients u = sv_clients s" for t s u
    by (induction t s rule: free_channels.induct)
      (auto simp: bind_res_Inr jz_channel_free_def modify_channel_def split: option.splits)
  show ?thesis
    using assms by (auto simp: jz_client_free_def Let_def bind_res_Inr modify_client_def split: if_splits dest!: len)
qed

lemma free_clients_freed:
  "free_clients l p = Inr q \<Longrightarrow>
     pr_freed q = set l \<union> pr_freed p \<and> length (sv_clients (pr_server q)) = length (sv_clients (pr_server p))"
proof (induction l arbitrary: p)
  case (Cons i l)
  then obtain r where "jz_client_free i p = Inr r" "free_clients l r = Inr q" by (auto simp: bind_res_Inr)
  then show ?case using Cons.IH [of r] jz_client_free_freed [of i p r] by auto
qed simp

lemma jz_channel_free_faults: "jz_channel_free x s = Inl e \<Longrightarrow> e = Undefined"
  by (auto simp: jz_channel_free_def modify_channel_def channel_at_def bind_res_Inl split: option.splits)

lemma free_clients_faults: "free_clients l p = Inl e \<Longrightarrow> e = Undefined"
proof (induction l arbitrary: p)
  case (Cons i l)
  have "free_channels t s = Inl e \<Longrightarrow> e = Undefined" for t s
    by (induction t s rule: free_channels.induct) (auto simp: bind_res_Inl dest: jz_channel_free_faults)
  then show ?case
    using Cons by (auto simp: bind_res_Inl jz_client_free_def client_at_def Let_def split: if_splits)
qed simp

lemma service_fini_faults: "service_fini p = Inl e \<Longrightarrow> e = Undefined"
  by (auto simp: service_fini_def bind_res_Inl g_object_use_def g_object_unref_def dest: free_clients_faults
      split: if_splits nat.splits)

lemma service_fini_freed:
  assumes "service_fini p = Inr q"
  shows "pr_freed q = {0..<length (sv_clients (pr_server p))} \<union> pr_freed p \<and>
     length (sv_clients (pr_server q)) = length (sv_clients (pr_server p))"
  using assms by (auto simp: service_fini_def bind_res_Inr dest!: free_clients_freed)

text \<open>
  C34. The server ends in a double free: the signal handler frees the clients and stops the loop, and then \<^verbatim>\<open>main\<close> frees them
  again. If any client ever connected, interrupting the server is undefined, in every state.
\<close>

theorem jz_main_end_double_free:
  assumes "sv_clients (pr_server p) \<noteq> []"
  shows "jz_main_end p = Inl Undefined"
proof (cases "service_fini p")
  case (Inl e)
  then have "e = Undefined" by (rule service_fini_faults)
  then show ?thesis using Inl by (simp add: jz_main_end_def signal_handler_def)
next
  case (Inr q)
  note service_fini_freed [OF Inr]
  moreover obtain n where "length (sv_clients (pr_server p)) = Suc n" using assms by (cases "sv_clients (pr_server p)") auto
  ultimately have "service_fini (q\<lparr>pr_running := False\<rparr>) = Inl Undefined"
    by (simp add: service_fini_def upt_rec jz_client_free_def)
  then show ?thesis using Inr by (simp add: jz_main_end_def signal_handler_def)
qed

theorem jz_main_end_double_free_witness:
  "jz_main_end \<lparr>pr_server = jz_demo_call, pr_freed = {}, pr_running = True, pr_accepting = True, pr_service_refs = 1,
     pr_address_refs = 1\<rparr> = Inl Undefined"
  by (rule jz_main_end_double_free) (simp add: jz_demo_call_def demo_server_def)

end
