(* ===== verification/Spec2Isabelle.thy ===== *)
theory Spec2Isabelle
  imports Joza_Main Joza_Sort Lj_Lib Jz_Text Jz_Shutdown
begin

text \<open>
  Jozabad: a broker that connects workers in pairs, after the model of X.25, and an application
  server that does the same for TCP clients.

  \<^bold>\<open>The program.\<close> Workers connect to the broker over a ZeroMQ ROUTER socket. A worker registers with
  CONNECT, asks for a call with CALL_REQUEST, and from then on its messages go through the channel of
  the call, a state machine that checks sequence numbers and windows and passes data on to the other
  end. The event loop of CZMQ calls one handler per message and one on a timer. \<^verbatim>\<open>joza_msg.c\<close> turns
  messages into frames and back; \<^verbatim>\<open>msg.c\<close> checks their ranges; \<^verbatim>\<open>poll.c\<close> owns the tables of workers and
  channels and decides what each message does; \<^verbatim>\<open>channel.c\<close> and \<^verbatim>\<open>action.c\<close> are the state machine.

  The application server under \<^verbatim>\<open>application10\<close> is a second program with the same facilities. Its
  clients send a byte stream; \<^verbatim>\<open>client.c\<close> collects it in a buffer, cuts it into messages with
  \<^verbatim>\<open>msg.c\<close> (envelopes with a length and the checksum of \<^verbatim>\<open>crc.c\<close>) and processes them by the state of
  the client; messages on a logical channel go to \<^verbatim>\<open>channel.c\<close>, where the two channels of a call point
  to each other. \<^verbatim>\<open>service.c\<close> accepts connections and checks the timers when idle.

  \<^bold>\<open>The theories\<close>, each with the source it models:

  \<^item> \<open>Joza_Prelude\<close>: machine types, faults, the result monad, C strings; generic lemmas.
  \<^item> \<open>Joza_Facilities\<close> (\<^verbatim>\<open>mylimits.h, packet.c, seq.c, tput.c\<close>): limits and facility negotiation, with the
    locale \<open>negotiation\<close> interpreted for packet size, window and throughput.
  \<^item> \<open>Joza_Enums\<close> (\<^verbatim>\<open>state.c, cause.c, diag.c, iodir.c\<close>): the enumerations and their names.
  \<^item> \<open>Joza_World\<close>: what the sources use of CZMQ, GLib and the C library.
  \<^item> \<open>Joza_Lib\<close> (\<^verbatim>\<open>lib.c\<close>): name checks, packing, binary searches, the insertion sort; \<open>Joza_Sort\<close>: the quicksort
    \<^verbatim>\<open>qisort\<close>, which uses the insertion sort.
  \<^item> \<open>Joza_Msg\<close> (\<^verbatim>\<open>joza_msg.c, joza_msg.h\<close>): the message object; \<open>Joza_Codec\<close>: its fields on the wire, with the
    locale \<open>field_codec\<close>; \<open>Joza_Transport\<close>: \<^verbatim>\<open>joza_msg_recv\<close> and \<^verbatim>\<open>joza_msg_send\<close>; \<open>Joza_Send\<close>: the senders of
    each message, with the locale \<open>sender\<close> that states their contract; \<open>Joza_Dump\<close>: the text of \<^verbatim>\<open>joza_msg_dump\<close>, with
    the locale \<open>printer\<close> interpreted for numbers, names and data.
  \<^item> \<open>Joza_Validate\<close> (\<^verbatim>\<open>msg.c\<close>): worker keys and range checks.
  \<^item> \<open>Joza_Action\<close> (\<^verbatim>\<open>action.c\<close>) and \<open>Joza_Channel\<close> (\<^verbatim>\<open>channel.c\<close>): the state machine of a call.
  \<^item> \<open>Joza_Tables\<close> (\<^verbatim>\<open>worker.c, workers_table.c, channels_table.c\<close>): workers and the two tables, with the locale
    \<open>hash_table\<close> interpreted for both.
  \<^item> \<open>Joza_Poll\<close> (\<^verbatim>\<open>poll.c\<close>): the broker's state and its handlers; \<open>Joza_Broker\<close>: their invariant, their
    faults, the abstract switchboard and the runs of the event loop; \<open>Joza_Main\<close> (\<^verbatim>\<open>main.c\<close>): its start.
  \<^item> \<open>Lj_Lib\<close> (\<^verbatim>\<open>libjoza/joza_lib.c\<close>): the helpers of the client library, compared with those of the broker.
  \<^item> This theory: the properties of the whole broker.
  \<^item> \<open>Jz_Crc\<close> (\<^verbatim>\<open>application10/crc.c\<close>): the checksum, by table and as polynomial division; \<open>Jz_Enums\<close>
    (\<^verbatim>\<open>diag.c, cause.c, iodir.c\<close>): diagnostics, causes, directions, message types; \<open>Jz_Text\<close> (\<^verbatim>\<open>q.c\<close> and the
    text functions of \<^verbatim>\<open>msg.c\<close>): names, six-bit characters, checks of addresses.
  \<^item> \<open>Jz_Msg\<close> (\<^verbatim>\<open>application10/msg.c\<close>): messages, the parser of receive buffers and the serializer; \<open>Jz_Wire\<close>:
    what they do on every buffer and every message.
  \<^item> \<open>Jz_Server\<close> (\<^verbatim>\<open>client.h, channel.h\<close> and the parts of \<^verbatim>\<open>client.c\<close> that channels call): the state of the
    server and the frames of its operations; \<open>Jz_Channel\<close> (\<^verbatim>\<open>channel.c\<close>): all handlers of a channel;
    \<open>Jz_Frame\<close>: what they leave alone, with the locale \<open>channel_frame\<close> interpreted for the clients and their tables
    and for the channels of other calls;
    \<open>Jz_Client\<close> (\<^verbatim>\<open>client.c\<close> and the idle handler of \<^verbatim>\<open>service.c\<close>): input, messages by client state, timers.
  \<^item> \<open>Jz_Stream\<close>: the message stream of a client; \<open>Jz_Calls\<close>: data and clearing in a call; \<open>Jz_Setup\<close>: call
    requests, registration, timers; \<open>Jz_Service\<close>: the invariant over runs of the main loop, with the
    locale \<open>channel_operation\<close> that states what clients rely on and is interpreted for every
    operation they call; \<open>Jz_Shutdown\<close> (\<^verbatim>\<open>main.c\<close>, \<^verbatim>\<open>service_init\<close>, \<^verbatim>\<open>service_fini\<close> and the release of clients): the end of the server.

  \<^bold>\<open>Correspondence.\<close> Definitions have the names of the C functions, without the trailing underscore of
  some static ones. A C struct is a record; a pointer to a worker or a channel is its key in its
  table; a pointer that may be NULL is an option. A function that can fail an assertion, abort, or
  have undefined behaviour returns a sum whose left side is the fault; one that sends, receives or
  reads the clock maps a \<open>world\<close> to a result and the world after it. What the libraries leave
  open (whether a send fails, the order in which tables are visited, clock readings, uninitialised
  bytes, the address of a parameter) is a field of the world, of the broker or of the server, so that
  the theorems hold for every choice of it. In the application server a pointer to a client is its
  position in the list of clients, and a pointer to a channel is an address in a heap, because
  channels are freed while others still point to them. Log output is not modelled, except for the name lookups made for it that
  assert. Memory is not modelled: allocation succeeds, and leaks are not visible.

  \<^bold>\<open>What is shown.\<close> For each message type, what is sent is received unchanged, the printed form determines the fields it shows, the encoder stays in its
  frame, and the decoder returns on every input or fails on a directory entry without a value. Range checks accept exactly the messages in the
  documented ranges and those with the stated deviations. A
  channel processes every valid message without a fault except for identifiers its tables do not
  cover, stays well formed, and keeps the flow-control bound. The broker keeps its invariant under
  every timer event, signal and message whose names hold no percent sign, and can fail only for
  the listed causes; it refines the switchboard that the documentation describes, except for the disputed messages,
  which are listed (\<open>disputed\<close>). Separate theorems state the behaviour that contradicts the program's documentation
  or ends in undefined behaviour: closing a channel, the directory, numbers of channels, resets,
  windows of 0, formats taken from names.

  For the application server: messages survive the wire, the parser is safe on every buffer and finds
  damage, the stream is cut into the messages that were written if each fits the receive buffer; the checksum equals its
  definition; names, buffers and tables of channels stay in order over all runs; a message changes only channels that
  the pointers between channels lead to; DATA, CALL_REQUEST and CONNECT are described in all cases; at shutdown every client and channel is freed
  once, and then the objects of GLib as far as they have references; and separate theorems show how a third packet, a cleared call, a long name, a timer or the interrupt go wrong.

  For the libraries: the searches and the insertion sort are correct, the quicksort returns a permutation for every array
  it can be given in practice but does not sort it, and the client library agrees with the broker on throughputs except
  for the stated negotiations.

  \<^bold>\<open>Bounds and termination.\<close> No fuel is used. \<^verbatim>\<open>qisort\<close> is a partial function that is shown to return for fewer than
  \<open>2 ^ 28\<close> strings, where its stack of 25 brackets is deep enough. \<^verbatim>\<open>joza_msg_recv\<close> ends because each round takes a frame from
  the queue, the parser of a receive buffer because each round takes an envelope; the search for a channel number may not end and is a partial function whose value is then
  \<open>None\<close>. The theorems about the broker assume that names hold no percent sign (\<open>plain_names\<close>) where they say so: such names
  are legal, but the code uses them as formats.

  \<^bold>\<open>Not modelled.\<close> \<^verbatim>\<open>log.c\<close>, \<^verbatim>\<open>raii.c\<close>, the set-up of sockets and the event loop in \<^verbatim>\<open>poll.c\<close> and \<^verbatim>\<open>service.c\<close>
  (input, output and release of memory); \<^verbatim>\<open>joza_msg_test\<close> and the dump functions of the tables; \<^verbatim>\<open>intlen\<close>, which computes
  with floating-point logarithms, and the clock functions of \<^verbatim>\<open>lib.c\<close>; \<^verbatim>\<open>libjoza/joza_msg_wrap.c\<close>, which SWIG
  generates; in \<^verbatim>\<open>application10\<close> the GTK windows and their resources, and code that is compiled out (the copies of \<^verbatim>\<open>packet.c\<close>,
  \<^verbatim>\<open>seq.c\<close> and \<^verbatim>\<open>tput.c\<close> there are those of \<open>Joza_Facilities\<close>); \<^verbatim>\<open>jozabad_w32\<close>, which holds project files only; the tests.
\<close>

section \<open>The broker under every message\<close>

text \<open>
  C1. Every message whose names hold no percent sign leaves a sound broker or stops it for one of the listed reasons: if the state
  satisfies the invariant and such a message was received on the ROUTER socket, processing it either returns 0 with the invariant intact, or fails
  for one of the causes of \<open>broker_fault\<close>: an address shorter than five bytes, a directory request,
  a message that closes a channel, an identifier beyond the action tables, or a search for a
  channel number that never ends. Nothing else can go wrong, whether or not sends succeed. (A name with a percent
  sign is used as a format and can make the behaviour undefined; it is not covered.)
\<close>

theorem s_process_correct:
  assumes "broker_ok b" "well_received True M" "plain_names M"
  shows "case s_process M b w of Inl f \<Rightarrow> broker_fault M b f | Inr ((r, b'), w') \<Rightarrow> r = 0 \<and> broker_ok b'"
  using s_process_outcome [OF assms, of w] by (auto simp: outcome_def split: sum.splits prod.splits)

definition demo_worker :: "byte \<Rightarrow> string \<Rightarrow> role_t \<Rightarrow> lcn_t \<Rightarrow> worker" where
  "demo_worker n name role lcn = \<lparr>wk_wkey = 0x01010101 * ucast n, wk_address = Some (lit name), wk_hostname = Some (lit ''localhost''),
     wk_zaddr = Some [0, n, n, n, n], wk_iodir = io_bidirectional, wk_lcn = lcn, wk_role = role,
     wk_ctime = 0, wk_mtime = 0, wk_atime = 0\<rparr>"

definition demo_broker :: broker where
  "demo_broker = \<lparr>b_workers = [(0x01010101, demo_worker 1 ''ALICE'' READY 0), (0x02020202, demo_worker 2 ''BOB'' READY 0)],
     b_channels = [], b_lcn = LCN_MIN, b_shutdown = False, b_order = (\<lambda>t. t), b_addr = 140737488355328\<rparr>"

definition demo_request :: joza_msg where
  "demo_request = demo_answer\<lparr>m_id := JOZA_MSG_CALL_REQUEST, m_address := Some [0, 1, 1, 1, 1]\<rparr>"

lemma demo_keys:
  "msg_addr2key (Some [0, 1, 1, 1, 1]) = Inr 0x01010101" "msg_addr2key (Some [0, 2, 2, 2, 2]) = Inr 0x02020202"
  by (simp_all add: msg_addr2key_def mem_read_def)

lemma demo_worker_ok:
  "worker_ok 0x01010101 (demo_worker 1 ''ALICE'' READY 0)" "worker_ok 0x02020202 (demo_worker 2 ''BOB'' READY 0)"
  by (simp_all add: worker_ok_def demo_worker_def demo_keys plain_string_def lit_def STRING_MAX_def iodir_validate_iff
      io_bidirectional_def)

lemma demo_broker_ok: "broker_ok demo_broker"
  using demo_worker_ok
  by (auto simp: broker_ok_def demo_broker_def fair_order_def workers_ok_def channels_ok_def calls_ok_def table_inv_def
      WORKER_COUNT_def demo_worker_def lit_def split: if_splits)

lemma demo_request_ok: "well_received True demo_request" "valid_message demo_request" "plain_names demo_request"
  by (simp_all add: demo_request_def demo_answer_def well_received_def valid_message_def msg_ids wire_string_def lit_def
      STRING_MAX_def data_length_def data_of_def valid_name_def NAME_LEN_def val_init_def val_mid_def isalnum_def
      packet_rngchk_0 seq_rngchk_0 tput_rngchk_0 plain_names_def)

theorem s_process_correct_witness:
  "case s_process demo_request demo_broker quiet_world of
     Inl f \<Rightarrow> broker_fault demo_request demo_broker f | Inr ((r, b'), w') \<Rightarrow> r = 0 \<and> broker_ok b'"
  by (rule s_process_correct [OF demo_broker_ok demo_request_ok(1,3)])

text \<open>
  C2. Refinement of the documented switchboard: whenever a message whose names hold no percent sign
  was processed and it is not one of the disputed ones, the change of who is registered, of the
  roles and of the call is the one the switchboard prescribes for that message and the worker that
  sent it: a new worker needs a free place and an unused name; a call needs a free caller that may
  place calls and another idle worker that is registered under the called name and takes calls;
  a worker without a call can leave. The disputed messages, on which the code departs from
  \<^verbatim>\<open>README.md\<close>, \<^verbatim>\<open>worker.h\<close> and \<^verbatim>\<open>iodir.h\<close>, are listed by \<open>disputed\<close>: a call request from a worker with only
  one of the two permissions (the code tests the wrong one), a call request to a worker that takes calls and is busy, is
  the caller itself, or is called while there is a call (the code takes over the channel), and
  a DISCONNECT in a call (undefined in the code).
\<close>

theorem s_process_refines:
  assumes "broker_ok b" "well_received True M" "plain_names M" "\<not> disputed M (switchboard_of b)"
    and "s_process M b w = Inr ((r, b'), w')"
  shows "message_step M (switchboard_of b) (switchboard_of b')"
  using s_process_outcome [OF assms(1,2,3), of w] assms(4,5) by (auto simp: outcome_def intro: coded_message_undisputed)

lemma demo_no_fault: "\<not> broker_fault demo_request demo_broker f"
  by (auto simp: broker_fault_def demo_request_def demo_answer_def demo_broker_def demo_keys demo_worker_def ready_fault_def
      msg_ids)

lemma demo_call_returns: "\<exists>b' w'. s_process demo_request demo_broker quiet_world = Inr ((0, b'), w')"
  using s_process_outcome [OF demo_broker_ok demo_request_ok(1,3), of quiet_world] demo_no_fault
  by (auto simp: outcome_def split: sum.splits)

lemma demo_undisputed: "\<not> disputed demo_request (switchboard_of demo_broker)"
  by (auto simp: disputed_def disputed_request_def demo_request_def demo_answer_def demo_broker_def demo_keys demo_worker_def
      worker_view_def switchboard_of_def io_bidirectional_def iodir_incoming_calls_allowed_def iodir_outgoing_calls_allowed_def
      lit_def split: if_splits)

theorem s_process_refines_witness:
  "\<exists>b' w'. s_process demo_request demo_broker quiet_world = Inr ((0, b'), w') \<and>
     message_step demo_request (switchboard_of demo_broker) (switchboard_of b')"
  using demo_call_returns s_process_refines [OF demo_broker_ok demo_request_ok(1,3) demo_undisputed] by blast

text \<open>
  C3. Over any run of the event loop, with timer events, the shutdown signal and messages whose names hold no
  percent sign in any order, the invariant holds: the tables have distinct keys, no two workers share a name, a
  worker has a channel number exactly when it has a role in a call, every channel is well
  formed, within its window and not closed. There is never more than one channel.
\<close>

theorem broker_run_invariant:
  assumes "broker_run b"
  shows "broker_ok b \<and> length (b_channels b) \<le> 1"
  using broker_run_ok [OF assms] channels_ok_length by (simp add: broker_ok_def)

theorem broker_run_invariant_witness:
  "broker_ok (catch_signal (poll_create (\<lambda>t. t) 70000)) \<and> length (b_channels (catch_signal (poll_create (\<lambda>t. t) 70000))) \<le> 1"
  by (rule broker_run_invariant, rule run_signal, rule run_start) (simp add: fair_order_def)

text \<open>
  A message that fails the range checks changes nothing: the sender gets exactly one DIAGNOSTIC
  that names the field, with cause \<^verbatim>\<open>c_malformed_message\<close>.
\<close>

theorem s_process_malformed:
  assumes "well_received True M" "m_address M = Some z" "\<not> valid_message M" "reliable w"
  shows "\<exists>d. prevalidate_message M = Inr d \<and> d \<noteq> d_unspecified \<and>
     s_process M b w = Inr ((0, b), w\<lparr>zsent := zsent w @ wire w z (diagnostic_msg c_malformed_message d)\<rparr>)"
proof -
  obtain d where d: "prevalidate_message M = Inr d" "d \<noteq> d_unspecified"
    using prevalidate_iff [OF assms(1)] assms(3) by blast
  moreover have "s_process M b w = Inr ((0, b), w\<lparr>zsent := zsent w @ wire w z (diagnostic_msg c_malformed_message d)\<rparr>)"
    using d by (simp add: s_process_def msg_getters assms(2) bind_io_def diagnostic_reliable [OF assms(4)])
  ultimately show ?thesis by blast
qed

lemma reliableD: "reliable w \<Longrightarrow> zrouter w" "reliable w \<Longrightarrow> zfail w h x = None"
  by (simp_all only: reliable_def)

lemma quiet_reliable [simp]: "reliable quiet_world"
  by (simp add: reliable_def quiet_world_def)

theorem s_process_malformed_witness:
  "\<exists>d. prevalidate_message ((joza_msg_new JOZA_MSG_RR)\<lparr>m_address := Some [0], m_pr := 9\<rparr>) = Inr d \<and> d \<noteq> d_unspecified \<and>
     s_process ((joza_msg_new JOZA_MSG_RR)\<lparr>m_address := Some [0], m_pr := 9\<rparr>) demo_broker quiet_world =
       Inr ((0, demo_broker), quiet_world\<lparr>zsent := zsent quiet_world @ wire quiet_world [0] (diagnostic_msg c_malformed_message d)\<rparr>)"
  by (rule s_process_malformed) (simp_all add: well_received_def valid_message_def msg_ids SEQ_MAX_def)

text \<open>
  Strangers can only connect: a valid message other than CONNECT from an address that is not
  registered changes nothing and is not answered.
\<close>

theorem s_process_unknown_ignored:
  assumes "well_received True M" "valid_message M" "msg_addr2key (m_address M) = Inr k"
    and "map_of (b_workers b) k = None" "m_id M \<noteq> JOZA_MSG_CONNECT"
  shows "s_process M b w = Inr ((0, b), w)"
  using assms(4,5)
  by (simp add: s_process_valid [OF assms(1-3)] s_process_msg_from_unknown_worker_def msg_getters bind_io_def)

theorem s_process_unknown_ignored_witness:
  "s_process (demo_request\<lparr>m_address := Some [0, 3, 3, 3, 3]\<rparr>) demo_broker quiet_world = Inr ((0, demo_broker), quiet_world)"
proof (rule s_process_unknown_ignored)
  show "msg_addr2key (m_address (demo_request\<lparr>m_address := Some [0, 3, 3, 3, 3]\<rparr>)) = Inr 0x03030303"
    by (simp add: msg_addr2key_def mem_read_def)
qed (use demo_request_ok in \<open>simp_all add: well_received_def valid_message_def data_length_def data_of_def demo_broker_def
    demo_request_def msg_ids\<close>)

text \<open>
  C25. Connecting: the first message of a new worker is refused when the table is full, refused when
  its name is in use, and otherwise registers the worker under its key, free, with its name and
  directionality, and answers with CONNECT_INDICATION. Exactly one message goes back to the sender.
\<close>

theorem s_process_connect:
  assumes "broker_ok b" "well_received True M" "valid_message M" "plain_names M" "m_id M = JOZA_MSG_CONNECT"
    and "m_address M = Some z" "msg_addr2key (Some z) = Inr k" "map_of (b_workers b) k = None" "reliable w"
  shows "\<exists>b' w'. s_process M b w = Inr ((0, b'), w') \<and> broker_ok b' \<and>
     (if WORKER_COUNT \<le> length (b_workers b)
      then b' = b \<and> zsent w' = zsent w @ wire w z (diagnostic_msg c_network_congestion d_no_connections_available)
      else if \<exists>q W. map_of (b_workers b) q = Some W \<and> wk_address W = m_calling_address M
      then b' = b \<and> zsent w' = zsent w @ wire w z (diagnostic_msg c_address_in_use d_address_in_use)
      else (\<exists>W. b' = b\<lparr>b_workers := ght_insert (b_workers b) k W\<rparr> \<and> wk_address W = m_calling_address M \<and>
             wk_iodir W = unat (m_directionality M) \<and> wk_role W = READY) \<and>
           zsent w' = zsent w @ wire w z (joza_msg_new JOZA_MSG_CONNECT_INDICATION))"
proof -
  have ws: "workers_ok (b_workers b)" "fair_order (b_order b)" using assms(1) by (simp_all add: broker_ok_def)
  obtain n h where n: "m_calling_address M = Some n" "m_host_name M = Some h"
    using assms(2,5) by (auto simp: well_received_def)
  have io: "iodir_validate (unat (m_directionality M))" using assms(3,5) by (simp add: valid_message_def)
  obtain found where found: "workers_table_lookup_by_address (b_order b) (b_workers b) (Some n) = Inr found"
      "case found of None \<Rightarrow> \<forall>k W. map_of (b_workers b) k = Some W \<longrightarrow> wk_address W \<noteq> Some n
       | Some k \<Rightarrow> \<exists>W. map_of (b_workers b) k = Some W \<and> wk_address W = Some n"
    using lookup_by_address [OF ws, of n] by blast
  have used: "(\<exists>q W. map_of (b_workers b) q = Some W \<and> wk_address W = m_calling_address M) \<longleftrightarrow> found \<noteq> None"
    using found(2) n by (cases found) auto
  have key: "msg_addr2key (m_address M) = Inr k" using assms(6,7) by simp
  note def = s_process_valid [OF assms(2,3) key] assms(5,6,8) s_process_msg_from_unknown_worker_def msg_getters
    workers_table_is_full_def n found(1) bind_io_def
  have send: "joza_msg_send_addr_connect_indication (Some z) v =
      Inr (0, v\<lparr>zsent := zsent v @ wire v z (joza_msg_new JOZA_MSG_CONNECT_INDICATION)\<rparr>)" if "reliable v" for v
    using that by (intro connect_indication_sender.delivers) (auto simp: reliable_def)
  have ok: "broker_ok b'" if "s_process M b w = Inr ((0, b'), w')" for b' w'
    using s_process_outcome [OF assms(1,2,4), of w] that by (simp add: outcome_def)
  have "\<exists>b' w'. s_process M b w = Inr ((0, b'), w') \<and>
     (if WORKER_COUNT \<le> length (b_workers b)
      then b' = b \<and> zsent w' = zsent w @ wire w z (diagnostic_msg c_network_congestion d_no_connections_available)
      else if found \<noteq> None
      then b' = b \<and> zsent w' = zsent w @ wire w z (diagnostic_msg c_address_in_use d_address_in_use)
      else (\<exists>W. b' = b\<lparr>b_workers := ght_insert (b_workers b) k W\<rparr> \<and> wk_address W = m_calling_address M \<and>
             wk_iodir W = unat (m_directionality M) \<and> wk_role W = READY) \<and>
           zsent w' = zsent w @ wire w z (joza_msg_new JOZA_MSG_CONNECT_INDICATION))"
  proof (cases "length (b_workers b) < WORKER_COUNT \<and> found = None")
    case False
    then show ?thesis by (auto simp: def diagnostic_reliable [OF assms(9)])
  next
    case True
    then show ?thesis
      using assms(7,9) io n
      by (auto simp: def workers_table_add_new_worker_def worker_create_def worker_update_atime_def
          g_get_monotonic_time_def iodir_name_ok send)
  qed
  then show ?thesis using ok unfolding used by blast
qed

definition demo_connect :: joza_msg where
  "demo_connect = (joza_msg_new JOZA_MSG_CONNECT)\<lparr>m_address := Some [0, 3, 3, 3, 3], m_protocol := Some (lit ''~SVC''),
     m_version := JOZA_MSG_VERSION, m_calling_address := Some (lit ''CAROL''), m_host_name := Some (lit ''localhost''),
     m_directionality := 0\<rparr>"

lemma demo_connect_ok: "well_received True demo_connect" "valid_message demo_connect" "plain_names demo_connect"
  by (simp_all add: demo_connect_def well_received_def valid_message_def msg_ids wire_string_def lit_def
      STRING_MAX_def valid_name_def NAME_LEN_def val_init_def val_mid_def isalnum_def plain_names_def
      iodir_validate_iff joza_msg_new_def)

theorem s_process_connect_witness:
  "\<exists>b' w'. s_process demo_connect demo_broker quiet_world = Inr ((0, b'), w') \<and> broker_ok b' \<and>
     length (b_workers b') = 3 \<and>
     zsent w' = wire quiet_world [0, 3, 3, 3, 3] (joza_msg_new JOZA_MSG_CONNECT_INDICATION)"
proof -
  have m: "m_id demo_connect = JOZA_MSG_CONNECT" "m_address demo_connect = Some [0, 3, 3, 3, 3]"
      "msg_addr2key (Some [0, 3, 3, 3, 3]) = Inr 0x03030303" "map_of (b_workers demo_broker) 0x03030303 = None"
    by (simp_all add: demo_connect_def msg_addr2key_def mem_read_def demo_broker_def)
  have room: "\<not> WORKER_COUNT \<le> length (b_workers demo_broker)"
    by (simp add: demo_broker_def WORKER_COUNT_def)
  have unused: "\<not> (\<exists>q W. map_of (b_workers demo_broker) q = Some W \<and> wk_address W = m_calling_address demo_connect)"
    by (auto simp: demo_broker_def demo_worker_def demo_connect_def lit_def split: if_splits)
  obtain b' w' W where "s_process demo_connect demo_broker quiet_world = Inr ((0, b'), w')" "broker_ok b'"
      "b' = demo_broker\<lparr>b_workers := ght_insert (b_workers demo_broker) 0x03030303 W\<rparr>"
      "zsent w' = zsent quiet_world @ wire quiet_world [0, 3, 3, 3, 3] (joza_msg_new JOZA_MSG_CONNECT_INDICATION)"
    using s_process_connect [OF demo_broker_ok demo_connect_ok m quiet_reliable] unfolding if_not_P [OF room] if_not_P [OF unused]
    by blast
  then show ?thesis by (simp add: demo_broker_def ght_insert_def quiet_world_def)
qed

text \<open>
  C4. The data path from end to end: DATA from a worker that is the caller of a call in data transfer,
  when it passes the checks of the channel, reaches the callee of the channel as one DATA message
  with the same contents. Nothing else is sent, and the worker's time of access is renewed.
\<close>

theorem s_process_forwards_data:
  assumes "broker_ok b" "well_received True M" "valid_message M" "m_id M = JOZA_MSG_DATA" "msg_addr2key (m_address M) = Inr k"
    and "map_of (b_workers b) k = Some W" "wk_role W = X_CALLER" "has_peer b k"
    and "map_of (b_channels b) LCN_MIN = Some c" "ch_state c = state_data_transfer" "ch_yzaddr c = Some zy" "reliable w"
    and "data_verdict M (ch_pkt c) (ch_window c) (ch_xps c) (ch_xpr c) (ch_yps c) (ch_ypr c) = None"
  shows "\<exists>b' w'. s_process M b w = Inr ((0, b'), w') \<and> zsent w' = zsent w @ wire w zy (data_msg M) \<and>
     map_of (b_workers b') k = Some (W\<lparr>wk_atime := gclock w (gtick w)\<rparr>) \<and>
     (\<exists>c'. map_of (b_channels b') LCN_MIN = Some c' \<and> ch_xps c' = next_seq (ch_xps c) \<and> ch_xpr c' = m_pr M \<and>
        ch_state c' = state_data_transfer)"
proof -
  let ?b = "modify_worker k (\<lambda>_. W\<lparr>wk_atime := gclock w (gtick w)\<rparr>) b" and ?w = "w\<lparr>gtick := Suc (gtick w)\<rparr>"
  let ?W = "W\<lparr>wk_atime := gclock w (gtick w)\<rparr>"
  note acc = broker_ok_access [OF assms(1,6), of "gclock w (gtick w)"]
  have co: "channel_ok c" using assms(1,9) channels_okD by (auto simp: broker_ok_def)
  obtain d where d: "m_data M = Some d" using assms(2,4) by (auto simp: well_received_def)
  obtain zx where zx: "ch_xzaddr c = Some zx" using co by (auto simp: channel_ok_def)
  have "zrouter ?w" "\<And>h x. zfail ?w h x = None" using assms(12) by (simp_all add: reliableD)
  from channel_x_data [OF co assms(10,4) d zx assms(11) this] assms(13)
  have disp: "channel_dispatch c M False ?w =
      Inr ((state_data_transfer, c\<lparr>ch_mtime := gclock w (gtick ?w), ch_xps := next_seq (ch_xps c), ch_xpr := m_pr M\<rparr>),
        ?w\<lparr>gtick := Suc (gtick ?w), zsent := zsent w @ wire w zy (data_msg M)\<rparr>)" by simp
  have other: "workers_table_lookup_other (b_order ?b) (b_workers ?b) k ?W \<noteq> None"
    using lookup_other_peer [OF acc(1,3)] has_peer_access [OF assms(6)] assms(8) by blast
  have lcn: "wk_lcn W = LCN_MIN" using in_call(1) [OF assms(1,6)] assms(7) by simp
  show ?thesis
    using other disp assms(6,7,9)
    by (auto simp: s_process_valid [OF assms(2,3,5)] known_worker_step [OF assms(6)] bind_io_def
        s_process_msg_from_connected_worker_def deref_worker_Some [OF acc(3)] worker_get_lcn_def lcn
        channels_table_lookup_by_lcn_def worker_is_x_caller_def channel_is_closed_def assms(10) map_of_ght_modify Let_def acc(3))
qed

definition demo_in_call :: broker where
  "demo_in_call = demo_broker\<lparr>b_workers := [(0x01010101, demo_worker 1 ''ALICE'' X_CALLER 1), (0x02020202, demo_worker 2 ''BOB'' Y_CALLEE 1)],
     b_channels := [(1, demo_open)]\<rparr>"

definition demo_packet :: joza_msg where
  "demo_packet = demo_data\<lparr>m_address := Some [0, 1, 1, 1, 1]\<rparr>"

lemma demo_in_call_ok: "broker_ok demo_in_call"
proof -
  have "worker_ok 0x01010101 (demo_worker 1 ''ALICE'' X_CALLER 1)" "worker_ok 0x02020202 (demo_worker 2 ''BOB'' Y_CALLEE 1)"
    by (simp_all add: worker_ok_def demo_worker_def demo_keys plain_string_def lit_def STRING_MAX_def iodir_validate_iff
        io_bidirectional_def)
  moreover have "channel_ok demo_open" "flow_ok demo_open" "live_state (ch_state demo_open)" "ch_lcn demo_open = 1"
    using demo_open_ok by (simp_all add: flow_ok_def live_state_def demo_open_def demo_channel_def)
  ultimately show ?thesis
    by (auto simp: broker_ok_def demo_in_call_def demo_broker_def fair_order_def workers_ok_def channels_ok_def calls_ok_def
        table_inv_def WORKER_COUNT_def LCN_MIN_def demo_worker_def lit_def split: if_splits)
qed

lemma demo_packet_ok: "well_received True demo_packet" "valid_message demo_packet"
  by (simp_all add: demo_packet_def demo_data_def well_received_def valid_message_def msg_ids data_length_def data_of_def
      joza_msg_new_def)

lemma demo_peer: "has_peer demo_in_call 0x01010101"
  unfolding has_peer_def
  by (intro exI [of _ "demo_worker 1 ''ALICE'' X_CALLER 1"] exI [of _ "0x02020202"] exI [of _ "demo_worker 2 ''BOB'' Y_CALLEE 1"])
    (simp add: demo_in_call_def demo_worker_def)

theorem s_process_forwards_data_witness:
  "\<exists>b' w'. s_process demo_packet demo_in_call quiet_world = Inr ((0, b'), w') \<and>
     zsent w' = wire quiet_world [0, 2, 2, 2, 2] (data_msg demo_packet)"
proof -
  have m: "m_id demo_packet = JOZA_MSG_DATA" "msg_addr2key (m_address demo_packet) = Inr 0x01010101"
      "map_of (b_workers demo_in_call) 0x01010101 = Some (demo_worker 1 ''ALICE'' X_CALLER 1)"
      "wk_role (demo_worker 1 ''ALICE'' X_CALLER 1) = X_CALLER"
    by (simp_all add: demo_packet_def demo_data_def demo_keys demo_in_call_def demo_worker_def)
  have c: "map_of (b_channels demo_in_call) LCN_MIN = Some demo_open" "ch_state demo_open = state_data_transfer"
      "ch_yzaddr demo_open = Some [0, 2, 2, 2, 2]"
    by (simp_all add: demo_in_call_def LCN_MIN_def demo_open_def demo_channel_def)
  have "data_verdict demo_packet (ch_pkt demo_open) (ch_window demo_open) (ch_xps demo_open) (ch_xpr demo_open)
     (ch_yps demo_open) (ch_ypr demo_open) = None"
    using demo_verdict by (simp add: data_verdict_def demo_packet_def split: if_splits)
  from s_process_forwards_data [OF demo_in_call_ok demo_packet_ok m demo_peer c quiet_reliable this]
  show ?thesis by (auto simp: quiet_world_def)
qed

section \<open>What stops the broker\<close>

text \<open>
  C30. Hanging up is undefined: DISCONNECT from a worker in a call, while the other end is registered,
  closes the channel, and the broker then passes the channel where \<^verbatim>\<open>s_remove_channel\<close> expects a worker.
\<close>

theorem s_process_hang_up:
  assumes "broker_ok b" "well_received True M" "m_id M = JOZA_MSG_DISCONNECT" "msg_addr2key (m_address M) = Inr k"
    and "map_of (b_workers b) k = Some W" "wk_role W \<noteq> READY" "has_peer b k"
  shows "s_process M b w = Inl Undefined"
proof -
  let ?t = "gclock w (gtick w)"
  have "valid_message M" using assms(3) by (simp add: valid_message_def msg_ids)
  note acc = broker_ok_access [OF assms(1,5), of ?t]
  have "workers_table_lookup_other (b_order b) (b_workers (modify_worker k (\<lambda>_. W\<lparr>wk_atime := ?t\<rparr>) b)) k (W\<lparr>wk_atime := ?t\<rparr>) \<noteq> None"
    using lookup_other_peer [OF acc(1,3)] has_peer_access [OF assms(5)] assms(7) by simp
  then have "s_process_msg_from_connected_worker k M (modify_worker k (\<lambda>_. W\<lparr>wk_atime := ?t\<rparr>) b) v = Inl Undefined" for v
    using hang_up [OF acc(1,3) _ assms(3)] assms(6) by simp
  then show ?thesis
    using assms(5,6)
    by (simp add: s_process_valid [OF assms(2) \<open>valid_message M\<close> assms(4)] known_worker_step [OF assms(5)] bind_io_def)
qed

theorem s_process_hang_up_witness:
  "s_process ((joza_msg_new JOZA_MSG_DISCONNECT)\<lparr>m_address := Some [0, 1, 1, 1, 1]\<rparr>) demo_in_call quiet_world = Inl Undefined"
proof (rule s_process_hang_up [OF demo_in_call_ok])
  show "map_of (b_workers demo_in_call) 0x01010101 = Some (demo_worker 1 ''ALICE'' X_CALLER 1)"
    by (simp add: demo_in_call_def)
  show "has_peer demo_in_call 0x01010101" by (rule demo_peer)
qed (simp_all add: well_received_def msg_ids demo_keys demo_worker_def)

text \<open>
  C31. A directory request is undefined: the strings of the directory are freed as they are entered,
  and copying the table for the answer reads them. Since the sender itself is registered, there is
  always at least one.
\<close>

theorem s_process_directory:
  assumes "broker_ok b" "well_received True M" "m_id M = JOZA_MSG_DIRECTORY_REQUEST" "msg_addr2key (m_address M) = Inr k"
    and "map_of (b_workers b) k = Some W" "wk_role W = READY" "\<not> b_shutdown b"
  shows "s_process M b w = Inl Undefined"
proof -
  let ?t = "gclock w (gtick w)"
  have "valid_message M" using assms(3) by (simp add: valid_message_def msg_ids)
  note acc = broker_ok_access [OF assms(1,5), of ?t]
  have "m_address M \<noteq> None" using assms(2) by (simp add: well_received_def)
  from directory_undefined [OF acc(1,3) this]
  show ?thesis
    using assms(3,5,6,7)
    by (simp add: s_process_valid [OF assms(2) \<open>valid_message M\<close> assms(4)] known_worker_step [OF assms(5)] bind_io_def
        s_process_msg_from_unconnected_worker_def msg_getters msg_ids)
qed

theorem s_process_directory_witness:
  "s_process ((joza_msg_new JOZA_MSG_DIRECTORY_REQUEST)\<lparr>m_address := Some [0, 1, 1, 1, 1]\<rparr>) demo_broker quiet_world = Inl Undefined"
proof (rule s_process_directory [OF demo_broker_ok])
  show "map_of (b_workers demo_broker) 0x01010101 = Some (demo_worker 1 ''ALICE'' READY 0)"
    by (simp add: demo_broker_def)
qed (simp_all add: well_received_def msg_ids demo_keys demo_worker_def demo_broker_def)

text \<open>
  C32. The search for a free channel number is no search: it compares the keys of the table with the
  address of its parameter. When that address is no key, as for any address beyond 65535, the number
  it was given is returned, in use or not; otherwise the loop never ends.
\<close>

theorem find_free_lcn_spec:
  "channels_table_find_free_lcn addr t lcn = (if addr \<in> unat ` dom (map_of t) then None else Some lcn)"
  using find_free_lcn_returns [of addr t lcn] find_free_lcn_diverges [of addr t lcn] by simp

text \<open>
  C33. A second call takes over the channel of the first: setting up a call leaves a single channel,
  between the new caller and the new callee, and every other worker in a call keeps its role
  and the number of that channel. What they send is now handled by the channel of others.
\<close>

theorem call_takes_over_channel:
  assumes "broker_ok b" "map_of (b_workers b) p = Some W" "map_of (b_workers b) q = Some V"
    and "well_received True M" "valid_message M" "plain_names M" "m_id M = JOZA_MSG_CALL_REQUEST"
    and "place_call p W q V M b w = Inr (b', w')"
  shows "\<exists>c. b_channels b' = [(LCN_MIN, c)] \<and> ch_xname c = wk_address W \<and> ch_yname c = wk_address V \<and>
     (\<forall>k U. map_of (b_workers b) k = Some U \<longrightarrow> wk_role U \<noteq> READY \<longrightarrow> k \<noteq> p \<longrightarrow> k \<noteq> q \<longrightarrow>
        map_of (b_workers b') k = Some U \<and> wk_lcn U = LCN_MIN)"
proof -
  let ?P = "\<lambda>b'. \<exists>c. b' = placed_call p q c b \<and> ch_xname c = wk_address W \<and> ch_yname c = wk_address V"
  have "outcome (place_call p W q V M b) w (no_free_number b) ?P"
    by (rule place_call_outcome [OF assms(1-7)]) blast
  then obtain c where c: "b' = placed_call p q c b" "ch_xname c = wk_address W" "ch_yname c = wk_address V"
    using assms(8) by (auto simp: outcome_def)
  have "\<forall>e \<in> set (b_channels b). fst e = LCN_MIN"
    using assms(1) table_inv_map_of [of "b_channels b"] by (force simp: broker_ok_def channels_ok_def)
  then have "filter (\<lambda>e. fst e \<noteq> LCN_MIN) (b_channels b) = []" by (simp add: filter_empty_conv)
  then have "b_channels b' = [(LCN_MIN, c)]" by (simp add: c(1) placed_call_def ght_insert_def)
  moreover have "map_of (b_workers b') k = Some U \<and> wk_lcn U = LCN_MIN"
    if "map_of (b_workers b) k = Some U" "wk_role U \<noteq> READY" "k \<noteq> p" "k \<noteq> q" for k U
    using that in_call(1) [OF assms(1) that(1,2)] by (simp add: c(1) placed_call_def map_of_ght_modify)
  ultimately show ?thesis using c(2,3) by blast
qed

definition demo_carol :: worker where "demo_carol = demo_worker 3 ''CAROL'' READY 0"
definition demo_dave :: worker where "demo_dave = demo_worker 4 ''DAVE'' READY 0"

definition demo_four :: broker where
  "demo_four = demo_in_call\<lparr>b_workers := b_workers demo_in_call @ [(0x03030303, demo_carol), (0x04040404, demo_dave)]\<rparr>"

lemma demo_four_ok: "broker_ok demo_four"
proof -
  have "worker_ok 0x01010101 (demo_worker 1 ''ALICE'' X_CALLER 1)" "worker_ok 0x02020202 (demo_worker 2 ''BOB'' Y_CALLEE 1)"
      "worker_ok 0x03030303 demo_carol" "worker_ok 0x04040404 demo_dave"
    by (simp_all add: worker_ok_def demo_carol_def demo_dave_def demo_worker_def msg_addr2key_def mem_read_def plain_string_def
        lit_def STRING_MAX_def iodir_validate_iff io_bidirectional_def)
  moreover have "channel_ok demo_open" "flow_ok demo_open" "live_state (ch_state demo_open)" "ch_lcn demo_open = 1"
    using demo_open_ok by (simp_all add: flow_ok_def live_state_def demo_open_def demo_channel_def)
  ultimately show ?thesis
    by (auto simp: broker_ok_def demo_four_def demo_in_call_def demo_broker_def fair_order_def workers_ok_def channels_ok_def
        calls_ok_def table_inv_def WORKER_COUNT_def LCN_MIN_def demo_carol_def demo_dave_def demo_worker_def lit_def
        split: if_splits)
qed

lemma demo_four_workers:
  "map_of (b_workers demo_four) 0x03030303 = Some demo_carol" "map_of (b_workers demo_four) 0x04040404 = Some demo_dave"
  "map_of (b_workers demo_four) 0x01010101 = Some (demo_worker 1 ''ALICE'' X_CALLER 1)"
  by (simp_all add: demo_four_def demo_in_call_def)

lemma demo_four_addr: "b_addr demo_four \<notin> unat ` dom (map_of (b_channels demo_four))"
  by (auto simp: demo_four_def demo_in_call_def demo_broker_def)

theorem call_takes_over_channel_witness:
  "\<exists>b' w' c. place_call 0x03030303 demo_carol 0x04040404 demo_dave demo_request demo_four quiet_world = Inr (b', w') \<and>
     b_channels demo_four = [(LCN_MIN, demo_open)] \<and> b_channels b' = [(LCN_MIN, c)] \<and> ch_xname c = wk_address demo_carol \<and>
     map_of (b_workers b') 0x01010101 = Some (demo_worker 1 ''ALICE'' X_CALLER 1)"
proof -
  have i: "m_id demo_request = JOZA_MSG_CALL_REQUEST" by (simp add: demo_request_def)
  note facts = demo_four_ok demo_four_workers(1,2) demo_request_ok i
  obtain b' w' where r: "place_call 0x03030303 demo_carol 0x04040404 demo_dave demo_request demo_four quiet_world = Inr (b', w')"
    using place_call_outcome [OF facts, where P = "\<lambda>_. True"] demo_four_addr
    by (force simp: outcome_def no_free_number_def split: sum.splits)
  have "wk_role (demo_worker 1 ''ALICE'' X_CALLER 1) \<noteq> READY" by (simp add: demo_worker_def)
  then have "\<exists>c. b_channels b' = [(LCN_MIN, c)] \<and> ch_xname c = wk_address demo_carol \<and>
      map_of (b_workers b') 0x01010101 = Some (demo_worker 1 ''ALICE'' X_CALLER 1)"
    using call_takes_over_channel [OF facts r] demo_four_workers(3) by fastforce
  moreover have "b_channels demo_four = [(LCN_MIN, demo_open)]" by (simp add: demo_four_def demo_in_call_def LCN_MIN_def)
  ultimately show ?thesis using r by blast
qed

text \<open>
  A callee that is in a call can be called: the broker asks whether the caller, not the callee, is
  available. For a caller without a call the answer is yes, so that number busy is never reported.
\<close>

theorem callee_role_ignored:
  assumes "broker_ok b" "map_of (b_workers b) p = Some W" "wk_role W = READY" "worker_is_allowed_incoming_call W"
    and "map_of (b_workers b) q = Some V" "wk_address V = m_called_address M" "worker_is_allowed_incoming_call V"
  shows "s_process_call_request_from_unconnected_worker p M b = place_call p W q V M b"
proof -
  have ws: "workers_ok (b_workers b)" "fair_order (b_order b)" "channels_ok (b_channels b)"
    using assms(1) by (simp_all add: broker_ok_def)
  obtain n where n: "wk_address V = Some n" using workers_ok_worker [OF ws(1) assms(5)] by (auto simp: worker_ok_def)
  obtain found where found: "workers_table_lookup_by_address (b_order b) (b_workers b) (Some n) = Inr found"
      "case found of None \<Rightarrow> \<forall>k W. map_of (b_workers b) k = Some W \<longrightarrow> wk_address W \<noteq> Some n
       | Some k \<Rightarrow> \<exists>W. map_of (b_workers b) k = Some W \<and> wk_address W = Some n"
    using lookup_by_address [OF ws(1,2), of n] by blast
  have "found = Some q"
  proof (cases found)
    case None
    then show ?thesis using found(2) n assms(5) by simp
  next
    case (Some k)
    then obtain U where "map_of (b_workers b) k = Some U" "wk_address V = wk_address U" using found(2) n by auto
    then show ?thesis using workers_ok_name [OF ws(1) assms(5)] Some by blast
  qed
  then show ?thesis
    using assms(3,4,6,7) n found(1)
    by (simp add: s_process_call_request_from_unconnected_worker_def deref_worker_Some [OF assms(2)]
        deref_worker_Some [OF assms(5)] channels_never_full [OF ws(3)] msg_getters
        worker_is_available_for_call_def worker_is_allowed_outgoing_call_def worker_is_allowed_incoming_call_def)
qed

theorem callee_role_ignored_witness:
  "wk_role (demo_worker 1 ''ALICE'' X_CALLER 1) = X_CALLER \<and>
   s_process_call_request_from_unconnected_worker 0x03030303 (demo_request\<lparr>m_called_address := Some (lit ''ALICE'')\<rparr>) demo_four =
     place_call 0x03030303 demo_carol 0x01010101 (demo_worker 1 ''ALICE'' X_CALLER 1)
       (demo_request\<lparr>m_called_address := Some (lit ''ALICE'')\<rparr>) demo_four"
proof (intro conjI)
  show "s_process_call_request_from_unconnected_worker 0x03030303 (demo_request\<lparr>m_called_address := Some (lit ''ALICE'')\<rparr>) demo_four =
     place_call 0x03030303 demo_carol 0x01010101 (demo_worker 1 ''ALICE'' X_CALLER 1)
       (demo_request\<lparr>m_called_address := Some (lit ''ALICE'')\<rparr>) demo_four"
    by (rule callee_role_ignored [OF demo_four_ok demo_four_workers(1) _ _ demo_four_workers(3)])
      (simp_all add: demo_carol_def demo_worker_def worker_is_allowed_incoming_call_def iodir_incoming_calls_allowed_def)
qed (simp add: demo_worker_def)

text \<open>
  Names are used as formats: \<^verbatim>\<open>%\<close> is allowed in a name, and a call whose calling name holds a
  conversion makes the broker format it without arguments, which is undefined.
\<close>

theorem call_name_is_format:
  assumes "b_addr b \<notin> unat ` dom (map_of (b_channels b))" "valid_message M" "m_id M = JOZA_MSG_CALL_REQUEST"
    and "m_calling_address M = Some s" "format0 s = Inl Undefined"
  shows "place_call p W q V M b w = Inl Undefined"
proof -
  have "packet_rngchk (unat (m_packet M)) = 0" "tput_rngchk (unat (m_throughput M)) = 0"
    using assms(2,3) by (simp_all add: valid_message_def)
  then obtain n m where "packet_bytes (unat (m_packet M)) = Inr n" "tput_bps (unat (m_throughput M)) = Inr m"
    by (auto simp: packet_bytes_def tput_bps_def)
  then show ?thesis
    using assms(4,5)
    by (simp add: place_call_def find_free_lcn_returns [OF assms(1)] channels_table_add_new_channel_def channel_create_def
        g_get_monotonic_time_def bind_io_def msg_getters joza_msg_send_addr_call_request_def
        joza_msg_set_calling_address_def vsnprintf_def Let_def)
qed

theorem call_name_is_format_witness:
  "valid_name (Some (lit ''A%s'')) \<and>
   place_call 0x03030303 demo_carol 0x04040404 demo_dave (demo_request\<lparr>m_calling_address := Some (lit ''A%s'')\<rparr>) demo_four quiet_world =
     Inl Undefined"
proof (intro conjI)
  show n: "valid_name (Some (lit ''A%s''))"
    by (simp add: valid_name_def lit_def NAME_LEN_def val_init_def val_mid_def isalnum_def p_mid_def)
  show "place_call 0x03030303 demo_carol 0x04040404 demo_dave (demo_request\<lparr>m_calling_address := Some (lit ''A%s'')\<rparr>) demo_four
      quiet_world = Inl Undefined"
  proof (rule call_name_is_format [OF demo_four_addr])
    show "valid_message (demo_request\<lparr>m_calling_address := Some (lit ''A%s'')\<rparr>)"
      using demo_request_ok(2) n by (simp add: valid_message_def data_length_def data_of_def demo_request_def)
    show "format0 (lit ''A%s'') = Inl Undefined" by (simp add: lit_def)
  qed (simp_all add: demo_request_def)
qed

section \<open>The timer\<close>

text \<open>
  C28. The timer: unless a worker in a call is overdue, the visit of the workers returns. Exactly the
  workers that were silent for more than 30 seconds at the time of their visit are gone, the channels are
  as they were, and the invariant holds.
\<close>

theorem s_ping_correct:
  assumes "broker_ok b" "filter (busy_due b w) (visits b w) = []" "\<not> b_shutdown b"
  shows "\<exists>b' w'. s_ping b w = Inr (Continue 0 b', w') \<and> broker_ok b' \<and> b_channels b' = b_channels b \<and>
     (\<forall>k. map_of (b_workers b') k = None \<longleftrightarrow> map_of (b_workers b) k = None \<or>
        (\<exists>n W. (n, k) \<in> set (visits b w) \<and> map_of (b_workers b) k = Some W \<and>
           (gclock w n - wk_atime W) sdiv 1000 > POLL_WORKER_REMOVAL_TIMEOUT))"
proof -
  obtain b' w' where r: "s_ping b w = Inr (Continue 0 b', w')" "broker_ok b'" "b_channels b' = b_channels b"
      "\<forall>k. map_of (b_workers b') k =
        (if k \<in> snd ` set (filter (due b w) (visits b w)) then None else map_of (b_workers b) k)"
    using s_ping_run [OF assms(1,2)] assms(3) by auto
  have "k \<in> snd ` set (filter (due b w) (visits b w)) \<longleftrightarrow>
      (\<exists>n W. (n, k) \<in> set (visits b w) \<and> map_of (b_workers b) k = Some W \<and>
         (gclock w n - wk_atime W) sdiv 1000 > POLL_WORKER_REMOVAL_TIMEOUT)" for k
    using assms(3) by (force simp: due_def expired_def)
  then show ?thesis using r by auto
qed

theorem s_ping_correct_witness:
  "\<exists>b' w'. s_ping demo_broker quiet_world = Inr (Continue 0 b', w') \<and> broker_ok b' \<and> b_channels b' = []"
proof -
  have "wk_role W = READY" if "map_of (b_workers demo_broker) k = Some W" for k W
    using that by (auto simp: demo_broker_def demo_worker_def split: if_splits)
  then have "filter (busy_due demo_broker quiet_world) (visits demo_broker quiet_world) = []"
    by (auto simp: filter_empty_conv busy_due_def)
  moreover have "\<not> b_shutdown demo_broker" "b_channels demo_broker = []" by (simp_all add: demo_broker_def)
  ultimately show ?thesis using s_ping_correct [OF demo_broker_ok] by metis
qed

text \<open>
  C29. Shutting down: after the signal, when no worker is in a call, the next timer event ends the
  broker with exit code 1. A worker in a call makes that event undefined instead.
\<close>

theorem s_ping_shutdown:
  assumes "broker_ok b"
  shows "(if \<forall>k W. map_of (b_workers b) k = Some W \<longrightarrow> wk_role W = READY
      then \<exists>w'. s_ping (catch_signal b) w = Inr (Exit 1, w')
      else s_ping (catch_signal b) w = Inl Undefined)"
proof -
  let ?b = "catch_signal b"
  have ok: "broker_ok ?b" "b_shutdown ?b" "b_workers ?b = b_workers b"
    using assms by (simp_all add: broker_ok_def catch_signal_def)
  show ?thesis
  proof (cases "\<forall>k W. map_of (b_workers b) k = Some W \<longrightarrow> wk_role W = READY")
    case True
    then have "filter (busy_due ?b w) (visits ?b w) = []"
      by (auto simp: filter_empty_conv busy_due_def ok(3))
    then show ?thesis using s_ping_run [OF ok(1)] ok(2) True by auto
  next
    case False
    then obtain k W where k: "map_of (b_workers b) k = Some W" "wk_role W \<noteq> READY" by blast
    then have "k \<in> snd ` set (visits ?b w)"
      using order_keys(2) [OF ok(1)] by (metis domI list.set_map map_snd_enumerate ok(3) visits_def)
    then obtain v where "v \<in> set (visits ?b w)" "snd v = k" by blast
    then have "filter (busy_due ?b w) (visits ?b w) \<noteq> []"
      using k ok by (force simp: filter_empty_conv busy_due_def expired_def)
    then show ?thesis using s_ping_busy [OF ok(1)] False by simp
  qed
qed

theorem s_ping_shutdown_witness:
  "\<not> (\<forall>k W. map_of (b_workers demo_in_call) k = Some W \<longrightarrow> wk_role W = READY) \<and>
   s_ping (catch_signal demo_in_call) quiet_world = Inl Undefined"
proof -
  have busy: "\<not> (\<forall>k W. map_of (b_workers demo_in_call) k = Some W \<longrightarrow> wk_role W = READY)"
    by (auto simp: demo_in_call_def demo_worker_def intro!: exI [of _ "0x01010101"])
  then show ?thesis using s_ping_shutdown [OF demo_in_call_ok, of quiet_world] by (simp only: if_False simp_thms)
qed

section \<open>The table of workers\<close>

text \<open>
  A worker that is added can be looked up and removed: it is found under its key with the name,
  address and directionality it was given, free and without a channel; every other key finds
  what it found before; the table grows by one when the key is new; and removal undoes the addition.
\<close>

theorem worker_registration:
  assumes "table_inv t" "workers_table_lookup_by_key t key = None"
    and "workers_table_add_new_worker t key z a h io w = Inr (t', w')"
  shows "table_inv t' \<and> length t' = Suc (length t) \<and>
     (\<exists>W. workers_table_lookup_by_key t' key = Some W \<and> wk_address W = a \<and> wk_zaddr W = z \<and> wk_iodir W = io \<and>
        wk_role W = READY \<and> wk_lcn W = 0) \<and>
     (\<forall>k. k \<noteq> key \<longrightarrow> workers_table_lookup_by_key t' k = workers_table_lookup_by_key t k) \<and>
     (\<forall>k. workers_table_lookup_by_key (workers_table_remove_by_key t' key) k = workers_table_lookup_by_key t k)"
proof -
  obtain W where W: "t' = ght_insert t key W" "wk_address W = a" "wk_zaddr W = z" "wk_iodir W = io" "wk_role W = READY" "wk_lcn W = 0"
    using assms(3)
    by (auto simp: workers_table_add_new_worker_def worker_create_def worker_update_atime_def g_get_monotonic_time_def
        bind_io_Inr bind_res_Inr split: prod.splits)
  show ?thesis
    using W assms(1,2) workers.inv_insert workers.insert_new_size
    by (auto simp: workers.lookup_insert workers.lookup_remove)
qed

theorem worker_registration_witness:
  "\<exists>t' w' W. workers_table_add_new_worker [] 0x03030303 (Some [0, 3, 3, 3, 3]) (Some (lit ''CAROL'')) None 0 quiet_world = Inr (t', w') \<and>
     length t' = 1 \<and> workers_table_lookup_by_key t' 0x03030303 = Some W \<and> wk_address W = Some (lit ''CAROL'')"
proof -
  have e: "table_inv ([] :: workers_table_t)" "workers_table_lookup_by_key [] 0x03030303 = None"
    by (simp_all add: table_inv_def workers_table_lookup_by_key_def)
  obtain t' w' where r:
    "workers_table_add_new_worker [] 0x03030303 (Some [0, 3, 3, 3, 3]) (Some (lit ''CAROL'')) None 0 quiet_world = Inr (t', w')"
    by (simp add: workers_table_add_new_worker_def worker_create_def worker_update_atime_def g_get_monotonic_time_def
        bind_io_def iodir_name_ok iodir_validate_iff msg_addr2key_def mem_read_def)
  from worker_registration [OF e r] show ?thesis using r by auto
qed

end
